(* ===== verification/Prelude.thy ===== *)
theory Prelude
  imports Main
begin

text \<open>
  Shared material of the development: the result type of operations that raise, the
  collections of facts the component proofs use, and the generic lemmas on association
  by key in lists (the tables of the database) that several components share.
\<close>

section \<open>Results of operations that may raise\<close>

text \<open>
  A Python function that raises an exception carrying a code is modelled by a value
  of \<open>'e + 'a\<close>: \<open>Inl\<close> is the raise, \<open>Inr\<close> the return.
\<close>

type_synonym ('e, 'a) result = "'e + 'a"

abbreviation raise :: "'e \<Rightarrow> ('e, 'a) result" where
  "raise e \<equiv> Inl e"

abbreviation return :: "'a \<Rightarrow> ('e, 'a) result" where
  "return a \<equiv> Inr a"

definition andthen :: "('e, 'a) result \<Rightarrow> ('a \<Rightarrow> ('e, 'b) result) \<Rightarrow> ('e, 'b) result" where
  "andthen r k = (case r of Inl e \<Rightarrow> Inl e | Inr a \<Rightarrow> k a)"

lemma andthen_simps [simp]:
  "andthen (Inl e) k = Inl e"
  "andthen (Inr a) k = k a"
  by (simp_all add: andthen_def)

lemma andthen_Inr_iff:
  "andthen r k = Inr b \<longleftrightarrow> (\<exists>a. r = Inr a \<and> k a = Inr b)"
  by (cases r) auto

section \<open>Collections of facts\<close>

named_theorems frame \<comment> \<open>fields an operation does not write\<close>
named_theorems float_intro \<comment> \<open>signs and orderings of rounded arithmetic\<close>

section \<open>Rows selected and rewritten in a table\<close>

text \<open>
  A table is a list of rows in order of insertion. \<open>find\<close> is SQLAlchemy's
  \<open>db.scalar(select ... where ...)\<close>: the first matching row, or nothing.
  \<open>map_rows\<close> rewrites the rows a predicate selects, which is what assigning an
  attribute of a loaded row, or an \<open>UPDATE ... WHERE\<close>, does.
\<close>

definition map_rows :: "('r \<Rightarrow> bool) \<Rightarrow> ('r \<Rightarrow> 'r) \<Rightarrow> 'r list \<Rightarrow> 'r list" where
  "map_rows p f rs = map (\<lambda>r. if p r then f r else r) rs"

lemma map_rows_simps [simp]:
  "map_rows p f [] = []"
  "map_rows p f (r # rs) = (if p r then f r else r) # map_rows p f rs"
  by (simp_all add: map_rows_def)

lemma length_map_rows [simp]: "length (map_rows p f rs) = length rs"
  by (simp add: map_rows_def)

lemma map_rows_append [simp]:
  "map_rows p f (rs @ ss) = map_rows p f rs @ map_rows p f ss"
  by (simp add: map_rows_def)

lemma map_rows_none: "(\<And>r. r \<in> set rs \<Longrightarrow> \<not> p r) \<Longrightarrow> map_rows p f rs = rs"
  by (induction rs) auto

lemma map_map_rows:
  assumes "\<And>r. p r \<Longrightarrow> g (f r) = g r"
  shows "map g (map_rows p f rs) = map g rs"
  by (induction rs) (auto simp: assms)

lemma set_map_rows:
  "r \<in> set (map_rows p f rs) \<longleftrightarrow>
     (\<exists>s \<in> set rs. r = (if p s then f s else s))"
  by (auto simp: map_rows_def)

lemma find_map_rows_other:
  assumes "\<And>r. r \<in> set rs \<Longrightarrow> p r \<Longrightarrow> \<not> q r"
    and "\<And>r. p r \<Longrightarrow> \<not> q (f r)"
  shows "find q (map_rows p f rs) = find q rs"
  using assms(1) by (induction rs) (auto dest: assms(2))

lemma find_map_rows_same:
  assumes "\<And>r. q (f r) = q r"
  shows "find q (map_rows q f rs) = map_option f (find q rs)"
  by (induction rs) (auto simp: assms)

lemma find_append:
  "find p (xs @ ys) = (case find p xs of None \<Rightarrow> find p ys | Some x \<Rightarrow> Some x)"
  by (induction xs) auto

lemma find_SomeD: "find p xs = Some x \<Longrightarrow> x \<in> set xs \<and> p x"
  by (induction xs) (auto split: if_splits)

lemma find_NoneD: "find p xs = None \<Longrightarrow> x \<in> set xs \<Longrightarrow> \<not> p x"
  by (induction xs) (auto split: if_splits)

lemma find_None_iff': "find p xs = None \<longleftrightarrow> (\<forall>x \<in> set xs. \<not> p x)"
  by (induction xs) auto

text \<open>Keys that identify a row: at most one row of the table has a given key.\<close>

lemma distinct_map_find:
  assumes "distinct (map k rs)" and "r \<in> set rs"
  shows "find (\<lambda>x. k x = k r) rs = Some r"
  using assms
proof (induction rs)
  case Nil
  then show ?case by simp
next
  case (Cons a rs)
  then show ?case by (cases "a = r") (auto simp: image_iff)
qed

lemma sum_list_map_rows_unique:
  assumes "distinct (map k rs)" and "r \<in> set rs" and "k r = c"
  shows "sum_list (map g (map_rows (\<lambda>x. k x = c) f rs)) =
         sum_list (map g rs) + (g (f r) - (g r :: int))"
  using assms
proof (induction rs)
  case Nil
  then show ?case by simp
next
  case (Cons s rs)
  show ?case
  proof (cases "s = r")
    case True
    with Cons.prems have "\<And>x. x \<in> set rs \<Longrightarrow> k x \<noteq> c" by (auto simp: image_iff)
    then have "map_rows (\<lambda>x. k x = c) f rs = rs" by (simp add: map_rows_none)
    with True Cons.prems show ?thesis by simp
  next
    case False
    with Cons.prems have r: "r \<in> set rs" and d: "distinct (map k rs)" by auto
    from Cons.prems r have "k s \<noteq> c" by force
    with Cons.IH [OF d r Cons.prems(3)] show ?thesis by simp
  qed
qed

section \<open>Prefixes of strings\<close>

text \<open>Python's \<open>s.startswith(p)\<close>.\<close>

fun startswith :: "'a list \<Rightarrow> 'a list \<Rightarrow> bool" where
  "startswith s [] = True"
| "startswith [] (p # ps) = False"
| "startswith (c # s) (p # ps) = (c = p \<and> startswith s ps)"

lemma startswith_iff: "startswith s p \<longleftrightarrow> (\<exists>t. s = p @ t)"
  by (induction s p rule: startswith.induct) auto

lemma startswith_append [simp]: "startswith (p @ t) p"
  by (auto simp: startswith_iff)

lemma startswith_length: "startswith s p \<Longrightarrow> length p \<le> length s"
  by (auto simp: startswith_iff)

lemma startswith_same_length:
  "startswith s p \<Longrightarrow> startswith s q \<Longrightarrow> length p = length q \<Longrightarrow> p = q"
  by (auto simp: startswith_iff)

end
