(* ===== verification/Binary64.thy ===== *)
theory Binary64
  imports Prelude Complex_Main
begin

text \<open>
  Python's \<open>float\<close> is an IEEE 754 binary64 number. A finite float is a rational, and
  each arithmetic operation returns the exact rational result rounded to the nearest
  binary64 number, ties to the even significand. \<open>fl64\<close> is that rounding, with the
  53-bit significand and the subnormal quantum \<open>2 powi (- 1074)\<close>. Infinities and NaN are
  not modelled: the quantities here stay far below \<open>2 powi 1024\<close>.

  The locale \<open>rounding\<close> states what the pricing proofs rely on (monotone, exact on the
  small integers), so that the inequalities about money are proved once from the laws
  and hold for the real rounding by the interpretation at the end.
\<close>

section \<open>Round half to even\<close>

text \<open>\<open>round(x)\<close> of a Python float: the nearest integer, ties to even.\<close>

definition rne :: "rat \<Rightarrow> int" where
  "rne x = (let f = \<lfloor>x\<rfloor>; r = x - of_int f
            in if r < 1/2 then f else if r > 1/2 then f + 1
               else if even f then f else f + 1)"

lemma rne_of_int [simp]: "rne (of_int n) = n"
  by (simp add: rne_def)

lemma rne_0 [simp]: "rne 0 = 0"
  using rne_of_int [of 0] by simp

lemma rne_numeral [simp]: "rne (numeral n) = numeral n"
  using rne_of_int [of "numeral n"] by simp

lemma rne_floor_or_next: "rne x = \<lfloor>x\<rfloor> \<or> rne x = \<lfloor>x\<rfloor> + 1"
  by (simp add: rne_def Let_def)

lemma rne_le: assumes "x \<le> of_int n" shows "rne x \<le> n"
proof (cases "x = of_int n")
  case True
  then show ?thesis by simp
next
  case False
  with assms have "x < of_int n" by simp
  then have "\<lfloor>x\<rfloor> < n" by (simp add: floor_less_iff)
  then show ?thesis using rne_floor_or_next [of x] by linarith
qed

lemma rne_ge: assumes "of_int n \<le> x" shows "n \<le> rne x"
proof -
  from assms have "n \<le> \<lfloor>x\<rfloor>" by (simp add: le_floor_iff)
  then show ?thesis using rne_floor_or_next [of x] by linarith
qed

lemma rne_mono: assumes "x \<le> y" shows "rne x \<le> rne y"
proof (cases "\<lfloor>x\<rfloor> = \<lfloor>y\<rfloor>")
  case True
  with assms show ?thesis by (auto simp: rne_def Let_def)
next
  case False
  with assms have "\<lfloor>x\<rfloor> < \<lfloor>y\<rfloor>" by (meson floor_mono le_neq_trans)
  then show ?thesis using rne_floor_or_next [of x] rne_floor_or_next [of y] by linarith
qed

lemma rne_error: "\<bar>of_int (rne x) - x\<bar> \<le> 1/2"
proof -
  obtain f where f: "f = \<lfloor>x\<rfloor>" by simp
  have "of_int f \<le> x" and "x < of_int f + 1" unfolding f by (rule of_int_floor_le, linarith)
  then show ?thesis by (auto simp: rne_def Let_def abs_if simp flip: f)
qed

lemma rne_minus: "rne (- x) = - rne x"
proof (cases "x = of_int \<lfloor>x\<rfloor>")
  case True
  then have "- x = of_int (- \<lfloor>x\<rfloor>)" by simp
  then have "rne (- x) = - \<lfloor>x\<rfloor>" by (metis rne_of_int)
  moreover from True have "rne x = \<lfloor>x\<rfloor>" by (metis rne_of_int)
  ultimately show ?thesis by simp
next
  case False
  have lo: "of_int \<lfloor>x\<rfloor> \<le> x" and hi: "x < of_int \<lfloor>x\<rfloor> + 1" by (rule of_int_floor_le, linarith)
  from lo False have "of_int \<lfloor>x\<rfloor> < x" by (metis order_le_less)
  with hi have fl: "\<lfloor>- x\<rfloor> = - \<lfloor>x\<rfloor> - 1" by (intro floor_unique) auto
  show ?thesis unfolding rne_def Let_def fl by auto
qed

section \<open>The binary exponent\<close>

fun bits :: "int \<Rightarrow> int" where
  "bits n = (if n \<le> 0 then 0 else 1 + bits (n div 2))"

declare bits.simps [simp del]

lemma bits_nonneg: "0 \<le> bits n"
proof (induction n rule: bits.induct)
  case (1 n)
  then show ?case by (subst bits.simps) auto
qed

lemma bits_pos: "0 < n \<Longrightarrow> 0 < bits n"
  using bits_nonneg [of "n div 2"] by (subst bits.simps) auto

lemma bits_bounds: "0 < n \<Longrightarrow> 2 ^ nat (bits n - 1) \<le> n \<and> n < 2 ^ nat (bits n)"
proof (induction n rule: bits.induct)
  case (1 n)
  show ?case
  proof (cases "n = 1")
    case True
    then show ?thesis by (simp add: bits.simps)
  next
    case False
    with 1(2) have h: "0 < n div 2" by linarith
    with 1 have IH: "2 ^ nat (bits (n div 2) - 1) \<le> n div 2"
      "n div 2 < 2 ^ nat (bits (n div 2))" by auto
    from 1(2) have b: "bits n = 1 + bits (n div 2)" by (subst bits.simps) simp
    let ?k = "nat (bits (n div 2) - 1)"
    have p: "nat (bits (n div 2)) = Suc ?k" using bits_pos [OF h] by linarith
    have "nat (bits n - 1) = Suc ?k" "nat (bits n) = Suc (Suc ?k)"
      using b bits_pos [OF h] by linarith+
    with IH p have "2 ^ nat (bits n - 1) \<le> 2 * (n div 2)" "2 * (n div 2) + 1 < 2 ^ nat (bits n)"
      by simp_all
    then show ?thesis by linarith
  qed
qed

lemma bits_powi:
  assumes "0 < n"
  shows "(2::rat) powi (bits n - 1) \<le> of_int n" "of_int n < (2::rat) powi (bits n)"
proof -
  have "(2::rat) powi (bits n - 1) = of_int (2 ^ nat (bits n - 1))"
    using bits_pos [OF assms] by (simp add: power_int_nonneg_exp)
  with bits_bounds [OF assms] show "(2::rat) powi (bits n - 1) \<le> of_int n"
    by (simp only: of_int_le_iff)
  have "(2::rat) powi (bits n) = of_int (2 ^ nat (bits n))"
    using bits_nonneg [of n] by (simp add: power_int_nonneg_exp)
  with bits_bounds [OF assms] show "of_int n < (2::rat) powi (bits n)"
    by (simp only: of_int_less_iff)
qed

text \<open>\<open>ilog2 x\<close> is the integer \<open>e\<close> with \<open>2 powi e \<le> x < 2 powi (e + 1)\<close>, for \<open>x > 0\<close>.\<close>

definition ilog2 :: "rat \<Rightarrow> int" where
  "ilog2 x = (case quotient_of x of (n, d) \<Rightarrow>
     let k = bits n - bits d in if 2 powi k \<le> x then k else k - 1)"

lemma ilog2_bounds:
  assumes "0 < x"
  shows "2 powi (ilog2 x) \<le> x" "x < 2 powi (ilog2 x + 1)"
proof -
  obtain n d where q: "quotient_of x = (n, d)" by fastforce
  then have d: "0 < d" and x: "x = of_int n / of_int d"
    using quotient_of_denom_pos quotient_of_div by auto
  with assms have n: "0 < n" by (simp add: zero_less_divide_iff)
  let ?k = "bits n - bits d"
  note N = bits_powi [OF n] and D = bits_powi [OF d]
  have up: "x < 2 powi (?k + 1)"
  proof -
    have "of_int n < 2 powi (bits n) * (of_int d / (2::rat) powi (bits d - 1))"
    proof -
      have "1 \<le> of_int d / (2::rat) powi (bits d - 1)" using D(1) by simp
      then have "2 powi (bits n) * 1 \<le> 2 powi (bits n) * (of_int d / (2::rat) powi (bits d - 1))"
        by (intro mult_left_mono) auto
      with N(2) show ?thesis by simp
    qed
    then have "of_int n < ((2::rat) powi (bits n) / 2 powi (bits d - 1)) * of_int d" by simp
    then have "x < 2 powi (bits n) / 2 powi (bits d - 1)"
      using d x by (simp only: pos_divide_less_eq of_int_0_less_iff)
    also have "\<dots> = 2 powi (?k + 1)"
      by (simp flip: power_int_diff add: algebra_simps)
    finally show ?thesis .
  qed
  have lo: "2 powi (?k - 1) \<le> x"
  proof -
    have "2 powi (bits n - 1) * (of_int d / (2::rat) powi (bits d)) \<le> 2 powi (bits n - 1) * 1"
      using D(2) by (intro mult_left_mono) auto
    with N(1) have "2 powi (bits n - 1) * (of_int d / (2::rat) powi (bits d)) \<le> of_int n"
      by linarith
    then have "((2::rat) powi (bits n - 1) / 2 powi (bits d)) * of_int d \<le> of_int n" by simp
    then have "2 powi (bits n - 1) / 2 powi (bits d) \<le> x"
      using d x by (simp only: pos_le_divide_eq of_int_0_less_iff)
    moreover have "(2::rat) powi (bits n - 1) / 2 powi (bits d) = 2 powi (?k - 1)"
      by (simp flip: power_int_diff add: algebra_simps)
    ultimately show ?thesis by simp
  qed
  show "2 powi (ilog2 x) \<le> x" using lo q by (simp add: ilog2_def Let_def)
  show "x < 2 powi (ilog2 x + 1)" using up q by (simp add: ilog2_def Let_def not_le)
qed

lemma powi_less_imp_le: "(2::rat) powi a < 2 powi (b + 1) \<Longrightarrow> a \<le> b"
proof (rule ccontr)
  assume h: "(2::rat) powi a < 2 powi (b + 1)" and "\<not> a \<le> b"
  then have "b + 1 \<le> a" by simp
  then have "(2::rat) powi (b + 1) \<le> 2 powi a" by (intro power_int_increasing) auto
  with h show False by simp
qed

lemma ilog2_mono: assumes "0 < x" "x \<le> y" shows "ilog2 x \<le> ilog2 y"
proof (rule powi_less_imp_le)
  have "2 powi (ilog2 x) \<le> x" using assms ilog2_bounds by simp
  also have "x \<le> y" by fact
  also have "y < 2 powi (ilog2 y + 1)" using assms ilog2_bounds by simp
  finally show "(2::rat) powi (ilog2 x) < 2 powi (ilog2 y + 1)" .
qed

lemma ilog2_eqI: assumes "0 < x" "2 powi e \<le> x" "x < 2 powi (e + 1)" shows "ilog2 x = e"
proof (rule antisym)
  show "ilog2 x \<le> e" using assms ilog2_bounds [of x] by (intro powi_less_imp_le) linarith
  show "e \<le> ilog2 x" using assms ilog2_bounds [of x] by (intro powi_less_imp_le) linarith
qed

section \<open>Rounding to binary64\<close>

definition quantum :: "rat \<Rightarrow> int" where
  "quantum x = max (ilog2 \<bar>x\<bar> - 52) (- 1074)"

definition fl64 :: "rat \<Rightarrow> rat" where
  "fl64 x = (if x = 0 then 0
             else of_int (rne (x / 2 powi (quantum x))) * 2 powi (quantum x))"

text \<open>The representable numbers: \<open>n * 2 powi k\<close> with at most 53 significant bits.\<close>

definition representable :: "rat \<Rightarrow> bool" where
  "representable x \<longleftrightarrow> (\<exists>n k. x = of_int n * 2 powi k \<and> \<bar>n\<bar> \<le> 2 ^ 53 \<and> - 1074 \<le> k)"

lemma fl64_0 [simp]: "fl64 0 = 0"
  by (simp add: fl64_def)

lemma fl64_nz: "x \<noteq> 0 \<Longrightarrow> fl64 x = of_int (rne (x / 2 powi (quantum x))) * 2 powi (quantum x)"
  by (simp add: fl64_def)

lemma fl64_minus: "fl64 (- x) = - fl64 x"
proof -
  have "- x / 2 powi (quantum x) = - (x / 2 powi (quantum x))" by simp
  then show ?thesis by (simp only: fl64_def quantum_def abs_minus_cancel rne_minus) simp
qed

lemma powi_int_quotient:
  "b \<le> a \<Longrightarrow> (2::rat) powi a / 2 powi b = of_int (2 ^ nat (a - b))"
  by (simp flip: power_int_diff add: power_int_nonneg_exp)

lemma fl64_exact: assumes "representable x" shows "fl64 x = x"
proof (cases "x = 0")
  case True
  then show ?thesis by simp
next
  case False
  from assms obtain n k where x: "x = of_int n * 2 powi k"
    and n: "\<bar>n\<bar> \<le> 2 ^ 53" and k: "- 1074 \<le> k" by (auto simp: representable_def)
  let ?e = "ilog2 \<bar>x\<bar>" and ?q = "quantum x"
  from False have e: "2 powi ?e \<le> \<bar>x\<bar>" using ilog2_bounds by simp
  have ax: "\<bar>x\<bar> = of_int \<bar>n\<bar> * 2 powi k" by (simp add: x abs_mult)
  have "\<exists>m. x / 2 powi ?q = of_int m"
  proof (cases "?q \<le> k")
    case True
    have "x / 2 powi ?q = of_int n * (2 powi k / 2 powi ?q)"
      by (metis x times_divide_eq_right)
    also have "\<dots> = of_int (n * 2 ^ nat (k - ?q))"
      by (simp only: powi_int_quotient [OF True] of_int_mult)
    finally show ?thesis by blast
  next
    case False
    with k have q: "?q = ?e - 52" and less: "k + 53 \<le> ?e" by (auto simp: quantum_def)
    have "(of_int \<bar>n\<bar> :: rat) \<le> of_int (2 ^ 53)"
      using n by (simp only: of_int_le_iff)
    then have "of_int \<bar>n\<bar> * (2::rat) powi k \<le> of_int (2 ^ 53) * 2 powi k"
      by (rule mult_right_mono) simp
    also have "\<dots> = 2 powi (k + 53)" by (simp add: power_int_add)
    also have "\<dots> \<le> 2 powi ?e" using less by (intro power_int_increasing) auto
    finally have "\<bar>x\<bar> = 2 powi ?e" using e ax by linarith
    moreover have "(2::rat) powi ?e / 2 powi ?q = of_int (2 ^ 52)"
      using powi_int_quotient [of ?q ?e] q by simp
    ultimately have "x / 2 powi ?q = of_int (2 ^ 52) \<or> x / 2 powi ?q = of_int (- (2 ^ 52))"
      by (cases "0 \<le> x") (auto simp: abs_if)
    then show ?thesis by blast
  qed
  then obtain m where "x / 2 powi ?q = of_int m" by blast
  then have "fl64 x = of_int m * 2 powi ?q" using False by (simp add: fl64_def)
  also have "\<dots> = x" using \<open>x / 2 powi ?q = of_int m\<close> by (simp add: field_simps)
  finally show ?thesis .
qed

lemma representable_of_int: "\<bar>n\<bar> \<le> 2 ^ 53 \<Longrightarrow> representable (of_int n)"
  unfolding representable_def by (rule exI [of _ n], rule exI [of _ 0]) simp

lemma fl64_of_int: "\<bar>n\<bar> \<le> 2 ^ 53 \<Longrightarrow> fl64 (of_int n) = of_int n"
  by (simp add: fl64_exact representable_of_int)

lemma fl64_1 [simp]: "fl64 1 = 1"
  using fl64_of_int [of 1] by simp

lemma fl64_numeral [simp]: "(numeral n :: int) \<le> 2 ^ 53 \<Longrightarrow> fl64 (numeral n) = numeral n"
  using fl64_of_int [of "numeral n"] by simp

lemma fl64_pos_mono_aux:
  assumes "0 < x" "x \<le> y" shows "fl64 x \<le> fl64 y"
proof (cases "quantum x = quantum y")
  case True
  have "rne (x / 2 powi (quantum y)) \<le> rne (y / 2 powi (quantum y))"
    using assms by (intro rne_mono divide_right_mono) auto
  with True assms show ?thesis by (simp add: fl64_def mult_right_mono)
next
  case False
  let ?B = "(2::rat) powi (ilog2 y)"
  from assms have le: "ilog2 x \<le> ilog2 y" using ilog2_mono by simp
  with False assms have y: "quantum y = ilog2 y - 52" and lt: "ilog2 x < ilog2 y"
    and qx: "quantum x \<le> ilog2 y" by (auto simp: quantum_def)
  have "x < 2 powi (ilog2 x + 1)" using assms ilog2_bounds by simp
  also have "\<dots> \<le> ?B" using lt by (intro power_int_increasing) auto
  finally have "x / 2 powi (quantum x) \<le> ?B / 2 powi (quantum x)"
    by (intro divide_right_mono) auto
  then have "rne (x / 2 powi (quantum x)) \<le> 2 ^ nat (ilog2 y - quantum x)"
    unfolding powi_int_quotient [OF qx] by (rule rne_le)
  then have "fl64 x \<le> of_int (2 ^ nat (ilog2 y - quantum x)) * 2 powi (quantum x)"
    using assms by (subst fl64_nz) (auto intro!: mult_right_mono simp only: of_int_le_iff zero_le_power_int)
  also have "\<dots> = ?B" by (subst powi_int_quotient [OF qx, symmetric]) simp
  also have "?B \<le> fl64 y"
  proof -
    have "of_int (2 ^ 52) \<le> y / 2 powi (quantum y)"
    proof -
      have "?B / 2 powi (quantum y) \<le> y / 2 powi (quantum y)"
        using assms ilog2_bounds(1) [of y] by (intro divide_right_mono) auto
      then show ?thesis using powi_int_quotient [of "quantum y" "ilog2 y"] y by simp
    qed
    then have "2 ^ 52 \<le> rne (y / 2 powi (quantum y))" by (rule rne_ge)
    then have "of_int (2 ^ 52) * 2 powi (quantum y) \<le> fl64 y"
      using assms by (subst fl64_nz) (auto intro!: mult_right_mono simp only: of_int_le_iff zero_le_power_int)
    moreover have il: "ilog2 y = quantum y + 52" using y by simp
    have "of_int (2 ^ 52) * 2 powi (quantum y) = ?B"
      by (subst il) (simp add: power_int_add)
    ultimately show ?thesis by simp
  qed
  finally show ?thesis .
qed

lemma fl64_nonneg: "0 \<le> x \<Longrightarrow> 0 \<le> fl64 x"
proof (cases "x = 0")
  case False
  assume "0 \<le> x"
  then have "0 \<le> rne (x / 2 powi (quantum x))" by (intro rne_ge) simp
  then show ?thesis by (simp add: fl64_def)
qed simp

lemma fl64_mono: assumes "x \<le> y" shows "fl64 x \<le> fl64 y"
proof -
  consider "0 < x" | "x \<le> 0" "0 \<le> y" | "y < 0" using assms by linarith
  then show ?thesis
  proof cases
    case 1
    then show ?thesis using assms by (rule fl64_pos_mono_aux)
  next
    case 2
    then have "0 \<le> fl64 (- x)" "0 \<le> fl64 y" by (auto intro: fl64_nonneg)
    then show ?thesis by (simp add: fl64_minus)
  next
    case 3
    then have "fl64 (- y) \<le> fl64 (- x)" using assms by (intro fl64_pos_mono_aux) auto
    then show ?thesis by (simp add: fl64_minus)
  qed
qed

lemma representable_fl64: "representable (fl64 x)"
proof (cases "x = 0")
  case True
  then show ?thesis using representable_of_int [of 0] by simp
next
  case False
  let ?q = "quantum x" and ?m = "rne (x / 2 powi (quantum x))"
  have "\<bar>x\<bar> < 2 powi (ilog2 \<bar>x\<bar> + 1)" using False ilog2_bounds by simp
  also have "\<dots> \<le> 2 powi (?q + 53)" by (intro power_int_increasing) (auto simp: quantum_def)
  also have "\<dots> = 2 ^ 53 * 2 powi ?q" by (simp add: power_int_add)
  finally have b: "\<bar>x / 2 powi ?q\<bar> \<le> of_int (2 ^ 53)"
    by (simp add: abs_divide pos_divide_le_eq)
  from b have "x / 2 powi ?q \<le> of_int (2 ^ 53)" by linarith
  moreover from b have "of_int (- (2 ^ 53)) \<le> x / 2 powi ?q" by linarith
  ultimately have "?m \<le> 2 ^ 53" and "- (2 ^ 53) \<le> ?m" by (simp_all only: rne_le rne_ge)
  then have "\<bar>?m\<bar> \<le> 2 ^ 53" by simp
  moreover have "- 1074 \<le> ?q" by (simp add: quantum_def)
  ultimately show ?thesis using fl64_nz [OF False] unfolding representable_def by blast
qed

lemma fl64_idem [simp]: "fl64 (fl64 x) = fl64 x"
  by (simp add: fl64_exact representable_fl64)

section \<open>The laws the money proofs use\<close>

locale rounding =
  fixes fl :: "rat \<Rightarrow> rat"
  assumes mono: "x \<le> y \<Longrightarrow> fl x \<le> fl y"
    and zero: "fl 0 = 0"
    and idem: "fl (fl x) = fl x"
    and exact_int: "\<bar>n\<bar> \<le> 2 ^ 53 \<Longrightarrow> fl (of_int n) = of_int n"
begin

lemma nonneg: "0 \<le> x \<Longrightarrow> 0 \<le> fl x"
  using mono [of 0 x] zero by simp

lemma le_of_int: "x \<le> of_int n \<Longrightarrow> \<bar>n\<bar> \<le> 2 ^ 53 \<Longrightarrow> fl x \<le> of_int n"
  using mono [of x "of_int n"] exact_int by simp

lemma mult_mono:
  "x \<le> x' \<Longrightarrow> y \<le> y' \<Longrightarrow> 0 \<le> x \<Longrightarrow> 0 \<le> y \<Longrightarrow> fl (x * y) \<le> fl (x' * y')"
  by (intro mono mult_mono') auto

lemma add_mono: "x \<le> x' \<Longrightarrow> y \<le> y' \<Longrightarrow> fl (x + y) \<le> fl (x' + y')"
  by (intro mono add_mono)

lemma div_mono: "x \<le> x' \<Longrightarrow> 0 < d \<Longrightarrow> fl (x / d) \<le> fl (x' / d)"
  by (intro mono divide_right_mono) auto

text \<open>Multiplying by a factor of at most one never increases a float.\<close>

lemma mult_le_self:
  assumes "fl x = x" "0 \<le> x" "y \<le> 1"
  shows "fl (x * y) \<le> x"
proof -
  have "x * y \<le> x" using assms by (simp add: mult_left_le)
  then show ?thesis using mono assms(1) by metis
qed

lemma round_nonneg: "0 \<le> x \<Longrightarrow> 0 \<le> rne (fl x)"
  using nonneg by (intro rne_ge) simp

end

interpretation b64: rounding fl64
  by unfold_locales (auto intro: fl64_mono fl64_of_int)

section \<open>The arithmetic of Python floats\<close>

text \<open>
  \<open>a + b\<close>, \<open>a - b\<close>, \<open>a * b\<close> and \<open>a / b\<close> on floats. An \<open>int\<close> operand is first
  converted, which is \<open>int_float\<close> (exact up to \<open>2 ^ 53\<close>).
\<close>

definition fadd :: "rat \<Rightarrow> rat \<Rightarrow> rat" where "fadd x y = fl64 (x + y)"
definition fsub :: "rat \<Rightarrow> rat \<Rightarrow> rat" where "fsub x y = fl64 (x - y)"
definition fmul :: "rat \<Rightarrow> rat \<Rightarrow> rat" where "fmul x y = fl64 (x * y)"
definition fdiv :: "rat \<Rightarrow> rat \<Rightarrow> rat" where "fdiv x y = fl64 (x / y)"
definition int_float :: "int \<Rightarrow> rat" where "int_float n = fl64 (of_int n)"

text \<open>\<open>sum\<close> over floats: a left fold from zero.\<close>

fun fsum_from :: "rat \<Rightarrow> rat list \<Rightarrow> rat" where
  "fsum_from acc [] = acc"
| "fsum_from acc (x # xs) = fsum_from (fadd acc x) xs"

abbreviation fsum :: "rat list \<Rightarrow> rat" where
  "fsum xs \<equiv> fsum_from 0 xs"

definition is_float :: "rat \<Rightarrow> bool" where
  "is_float x \<longleftrightarrow> fl64 x = x"

lemma is_float_ops [simp, intro]:
  "is_float (fadd x y)" "is_float (fsub x y)" "is_float (fmul x y)" "is_float (fdiv x y)"
  "is_float (int_float n)" "is_float 0" "is_float 1"
  by (simp_all add: is_float_def fadd_def fsub_def fmul_def fdiv_def int_float_def)

lemma int_float_eq: "\<bar>n\<bar> \<le> 2 ^ 53 \<Longrightarrow> int_float n = of_int n"
  by (simp add: int_float_def fl64_of_int)

lemma int_float_nonneg [float_intro]: "0 \<le> n \<Longrightarrow> 0 \<le> int_float n"
  by (simp add: int_float_def b64.nonneg)

lemma int_float_mono [float_intro]: "m \<le> n \<Longrightarrow> int_float m \<le> int_float n"
  by (simp add: int_float_def b64.mono)

lemma fadd_nonneg [float_intro]: "0 \<le> x \<Longrightarrow> 0 \<le> y \<Longrightarrow> 0 \<le> fadd x y"
  by (simp add: fadd_def b64.nonneg)

lemma fmul_nonneg [float_intro]: "0 \<le> x \<Longrightarrow> 0 \<le> y \<Longrightarrow> 0 \<le> fmul x y"
  by (simp add: fmul_def b64.nonneg)

lemma fdiv_nonneg [float_intro]: "0 \<le> x \<Longrightarrow> 0 \<le> y \<Longrightarrow> 0 \<le> fdiv x y"
  by (simp add: fdiv_def b64.nonneg)

lemma fadd_mono [float_intro]: "x \<le> x' \<Longrightarrow> y \<le> y' \<Longrightarrow> fadd x y \<le> fadd x' y'"
  by (simp add: fadd_def b64.add_mono)

lemma fsub_mono: "x \<le> x' \<Longrightarrow> y' \<le> y \<Longrightarrow> fsub x y \<le> fsub x' y'"
  by (simp add: fsub_def b64.mono)

lemma fmul_mono [float_intro]:
  "x \<le> x' \<Longrightarrow> y \<le> y' \<Longrightarrow> 0 \<le> x \<Longrightarrow> 0 \<le> y \<Longrightarrow> fmul x y \<le> fmul x' y'"
  by (simp add: fmul_def b64.mult_mono)

lemma fdiv_mono: "x \<le> x' \<Longrightarrow> 0 < d \<Longrightarrow> fdiv x d \<le> fdiv x' d"
  by (simp add: fdiv_def b64.div_mono)

lemma fmul_le_self: "is_float x \<Longrightarrow> 0 \<le> x \<Longrightarrow> y \<le> 1 \<Longrightarrow> fmul x y \<le> x"
  by (simp add: fmul_def is_float_def b64.mult_le_self)

lemma fmul_1_right [simp]: "is_float x \<Longrightarrow> fmul x 1 = x"
  by (simp add: fmul_def is_float_def)

lemma fmul_0_left [simp]: "fmul 0 x = 0" and fmul_0_right [simp]: "fmul x 0 = 0"
  by (simp_all add: fmul_def)

lemma fadd_0_left [simp]: "is_float x \<Longrightarrow> fadd 0 x = x"
  by (simp add: fadd_def is_float_def)

lemma fsum_from_mono:
  "list_all2 (\<le>) xs ys \<Longrightarrow> a \<le> b \<Longrightarrow> fsum_from a xs \<le> fsum_from b ys"
  by (induction xs ys arbitrary: a b rule: list_all2_induct) (auto intro: float_intro)

lemma fsum_from_nonneg [float_intro]:
  "0 \<le> a \<Longrightarrow> (\<And>x. x \<in> set xs \<Longrightarrow> 0 \<le> x) \<Longrightarrow> 0 \<le> fsum_from a xs"
  by (induction xs arbitrary: a) (auto intro: float_intro)

text \<open>Evaluation at closed values: a number with an exhibited significand is exact.\<close>

lemma fl64_half_grid:
  assumes "x * 2 = of_int n" and "\<bar>n\<bar> \<le> 2 ^ 53"
  shows "fl64 x = x"
proof (rule fl64_exact)
  have "x = of_int n * 2 powi (- 1)" using assms(1) by (simp add: power_int_minus field_simps)
  then show "representable x" unfolding representable_def
    using assms(2) by (intro exI [of _ n] exI [of _ "- 1"]) auto
qed

end
