(* ===== verification/PyText.thy ===== *)
theory PyText
  imports Binary64
begin

text \<open>
  The string operations of Python the program uses, on \<open>string\<close> (a list of code points
  below 256): \<open>strip\<close>, \<open>lower\<close>, \<open>isdigit\<close>, \<open>str(int)\<close>, \<open>int(str)\<close>
  and \<open>float(str)\<close>. Decimal printing is injective and parsing inverts it, which is what
  makes the program's composed keys (\<open>f"autostop:{ws.id}:..."\<close>) distinct.
\<close>

section \<open>Characters\<close>

abbreviation code :: "char \<Rightarrow> nat" where
  "code c \<equiv> of_char c"

text \<open>\<open>str.isspace\<close> below 256.\<close>

definition is_space :: "char \<Rightarrow> bool" where
  "is_space c \<longleftrightarrow> (9 \<le> code c \<and> code c \<le> 13) \<or> (28 \<le> code c \<and> code c \<le> 32)
     \<or> code c = 133 \<or> code c = 160"

definition is_ascii_digit :: "char \<Rightarrow> bool" where
  "is_ascii_digit c \<longleftrightarrow> 48 \<le> code c \<and> code c \<le> 57"

text \<open>\<open>str.isdigit\<close> below 256 also holds of the superscripts two, three and one.\<close>

definition is_digit :: "char \<Rightarrow> bool" where
  "is_digit c \<longleftrightarrow> is_ascii_digit c \<or> code c = 178 \<or> code c = 179 \<or> code c = 185"

definition is_lower_az :: "char \<Rightarrow> bool" where
  "is_lower_az c \<longleftrightarrow> 97 \<le> code c \<and> code c \<le> 122"

definition is_upper_az :: "char \<Rightarrow> bool" where
  "is_upper_az c \<longleftrightarrow> 65 \<le> code c \<and> code c \<le> 90"

definition is_alnum_ascii :: "char \<Rightarrow> bool" where
  "is_alnum_ascii c \<longleftrightarrow> is_lower_az c \<or> is_upper_az c \<or> is_ascii_digit c"

definition lower_char :: "char \<Rightarrow> char" where
  "lower_char c = (if is_upper_az c \<or> (192 \<le> code c \<and> code c \<le> 222 \<and> code c \<noteq> 215)
                   then char_of (code c + 32) else c)"

definition lower :: "string \<Rightarrow> string" where
  "lower s = map lower_char s"

lemma code_less [simp]: "code c < 256"
  using nat_of_char_less_256 [of c] by simp

lemma code_char_of: "n < 256 \<Longrightarrow> code (char_of n) = n"
  by (simp add: of_char_of)

lemma lower_char_idem [simp]: "lower_char (lower_char c) = lower_char c"
  using code_less [of c] by (auto simp: lower_char_def is_upper_az_def code_char_of)

lemma lower_idem [simp]: "lower (lower s) = lower s"
  by (simp add: lower_def)

lemma is_space_lower [simp]: "is_space (lower_char c) = is_space c"
  using code_less [of c]
  by (auto simp: lower_char_def is_upper_az_def is_space_def code_char_of)

section \<open>Stripping white space\<close>

definition lstrip :: "string \<Rightarrow> string" where
  "lstrip s = dropWhile is_space s"

definition rstrip :: "string \<Rightarrow> string" where
  "rstrip s = rev (dropWhile is_space (rev s))"

definition strip :: "string \<Rightarrow> string" where
  "strip s = rstrip (lstrip s)"

lemma dropWhile_not_hd: "dropWhile p xs = y # ys \<Longrightarrow> \<not> p y"
  by (induction xs) (auto split: if_splits)

lemma rstrip_last: "rstrip s \<noteq> [] \<Longrightarrow> \<not> is_space (last (rstrip s))"
  unfolding rstrip_def
  by (cases "dropWhile is_space (rev s)") (auto dest: dropWhile_not_hd)

lemma rstrip_Cons: "\<not> is_space c \<Longrightarrow> rstrip (c # s) = c # rstrip s"
  by (simp add: rstrip_def dropWhile_append)

lemma strip_hd: "strip s \<noteq> [] \<Longrightarrow> \<not> is_space (hd (strip s))"
proof (cases "lstrip s")
  case Nil
  then show "strip s \<noteq> [] \<Longrightarrow> ?thesis" by (simp add: strip_def rstrip_def)
next
  case (Cons c t)
  then have "\<not> is_space c" by (auto simp: lstrip_def dest: dropWhile_not_hd)
  with Cons show ?thesis by (simp add: strip_def rstrip_Cons)
qed

lemma strip_last: "strip s \<noteq> [] \<Longrightarrow> \<not> is_space (last (strip s))"
  unfolding strip_def by (rule rstrip_last)

lemma strip_id:
  assumes "s = [] \<or> (\<not> is_space (hd s) \<and> \<not> is_space (last s))"
  shows "strip s = s"
proof (cases s)
  case Nil
  then show ?thesis by (simp add: strip_def rstrip_def lstrip_def)
next
  case (Cons c t)
  then have l: "lstrip s = s" using assms by (simp add: lstrip_def)
  have "rev s = last s # rev (butlast s)" using Cons by (metis append_butlast_last_id list.distinct(1) rev_eq_Cons_iff rev_rev_ident)
  then have "dropWhile is_space (rev s) = rev s" using assms Cons by simp
  with l show ?thesis by (simp add: strip_def rstrip_def)
qed

lemma strip_idem [simp]: "strip (strip s) = strip s"
  using strip_hd [of s] strip_last [of s] by (intro strip_id) auto

lemma set_strip: "set (strip s) \<subseteq> set s"
  unfolding strip_def rstrip_def lstrip_def by (auto dest!: set_dropWhileD)

lemma strip_no_space: "\<forall>c \<in> set s. \<not> is_space c \<Longrightarrow> strip s = s"
  by (intro strip_id) auto

lemma strip_Nil [simp]: "strip [] = []"
  by (simp add: strip_def rstrip_def lstrip_def)

section \<open>Decimal numbers\<close>

definition digit_char :: "nat \<Rightarrow> char" where
  "digit_char d = char_of (48 + d)"

definition digit_val :: "char \<Rightarrow> nat" where
  "digit_val c = code c - 48"

fun show_nat :: "nat \<Rightarrow> string" where
  "show_nat n = (if n < 10 then [digit_char n] else show_nat (n div 10) @ [digit_char (n mod 10)])"

declare show_nat.simps [simp del]

text \<open>\<open>str(n)\<close> of an \<open>int\<close>.\<close>

definition show_int :: "int \<Rightarrow> string" where
  "show_int n = (if n < 0 then CHR ''-'' # show_nat (nat (- n)) else show_nat (nat n))"

definition digits_val :: "string \<Rightarrow> nat" where
  "digits_val s = foldl (\<lambda>a c. 10 * a + digit_val c) 0 s"

lemma digit_val_char [simp]: "d < 10 \<Longrightarrow> digit_val (digit_char d) = d"
  by (simp add: digit_val_def digit_char_def code_char_of)

lemma is_ascii_digit_char [simp]: "d < 10 \<Longrightarrow> is_ascii_digit (digit_char d)"
  by (simp add: is_ascii_digit_def digit_char_def code_char_of)

lemma digits_val_show: "digits_val (show_nat n) = n"
proof (induction n rule: show_nat.induct)
  case (1 n)
  then show ?case by (subst show_nat.simps) (auto simp: digits_val_def)
qed

lemma show_nat_digits: "\<forall>c \<in> set (show_nat n). is_ascii_digit c"
proof (induction n rule: show_nat.induct)
  case (1 n)
  then show ?case by (subst show_nat.simps) auto
qed

lemma show_nat_nonempty [simp]: "show_nat n \<noteq> []"
  by (subst show_nat.simps) simp

lemma show_nat_inj: "show_nat m = show_nat n \<Longrightarrow> m = n"
  by (metis digits_val_show)

lemma show_int_inj: "show_int m = show_int n \<Longrightarrow> m = n"
proof -
  have no: "\<not> is_ascii_digit (CHR ''-'')" by (simp add: is_ascii_digit_def)
  have minus: "CHR ''-'' # s \<noteq> show_nat k" for s k
  proof
    assume "CHR ''-'' # s = show_nat k"
    then have "is_ascii_digit (CHR ''-'')"
      using show_nat_digits [of k] by (metis list.set_intros(1))
    with no show False ..
  qed
  assume "show_int m = show_int n"
  then show "m = n"
    using minus [of "show_nat (nat (- m))" "nat n"] minus [of "show_nat (nat (- n))" "nat m"]
    by (auto simp: show_int_def dest!: show_nat_inj split: if_splits)
qed

section \<open>Parsing numbers\<close>

text \<open>A run of digits, with single underscores between digits allowed.\<close>

fun double_underscore :: "string \<Rightarrow> bool" where
  "double_underscore (c # d # s) = ((c = CHR ''_'' \<and> d = CHR ''_'') \<or> double_underscore (d # s))"
| "double_underscore _ = False"

definition digit_run :: "string \<Rightarrow> nat option" where
  "digit_run s =
     (if s \<noteq> [] \<and> list_all (\<lambda>c. is_ascii_digit c \<or> c = CHR ''_'') s
         \<and> hd s \<noteq> CHR ''_'' \<and> last s \<noteq> CHR ''_'' \<and> \<not> double_underscore s
      then Some (digits_val (filter is_ascii_digit s)) else None)"

definition split_sign :: "string \<Rightarrow> bool \<times> string" where
  "split_sign s = (case s of [] \<Rightarrow> (False, [])
     | c # t \<Rightarrow> if c = CHR ''-'' then (True, t) else if c = CHR ''+'' then (False, t)
               else (False, s))"

text \<open>\<open>int(s)\<close> of a string: \<open>None\<close> is \<open>ValueError\<close>.\<close>

definition py_int :: "string \<Rightarrow> int option" where
  "py_int s = (case split_sign (strip s) of (neg, t) \<Rightarrow>
     map_option (\<lambda>n. if neg then - int n else int n) (digit_run t))"

text \<open>
  \<open>float(s)\<close> of a string: \<open>None\<close> is \<open>ValueError\<close>. The texts \<open>inf\<close> and \<open>nan\<close>, which
  Python also accepts, have no finite value and are outside this model of floats.
\<close>

definition frac_run :: "string \<Rightarrow> (nat \<times> nat) option" where
  "frac_run s = (if s = [] then Some (0, 0)
     else map_option (\<lambda>n. (n, length (filter is_ascii_digit s))) (digit_run s))"

definition py_float :: "string \<Rightarrow> rat option" where
  "py_float s = (case split_sign (strip s) of (neg, t) \<Rightarrow>
     let isE = (\<lambda>c. c = CHR ''e'' \<or> c = CHR ''E'');
         m = takeWhile (\<lambda>c. \<not> isE c) t; r = dropWhile (\<lambda>c. \<not> isE c) t;
         ip = takeWhile (\<lambda>c. c \<noteq> CHR ''.'') m; fp = drop 1 (dropWhile (\<lambda>c. c \<noteq> CHR ''.'') m);
         ev = (case r of [] \<Rightarrow> Some 0
               | _ # e \<Rightarrow> (case split_sign e of (en, d) \<Rightarrow>
                   map_option (\<lambda>n. if en then - int n else int n) (digit_run d)))
     in if ip = [] \<and> fp = [] then None
        else (case frac_run ip of None \<Rightarrow> None | Some (a, la) \<Rightarrow>
              (case frac_run fp of None \<Rightarrow> None | Some (b, lb) \<Rightarrow>
               (case ev of None \<Rightarrow> None | Some x \<Rightarrow>
                 let v = (of_nat a * 10 ^ lb + of_nat b) * 10 powi (x - int lb)
                 in Some (fl64 (if neg then - v else v))))))"

lemma py_float_is_float: "py_float s = Some x \<Longrightarrow> is_float x"
  by (auto simp: py_float_def is_float_def Let_def split: prod.splits option.splits if_splits)

lemma digit_run_show: "digit_run (show_nat n) = Some n"
proof -
  have d: "\<forall>c \<in> set (show_nat n). is_ascii_digit c" by (rule show_nat_digits)
  have us: "\<not> is_ascii_digit (CHR ''_'')" by (simp add: is_ascii_digit_def)
  have nodouble: "\<forall>c \<in> set s. is_ascii_digit c \<Longrightarrow> \<not> double_underscore s" for s
    using us by (induction s rule: double_underscore.induct) auto
  have "hd (show_nat n) \<noteq> CHR ''_''" "last (show_nat n) \<noteq> CHR ''_''"
    using d us by (metis hd_in_set show_nat_nonempty, metis last_in_set show_nat_nonempty)
  moreover have "filter is_ascii_digit (show_nat n) = show_nat n"
    using d by (simp add: filter_id_conv)
  ultimately show ?thesis
    using d nodouble [OF d] by (auto simp: digit_run_def digits_val_show list_all_iff)
qed

text \<open>Parsing inverts printing.\<close>

lemma py_int_show: "py_int (show_int n) = Some n"
proof -
  have nosp: "is_ascii_digit c \<Longrightarrow> \<not> is_space c" for c
    by (auto simp: is_ascii_digit_def is_space_def)
  have "\<forall>c \<in> set (show_int n). \<not> is_space c"
    using show_nat_digits [of "nat n"] show_nat_digits [of "nat (- n)"] nosp
    by (auto simp: show_int_def is_space_def)
  then have st: "strip (show_int n) = show_int n" by (rule strip_no_space)
  obtain c t where ct: "show_nat (nat n) = c # t" by (cases "show_nat (nat n)") auto
  then have "is_ascii_digit c" using show_nat_digits [of "nat n"] by simp
  then have "c \<noteq> CHR ''-''" "c \<noteq> CHR ''+''" by (auto simp: is_ascii_digit_def)
  then have "split_sign (show_int n) = (n < 0, show_nat (nat \<bar>n\<bar>))"
    by (auto simp: show_int_def split_sign_def ct)
  then show ?thesis
    using digit_run_show [of "nat \<bar>n\<bar>"] by (auto simp: py_int_def st)
qed

end
