(* ===== verification/Pricing.thy ===== *)
theory Pricing
  imports PyText
begin

text \<open>
  \<open>control/mmd/billing/pricing.py\<close>: the sizes a customer may choose, the rate card and
  the cost of a period. Money is an integer number of micro-Toman; rates and core counts
  are Python floats, so every product is rounded (theory \<open>Binary64\<close>) before \<open>round\<close>
  makes it an integer. The lemmas show the signs and monotonicity of each component, and
  from them that the gate amount bounds every bill of an hour.
\<close>

section \<open>What a customer may choose\<close>

definition MICRO :: int where "MICRO = 1000000"

definition CPU_OPTIONS_MILLI :: "int list" where
  "CPU_OPTIONS_MILLI = [500, 1000, 2000, 3000]"

definition MEM_OPTIONS_MIB :: "int list" where
  "MEM_OPTIONS_MIB = [512, 1024, 2048, 3072, 4096, 5120, 6144]"

definition DISK_OPTIONS_GIB :: "int list" where
  "DISK_OPTIONS_GIB = [10, 20, 30, 40]"

definition DEFAULT_ROOT_GIB :: int where "DEFAULT_ROOT_GIB = 6"
definition DEFAULT_DOCKER_GIB :: int where "DEFAULT_DOCKER_GIB = 8"
definition COMFORTABLE_MEM_MIB :: int where "COMFORTABLE_MEM_MIB = 2048"

datatype invalid_tier = BadCpu int | BadMem int | BadDisk | NotWholeNumbers

record tier =
  cpu_milli :: int
  mem_mib :: int
  disk_gib :: int

text \<open>\<open>Tier.__post_init__\<close>: a tier exists only when the checks pass.\<close>

definition mk_tier :: "int \<Rightarrow> int \<Rightarrow> int \<Rightarrow> (invalid_tier, tier) result" where
  "mk_tier c m d =
     (if c \<notin> set CPU_OPTIONS_MILLI then raise (BadCpu c)
      else if m \<notin> set MEM_OPTIONS_MIB then raise (BadMem m)
      else if d \<le> 0 then raise BadDisk
      else return \<lparr>cpu_milli = c, mem_mib = m, disk_gib = d\<rparr>)"

definition valid_tier :: "tier \<Rightarrow> bool" where
  "valid_tier t \<longleftrightarrow> mk_tier (cpu_milli t) (mem_mib t) (disk_gib t) = return t"

definition cpu_cores :: "tier \<Rightarrow> rat" where
  "cpu_cores t = fdiv (int_float (cpu_milli t)) 1000"

definition mem_gib :: "tier \<Rightarrow> rat" where
  "mem_gib t = fdiv (int_float (mem_mib t)) 1024"

definition is_comfortable :: "tier \<Rightarrow> bool" where
  "is_comfortable t \<longleftrightarrow> mem_mib t \<ge> COMFORTABLE_MEM_MIB"

text \<open>\<open>Tier.incus_config\<close>: the instance limits a tier becomes.\<close>

definition incus_config :: "tier \<Rightarrow> (string \<times> string) list" where
  "incus_config t =
     (let visible_cores = max 1 \<lceil>fdiv (int_float (cpu_milli t)) 1000\<rceil>;
          quota_ms = cpu_milli t div 10
      in [(''limits.cpu'', show_int visible_cores),
          (''limits.cpu.allowance'', show_int quota_ms @ ''ms/100ms''),
          (''limits.memory'', show_int (mem_mib t) @ ''MiB'')])"

text \<open>\<open>parse_tier\<close>: an argument \<open>int()\<close> rejects is \<open>None\<close>.\<close>

definition parse_tier ::
  "int option \<Rightarrow> int option \<Rightarrow> int option \<Rightarrow> (invalid_tier, tier) result" where
  "parse_tier c m d =
     (case (c, m, d) of (Some c, Some m, Some d) \<Rightarrow> mk_tier c m d
      | _ \<Rightarrow> raise NotWholeNumbers)"

record cpu_entry = ce_milli :: int ce_cores :: rat
record mem_entry = me_mib :: int me_gib :: rat me_comfortable :: bool

text \<open>\<open>catalogue\<close>, without the display labels.\<close>

definition catalogue :: "cpu_entry list \<times> mem_entry list \<times> int list \<times> int" where
  "catalogue =
     (map (\<lambda>c. \<lparr>ce_milli = c, ce_cores = fdiv (int_float c) 1000\<rparr>) CPU_OPTIONS_MILLI,
      map (\<lambda>m. \<lparr>me_mib = m, me_gib = fdiv (int_float m) 1024,
                me_comfortable = (m \<ge> COMFORTABLE_MEM_MIB)\<rparr>) MEM_OPTIONS_MIB,
      DISK_OPTIONS_GIB, COMFORTABLE_MEM_MIB)"

section \<open>The rate card\<close>

definition DEFAULT_RATES :: "string \<rightharpoonup> rat" where
  "DEFAULT_RATES =
     [''rate_cpu_reserve_per_core_hour'' \<mapsto> 200, ''rate_cpu_usage_per_core_hour'' \<mapsto> 100,
      ''rate_mem_reserve_per_gib_hour'' \<mapsto> 100, ''rate_mem_usage_per_gib_hour'' \<mapsto> 50,
      ''rate_disk_per_gib_hour'' \<mapsto> 3, ''rate_disk_archived_per_gib_hour'' \<mapsto> 3 / 2]"

record rates =
  cpu_reserve :: rat
  cpu_usage :: rat
  mem_reserve :: rat
  mem_usage :: rat
  disk :: rat
  disk_archived :: rat

text \<open>
  \<open>Rates.from_settings\<close>. The local \<open>g\<close> reads one key: the stored text if it parses as
  a float, the default otherwise.
\<close>

definition rate_setting :: "(string \<rightharpoonup> string) \<Rightarrow> string \<Rightarrow> rat" where
  "rate_setting s k =
     (let dflt = (case DEFAULT_RATES k of Some d \<Rightarrow> d | None \<Rightarrow> 0)
      in case s k of None \<Rightarrow> dflt
         | Some v \<Rightarrow> (case py_float v of Some x \<Rightarrow> x | None \<Rightarrow> dflt))"

definition rates_from_settings :: "(string \<rightharpoonup> string) \<Rightarrow> rates" where
  "rates_from_settings s =
     \<lparr>cpu_reserve = rate_setting s ''rate_cpu_reserve_per_core_hour'',
      cpu_usage = rate_setting s ''rate_cpu_usage_per_core_hour'',
      mem_reserve = rate_setting s ''rate_mem_reserve_per_gib_hour'',
      mem_usage = rate_setting s ''rate_mem_usage_per_gib_hour'',
      disk = rate_setting s ''rate_disk_per_gib_hour'',
      disk_archived = rate_setting s ''rate_disk_archived_per_gib_hour''\<rparr>"

section \<open>The components of a price\<close>

definition disk_micro :: "tier \<Rightarrow> rates \<Rightarrow> bool \<Rightarrow> rat \<Rightarrow> int" where
  "disk_micro t r archived fraction =
     (let rate = (if archived then disk_archived r else disk r)
      in rne (fmul (fmul (fmul (int_float (disk_gib t)) rate) fraction) (of_int MICRO)))"

definition reservation_micro :: "tier \<Rightarrow> rates \<Rightarrow> rat \<Rightarrow> int" where
  "reservation_micro t r fraction =
     rne (fmul (fmul (fadd (fmul (cpu_cores t) (cpu_reserve r))
                           (fmul (mem_gib t) (mem_reserve r))) fraction) (of_int MICRO))"

definition usage_micro :: "rat \<Rightarrow> rat \<Rightarrow> rates \<Rightarrow> int" where
  "usage_micro cpu_core_hours mem_gib_hours r =
     rne (fmul (fadd (fmul (max 0 cpu_core_hours) (cpu_usage r))
                     (fmul (max 0 mem_gib_hours) (mem_usage r))) (of_int MICRO))"

definition max_hour_micro :: "tier \<Rightarrow> rates \<Rightarrow> int" where
  "max_hour_micro t r =
     disk_micro t r False 1 + reservation_micro t r 1 + usage_micro (cpu_cores t) (mem_gib t) r"

definition idle_hour_micro :: "tier \<Rightarrow> rates \<Rightarrow> int" where
  "idle_hour_micro t r = disk_micro t r False 1 + reservation_micro t r 1"

definition off_hour_micro :: "tier \<Rightarrow> rates \<Rightarrow> rat \<Rightarrow> int" where
  "off_hour_micro t r fraction = disk_micro t r False fraction"

text \<open>
  \<open>settle_micro\<close>: the amount and the ledger's breakdown. The usage figures and the
  tier are recorded for a running hour only; \<open>round(x, 4)\<close> is the exact value rounded
  half-even at the fourth decimal and read back as a float.
\<close>

definition py_round_nd :: "nat \<Rightarrow> rat \<Rightarrow> rat" where
  "py_round_nd n x = fl64 (of_int (rne (x * 10 ^ n)) / 10 ^ n)"

record breakdown =
  bd_disk :: int
  bd_reservation :: int
  bd_usage :: int
  bd_archived :: bool
  bd_fraction :: rat
  bd_running :: "(rat \<times> rat \<times> tier) option"

definition settle_micro ::
  "tier \<Rightarrow> rates \<Rightarrow> bool \<Rightarrow> bool \<Rightarrow> rat \<Rightarrow> rat \<Rightarrow> rat \<Rightarrow> int \<times> breakdown" where
  "settle_micro t r powered_on archived cpu_core_hours mem_gib_hours fraction =
     (if archived then
        (let d = disk_micro t r True fraction
         in (d, \<lparr>bd_disk = d, bd_reservation = 0, bd_usage = 0, bd_archived = True,
                 bd_fraction = py_round_nd 4 fraction, bd_running = None\<rparr>))
      else
        (let d = disk_micro t r False fraction
         in if \<not> powered_on
            then (d, \<lparr>bd_disk = d, bd_reservation = 0, bd_usage = 0, bd_archived = False,
                      bd_fraction = py_round_nd 4 fraction, bd_running = None\<rparr>)
            else (let res = reservation_micro t r fraction;
                      use = usage_micro cpu_core_hours mem_gib_hours r
                  in (d + res + use,
                      \<lparr>bd_disk = d, bd_reservation = res, bd_usage = use, bd_archived = False,
                       bd_fraction = py_round_nd 4 fraction,
                       bd_running = Some (py_round_nd 4 cpu_core_hours,
                                          py_round_nd 4 mem_gib_hours, t)\<rparr>))))"

text \<open>\<open>quote\<close>: the itemised price of a tier, in Toman.\<close>

definition to_toman :: "int \<Rightarrow> rat" where
  "to_toman micro = fl64 (of_int micro / of_int MICRO)"

record price_quote =
  q_tier :: tier
  q_disk :: rat
  q_cpu_reservation :: rat
  q_mem_reservation :: rat
  q_cpu_usage_max :: rat
  q_mem_usage_max :: rat
  q_off_per_hour :: rat
  q_idle_per_hour :: rat
  q_max_per_hour :: rat
  q_rates :: rates

definition quote :: "tier \<Rightarrow> rates \<Rightarrow> price_quote" where
  "quote t r =
     \<lparr>q_tier = t,
      q_disk = to_toman (disk_micro t r False 1),
      q_cpu_reservation = py_round_nd 6 (fmul (cpu_cores t) (cpu_reserve r)),
      q_mem_reservation = py_round_nd 6 (fmul (mem_gib t) (mem_reserve r)),
      q_cpu_usage_max = py_round_nd 6 (fmul (cpu_cores t) (cpu_usage r)),
      q_mem_usage_max = py_round_nd 6 (fmul (mem_gib t) (mem_usage r)),
      q_off_per_hour = to_toman (off_hour_micro t r 1),
      q_idle_per_hour = to_toman (idle_hour_micro t r),
      q_max_per_hour = to_toman (max_hour_micro t r),
      q_rates = r\<rparr>"

section \<open>Sign and monotonicity of the components\<close>

definition nonneg_rates :: "rates \<Rightarrow> bool" where
  "nonneg_rates r \<longleftrightarrow> 0 \<le> cpu_reserve r \<and> 0 \<le> cpu_usage r \<and> 0 \<le> mem_reserve r
     \<and> 0 \<le> mem_usage r \<and> 0 \<le> disk r \<and> 0 \<le> disk_archived r"

lemma mk_tier_Inr:
  "mk_tier c m d = Inr t \<longleftrightarrow>
     c \<in> set CPU_OPTIONS_MILLI \<and> m \<in> set MEM_OPTIONS_MIB \<and> 0 < d \<and>
     t = \<lparr>cpu_milli = c, mem_mib = m, disk_gib = d\<rparr>"
  by (auto simp: mk_tier_def)

lemma valid_tier_iff:
  "valid_tier t \<longleftrightarrow> cpu_milli t \<in> set CPU_OPTIONS_MILLI \<and> mem_mib t \<in> set MEM_OPTIONS_MIB
     \<and> 0 < disk_gib t"
  by (auto simp: valid_tier_def mk_tier_Inr)

lemma mk_tier_valid: "mk_tier c m d = Inr t \<Longrightarrow> valid_tier t"
  by (auto simp: mk_tier_Inr valid_tier_iff)

text \<open>The offered sizes are multiples of a half, so they are exact as floats.\<close>

lemma cpu_cores_exact:
  assumes "valid_tier t"
  shows "cpu_cores t = of_int (cpu_milli t) / 1000"
proof -
  from assms have "cpu_milli t \<in> {500, 1000, 2000, 3000}"
    by (auto simp: valid_tier_iff CPU_OPTIONS_MILLI_def)
  moreover have "fl64 (1 / 2) = 1 / 2" by (rule fl64_half_grid [where n = 1]) simp_all
  ultimately show ?thesis by (auto simp: cpu_cores_def fdiv_def int_float_def)
qed

lemma mem_gib_exact:
  assumes "valid_tier t"
  shows "mem_gib t = of_int (mem_mib t) / 1024"
proof -
  from assms have "mem_mib t \<in> {512, 1024, 2048, 3072, 4096, 5120, 6144}"
    by (auto simp: valid_tier_iff MEM_OPTIONS_MIB_def)
  moreover have "fl64 (1 / 2) = 1 / 2" by (rule fl64_half_grid [where n = 1]) simp_all
  ultimately show ?thesis by (auto simp: mem_gib_def fdiv_def int_float_def)
qed

lemma tier_float_nonneg [float_intro]:
  assumes "valid_tier t"
  shows "0 \<le> cpu_cores t" "0 \<le> mem_gib t" "0 \<le> int_float (disk_gib t)"
proof -
  have "0 \<le> cpu_milli t" "0 \<le> mem_mib t" "0 \<le> disk_gib t"
    using assms by (auto simp: valid_tier_iff CPU_OPTIONS_MILLI_def MEM_OPTIONS_MIB_def)
  then show "0 \<le> cpu_cores t" "0 \<le> mem_gib t" "0 \<le> int_float (disk_gib t)"
    by (auto simp: cpu_cores_def mem_gib_def intro!: float_intro)
qed

lemma rates_nonneg [float_intro]:
  assumes "nonneg_rates r"
  shows "0 \<le> cpu_reserve r" "0 \<le> cpu_usage r" "0 \<le> mem_reserve r"
    "0 \<le> mem_usage r" "0 \<le> disk r" "0 \<le> disk_archived r"
  using assms by (auto simp: nonneg_rates_def)

lemma MICRO_pos [simp]: "0 < MICRO" "0 \<le> MICRO" "(0::rat) \<le> of_int MICRO"
  by (simp_all add: MICRO_def)

lemma rne_nonneg: "0 \<le> x \<Longrightarrow> 0 \<le> rne x"
  by (rule rne_ge) simp

lemma disk_micro_nonneg:
  "valid_tier t \<Longrightarrow> nonneg_rates r \<Longrightarrow> 0 \<le> f \<Longrightarrow> 0 \<le> disk_micro t r a f"
  unfolding disk_micro_def Let_def by (auto intro!: rne_nonneg float_intro)

lemma reservation_micro_nonneg:
  "valid_tier t \<Longrightarrow> nonneg_rates r \<Longrightarrow> 0 \<le> f \<Longrightarrow> 0 \<le> reservation_micro t r f"
  unfolding reservation_micro_def by (intro rne_nonneg float_intro) auto

lemma usage_micro_nonneg: "nonneg_rates r \<Longrightarrow> 0 \<le> usage_micro c m r"
  unfolding usage_micro_def by (intro rne_nonneg float_intro) (auto intro: float_intro)

lemma disk_micro_mono:
  assumes "valid_tier t" "nonneg_rates r" "0 \<le> f" "f \<le> g"
  shows "disk_micro t r a f \<le> disk_micro t r a g"
  using assms unfolding disk_micro_def Let_def
  by (auto intro!: rne_mono fmul_mono fmul_nonneg intro: float_intro)

lemma disk_micro_archived_le:
  assumes "valid_tier t" "nonneg_rates r" "0 \<le> f" "disk_archived r \<le> disk r"
  shows "disk_micro t r True f \<le> disk_micro t r False f"
  using assms unfolding disk_micro_def Let_def
  by (auto intro!: rne_mono fmul_mono fmul_nonneg intro: float_intro)

lemma reservation_micro_mono:
  assumes "valid_tier t" "nonneg_rates r" "0 \<le> f" "f \<le> g"
  shows "reservation_micro t r f \<le> reservation_micro t r g"
  using assms unfolding reservation_micro_def
  by (auto intro!: rne_mono fmul_mono fmul_nonneg fadd_nonneg intro: float_intro)

lemma usage_micro_mono:
  assumes "nonneg_rates r" "c \<le> c'" "m \<le> m'"
  shows "usage_micro c m r \<le> usage_micro c' m' r"
  using assms unfolding usage_micro_def
  by (auto intro!: rne_mono fmul_mono fadd_mono fmul_nonneg fadd_nonneg intro: float_intro)

lemmas micro_nonneg = disk_micro_nonneg reservation_micro_nonneg usage_micro_nonneg

lemma settle_micro_within:
  assumes "valid_tier t" and "nonneg_rates r"
    and "0 \<le> f" and "f \<le> 1"
    and "c \<le> cpu_cores t" and "m \<le> mem_gib t"
  shows "fst (settle_micro t r on False c m f) \<le> max_hour_micro t r"
proof -
  have "disk_micro t r False f \<le> disk_micro t r False 1"
    and "reservation_micro t r f \<le> reservation_micro t r 1"
    and "usage_micro c m r \<le> usage_micro (cpu_cores t) (mem_gib t) r"
    using assms by (simp_all add: disk_micro_mono reservation_micro_mono usage_micro_mono)
  moreover have "0 \<le> reservation_micro t r 1" "0 \<le> usage_micro (cpu_cores t) (mem_gib t) r"
    using assms by (simp_all add: micro_nonneg)
  ultimately show ?thesis by (simp add: settle_micro_def max_hour_micro_def Let_def)
qed

section \<open>Properties\<close>

definition default_rates :: rates where
  "default_rates = rates_from_settings Map.empty"

lemma default_rates_eq:
  "default_rates = \<lparr>cpu_reserve = 200, cpu_usage = 100, mem_reserve = 100, mem_usage = 50,
                     disk = 3, disk_archived = 3 / 2\<rparr>"
  by (simp add: default_rates_def rates_from_settings_def rate_setting_def DEFAULT_RATES_def)

lemma nonneg_default_rates: "nonneg_rates default_rates"
  by (simp add: default_rates_eq nonneg_rates_def)

definition default_tier :: tier where
  "default_tier = \<lparr>cpu_milli = 1000, mem_mib = 1024, disk_gib = 14\<rparr>"

lemma valid_default_tier: "valid_tier default_tier"
  by (simp add: valid_tier_iff default_tier_def CPU_OPTIONS_MILLI_def MEM_OPTIONS_MIB_def)

text \<open>The gate is a ceiling: for an offered tier and non-negative rates, a period of at
  most one hour whose measured usage is within the tier is never billed more than the amount
  the credit gate asked for before the hour began, rounding of floats included.\<close>
lemma bill_within_gate:
  assumes "valid_tier t" and "nonneg_rates r"
    and "0 \<le> f" and "f \<le> 1"
    and "c \<le> cpu_cores t" and "m \<le> mem_gib t"
  shows "fst (settle_micro t r on False c m f) \<le> max_hour_micro t r"
  using assms by (rule settle_micro_within)

lemma bill_within_gate_witness:
  "fst (settle_micro default_tier default_rates True False (1/2) (1/2) (3/4))
     \<le> max_hour_micro default_tier default_rates"
proof (rule bill_within_gate [OF valid_default_tier nonneg_default_rates])
  show "1/2 \<le> cpu_cores default_tier" "1/2 \<le> mem_gib default_tier"
    by (simp_all add: cpu_cores_exact mem_gib_exact valid_default_tier)
       (simp_all add: default_tier_def)
qed simp_all

text \<open>The ledger's breakdown accounts for the whole amount: its disk, reservation and
  usage parts add up to the amount charged, in all three states (archived, off, on), and a
  machine that is off or archived pays for disk only.\<close>
lemma settle_breakdown_adds_up:
  "bd_disk (snd (settle_micro t r on ar c m f)) + bd_reservation (snd (settle_micro t r on ar c m f))
     + bd_usage (snd (settle_micro t r on ar c m f)) = fst (settle_micro t r on ar c m f)
   \<and> fst (settle_micro t r False False c m f) = disk_micro t r False f
   \<and> fst (settle_micro t r on True c m f) = disk_micro t r True f"
  by (simp add: settle_micro_def Let_def)

text \<open>The published worked example: the default tier (1 core, 1 GiB, 14 GiB disk) at the
  default rates costs 42 Toman an hour off, 342 idle and 21 archived, and the gate asks 492.\<close>
lemma default_tier_prices:
  "off_hour_micro default_tier default_rates 1 = 42 * MICRO
   \<and> idle_hour_micro default_tier default_rates = 342 * MICRO
   \<and> max_hour_micro default_tier default_rates = 492 * MICRO
   \<and> fst (settle_micro default_tier default_rates False True 0 0 1) = 21 * MICRO"
proof -
  have [simp]: "fl64 (14 * (3 / 2)) = 21" by simp
  show ?thesis
    by (simp add: off_hour_micro_def idle_hour_micro_def max_hour_micro_def settle_micro_def
        disk_micro_def reservation_micro_def usage_micro_def default_rates_eq default_tier_def
        cpu_cores_def mem_gib_def fdiv_def fmul_def fadd_def int_float_def MICRO_def Let_def)
qed

text \<open>What is charged never falls below the floor of the state: every bill is
  non-negative, an idle running hour costs at least an hour switched off, and the gate asks at
  least the idle hour.\<close>
lemma price_order:
  assumes "valid_tier t" and "nonneg_rates r" and "0 \<le> f"
  shows "0 \<le> fst (settle_micro t r on ar c m f)
    \<and> off_hour_micro t r 1 \<le> idle_hour_micro t r \<and> idle_hour_micro t r \<le> max_hour_micro t r"
  using assms by (simp add: settle_micro_def off_hour_micro_def idle_hour_micro_def
      max_hour_micro_def Let_def micro_nonneg)

lemma price_order_witness:
  "0 \<le> fst (settle_micro default_tier default_rates True False 0 0 (1/2))"
  using price_order [OF valid_default_tier nonneg_default_rates, of "1/2" True False 0 0] by simp

text \<open>The limits given to the container are those of the tier: for an offered size the
  CPU quota per 100 ms period is exactly the millicores, and it never exceeds the cores the
  machine can see.\<close>
lemma incus_limits_match_tier:
  assumes "valid_tier t"
  shows "\<exists>v q. incus_config t =
      [(''limits.cpu'', show_int v), (''limits.cpu.allowance'', show_int q @ ''ms/100ms''),
       (''limits.memory'', show_int (mem_mib t) @ ''MiB'')]
    \<and> q * 10 = cpu_milli t \<and> q \<le> 100 * v \<and> 1 \<le> v \<and> 100 * (v - 1) < q"
proof -
  from assms have c: "cpu_milli t \<in> {500, 1000, 2000, 3000}"
    by (auto simp: valid_tier_iff CPU_OPTIONS_MILLI_def)
  have "\<lceil>fdiv (int_float (cpu_milli t)) 1000\<rceil> = \<lceil>of_int (cpu_milli t) / (1000::rat)\<rceil>"
    using cpu_cores_exact [OF assms] by (simp only: cpu_cores_def)
  with c show ?thesis unfolding incus_config_def Let_def
    by (intro exI [of _ "max 1 \<lceil>of_int (cpu_milli t) / (1000::rat)\<rceil>"]
        exI [of _ "cpu_milli t div 10"]) auto
qed

lemma incus_limits_match_tier_witness:
  "\<exists>v q. incus_config default_tier =
      [(''limits.cpu'', show_int v), (''limits.cpu.allowance'', show_int q @ ''ms/100ms''),
       (''limits.memory'', show_int (mem_mib default_tier) @ ''MiB'')]
    \<and> q * 10 = cpu_milli default_tier \<and> q \<le> 100 * v \<and> 1 \<le> v \<and> 100 * (v - 1) < q"
  by (rule incus_limits_match_tier [OF valid_default_tier])

end
