(* ===== verification/AiPricing.thy ===== *)
theory AiPricing
  imports Pricing
begin

text \<open>
  \<open>control/mmd/billing/aipricing.py\<close>: the price of AI tokens. The five metered
  categories, the seed tables of both suppliers, the longest-prefix match from a logged
  model name to its price, the discount multiplier and the billable amount. The lemmas show
  that the match is the longest one whatever the order of the table, and that a discount
  never raises a price and never makes it negative.
\<close>

section \<open>Categories and prices\<close>

datatype category = CatInput | CatWrite5m | CatWrite1h | CatRead | CatOutput

definition CATEGORIES :: "category list" where
  "CATEGORIES = [CatInput, CatWrite5m, CatWrite1h, CatRead, CatOutput]"

record model_price =
  mp_model :: string
  mp_input :: rat
  mp_cache_write_5m :: rat
  mp_cache_write_1h :: rat
  mp_cache_read :: rat
  mp_output :: rat

abbreviation mp :: "string \<Rightarrow> rat \<Rightarrow> rat \<Rightarrow> rat \<Rightarrow> rat \<Rightarrow> rat \<Rightarrow> model_price" where
  "mp m i w5 w1 rd out \<equiv> \<lparr>mp_model = m, mp_input = i, mp_cache_write_5m = w5,
     mp_cache_write_1h = w1, mp_cache_read = rd, mp_output = out\<rparr>"

text \<open>A decimal literal of the source, read as the nearest float.\<close>

definition usd :: "int \<Rightarrow> int \<Rightarrow> rat" where
  "usd n d = fl64 (of_int n / of_int d)"

fun per_category :: "model_price \<Rightarrow> category \<Rightarrow> rat" where
  "per_category p CatInput = mp_input p"
| "per_category p CatWrite5m = mp_cache_write_5m p"
| "per_category p CatWrite1h = mp_cache_write_1h p"
| "per_category p CatRead = mp_cache_read p"
| "per_category p CatOutput = mp_output p"

definition SEED_PRICES :: "(string \<times> model_price) list" where
  "SEED_PRICES =
    [(''claude-fable-5'', mp ''claude-fable-5'' (usd 10 1) (usd 25 2) (usd 20 1) (usd 1 1) (usd 50 1)),
     (''claude-mythos-5'', mp ''claude-mythos-5'' (usd 10 1) (usd 25 2) (usd 20 1) (usd 1 1) (usd 50 1)),
     (''claude-opus-5'', mp ''claude-opus-5'' (usd 5 1) (usd 25 4) (usd 10 1) (usd 1 2) (usd 25 1)),
     (''claude-opus-4-8'', mp ''claude-opus-4-8'' (usd 5 1) (usd 25 4) (usd 10 1) (usd 1 2) (usd 25 1)),
     (''claude-opus-4-7'', mp ''claude-opus-4-7'' (usd 5 1) (usd 25 4) (usd 10 1) (usd 1 2) (usd 25 1)),
     (''claude-opus-4-6'', mp ''claude-opus-4-6'' (usd 5 1) (usd 25 4) (usd 10 1) (usd 1 2) (usd 25 1)),
     (''claude-opus-4-5'', mp ''claude-opus-4-5'' (usd 5 1) (usd 25 4) (usd 10 1) (usd 1 2) (usd 25 1)),
     (''claude-opus-4-1'', mp ''claude-opus-4-1'' (usd 15 1) (usd 75 4) (usd 30 1) (usd 3 2) (usd 75 1)),
     (''claude-opus-4'', mp ''claude-opus-4'' (usd 15 1) (usd 75 4) (usd 30 1) (usd 3 2) (usd 75 1)),
     (''claude-sonnet-5'', mp ''claude-sonnet-5'' (usd 2 1) (usd 5 2) (usd 4 1) (usd 1 5) (usd 10 1)),
     (''claude-sonnet-4-6'', mp ''claude-sonnet-4-6'' (usd 3 1) (usd 15 4) (usd 6 1) (usd 3 10) (usd 15 1)),
     (''claude-sonnet-4-5'', mp ''claude-sonnet-4-5'' (usd 3 1) (usd 15 4) (usd 6 1) (usd 3 10) (usd 15 1)),
     (''claude-sonnet-4'', mp ''claude-sonnet-4'' (usd 3 1) (usd 15 4) (usd 6 1) (usd 3 10) (usd 15 1)),
     (''claude-haiku-4-5'', mp ''claude-haiku-4-5'' (usd 1 1) (usd 5 4) (usd 2 1) (usd 1 10) (usd 5 1)),
     (''claude-haiku-3-5'', mp ''claude-haiku-3-5'' (usd 4 5) (usd 1 1) (usd 8 5) (usd 2 25) (usd 4 1))]"

definition CODEX_SEED_PRICES :: "(string \<times> model_price) list" where
  "CODEX_SEED_PRICES =
    [(''gpt-5.6-cyber'', mp ''gpt-5.6-cyber'' (usd 25 2) (usd 125 8) (usd 125 8) (usd 5 4) (usd 75 1)),
     (''gpt-5.6-sol'', mp ''gpt-5.6-sol'' (usd 5 1) (usd 25 4) (usd 25 4) (usd 1 2) (usd 30 1)),
     (''gpt-5.6-terra'', mp ''gpt-5.6-terra'' (usd 2 1) (usd 5 2) (usd 5 2) (usd 1 5) (usd 12 1)),
     (''gpt-5.6-luna'', mp ''gpt-5.6-luna'' (usd 1 5) (usd 1 4) (usd 1 4) (usd 1 50) (usd 6 5)),
     (''gpt-5.6'', mp ''gpt-5.6'' (usd 5 1) (usd 25 4) (usd 25 4) (usd 1 2) (usd 30 1)),
     (''codex-'', mp ''codex-'' (usd 5 1) (usd 25 4) (usd 25 4) (usd 1 2) (usd 30 1))]"

datatype service = Claude | Codex | Openrouter

fun service_name :: "service \<Rightarrow> string" where
  "service_name Claude = ''claude''"
| "service_name Codex = ''codex''"
| "service_name Openrouter = ''openrouter''"

definition SEED_BY_SERVICE :: "service \<Rightarrow> (string \<times> model_price) list option" where
  "SEED_BY_SERVICE s = (case s of Claude \<Rightarrow> Some SEED_PRICES
     | Codex \<Rightarrow> Some CODEX_SEED_PRICES | Openrouter \<Rightarrow> None)"

definition DEFAULT_AI_SETTINGS :: "string \<rightharpoonup> rat" where
  "DEFAULT_AI_SETTINGS =
     [''usd_to_toman'' \<mapsto> 200000, ''claude_discount_percent'' \<mapsto> 90,
      ''codex_discount_percent'' \<mapsto> 90]"

definition discount_key :: "service \<Rightarrow> string" where
  "discount_key s = service_name s @ ''_discount_percent''"

section \<open>Resolving a model name\<close>

text \<open>The loop of \<open>resolve\<close> over the dict's items, \<open>best\<close> being what it has so far.\<close>

fun resolve_loop ::
  "string \<Rightarrow> model_price option \<Rightarrow> (string \<times> model_price) list \<Rightarrow> model_price option" where
  "resolve_loop m best [] = best"
| "resolve_loop m best ((key, price) # ps) =
     (if startswith m key
         \<and> (case best of None \<Rightarrow> True | Some b \<Rightarrow> length key > length (mp_model b))
      then resolve_loop m (Some (price\<lparr>mp_model := key\<rparr>)) ps
      else resolve_loop m best ps)"

definition resolve :: "string \<Rightarrow> (string \<times> model_price) list \<Rightarrow> model_price option" where
  "resolve m prices = (if m = [] then None else resolve_loop m None prices)"

section \<open>From tokens to money\<close>

type_synonym tokens = "category \<rightharpoonup> int"

definition tok :: "tokens \<Rightarrow> category \<Rightarrow> int" where
  "tok t c = (case t c of None \<Rightarrow> 0 | Some n \<Rightarrow> n)"

definition usd_for :: "tokens \<Rightarrow> model_price \<Rightarrow> rat" where
  "usd_for t p =
     fdiv (fsum (map (\<lambda>c. fmul (int_float (max 0 (tok t c))) (per_category p c)) CATEGORIES))
          1000000"

definition discount_multiplier :: "rat \<Rightarrow> rat" where
  "discount_multiplier percent = max 0 (min 1 (fsub 1 (fdiv percent 100)))"

definition toman_micro :: "tokens \<Rightarrow> model_price \<Rightarrow> rat \<Rightarrow> rat \<Rightarrow> int" where
  "toman_micro t p usd_to_toman discount_percent =
     (let toman = fmul (fmul (usd_for t p) usd_to_toman) (discount_multiplier discount_percent)
      in max 0 (rne (fmul toman (of_int MICRO))))"

record ai_category = ac_tokens :: int ac_usd_per_mtok :: rat ac_usd :: rat

record ai_breakdown =
  ab_model :: string
  ab_categories :: "(category \<times> ai_category) list"
  ab_usd :: rat
  ab_usd_to_toman :: rat
  ab_discount_percent :: rat
  ab_toman :: rat

definition ai_breakdown_of :: "tokens \<Rightarrow> model_price \<Rightarrow> rat \<Rightarrow> rat \<Rightarrow> ai_breakdown" where
  "ai_breakdown_of t p usd_to_toman discount_percent =
     (let mult = discount_multiplier discount_percent;
          u = usd_for t p
      in \<lparr>ab_model = mp_model p,
          ab_categories =
            map (\<lambda>c. (c, \<lparr>ac_tokens = tok t c, ac_usd_per_mtok = per_category p c,
                  ac_usd = py_round_nd 6 (fdiv (fmul (int_float (tok t c)) (per_category p c))
                                               1000000)\<rparr>))
              (filter (\<lambda>c. t c \<noteq> None \<and> tok t c \<noteq> 0) CATEGORIES),
          ab_usd = py_round_nd 6 u,
          ab_usd_to_toman = usd_to_toman,
          ab_discount_percent = discount_percent,
          ab_toman = py_round_nd 2 (fmul (fmul u usd_to_toman) mult)\<rparr>)"

section \<open>Lemmas\<close>

lemma resolve_loop_keeps:
  "resolve_loop m (Some b) ps = Some r \<Longrightarrow> length (mp_model b) \<le> length (mp_model r)"
proof (induction ps arbitrary: b)
  case Nil
  then show ?case by simp
next
  case (Cons kp ps)
  then show ?case by (cases kp) (auto split: if_splits dest!: Cons.IH)
qed

lemma resolve_loop_None:
  "resolve_loop m best ps = None \<longleftrightarrow> best = None \<and> (\<forall>(k, p) \<in> set ps. \<not> startswith m k)"
  by (induction m best ps rule: resolve_loop.induct) (auto split: option.splits)

lemma resolve_loop_max:
  "resolve_loop m best ps = Some r \<Longrightarrow> (k, p) \<in> set ps \<Longrightarrow> startswith m k \<Longrightarrow>
     length k \<le> length (mp_model r)"
proof (induction m best ps rule: resolve_loop.induct)
  case (2 m best key price ps)
  then show ?case
    by (auto split: if_splits option.splits dest: resolve_loop_keeps)
qed simp

lemma resolve_loop_member:
  "resolve_loop m best ps = Some r \<Longrightarrow>
     best = Some r \<or> (\<exists>(k, p) \<in> set ps. startswith m k \<and> r = p\<lparr>mp_model := k\<rparr>)"
  by (induction m best ps rule: resolve_loop.induct) (auto split: if_splits)

lemma discount_multiplier_bounds: "0 \<le> discount_multiplier d" "discount_multiplier d \<le> 1"
  by (simp_all add: discount_multiplier_def)

lemma discount_multiplier_antimono: "d \<le> e \<Longrightarrow> discount_multiplier e \<le> discount_multiplier d"
  unfolding discount_multiplier_def
  by (intro max.mono min.mono order_refl fsub_mono fdiv_mono) auto

definition nonneg_price :: "model_price \<Rightarrow> bool" where
  "nonneg_price p \<longleftrightarrow> (\<forall>c \<in> set CATEGORIES. 0 \<le> per_category p c)"

lemma set_CATEGORIES [simp]: "set CATEGORIES = UNIV"
  unfolding CATEGORIES_def by (auto, metis category.exhaust)

lemma usd_for_nonneg: "nonneg_price p \<Longrightarrow> 0 \<le> usd_for t p"
  unfolding usd_for_def nonneg_price_def
  by (intro fdiv_nonneg fsum_from_nonneg) (auto intro!: float_intro)

lemma usd_for_mono:
  assumes "nonneg_price p" and "\<And>c. tok t c \<le> tok u c"
  shows "usd_for t p \<le> usd_for u p"
  unfolding usd_for_def
proof (intro fdiv_mono fsum_from_mono)
  show "list_all2 (\<le>)
     (map (\<lambda>c. fmul (int_float (max 0 (tok t c))) (per_category p c)) CATEGORIES)
     (map (\<lambda>c. fmul (int_float (max 0 (tok u c))) (per_category p c)) CATEGORIES)"
    using assms by (auto simp: list_all2_map1 list_all2_map2 list_all2_same nonneg_price_def
        intro!: fmul_mono int_float_mono int_float_nonneg max.mono)
qed simp_all

section \<open>Properties\<close>

text \<open>A model name is priced by its longest matching prefix, in whatever order the
  price table is listed: a result is an entry of the table whose key is a prefix of the name,
  no matching key is longer, and there is no result exactly when the name is empty or no key
  matches.\<close>
lemma resolve_longest_prefix:
  "(case resolve m prices of
      None \<Rightarrow> m = [] \<or> filter (\<lambda>(k, p). startswith m k) prices = []
    | Some r \<Rightarrow> (\<exists>(k, p) \<in> set prices. startswith m k \<and> r = p\<lparr>mp_model := k\<rparr>)
        \<and> list_all (\<lambda>(k, p). length k \<le> length (mp_model r))
             (filter (\<lambda>(k, p). startswith m k) prices))"
proof (cases "resolve m prices")
  case None
  then show ?thesis
    by (auto simp: resolve_def resolve_loop_None filter_empty_conv split: if_splits)
next
  case (Some r)
  then have l: "resolve_loop m None prices = Some r" by (auto simp: resolve_def split: if_splits)
  with Some show ?thesis
    using resolve_loop_member [OF l] resolve_loop_max [OF l] by (auto simp: list_all_iff)
qed

text \<open>A seeded price is found under its own name: with the keys of a table distinct, each
  key resolves to its own entry, so \<open>claude-opus-4-8\<close> is never priced as
  \<open>claude-opus-4\<close>.\<close>
lemma resolve_own_key:
  assumes "distinct (map fst prices)" and "(k, p) \<in> set prices" and "k \<noteq> []"
  shows "resolve k prices = Some (p\<lparr>mp_model := k\<rparr>)"
proof -
  have "startswith k k" by (simp add: startswith_iff)
  then obtain r where l: "resolve_loop k None prices = Some r"
    using assms(2) resolve_loop_None [of k None prices] by (cases "resolve_loop k None prices") auto
  from resolve_loop_member [OF l] obtain k' p' where k': "(k', p') \<in> set prices"
    "startswith k k'" "r = p'\<lparr>mp_model := k'\<rparr>" by auto
  have "length k \<le> length (mp_model r)" using resolve_loop_max [OF l assms(2)]
    by (simp add: \<open>startswith k k\<close>)
  with k' have "length k = length k'" using startswith_length by fastforce
  with k' \<open>startswith k k\<close> have "k' = k" using startswith_same_length by metis
  moreover from this k' assms(1,2) have "p' = p" by (metis eq_key_imp_eq_value)
  ultimately show ?thesis using l k' assms(3) by (simp add: resolve_def)
qed

lemma seed_keys_distinct:
  "distinct (map fst SEED_PRICES)" "distinct (map fst CODEX_SEED_PRICES)"
  by (simp_all add: SEED_PRICES_def CODEX_SEED_PRICES_def)

lemma resolve_own_key_witness:
  "map_option mp_model (resolve ''claude-opus-4-8'' SEED_PRICES) = Some ''claude-opus-4-8''"
proof -
  have "(''claude-opus-4-8'', mp ''claude-opus-4-8'' (usd 5 1) (usd 25 4) (usd 10 1) (usd 1 2) (usd 25 1))
    \<in> set SEED_PRICES" by (simp add: SEED_PRICES_def)
  from resolve_own_key [OF seed_keys_distinct(1) this] show ?thesis by simp
qed

text \<open>A discount can neither invert a charge nor raise it: for non-negative prices and
  exchange rate the charge is non-negative, and a larger discount percentage never charges
  more, whatever percentages are stored.\<close>
lemma discount_never_raises:
  assumes "nonneg_price p" and "0 \<le> rate" and "d \<le> e"
  shows "0 \<le> toman_micro t p rate e \<and> toman_micro t p rate e \<le> toman_micro t p rate d"
proof -
  show ?thesis
    unfolding toman_micro_def Let_def
    using discount_multiplier_antimono [OF assms(3)] discount_multiplier_bounds
      usd_for_nonneg [OF assms(1)] assms(2)
    by (intro conjI max.cobounded1 max.mono rne_mono fmul_mono fmul_nonneg) simp_all
qed

lemma discount_never_raises_witness:
  "toman_micro [CatInput \<mapsto> 1000] (mp ''m'' 5 6 10 1 25) 200000 90
     \<le> toman_micro [CatInput \<mapsto> 1000] (mp ''m'' 5 6 10 1 25) 200000 50"
proof -
  have "nonneg_price (mp ''m'' 5 6 10 1 25)"
    by (simp add: nonneg_price_def CATEGORIES_def del: set_CATEGORIES)
  from discount_never_raises [OF this, of 200000 50 90 "[CatInput \<mapsto> 1000]"]
  show ?thesis by simp
qed

text \<open>Using more tokens never costs less: for non-negative prices and exchange rate the
  charge is monotone in every token category.\<close>
lemma charge_monotone_in_tokens:
  assumes "nonneg_price p" and "0 \<le> rate" and "\<And>c. tok t c \<le> tok u c"
  shows "toman_micro t p rate d \<le> toman_micro u p rate d"
  unfolding toman_micro_def Let_def
  using usd_for_mono [OF assms(1,3)] usd_for_nonneg [OF assms(1)] assms(2) discount_multiplier_bounds
  by (intro max.mono rne_mono fmul_mono fmul_nonneg) simp_all

lemma charge_monotone_in_tokens_witness:
  "toman_micro [CatInput \<mapsto> 1000] (mp ''m'' 5 6 10 1 25) 200000 90
     \<le> toman_micro [CatInput \<mapsto> 2000, CatRead \<mapsto> 7] (mp ''m'' 5 6 10 1 25) 200000 90"
proof (rule charge_monotone_in_tokens)
  show "nonneg_price (mp ''m'' 5 6 10 1 25)"
    by (simp add: nonneg_price_def CATEGORIES_def del: set_CATEGORIES)
  show "tok [CatInput \<mapsto> 1000] c \<le> tok [CatInput \<mapsto> 2000, CatRead \<mapsto> 7] c" for c
    by (simp add: tok_def)
qed simp

end
