(* ===== verification/Admission.thy ===== *)
theory Admission
  imports Pricing
begin

text \<open>
  \<open>control/mmd/scheduler/admission.py\<close>: CPU and memory are claimed at power-on. The
  capacity of the host, the decision to start one more machine, and the proof that machines
  admitted one after the other never claim more than the host may schedule. The number of
  cores and the memory of the host, which the code reads from the operating system, are
  arguments.
\<close>

section \<open>Capacity\<close>

definition ADMISSION_DEFAULTS :: "string \<rightharpoonup> rat" where
  "ADMISSION_DEFAULTS =
     [''host_reserve_cores'' \<mapsto> 1, ''host_reserve_mem_gib'' \<mapsto> 2,
      ''overcommit_cpu'' \<mapsto> 2, ''overcommit_mem'' \<mapsto> 1]"

record capacity =
  total_cores :: rat
  total_mem_gib :: rat
  reserve_cores :: rat
  reserve_mem_gib :: rat
  overcommit_cpu :: rat
  overcommit_mem :: rat

definition schedulable_cores :: "capacity \<Rightarrow> rat" where
  "schedulable_cores cap =
     max 0 (fmul (fsub (total_cores cap) (reserve_cores cap)) (overcommit_cpu cap))"

definition schedulable_mem_gib :: "capacity \<Rightarrow> rat" where
  "schedulable_mem_gib cap =
     max 0 (fmul (fsub (total_mem_gib cap) (reserve_mem_gib cap)) (overcommit_mem cap))"

text \<open>
  \<open>host_capacity\<close>: \<open>cpu_count\<close> is \<open>os.cpu_count() or 1\<close> and \<open>mem_kb\<close> the
  \<open>MemTotal\<close> line. A stored value that does not parse raises \<open>ValueError\<close>
  (\<open>None\<close>): unlike the rate card, there is no fallback here.
\<close>

definition capacity_setting :: "(string \<rightharpoonup> string) \<Rightarrow> string \<Rightarrow> rat option" where
  "capacity_setting s k =
     (case s k of None \<Rightarrow> ADMISSION_DEFAULTS k | Some v \<Rightarrow> py_float v)"

definition host_capacity :: "int \<Rightarrow> int \<Rightarrow> (string \<rightharpoonup> string) \<Rightarrow> capacity option" where
  "host_capacity cpu_count mem_kb s =
     (case (capacity_setting s ''host_reserve_cores'', capacity_setting s ''host_reserve_mem_gib'',
            capacity_setting s ''overcommit_cpu'', capacity_setting s ''overcommit_mem'') of
        (Some rc, Some rm, Some oc, Some om) \<Rightarrow>
          Some \<lparr>total_cores = int_float cpu_count,
                total_mem_gib = fdiv (int_float mem_kb) 1048576,
                reserve_cores = rc, reserve_mem_gib = rm,
                overcommit_cpu = oc, overcommit_mem = om\<rparr>
      | _ \<Rightarrow> None)"

section \<open>The decision\<close>

datatype admission_result =
  Admitted (free_cores: rat) (free_mem_gib: rat)
| NoMemory (free_cores: rat) (free_mem_gib: rat)
| NoCpu (free_cores: rat) (free_mem_gib: rat)

definition allowed :: "admission_result \<Rightarrow> bool" where
  "allowed r = (case r of Admitted _ _ \<Rightarrow> True | _ \<Rightarrow> False)"

definition can_start ::
  "capacity \<Rightarrow> (rat \<times> rat) list \<Rightarrow> rat \<Rightarrow> rat \<Rightarrow> admission_result" where
  "can_start cap running want_cores want_mem_gib =
     (let used_cores = fsum (map fst running);
          used_mem = fsum (map snd running);
          free_c = fsub (schedulable_cores cap) used_cores;
          free_m = fsub (schedulable_mem_gib cap) used_mem
      in if want_mem_gib > free_m then NoMemory free_c free_m
         else if want_cores > free_c then NoCpu free_c free_m
         else Admitted (fsub free_c want_cores) (fsub free_m want_mem_gib))"

section \<open>Sizes that are exact as floats\<close>

text \<open>
  Every offered size is a non-negative multiple of a half, and so is every sum of them.
  On this grid the sums and differences the decision computes are exact, which is why
  rounding never lets one machine too many start.
\<close>

definition half_grid :: "rat \<Rightarrow> bool" where
  "half_grid x \<longleftrightarrow> (\<exists>n::int. x * 2 = of_int n)"

lemma half_grid_add: "half_grid x \<Longrightarrow> half_grid y \<Longrightarrow> half_grid (x + y)"
  unfolding half_grid_def by (metis of_int_add distrib_right)

lemma half_grid_diff: "half_grid x \<Longrightarrow> half_grid y \<Longrightarrow> half_grid (x - y)"
  unfolding half_grid_def by (metis of_int_diff left_diff_distrib)

lemma half_grid_0 [simp]: "half_grid 0"
  unfolding half_grid_def by (rule exI [of _ 0]) simp

lemma fl64_half_grid_exact:
  assumes "half_grid x" and "\<bar>x\<bar> \<le> 2 ^ 51"
  shows "fl64 x = x"
proof -
  from assms(1) obtain n :: int where n: "x * 2 = of_int n" by (auto simp: half_grid_def)
  have "\<bar>of_int n\<bar> \<le> (of_int (2 ^ 53) :: rat)" using assms(2) n by (simp flip: n add: abs_mult)
  then have "\<bar>n\<bar> \<le> 2 ^ 53" by (simp only: of_int_abs [symmetric] of_int_le_iff)
  with n show ?thesis by (rule fl64_half_grid)
qed

lemma fsum_from_half_grid:
  assumes "half_grid a" "0 \<le> a" and "\<forall>x \<in> set xs. half_grid x \<and> 0 \<le> x"
    and "a + sum_list xs \<le> 2 ^ 51"
  shows "fsum_from a xs = a + sum_list xs \<and> half_grid (a + sum_list xs)"
  using assms
proof (induction xs arbitrary: a)
  case Nil
  then show ?case by simp
next
  case (Cons x xs)
  have "0 \<le> sum_list xs" using Cons.prems(3) by (intro sum_list_nonneg) auto
  then have "fl64 (a + x) = a + x" using Cons.prems
    by (intro fl64_half_grid_exact half_grid_add) auto
  with Cons.prems show ?case
    using Cons.IH [of "a + x"] by (auto simp: fadd_def half_grid_add add.assoc)
qed

text \<open>A wanted amount that fits the rounded difference fits the exact one.\<close>

lemma fits_exactly:
  assumes cap: "is_float cap" "0 \<le> cap"
    and u: "half_grid u" "0 \<le> u" and w: "half_grid w" "0 < w" and bound: "u + w \<le> 2 ^ 51"
    and fits: "w \<le> fsub cap u"
  shows "u + w \<le> cap"
proof (rule ccontr)
  assume "\<not> u + w \<le> cap"
  then have less: "cap < u + w" by simp
  have pos: "u \<le> cap"
  proof (rule ccontr)
    assume "\<not> u \<le> cap"
    then have "fsub cap u \<le> 0" using b64.mono [of "cap - u" 0] by (simp add: fsub_def)
    with fits w show False by simp
  qed
  obtain n k where nk: "cap = of_int n * 2 powi k" "\<bar>n\<bar> \<le> 2 ^ 53" "- 1074 \<le> k"
    using cap(1) representable_fl64 [of cap] by (auto simp: is_float_def representable_def)
  obtain m :: int where m: "u * 2 = of_int m" using u by (auto simp: half_grid_def)
  have "fl64 (cap - u) = cap - u"
  proof (cases "- 1 \<le> k")
    case True
    have "cap * 2 = of_int n * 2 powi (k + 1)" by (simp add: nk(1) power_int_add)
    also have "\<dots> = of_int (n * 2 ^ nat (k + 1))" using True by (simp add: power_int_nonneg_exp)
    finally have "half_grid cap" unfolding half_grid_def by blast
    then show ?thesis using u pos less bound w
      by (intro fl64_half_grid_exact half_grid_diff) auto
  next
    case False
    then have "u = of_int m * 2 powi (- 1 - k) * 2 powi k"
      using m by (simp add: mult.assoc power_int_minus field_simps flip: power_int_add)
    moreover have "(2::rat) powi (- 1 - k) = of_int (2 ^ nat (- 1 - k))"
      using False by (simp add: power_int_nonneg_exp)
    ultimately have d: "cap - u = of_int (n - m * 2 ^ nat (- 1 - k)) * 2 powi k"
      by (simp add: nk(1) algebra_simps)
    let ?d = "n - m * 2 ^ nat (- 1 - k)"
    have p: "(0::rat) < 2 powi k" by simp
    have "0 \<le> cap - u" using pos by simp
    then have "0 * 2 powi k \<le> of_int ?d * (2::rat) powi k" by (simp only: d mult_zero_left)
    then have "(0::rat) \<le> of_int ?d" using p by (rule mult_right_le_imp_le)
    moreover have "cap - u \<le> cap" using u by simp
    then have "of_int ?d * (2::rat) powi k \<le> of_int n * 2 powi k" by (simp only: d flip: nk(1))
    then have "of_int ?d \<le> (of_int n :: rat)" using p by (rule mult_right_le_imp_le)
    ultimately have "0 \<le> ?d" "?d \<le> n" by (simp_all only: of_int_0_le_iff of_int_le_iff)
    then have "\<bar>?d\<bar> \<le> 2 ^ 53" using nk(2) by simp
    then show ?thesis unfolding d
      by (intro fl64_exact) (use nk(3) in \<open>unfold representable_def, blast\<close>)
  qed
  with fits less show False by (simp add: fsub_def)
qed

section \<open>Machines admitted one after the other\<close>

text \<open>
  The running machines of a host: a machine of an offered size joins when \<open>can_start\<close>
  allows it, and any machine may stop.
\<close>

inductive admitted :: "capacity \<Rightarrow> (rat \<times> rat) list \<Rightarrow> bool" for cap where
  none_running: "admitted cap []"
| power_on: "admitted cap run \<Longrightarrow> valid_tier t \<Longrightarrow>
    allowed (can_start cap run (cpu_cores t) (mem_gib t)) \<Longrightarrow>
    admitted cap (run @ [(cpu_cores t, mem_gib t)])"
| power_off: "admitted cap (xs @ x # ys) \<Longrightarrow> admitted cap (xs @ ys)"

inductive_cases admitted_nonempty: "admitted cap (x # xs)"

lemma allowed_iff:
  "allowed (can_start cap run c m) \<longleftrightarrow>
     m \<le> fsub (schedulable_mem_gib cap) (fsum (map snd run)) \<and>
     c \<le> fsub (schedulable_cores cap) (fsum (map fst run))"
  by (auto simp: allowed_def can_start_def Let_def)

definition size_ok :: "rat \<Rightarrow> bool" where
  "size_ok x \<longleftrightarrow> half_grid x \<and> 0 < x \<and> x \<le> 2 ^ 49"

lemma offered_size_ok:
  assumes "valid_tier t"
  shows "size_ok (cpu_cores t)" "size_ok (mem_gib t)"
proof -
  have c: "cpu_milli t \<in> {500, 1000, 2000, 3000}" and
    m: "mem_mib t \<in> {512, 1024, 2048, 3072, 4096, 5120, 6144}"
    using assms by (auto simp: valid_tier_iff CPU_OPTIONS_MILLI_def MEM_OPTIONS_MIB_def)
  have "\<exists>n::int. cpu_cores t * 2 = of_int n \<and> 0 < cpu_cores t \<and> cpu_cores t \<le> 2 ^ 49"
    using c by (intro exI [of _ "cpu_milli t div 500"]) (auto simp: cpu_cores_exact [OF assms])
  then show "size_ok (cpu_cores t)" by (auto simp: size_ok_def half_grid_def)
  have "\<exists>n::int. mem_gib t * 2 = of_int n \<and> 0 < mem_gib t \<and> mem_gib t \<le> 2 ^ 49"
    using m by (intro exI [of _ "mem_mib t div 512"]) (auto simp: mem_gib_exact [OF assms])
  then show "size_ok (mem_gib t)" by (auto simp: size_ok_def half_grid_def)
qed

lemma is_float_schedulable:
  "is_float (schedulable_cores cap)" "is_float (schedulable_mem_gib cap)"
  by (simp_all add: schedulable_cores_def schedulable_mem_gib_def max_def)

text \<open>One resource, one more machine: what the decision lets through still fits.\<close>

lemma one_more_fits:
  assumes "is_float cap" "0 \<le> cap" "cap \<le> 2 ^ 49"
    and xs: "\<forall>x \<in> set xs. size_ok x" and "sum_list xs \<le> cap"
    and "size_ok w" and "w \<le> fsub cap (fsum xs)"
  shows "sum_list xs + w \<le> cap"
proof -
  have nn: "0 \<le> sum_list xs" using xs by (intro sum_list_nonneg) (auto simp: size_ok_def)
  have half: "\<forall>x \<in> set xs. half_grid x \<and> 0 \<le> x" using xs by (auto simp: size_ok_def)
  have "0 + sum_list xs \<le> 2 ^ 51" using assms(3,5) by simp
  from fsum_from_half_grid [OF half_grid_0 order_refl half this]
  have eq: "fsum xs = sum_list xs" and hg: "half_grid (sum_list xs)" by simp_all
  have w: "half_grid w" "0 < w" "w \<le> 2 ^ 49" using assms(6) by (simp_all add: size_ok_def)
  have "sum_list xs + w \<le> 2 ^ 51" using assms(3,5) w(3) by simp
  from fits_exactly [OF assms(1,2) hg nn w(1,2) this] assms(7) eq show ?thesis by simp
qed

definition within_capacity :: "capacity \<Rightarrow> (rat \<times> rat) list \<Rightarrow> bool" where
  "within_capacity cap run \<longleftrightarrow>
     sum_list (map fst run) \<le> schedulable_cores cap \<and>
     sum_list (map snd run) \<le> schedulable_mem_gib cap"

lemma admitted_invariant:
  assumes "admitted cap run"
    and "schedulable_cores cap \<le> 2 ^ 49" and "schedulable_mem_gib cap \<le> 2 ^ 49"
  shows "within_capacity cap run \<and> (\<forall>(c, m) \<in> set run. size_ok c \<and> size_ok m)"
  using assms(1)
proof (induction rule: admitted.induct)
  case none_running
  show ?case
    by (simp add: within_capacity_def schedulable_cores_def schedulable_mem_gib_def)
next
  case (power_on run t)
  have run: "\<forall>x \<in> set (map fst run). size_ok x" "\<forall>x \<in> set (map snd run). size_ok x"
    using power_on.IH by auto
  have w: "sum_list (map fst run) \<le> schedulable_cores cap"
    "sum_list (map snd run) \<le> schedulable_mem_gib cap"
    using power_on.IH by (simp_all add: within_capacity_def)
  have nn: "0 \<le> schedulable_cores cap" "0 \<le> schedulable_mem_gib cap"
    by (simp_all add: schedulable_cores_def schedulable_mem_gib_def)
  from power_on.hyps(3) have fit:
    "cpu_cores t \<le> fsub (schedulable_cores cap) (fsum (map fst run))"
    "mem_gib t \<le> fsub (schedulable_mem_gib cap) (fsum (map snd run))"
    by (simp_all add: allowed_iff)
  note sz = offered_size_ok [OF power_on.hyps(2)]
  have "sum_list (map fst run) + cpu_cores t \<le> schedulable_cores cap"
    by (rule one_more_fits [OF is_float_schedulable(1) nn(1) assms(2) run(1) w(1) sz(1) fit(1)])
  moreover have "sum_list (map snd run) + mem_gib t \<le> schedulable_mem_gib cap"
    by (rule one_more_fits [OF is_float_schedulable(2) nn(2) assms(3) run(2) w(2) sz(2) fit(2)])
  ultimately show ?case
    using power_on.IH sz by (auto simp: within_capacity_def)
next
  case (power_off xs x ys)
  then have "0 < fst x" "0 < snd x" by (auto simp: size_ok_def)
  with power_off show ?case by (auto simp: within_capacity_def)
qed

section \<open>Properties\<close>

text \<open>C4. Capacity is never oversubscribed: whatever machines of the offered sizes are started
  through the admission decision and stopped, in any order, the cores and the memory they claim
  stay within what the host may schedule. The sum is the exact one, although the decision
  computes with floats.\<close>
theorem admission_never_oversubscribes:
  assumes "admitted cap run"
    and "schedulable_cores cap \<le> 2 ^ 49" and "schedulable_mem_gib cap \<le> 2 ^ 49"
  shows "sum_list (map fst run) \<le> schedulable_cores cap
    \<and> sum_list (map snd run) \<le> schedulable_mem_gib cap"
  using admitted_invariant [OF assms] by (simp add: within_capacity_def)

definition small_host :: capacity where
  "small_host = \<lparr>total_cores = 4, total_mem_gib = 8, reserve_cores = 1, reserve_mem_gib = 2,
     overcommit_cpu = 2, overcommit_mem = 1\<rparr>"

lemma small_host_schedulable:
  "schedulable_cores small_host = 6" "schedulable_mem_gib small_host = 6"
  by (simp_all add: small_host_def schedulable_cores_def schedulable_mem_gib_def fmul_def fsub_def)

lemma default_tier_size: "cpu_cores default_tier = 1" "mem_gib default_tier = 1"
  by (simp_all add: cpu_cores_exact mem_gib_exact valid_default_tier) (simp_all add: default_tier_def)

theorem admission_never_oversubscribes_witness:
  "sum_list (map fst [(1, 1 :: rat)]) \<le> schedulable_cores small_host"
proof -
  have "admitted small_host ([] @ [(cpu_cores default_tier, mem_gib default_tier)])"
    by (rule power_on [OF none_running valid_default_tier])
      (simp add: allowed_iff default_tier_size small_host_schedulable fsub_def)
  then have "admitted small_host [(1, 1)]" by (simp add: default_tier_size)
  from admission_never_oversubscribes [OF this] show ?thesis
    by (simp add: small_host_schedulable)
qed

text \<open>The reason given for a refusal is the true one: memory is named exactly when the
  wanted memory exceeds the free memory, CPU exactly when the memory fits and the cores do not,
  and a request that fits in both is allowed. The free amounts reported with a refusal are the
  ones compared.\<close>
lemma can_start_reason:
  "(case can_start cap run c m of
      NoMemory fc fm \<Rightarrow> m > fm \<and> fm = fsub (schedulable_mem_gib cap) (fsum (map snd run))
    | NoCpu fc fm \<Rightarrow> c > fc \<and> m \<le> fm \<and> fc = fsub (schedulable_cores cap) (fsum (map fst run))
    | Admitted fc fm \<Rightarrow> fc = fsub (fsub (schedulable_cores cap) (fsum (map fst run))) c
        \<and> fm = fsub (fsub (schedulable_mem_gib cap) (fsum (map snd run))) m
        \<and> 0 \<le> fc \<and> 0 \<le> fm)"
  by (auto simp: can_start_def Let_def fsub_def [of _ c] fsub_def [of _ m]
      intro: b64.nonneg)

end
