(* ===== verification/Models.thy ===== *)
theory Models
  imports AiPricing Admission
begin

text \<open>
  \<open>control/mmd/models/__init__.py\<close>: the tables of the control plane as records and the
  database as one record of tables, each a list of rows in insertion order. A column that may
  be NULL is an option. Timestamps are microseconds since the epoch, UTC. The columns of the
  four optional AI services of a workspace are grouped into nested records.

  A SQLAlchemy session is the state as the running code sees it together with the last
  committed state, so that a rollback is the return to the latter. Primary keys come from one
  sequence that a rollback does not take back.
\<close>

type_synonym time = int

definition second :: time where "second = 1000000"
definition hour :: time where "hour = 3600 * second"

section \<open>Enumerations\<close>

datatype user_status = UPending | UApproved | URejected | USuspended | UDeleting

datatype ws_state =
  PROVISIONING | OFF | STARTING | ON | STOPPING | RESETTING | ARCHIVING | ARCHIVED
| DELETING | DELETED | ERROR

datatype ticket_status = TOpen | TWaitingForUser | TAnswered | TEscalated | TClosed

datatype tx_kind =
  GRANT | CHARGE_HOUR | CHARGE_PARTIAL | CHARGE_AI | CHARGE_HERMES | CHARGE_CODEX | ADJUSTMENT

datatype port_kind = PUser | PSsh | PRdp

fun ws_state_value :: "ws_state \<Rightarrow> string" where
  "ws_state_value PROVISIONING = ''provisioning''"
| "ws_state_value OFF = ''off''"
| "ws_state_value STARTING = ''starting''"
| "ws_state_value ON = ''on''"
| "ws_state_value STOPPING = ''stopping''"
| "ws_state_value RESETTING = ''resetting''"
| "ws_state_value ARCHIVING = ''archiving''"
| "ws_state_value ARCHIVED = ''archived''"
| "ws_state_value DELETING = ''deleting''"
| "ws_state_value DELETED = ''deleted''"
| "ws_state_value ERROR = ''error''"

section \<open>Tables\<close>

record user =
  u_id :: int
  u_username :: string
  u_full_name :: "string option"
  u_phone :: "string option"
  u_sms_prefs :: "string \<rightharpoonup> bool"
  u_sms_credit_step_toman :: int
  u_sms_credit_band :: "int option"
  u_telegram_bot_token :: "string option"
  u_telegram_user_id :: "string option"
  u_password_hash :: string
  u_session_version :: int
  u_is_admin :: bool
  u_status :: user_status
  u_approved_at :: "time option"
  u_approved_by :: "int option"

record openrouter_account =
  oa_user_id :: int
  oa_key_hash :: "string option"
  oa_key :: "string option"
  oa_usage_usd :: rat
  oa_credit_blocked :: bool
  oa_limit_dirty :: bool
  oa_limit_usd :: "rat option"
  oa_limit_synced_at :: "time option"
  oa_error :: "string option"

record hermes_cols =
  h_enabled :: bool
  h_installed :: bool
  h_dash_user :: "string option"
  h_dash_password :: "string option"
  h_vhost_ready :: bool
  h_error :: "string option"
  h_telegram_enabled :: bool
  h_telegram_installed :: bool
  h_telegram_token :: "string option"
  h_telegram_users :: "string option"
  h_telegram_error :: "string option"

record openclaw_cols =
  oc_enabled :: bool
  oc_installed :: bool
  oc_password :: "string option"
  oc_error :: "string option"
  oc_telegram_enabled :: bool
  oc_telegram_installed :: bool
  oc_telegram_error :: "string option"

record web_cols =
  wb_enabled :: bool
  wb_installed :: bool
  wb_password :: "string option"
  wb_error :: "string option"
  wb_vhost_ready :: bool

record workspace =
  w_id :: int
  w_user_id :: int
  w_idx :: int
  w_incus_project :: string
  w_instance :: string
  w_state :: ws_state
  w_desired_on :: bool
  w_cpu_milli :: int
  w_mem_mib :: int
  w_root_gib :: int
  w_docker_gib :: int
  w_created_at :: time
  w_started_at :: "time option"
  w_period_start :: "time option"
  w_archived_at :: "time option"
  w_purge_after :: "time option"
  w_last_activity :: "time option"
  w_auto_stop_at :: "time option"
  w_error :: "string option"
  w_ssh_enabled :: bool
  w_ssh_keys :: "string option"
  w_rdp_enabled :: bool
  w_rdp_installed :: bool
  w_disk_used_mib :: "int option"
  w_disk_checked_at :: "time option"
  w_hermes :: hermes_cols
  w_openclaw :: openclaw_cols
  w_opencode :: web_cols
  w_openwebui :: web_cols

text \<open>The properties \<open>mem_gib\<close>, \<open>cpu_cores\<close> and \<open>disk_gib\<close> of \<open>Workspace\<close>.\<close>

definition w_mem_gib :: "workspace \<Rightarrow> rat" where
  "w_mem_gib w = fdiv (int_float (w_mem_mib w)) 1024"

definition w_cpu_cores :: "workspace \<Rightarrow> rat" where
  "w_cpu_cores w = fdiv (int_float (w_cpu_milli w)) 1000"

definition w_disk_gib :: "workspace \<Rightarrow> int" where
  "w_disk_gib w = w_root_gib w + w_docker_gib w"

record credit_account =
  ca_user_id :: int
  ca_balance_micro :: int

text \<open>The \<open>detail\<close> of a ledger entry, by what posts it.\<close>

datatype tx_detail =
  NoDetail
| SettleDetail breakdown
| AiDetail string rat rat "(string \<times> (category \<times> int) list \<times> int) list"
| HermesDetail rat rat rat
| GrantDetail string string

record transaction =
  tx_id :: int
  tx_user_id :: int
  tx_workspace_id :: "int option"
  tx_kind :: tx_kind
  tx_amount_micro :: int
  tx_period_start :: "time option"
  tx_detail :: tx_detail
  tx_scope_key :: "string option"

record usage_sample =
  us_workspace_id :: int
  us_ts :: time
  us_cpu_seconds_total :: rat
  us_mem_bytes :: int

record exposed_port =
  ep_id :: int
  ep_workspace_id :: int
  ep_internal_port :: int
  ep_external_port :: int
  ep_protocol :: string
  ep_kind :: port_kind
  ep_device :: string
  ep_note :: "string option"
  ep_web_ready :: bool

record ssh_key =
  sk_id :: int
  sk_workspace_id :: int
  sk_key_type :: string
  sk_body :: string
  sk_comment :: "string option"
  sk_fingerprint :: string

text \<open>\<open>SshKey.line\<close>: the comment is appended when it is not empty.\<close>

definition sk_line :: "ssh_key \<Rightarrow> string" where
  "sk_line k = sk_key_type k @ '' '' @ sk_body k
     @ (case sk_comment k of None \<Rightarrow> [] | Some c \<Rightarrow> if c = [] then [] else '' '' @ c)"

record setting =
  st_key :: string
  st_value :: string

record audit_entry =
  au_actor_id :: "int option"
  au_action :: string
  au_target :: "string option"

record operation =
  op_id :: int
  op_user_id :: "int option"
  op_workspace_id :: "int option"
  op_actor_id :: "int option"
  op_kind :: string
  op_status :: string
  op_progress_code :: string
  op_error_code :: "string option"
  op_finished_at :: "time option"

record bale_contact =
  bc_phone :: string
  bc_chat_id :: int
  bc_display_name :: "string option"

record sms_message =
  sm_id :: int
  sm_user_id :: "int option"
  sm_phone :: string
  sm_kind :: string
  sm_status :: string
  sm_attempts :: int
  sm_error :: "string option"
  sm_provider_message_id :: "string option"
  sm_dedupe_key :: "string option"
  sm_next_attempt_at :: "time option"
  sm_created_at :: time
  sm_sent_at :: "time option"

record login_attempt =
  la_identifier :: string
  la_created_at :: time

record sms_code =
  sc_id :: int
  sc_phone :: string
  sc_purpose :: string
  sc_code_hash :: string
  sc_expires_at :: time
  sc_attempts :: int
  sc_consumed_at :: "time option"
  sc_created_at :: time

record notification =
  nt_id :: int
  nt_user_id :: int
  nt_kind :: string
  nt_severity :: string
  nt_code :: string
  nt_href :: "string option"
  nt_dedupe_key :: "string option"
  nt_read_at :: "time option"
  nt_resolved_at :: "time option"
  nt_created_at :: time

record ticket =
  tk_id :: int
  tk_user_id :: int
  tk_subject :: string
  tk_status :: ticket_status
  tk_created_at :: time
  tk_updated_at :: time
  tk_user_read_at :: "time option"
  tk_staff_read_at :: "time option"

record ticket_message =
  tm_id :: int
  tm_ticket_id :: int
  tm_author_id :: "int option"
  tm_from_staff :: bool
  tm_body :: string
  tm_created_at :: time

record ai_model_price =
  ap_id :: int
  ap_service :: string
  ap_price :: model_price

record ai_usage_mark =
  am_workspace_id :: int
  am_service :: string
  am_session_id :: string
  am_model :: string
  am_tokens :: "category \<Rightarrow> int"
  am_billed_micro :: int

section \<open>The database and a session on it\<close>

record db =
  users :: "user list"
  or_accounts :: "openrouter_account list"
  workspaces :: "workspace list"
  credit_accounts :: "credit_account list"
  transactions :: "transaction list"
  samples :: "usage_sample list"
  exposed_ports :: "exposed_port list"
  ssh_keys :: "ssh_key list"
  settings :: "setting list"
  audit_log :: "audit_entry list"
  operations :: "operation list"
  bale_contacts :: "bale_contact list"
  sms_messages :: "sms_message list"
  login_attempts :: "login_attempt list"
  sms_codes :: "sms_code list"
  notifications :: "notification list"
  tickets :: "ticket list"
  ticket_messages :: "ticket_message list"
  ai_prices :: "ai_model_price list"
  ai_marks :: "ai_usage_mark list"

definition empty_db :: db where
  "empty_db = \<lparr>users = [], or_accounts = [], workspaces = [], credit_accounts = [],
     transactions = [], samples = [], exposed_ports = [], ssh_keys = [], settings = [],
     audit_log = [], operations = [], bale_contacts = [], sms_messages = [],
     login_attempts = [], sms_codes = [], notifications = [], tickets = [],
     ticket_messages = [], ai_prices = [], ai_marks = []\<rparr>"

record session =
  cur :: db
  saved :: db
  seq :: int

definition commit :: "session \<Rightarrow> session" where
  "commit s = s\<lparr>saved := cur s\<rparr>"

definition rollback :: "session \<Rightarrow> session" where
  "rollback s = s\<lparr>cur := saved s\<rparr>"

definition edit :: "(db \<Rightarrow> db) \<Rightarrow> session \<Rightarrow> session" where
  "edit f s = s\<lparr>cur := f (cur s)\<rparr>"

definition next_id :: "session \<Rightarrow> session" where
  "next_id s = s\<lparr>seq := seq s + 1\<rparr>"

text \<open>A session that has nothing uncommitted, such as one just opened.\<close>

definition clean :: "session \<Rightarrow> bool" where
  "clean s \<longleftrightarrow> cur s = saved s"

definition open_session :: "db \<Rightarrow> int \<Rightarrow> session" where
  "open_session d n = \<lparr>cur = d, saved = d, seq = n\<rparr>"

lemma session_simps [simp]:
  "cur (commit s) = cur s" "saved (commit s) = cur s" "seq (commit s) = seq s"
  "cur (rollback s) = saved s" "saved (rollback s) = saved s" "seq (rollback s) = seq s"
  "cur (edit f s) = f (cur s)" "saved (edit f s) = saved s" "seq (edit f s) = seq s"
  "cur (next_id s) = cur s" "saved (next_id s) = saved s" "seq (next_id s) = seq s + 1"
  by (simp_all add: commit_def rollback_def edit_def next_id_def)

lemma clean_commit [simp]: "clean (commit s)" and clean_rollback [simp]: "clean (rollback s)"
  and clean_open [simp]: "clean (open_session d n)"
  by (simp_all add: clean_def open_session_def)

lemma open_session_simps [simp]:
  "cur (open_session d n) = d" "saved (open_session d n) = d" "seq (open_session d n) = n"
  by (simp_all add: open_session_def)

lemma rollback_clean: "clean s \<Longrightarrow> rollback s = s"
  by (simp add: clean_def rollback_def)

section \<open>Rows by primary key\<close>

definition get_ws :: "db \<Rightarrow> int \<Rightarrow> workspace option" where
  "get_ws d i = find (\<lambda>w. w_id w = i) (workspaces d)"

definition get_user :: "db \<Rightarrow> int \<Rightarrow> user option" where
  "get_user d i = find (\<lambda>u. u_id u = i) (users d)"

text \<open>Assigning attributes of a loaded workspace or user.\<close>

definition set_ws :: "int \<Rightarrow> (workspace \<Rightarrow> workspace) \<Rightarrow> db \<Rightarrow> db" where
  "set_ws i f d = d\<lparr>workspaces := map_rows (\<lambda>w. w_id w = i) f (workspaces d)\<rparr>"

definition set_user :: "int \<Rightarrow> (user \<Rightarrow> user) \<Rightarrow> db \<Rightarrow> db" where
  "set_user i f d = d\<lparr>users := map_rows (\<lambda>u. u_id u = i) f (users d)\<rparr>"

lemma get_ws_set_ws:
  assumes "\<And>w. w_id (f w) = w_id w"
  shows "get_ws (set_ws i f d) j = (if j = i then map_option f (get_ws d i) else get_ws d j)"
proof (cases "j = i")
  case True
  then show ?thesis by (simp add: get_ws_def set_ws_def find_map_rows_same assms)
next
  case False
  then have "find (\<lambda>w. w_id w = j) (map_rows (\<lambda>w. w_id w = i) f (workspaces d))
      = find (\<lambda>w. w_id w = j) (workspaces d)"
    by (intro find_map_rows_other) (auto simp: assms)
  with False show ?thesis by (simp add: get_ws_def set_ws_def)
qed

lemma set_ws_frame [frame, simp]:
  "users (set_ws i f d) = users d"
  "or_accounts (set_ws i f d) = or_accounts d"
  "credit_accounts (set_ws i f d) = credit_accounts d"
  "transactions (set_ws i f d) = transactions d"
  "samples (set_ws i f d) = samples d"
  "exposed_ports (set_ws i f d) = exposed_ports d"
  "settings (set_ws i f d) = settings d"
  "operations (set_ws i f d) = operations d"
  "notifications (set_ws i f d) = notifications d"
  "sms_messages (set_ws i f d) = sms_messages d"
  "ai_prices (set_ws i f d) = ai_prices d"
  "ai_marks (set_ws i f d) = ai_marks d"
  by (simp_all add: set_ws_def)

lemma get_ws_SomeD: "get_ws d i = Some w \<Longrightarrow> w \<in> set (workspaces d) \<and> w_id w = i"
  by (auto simp: get_ws_def dest: find_SomeD)

lemma get_ws_transactions [simp]: "get_ws (d\<lparr>transactions := t\<rparr>) i = get_ws d i"
  and get_ws_credit [simp]: "get_ws (d\<lparr>credit_accounts := c\<rparr>) i = get_ws d i"
  by (simp_all add: get_ws_def)

end
