(* ===== verification/Settings.thy ===== *)
theory Settings
  imports Models
begin

text \<open>
  The settings table as a key-value store. \<open>hermes.py\<close>, \<open>openclaw.py\<close>,
  \<open>backup.py\<close>, \<open>webhook.py\<close>, \<open>bale.py\<close> and \<open>worker.py\<close> each hold a copy of the
  same two functions: read one row with a default, and insert or overwrite one row. The
  locale states what their callers rely on; its interpretation is the table itself.
\<close>

section \<open>The interface\<close>

locale key_value =
  fixes lookup :: "'d \<Rightarrow> 'k \<Rightarrow> 'v option"
    and store :: "'k \<Rightarrow> 'v \<Rightarrow> 'd \<Rightarrow> 'd"
  assumes lookup_same: "lookup (store k v d) k = Some v"
    and lookup_other: "j \<noteq> k \<Longrightarrow> lookup (store k v d) j = lookup d j"
begin

lemma lookup_store: "lookup (store k v d) j = (if j = k then Some v else lookup d j)"
  using lookup_same lookup_other by simp

lemma store_overwrite: "lookup (store k v (store k u d)) = lookup (store k v d)"
  by (simp add: fun_eq_iff lookup_store)

lemma store_commute:
  "j \<noteq> k \<Longrightarrow> lookup (store j u (store k v d)) = lookup (store k v (store j u d))"
  by (simp add: fun_eq_iff lookup_store)

lemma store_same_value: "lookup d k = Some v \<Longrightarrow> lookup (store k v d) = lookup d"
  by (auto simp: fun_eq_iff lookup_store)

lemma fold_store_other:
  "j \<notin> fst ` set kvs \<Longrightarrow> lookup (fold (\<lambda>(k, v). store k v) kvs d) j = lookup d j"
  by (induction kvs arbitrary: d) (auto simp: lookup_store)

end

section \<open>The table\<close>

definition setting_lookup :: "db \<Rightarrow> string \<Rightarrow> string option" where
  "setting_lookup d k = map_option st_value (find (\<lambda>r. st_key r = k) (settings d))"

text \<open>\<open>_get(db, key, default)\<close>.\<close>

definition get_setting :: "db \<Rightarrow> string \<Rightarrow> string \<Rightarrow> string" where
  "get_setting d k dflt = (case setting_lookup d k of Some v \<Rightarrow> v | None \<Rightarrow> dflt)"

text \<open>\<open>_set(db, key, value)\<close>.\<close>

definition set_setting :: "string \<Rightarrow> string \<Rightarrow> db \<Rightarrow> db" where
  "set_setting k v d =
     (case find (\<lambda>r. st_key r = k) (settings d) of
        None \<Rightarrow> d\<lparr>settings := settings d @ [\<lparr>st_key = k, st_value = v\<rparr>]\<rparr>
      | Some _ \<Rightarrow> d\<lparr>settings := map_rows (\<lambda>r. st_key r = k) (\<lambda>r. r\<lparr>st_value := v\<rparr>) (settings d)\<rparr>)"

text \<open>\<open>get_settings\<close>: every row, as a dict.\<close>

definition get_settings :: "db \<Rightarrow> (string \<rightharpoonup> string)" where
  "get_settings d = setting_lookup d"

lemma setting_lookup_set:
  "setting_lookup (set_setting k v d) j = (if j = k then Some v else setting_lookup d j)"
proof (cases "find (\<lambda>r. st_key r = k) (settings d)")
  case None
  then show ?thesis
    by (auto simp: setting_lookup_def set_setting_def find_append split: option.splits)
next
  case (Some r)
  show ?thesis
  proof (cases "j = k")
    case True
    with Some show ?thesis
      by (simp add: setting_lookup_def set_setting_def find_map_rows_same)
  next
    case False
    then have "find (\<lambda>r. st_key r = j)
        (map_rows (\<lambda>r. st_key r = k) (\<lambda>r. r\<lparr>st_value := v\<rparr>) (settings d))
      = find (\<lambda>r. st_key r = j) (settings d)"
      by (intro find_map_rows_other) auto
    with Some False show ?thesis by (simp add: setting_lookup_def set_setting_def)
  qed
qed

interpretation settings_table: key_value setting_lookup set_setting
  by unfold_locales (simp_all add: setting_lookup_set)

lemma get_setting_set:
  "get_setting (set_setting k v d) j dflt = (if j = k then v else get_setting d j dflt)"
  by (simp add: get_setting_def setting_lookup_set)

text \<open>Writing a setting keeps the keys unique and touches no other table.\<close>

lemma settings_keys_distinct:
  assumes "distinct (map st_key (settings d))"
  shows "distinct (map st_key (settings (set_setting k v d)))"
  using assms
  by (auto simp: set_setting_def map_map_rows find_None_iff' split: option.splits)

lemma set_setting_frame [frame, simp]:
  "users (set_setting k v d) = users d"
  "workspaces (set_setting k v d) = workspaces d"
  "credit_accounts (set_setting k v d) = credit_accounts d"
  "transactions (set_setting k v d) = transactions d"
  "bale_contacts (set_setting k v d) = bale_contacts d"
  by (simp_all add: set_setting_def split: option.splits)

end
