(* ===== verification/Ledger.thy ===== *)
theory Ledger
  imports Settings
begin

text \<open>
  The money part of \<open>control/mmd/service.py\<close>: \<open>balance_micro\<close> and
  \<open>post_transaction\<close>, over the tables \<open>credit_accounts\<close> and \<open>credit_transactions\<close> with
  their unique constraints. The abstract ledger the code promises is a set of paid keys and
  a balance per user; the locale \<open>idempotent_ledger\<close> states it and proves that replaying
  charges changes nothing, and the interpretation is the model of \<open>post_transaction\<close>.
\<close>

section \<open>The abstract ledger\<close>

locale idempotent_ledger =
  fixes post :: "'s \<Rightarrow> 'k option \<Rightarrow> 'u \<Rightarrow> int \<Rightarrow> 's option"
    and balance :: "'s \<Rightarrow> 'u \<Rightarrow> int"
    and paid :: "'s \<Rightarrow> 'k \<Rightarrow> bool"
  assumes post_None_iff: "post s ko u n = None \<longleftrightarrow> (\<exists>k. ko = Some k \<and> paid s k)"
    and balance_post: "post s ko u n = Some s' \<Longrightarrow>
          balance s' v = balance s v + (if v = u then n else 0)"
    and paid_post: "post s ko u n = Some s' \<Longrightarrow> paid s' k \<longleftrightarrow> paid s k \<or> ko = Some k"
begin

text \<open>A caller that ignores a duplicate, as settlement does.\<close>

definition charge :: "'k \<times> 'u \<times> int \<Rightarrow> 's \<Rightarrow> 's" where
  "charge c s = (case c of (k, u, n) \<Rightarrow> case post s (Some k) u n of None \<Rightarrow> s | Some s' \<Rightarrow> s')"

lemma charge_paid: "paid s k \<Longrightarrow> charge (k, u, n) s = s"
  using post_None_iff [of s "Some k" u n] by (auto simp: charge_def)

lemma paid_charge: "paid (charge (k, u, n) s) j \<longleftrightarrow> paid s j \<or> j = k"
proof (cases "post s (Some k) u n")
  case None
  then show ?thesis using post_None_iff [of s "Some k" u n] by (auto simp: charge_def)
next
  case (Some s')
  then show ?thesis using paid_post [OF Some] by (auto simp: charge_def)
qed

lemma balance_charge_fresh:
  "\<not> paid s k \<Longrightarrow> balance (charge (k, u, n) s) v = balance s v + (if v = u then n else 0)"
  using post_None_iff [of s "Some k" u n] balance_post [of s "Some k" u n]
  by (auto simp: charge_def split: option.splits)

lemma paid_fold: "paid (fold charge cs s) k \<longleftrightarrow> paid s k \<or> k \<in> fst ` set cs"
proof (induction cs arbitrary: s)
  case (Cons c cs)
  then show ?case by (cases c) (auto simp: paid_charge)
qed simp

lemma fold_charge_all_paid:
  "(\<And>c. c \<in> set cs \<Longrightarrow> paid s (fst c)) \<Longrightarrow> fold charge cs s = s"
proof (induction cs)
  case (Cons c cs)
  have "paid s (fst c)" using Cons.prems by simp
  then have "charge c s = s" by (cases c) (simp add: charge_paid)
  with Cons show ?case by simp
qed simp

text \<open>A batch of charges replayed after a crash changes nothing the second time.\<close>

lemma replay: "fold charge cs (fold charge cs s) = fold charge cs s"
  by (rule fold_charge_all_paid) (auto simp: paid_fold)

lemma balance_fold_fresh:
  assumes "distinct (map fst cs)" and "\<And>c. c \<in> set cs \<Longrightarrow> \<not> paid s (fst c)"
  shows "balance (fold charge cs s) v
    = balance s v + sum_list (map (\<lambda>(k, u, n). if u = v then n else 0) cs)"
  using assms
proof (induction cs arbitrary: s)
  case (Cons c cs)
  obtain k u n where c: "c = (k, u, n)" by (cases c)
  have "\<not> paid s k" using Cons.prems(2) [of c] c by simp
  moreover have "\<And>d. d \<in> set cs \<Longrightarrow> \<not> paid (charge c s) (fst d)"
    using Cons.prems c by (auto simp: paid_charge)
  ultimately show ?case
    using Cons c by (auto simp: balance_charge_fresh)
qed simp

end

section \<open>The unique constraints\<close>

text \<open>
  \<open>uq_charge_once_per_period\<close> and \<open>uq_scoped_charge_once_per_period\<close>. A NULL in a
  unique constraint is distinct from every value.
\<close>

definition tx_clash :: "transaction \<Rightarrow> transaction \<Rightarrow> bool" where
  "tx_clash a b \<longleftrightarrow> tx_kind a = tx_kind b \<and> tx_period_start a = tx_period_start b
     \<and> tx_period_start a \<noteq> None
     \<and> ((tx_workspace_id a \<noteq> None \<and> tx_workspace_id a = tx_workspace_id b)
       \<or> (tx_scope_key a \<noteq> None \<and> tx_scope_key a = tx_scope_key b))"

definition tx_conflict :: "db \<Rightarrow> transaction \<Rightarrow> bool" where
  "tx_conflict d t \<longleftrightarrow> list_ex (tx_clash t) (transactions d)"

section \<open>Balances\<close>

definition balance_micro :: "db \<Rightarrow> int \<Rightarrow> int" where
  "balance_micro d u =
     (case find (\<lambda>a. ca_user_id a = u) (credit_accounts d) of
        Some a \<Rightarrow> ca_balance_micro a | None \<Rightarrow> 0)"

text \<open>
  The \<open>UPDATE ... SET balance = balance + :delta\<close>, and the \<open>INSERT\<close> of a first account
  row when it matches no row.
\<close>

definition move_balance :: "int \<Rightarrow> int \<Rightarrow> db \<Rightarrow> db" where
  "move_balance u n d =
     (if list_ex (\<lambda>a. ca_user_id a = u) (credit_accounts d)
      then d\<lparr>credit_accounts := map_rows (\<lambda>a. ca_user_id a = u)
               (\<lambda>a. a\<lparr>ca_balance_micro := ca_balance_micro a + n\<rparr>) (credit_accounts d)\<rparr>
      else d\<lparr>credit_accounts := credit_accounts d @ [\<lparr>ca_user_id = u, ca_balance_micro = n\<rparr>]\<rparr>)"

text \<open>
  \<open>post_transaction\<close>. The row is flushed before the balance moves; a unique violation rolls
  the session back and returns \<open>None\<close>.
\<close>

definition new_tx ::
  "int \<Rightarrow> int \<Rightarrow> int option \<Rightarrow> tx_kind \<Rightarrow> int \<Rightarrow> time option \<Rightarrow> tx_detail \<Rightarrow> string option \<Rightarrow>
   transaction" where
  "new_tx i u ws kind n period detail scope =
     \<lparr>tx_id = i, tx_user_id = u, tx_workspace_id = ws, tx_kind = kind, tx_amount_micro = n,
      tx_period_start = period, tx_detail = detail, tx_scope_key = scope\<rparr>"

definition post_transaction ::
  "int \<Rightarrow> int option \<Rightarrow> tx_kind \<Rightarrow> int \<Rightarrow> time option \<Rightarrow> tx_detail \<Rightarrow> string option \<Rightarrow> bool \<Rightarrow>
   session \<Rightarrow> transaction option \<times> session" where
  "post_transaction u ws kind n period detail scope do_commit s =
     (let s1 = next_id s;
          tx = new_tx (seq s1) u ws kind n period detail scope
      in if tx_conflict (cur s1) tx then (None, rollback s1)
         else (let s2 = edit (\<lambda>d. d\<lparr>transactions := transactions d @ [tx]\<rparr>) s1;
                   s3 = edit (move_balance u n) s2
               in (Some tx, if do_commit then commit s3 else s3)))"

section \<open>Lemmas\<close>

lemma balance_move:
  "balance_micro (move_balance u n d) v = balance_micro d v + (if v = u then n else 0)"
proof (cases "list_ex (\<lambda>a. ca_user_id a = u) (credit_accounts d)")
  case True
  then have ex: "find (\<lambda>a. ca_user_id a = u) (credit_accounts d) \<noteq> None"
    by (auto simp: find_None_iff' list_ex_iff)
  show ?thesis
  proof (cases "v = u")
    case True
    with ex \<open>list_ex _ _\<close> show ?thesis
      by (auto simp: balance_micro_def move_balance_def find_map_rows_same)
  next
    case False
    then have "find (\<lambda>a. ca_user_id a = v) (map_rows (\<lambda>a. ca_user_id a = u)
        (\<lambda>a. a\<lparr>ca_balance_micro := ca_balance_micro a + n\<rparr>) (credit_accounts d))
      = find (\<lambda>a. ca_user_id a = v) (credit_accounts d)"
      by (intro find_map_rows_other) auto
    with True False show ?thesis by (simp add: balance_micro_def move_balance_def)
  qed
next
  case False
  then have "find (\<lambda>a. ca_user_id a = u) (credit_accounts d) = None"
    by (auto simp: find_None_iff' list_ex_iff)
  with False show ?thesis
    by (auto simp: balance_micro_def move_balance_def find_append split: option.splits)
qed

lemma balance_transactions [simp]:
  "balance_micro (d\<lparr>transactions := ts\<rparr>) u = balance_micro d u"
  by (simp add: balance_micro_def)

lemma balance_set_ws [simp]: "balance_micro (set_ws i f d) u = balance_micro d u"
  by (simp add: balance_micro_def)

lemma move_balance_frame [frame, simp]:
  "transactions (move_balance u n d) = transactions d"
  "workspaces (move_balance u n d) = workspaces d"
  "users (move_balance u n d) = users d"
  "settings (move_balance u n d) = settings d"
  "samples (move_balance u n d) = samples d"
  "notifications (move_balance u n d) = notifications d"
  "ai_marks (move_balance u n d) = ai_marks d"
  "ai_prices (move_balance u n d) = ai_prices d"
  "or_accounts (move_balance u n d) = or_accounts d"
  by (simp_all add: move_balance_def)

lemma get_ws_move_balance [simp]: "get_ws (move_balance u n d) i = get_ws d i"
  by (simp add: get_ws_def)

lemma tx_clash_sym: "tx_clash a b = tx_clash b a"
  unfolding tx_clash_def by metis

text \<open>The integrity of the ledger: unique accounts, no clashing entries, and the balance of
  every account the sum of its entries.\<close>

definition entries_sum :: "db \<Rightarrow> int \<Rightarrow> int" where
  "entries_sum d u = sum_list (map tx_amount_micro (filter (\<lambda>t. tx_user_id t = u) (transactions d)))"

definition pairwise_free :: "transaction list \<Rightarrow> bool" where
  "pairwise_free ts \<longleftrightarrow> sorted_wrt (\<lambda>a b. \<not> tx_clash b a) ts"

definition ledger_ok :: "db \<Rightarrow> bool" where
  "ledger_ok d \<longleftrightarrow> pairwise_free (transactions d) \<and> (\<forall>u. balance_micro d u = entries_sum d u)"

lemma pairwise_free_snoc:
  "pairwise_free ts \<Longrightarrow> \<not> list_ex (tx_clash t) ts \<Longrightarrow> pairwise_free (ts @ [t])"
  by (auto simp: pairwise_free_def sorted_wrt_append list_ex_iff)

lemma ledger_ok_empty: "ledger_ok empty_db"
  by (simp add: ledger_ok_def empty_db_def balance_micro_def entries_sum_def pairwise_free_def)

lemma post_transaction_None:
  "fst (post_transaction u ws k n p dt sc c s) = None \<longleftrightarrow>
     tx_conflict (cur s) (new_tx (seq s + 1) u ws k n p dt sc)"
  by (simp add: post_transaction_def Let_def)

lemma post_transaction_rolled_back:
  "fst (post_transaction u ws k n p dt sc c s) = None \<Longrightarrow>
     snd (post_transaction u ws k n p dt sc c s) = rollback (next_id s)"
  by (auto simp: post_transaction_def Let_def split: if_splits)

lemma post_transaction_cur:
  "fst (post_transaction u ws k n p dt sc c s) = Some tx \<Longrightarrow>
     tx = new_tx (seq s + 1) u ws k n p dt sc \<and>
     cur (snd (post_transaction u ws k n p dt sc c s)) =
       move_balance u n ((cur s)\<lparr>transactions := transactions (cur s) @ [tx]\<rparr>) \<and>
     saved (snd (post_transaction u ws k n p dt sc c s)) =
       (if c then move_balance u n ((cur s)\<lparr>transactions := transactions (cur s) @ [tx]\<rparr>)
        else saved s)"
  by (auto simp: post_transaction_def Let_def split: if_splits)

lemma ledger_ok_posted:
  assumes "ledger_ok d" and "\<not> tx_conflict d tx"
  shows "ledger_ok (move_balance (tx_user_id tx) (tx_amount_micro tx)
           (d\<lparr>transactions := transactions d @ [tx]\<rparr>))"
  using assms pairwise_free_snoc
  by (auto simp: ledger_ok_def balance_move entries_sum_def tx_conflict_def)

lemma new_tx_simps [simp]:
  "tx_user_id (new_tx i u ws k n p dt sc) = u" "tx_amount_micro (new_tx i u ws k n p dt sc) = n"
  "tx_workspace_id (new_tx i u ws k n p dt sc) = ws" "tx_kind (new_tx i u ws k n p dt sc) = k"
  "tx_period_start (new_tx i u ws k n p dt sc) = p" "tx_scope_key (new_tx i u ws k n p dt sc) = sc"
  "tx_detail (new_tx i u ws k n p dt sc) = dt" "tx_id (new_tx i u ws k n p dt sc) = i"
  by (simp_all add: new_tx_def)

section \<open>The model implements the abstract ledger\<close>

text \<open>
  A key is what the unique constraints identify: a workspace or a scope, a period and a
  kind. \<open>ledger_post\<close> is \<open>post_transaction\<close> on the database, for an entry with such a key
  or, for a grant, with none.
\<close>

datatype charge_key = WsKey int time tx_kind | ScopeKey string time tx_kind

definition key_ws :: "charge_key option \<Rightarrow> int option" where
  "key_ws ko = (case ko of Some (WsKey w _ _) \<Rightarrow> Some w | _ \<Rightarrow> None)"

definition key_scope :: "charge_key option \<Rightarrow> string option" where
  "key_scope ko = (case ko of Some (ScopeKey sc _ _) \<Rightarrow> Some sc | _ \<Rightarrow> None)"

definition key_period :: "charge_key option \<Rightarrow> time option" where
  "key_period ko = (case ko of Some (WsKey _ p _) \<Rightarrow> Some p | Some (ScopeKey _ p _) \<Rightarrow> Some p
     | None \<Rightarrow> None)"

definition key_kind :: "charge_key option \<Rightarrow> tx_kind" where
  "key_kind ko = (case ko of Some (WsKey _ _ k) \<Rightarrow> k | Some (ScopeKey _ _ k) \<Rightarrow> k
     | None \<Rightarrow> GRANT)"

definition ledger_post :: "session \<Rightarrow> charge_key option \<Rightarrow> int \<Rightarrow> int \<Rightarrow> session option" where
  "ledger_post s ko u n =
     (case post_transaction u (key_ws ko) (key_kind ko) n (key_period ko) NoDetail (key_scope ko)
             True s of
        (None, _) \<Rightarrow> None | (Some _, s') \<Rightarrow> Some s')"

definition tx_has_key :: "transaction \<Rightarrow> charge_key \<Rightarrow> bool" where
  "tx_has_key t k = (case k of
     WsKey w p kd \<Rightarrow> tx_workspace_id t = Some w \<and> tx_period_start t = Some p \<and> tx_kind t = kd
   | ScopeKey sc p kd \<Rightarrow> tx_scope_key t = Some sc \<and> tx_period_start t = Some p \<and> tx_kind t = kd)"

definition ledger_paid :: "session \<Rightarrow> charge_key \<Rightarrow> bool" where
  "ledger_paid s k \<longleftrightarrow> list_ex (\<lambda>t. tx_has_key t k) (transactions (cur s))"

lemmas key_defs = key_ws_def key_scope_def key_period_def key_kind_def

lemma conflict_iff_paid:
  "tx_conflict (cur s) (new_tx i u (key_ws ko) (key_kind ko) n (key_period ko) dt (key_scope ko))
    \<longleftrightarrow> (\<exists>k. ko = Some k \<and> ledger_paid s k)"
  by (cases ko)
    (auto simp: tx_conflict_def ledger_paid_def list_ex_iff tx_clash_def tx_has_key_def
      key_defs split: charge_key.splits)

lemma ledger_post_Some:
  assumes "ledger_post s ko u n = Some s'"
  shows "cur s' = move_balance u n ((cur s)\<lparr>transactions := transactions (cur s) @
      [new_tx (seq s + 1) u (key_ws ko) (key_kind ko) n (key_period ko) NoDetail (key_scope ko)]\<rparr>)"
  using assms by (auto simp: ledger_post_def post_transaction_def Let_def split: if_splits)

lemma ledger_paid_next_id [simp]: "ledger_paid (next_id s) k = ledger_paid s k"
  by (simp add: ledger_paid_def)

interpretation led: idempotent_ledger ledger_post "\<lambda>s. balance_micro (cur s)" ledger_paid
proof unfold_locales
  fix s :: session and ko u n
  show "ledger_post s ko u n = None \<longleftrightarrow> (\<exists>k. ko = Some k \<and> ledger_paid s k)"
    using conflict_iff_paid [of "next_id s"]
    by (simp add: ledger_post_def post_transaction_def Let_def split: prod.splits)
next
  fix s s' :: session and ko u n v
  assume "ledger_post s ko u n = Some s'"
  then show "balance_micro (cur s') v = balance_micro (cur s) v + (if v = u then n else 0)"
    by (simp add: ledger_post_Some balance_move)
next
  fix s s' :: session and ko u n k
  assume "ledger_post s ko u n = Some s'"
  then show "ledger_paid s' k \<longleftrightarrow> ledger_paid s k \<or> ko = Some k"
    by (cases k; cases ko)
      (auto simp: ledger_post_Some ledger_paid_def tx_has_key_def key_defs split: charge_key.splits)
qed

section \<open>Properties\<close>

fun post_all ::
  "(int \<times> int option \<times> tx_kind \<times> int \<times> time option \<times> string option) list \<Rightarrow> session \<Rightarrow> session" where
  "post_all [] s = s"
| "post_all ((u, ws, k, n, p, sc) # rs) s =
     post_all rs (snd (post_transaction u ws k n p NoDetail sc True s))"

lemma post_keeps_ok:
  assumes "ledger_ok (cur s)" "ledger_ok (saved s)"
  shows "ledger_ok (cur (snd (post_transaction u ws k n p dt sc c s)))
    \<and> ledger_ok (saved (snd (post_transaction u ws k n p dt sc c s)))"
proof (cases "fst (post_transaction u ws k n p dt sc c s)")
  case None
  then show ?thesis using assms by (simp add: post_transaction_rolled_back)
next
  case (Some tx)
  then have "\<not> tx_conflict (cur s) tx"
    using post_transaction_None [of u ws k n p dt sc c s] post_transaction_cur [OF Some] by auto
  then show ?thesis
    using post_transaction_cur [OF Some] ledger_ok_posted [OF assms(1), of tx] assms by auto
qed

lemma post_all_ok:
  "ledger_ok (cur s) \<Longrightarrow> ledger_ok (saved s) \<Longrightarrow> ledger_ok (cur (post_all rs s))"
proof (induction rs arbitrary: s)
  case (Cons r rs)
  obtain u ws k n p sc where "r = (u, ws, k, n, p, sc)" by (cases r)
  with Cons post_keeps_ok [of s u ws k n p NoDetail sc True] show ?case by simp
qed simp

text \<open>C1. The ledger and the balances never disagree: starting from an empty ledger, after any
  sequence of postings (grants and charges, duplicates included) the balance of every user is
  the sum of that user's entries, and no two entries clash on a unique key.\<close>
theorem ledger_reconciles:
  "balance_micro (cur (post_all rs (open_session empty_db i))) u
     = entries_sum (cur (post_all rs (open_session empty_db i))) u
   \<and> pairwise_free (transactions (cur (post_all rs (open_session empty_db i))))"
  using post_all_ok [of "open_session empty_db i" rs] ledger_ok_empty
  by (simp add: ledger_ok_def)

text \<open>A retry is not a second charge: once an entry for a workspace, period and kind has
  been posted, posting that key again returns nothing and leaves the database exactly as it
  was, whatever the second amount.\<close>
lemma repost_is_noop:
  assumes "fst (post_transaction u (Some w) k n (Some p) dt sc True s) = Some tx"
  shows "fst (post_transaction u' (Some w) k n' (Some p) dt' sc' c
             (snd (post_transaction u (Some w) k n (Some p) dt sc True s))) = None
    \<and> cur (snd (post_transaction u' (Some w) k n' (Some p) dt' sc' c
             (snd (post_transaction u (Some w) k n (Some p) dt sc True s))))
      = cur (snd (post_transaction u (Some w) k n (Some p) dt sc True s))"
proof -
  let ?s1 = "snd (post_transaction u (Some w) k n (Some p) dt sc True s)"
  note c = post_transaction_cur [OF assms]
  have "fst (post_transaction u' (Some w) k n' (Some p) dt' sc' c ?s1) = None"
    using c by (simp add: post_transaction_None tx_conflict_def tx_clash_def)
  moreover from this have
    "cur (snd (post_transaction u' (Some w) k n' (Some p) dt' sc' c ?s1)) = cur ?s1"
    using c by (simp add: post_transaction_rolled_back)
  ultimately show ?thesis by simp
qed

lemma repost_is_noop_witness:
  "balance_micro (cur (snd (post_transaction 7 (Some 1) CHARGE_HOUR (- 9) (Some 0) NoDetail None True
     (snd (post_transaction 7 (Some 1) CHARGE_HOUR (- 5) (Some 0) NoDetail None True
        (open_session empty_db 0)))))) 7 = - 5"
proof -
  let ?s1 = "snd (post_transaction 7 (Some 1) CHARGE_HOUR (- 5) (Some 0) NoDetail None True
        (open_session empty_db 0))"
  have "fst (post_transaction 7 (Some 1) CHARGE_HOUR (- 5) (Some 0) NoDetail None True
      (open_session empty_db 0)) = Some (new_tx 1 7 (Some 1) CHARGE_HOUR (- 5) (Some 0) NoDetail None)"
    by (simp add: post_transaction_def Let_def tx_conflict_def empty_db_def)
  from repost_is_noop [OF this, of 7 "- 9" NoDetail None True]
  show ?thesis
    by (simp add: post_transaction_def Let_def tx_conflict_def empty_db_def balance_move)
      (simp add: balance_micro_def)
qed

text \<open>A batch of keyed charges, each posted once and ignored when it is a duplicate.\<close>

fun charge_batch :: "(charge_key \<times> int \<times> int) list \<Rightarrow> session \<Rightarrow> session" where
  "charge_batch [] s = s"
| "charge_batch ((k, u, n) # cs) s =
     charge_batch cs (case ledger_post s (Some k) u n of None \<Rightarrow> s | Some s' \<Rightarrow> s')"

lemma charge_batch_fold: "charge_batch cs s = fold led.charge cs s"
  by (induction cs s rule: charge_batch.induct) (simp_all add: led.charge_def)


text \<open>Charges with distinct keys that were not paid before all land: the balance of each
  user falls by exactly the sum of that user's charges.\<close>
lemma fresh_charges_all_land:
  assumes "distinct (map fst cs)" and "\<And>c. c \<in> set cs \<Longrightarrow> \<not> ledger_paid s (fst c)"
  shows "balance_micro (cur (charge_batch cs s)) v
    = balance_micro (cur s) v + sum_list (map (\<lambda>(k, u, n). if u = v then n else 0) cs)"
  unfolding charge_batch_fold using assms by (rule led.balance_fold_fresh)

end
