(* ===== verification/Billing.thy ===== *)
theory Billing
  imports Ledger
begin

text \<open>
  The billing part of \<open>control/mmd/service.py\<close> above the ledger, and the policy numbers of
  \<open>control/mmd/config.py\<close>: the credit gate, admission of a workspace, settlement of a period
  and of the elapsed part of one, the automatic stop, and the allocation of workspace slots.
  A tier that is not an offered size raises, as the constructor of \<open>Tier\<close> does.
\<close>

section \<open>Policy\<close>

record config =
  cf_sms_low_credit_toman :: int
  cf_worker_stall_minutes :: int
  cf_login_max_attempts :: int
  cf_login_window_minutes :: int
  cf_support_sla_hours :: int
  cf_archive_retention_days :: int
  cf_session_hours :: int
  cf_auto_stop_hours :: int
  cf_disk_warn_percent :: int
  cf_error_rate_per_second :: rat
  cf_pool_floor_gib :: rat
  cf_openrouter_key :: string
  cf_bale_token :: string
  cf_secret_key :: string
  cf_domain :: string

definition env_int :: "(string \<rightharpoonup> string) \<Rightarrow> string \<Rightarrow> string \<Rightarrow> int option" where
  "env_int env k dflt = py_int (case env k of Some v \<Rightarrow> v | None \<Rightarrow> dflt)"

definition env_float :: "(string \<rightharpoonup> string) \<Rightarrow> string \<Rightarrow> string \<Rightarrow> rat option" where
  "env_float env k dflt = py_float (case env k of Some v \<Rightarrow> v | None \<Rightarrow> dflt)"

text \<open>
  \<open>Config\<close>: each number is read from the environment, and a text that does not parse stops
  the import (\<open>None\<close>). The secrets and the domain are read elsewhere and passed in.
\<close>

definition config_of_env ::
  "(string \<rightharpoonup> string) \<Rightarrow> string \<Rightarrow> string \<Rightarrow> string \<Rightarrow> string \<Rightarrow> config option" where
  "config_of_env env openrouter bale secret domain =
     (case (map (\<lambda>(k, v). env_int env k v)
              [(''MMD_SMS_LOW_CREDIT_TOMAN'', ''50000''), (''MMD_WORKER_STALL_MINUTES'', ''15''),
               (''MMD_LOGIN_MAX_ATTEMPTS'', ''8''), (''MMD_LOGIN_WINDOW_MINUTES'', ''15''),
               (''MMD_SUPPORT_SLA_HOURS'', ''24''), (''MMD_ARCHIVE_RETENTION_DAYS'', ''30''),
               (''MMD_SESSION_HOURS'', ''12''), (''MMD_AUTO_STOP_HOURS'', ''12''),
               (''MMD_DISK_WARN_PERCENT'', ''85'')],
            env_float env ''MMD_ERROR_RATE_PER_SECOND'' ''0.2'',
            env_float env ''MMD_POOL_FLOOR_GIB'' ''8'') of
        ([Some low, Some stall, Some att, Some win, Some sla, Some ret, Some sess, Some auto,
          Some warn], Some er, Some flr) \<Rightarrow>
          Some \<lparr>cf_sms_low_credit_toman = low, cf_worker_stall_minutes = stall,
                cf_login_max_attempts = att, cf_login_window_minutes = win,
                cf_support_sla_hours = sla, cf_archive_retention_days = ret,
                cf_session_hours = sess, cf_auto_stop_hours = auto,
                cf_disk_warn_percent = warn, cf_error_rate_per_second = er,
                cf_pool_floor_gib = flr, cf_openrouter_key = openrouter,
                cf_bale_token = bale, cf_secret_key = secret, cf_domain = domain\<rparr>
      | _ \<Rightarrow> None)"

definition default_config :: config where
  "default_config =
     \<lparr>cf_sms_low_credit_toman = 50000, cf_worker_stall_minutes = 15,
      cf_login_max_attempts = 8, cf_login_window_minutes = 15,
      cf_support_sla_hours = 24, cf_archive_retention_days = 30,
      cf_session_hours = 12, cf_auto_stop_hours = 12,
      cf_disk_warn_percent = 85, cf_error_rate_per_second = fl64 (1 / 5),
      cf_pool_floor_gib = 8, cf_openrouter_key = [], cf_bale_token = [],
      cf_secret_key = [], cf_domain = ''mmd-ai.ir''\<rparr>"

section \<open>Time\<close>

text \<open>\<open>hour_floor\<close>: the epoch falls on an hour, and UTC has no offset.\<close>

definition hour_floor :: "time \<Rightarrow> time" where
  "hour_floor t = t - t mod hour"

text \<open>\<open>(b - a).total_seconds()\<close>.\<close>

definition total_seconds :: "time \<Rightarrow> rat" where
  "total_seconds us = fl64 (of_int us / 1000000)"

definition AI_PERIOD_SECONDS :: int where "AI_PERIOD_SECONDS = 300"

text \<open>\<open>_ai_period\<close>: the whole seconds of the timestamp, floored to the bucket.\<close>

definition ai_period :: "time \<Rightarrow> time" where
  "ai_period t = (t div second div AI_PERIOD_SECONDS * AI_PERIOD_SECONDS) * second"

section \<open>The credit gate\<close>

definition rates_of :: "db \<Rightarrow> rates" where
  "rates_of d = rates_from_settings (get_settings d)"

definition tier_of :: "workspace \<Rightarrow> (invalid_tier, tier) result" where
  "tier_of w = mk_tier (w_cpu_milli w) (w_mem_mib w) (w_disk_gib w)"

definition port_count :: "db \<Rightarrow> workspace \<Rightarrow> int" where
  "port_count d w = int (length (filter (\<lambda>p. ep_workspace_id p = w_id w) (exposed_ports d)))"

definition gate_micro :: "db \<Rightarrow> workspace \<Rightarrow> (invalid_tier, int) result" where
  "gate_micro d w = andthen (tier_of w) (\<lambda>t. return (max_hour_micro t (rates_of d)))"

definition can_afford_next_hour ::
  "db \<Rightarrow> workspace \<Rightarrow> (invalid_tier, bool \<times> int \<times> int) result" where
  "can_afford_next_hour d w =
     andthen (gate_micro d w) (\<lambda>need.
       let have = balance_micro d (w_user_id w) in return (have \<ge> need, have, need))"

section \<open>Admission of a workspace\<close>

definition running_tiers :: "db \<Rightarrow> int \<Rightarrow> (rat \<times> rat) list" where
  "running_tiers d exclude_id =
     map (\<lambda>w. (w_cpu_cores w, w_mem_gib w))
       (filter (\<lambda>w. w_id w \<noteq> exclude_id)
         (filter (\<lambda>w. w_state w = ON \<or> w_state w = STARTING) (workspaces d)))"

text \<open>
  \<open>check_admission\<close>. The host's cores and memory are arguments; a capacity setting that does
  not parse raises \<open>ValueError\<close>, here \<open>NotWholeNumbers\<close>.
\<close>

definition check_admission ::
  "int \<Rightarrow> int \<Rightarrow> db \<Rightarrow> workspace \<Rightarrow> tier option \<Rightarrow> (invalid_tier, admission_result) result" where
  "check_admission cpus mem_kb d w t_opt =
     andthen (case t_opt of Some t \<Rightarrow> return t | None \<Rightarrow> tier_of w) (\<lambda>t.
       case host_capacity cpus mem_kb (get_settings d) of
         None \<Rightarrow> raise NotWholeNumbers
       | Some cap \<Rightarrow> return (can_start cap (running_tiers d (w_id w)) (cpu_cores t) (mem_gib t)))"

section \<open>Settlement\<close>

text \<open>
  \<open>settle_period\<close>: one period, charged in arrears. The amount is returned even when the
  posting turns out to be a duplicate.
\<close>

definition settle_period ::
  "workspace \<Rightarrow> time \<Rightarrow> bool \<Rightarrow> rat \<Rightarrow> rat \<Rightarrow> rat \<Rightarrow> tier option \<Rightarrow> session \<Rightarrow>
   (invalid_tier, int \<times> session) result" where
  "settle_period w period_start powered_on cpu_h mem_h fraction t_opt s =
     andthen (case t_opt of Some t \<Rightarrow> return t | None \<Rightarrow> tier_of w) (\<lambda>t.
       let (amount, detail) = settle_micro t (rates_of (cur s)) powered_on
             (w_state w = ARCHIVED) cpu_h mem_h fraction
       in if amount \<le> 0 then return (0, s)
          else let kind = (if fraction \<ge> fl64 (999 / 1000) then CHARGE_HOUR else CHARGE_PARTIAL);
                   (_, s') = post_transaction (w_user_id w) (Some (w_id w)) kind (- amount)
                     (Some period_start) (SettleDetail detail) None True s
               in return (amount, s'))"

text \<open>\<open>settle_elapsed\<close>: the part of the hour that has run, at power-off or a size change.\<close>

definition settle_elapsed ::
  "time \<Rightarrow> workspace \<Rightarrow> bool \<Rightarrow> tier option \<Rightarrow> session \<Rightarrow> (invalid_tier, int \<times> session) result" where
  "settle_elapsed now w powered_on t_opt s =
     (case w_period_start w of None \<Rightarrow> return (0, s)
      | Some start \<Rightarrow>
          let elapsed_h = fdiv (total_seconds (now - start)) 3600
          in if elapsed_h \<le> fl64 (5 / 10000) then return (0, s)
             else settle_period w start powered_on 0 0 (min elapsed_h 1) t_opt s)"

section \<open>The automatic stop\<close>

definition arm_auto_stop :: "config \<Rightarrow> time \<Rightarrow> workspace \<Rightarrow> workspace" where
  "arm_auto_stop cf now w = w\<lparr>w_auto_stop_at := Some (now + cf_auto_stop_hours cf * hour)\<rparr>"

definition disarm_auto_stop :: "workspace \<Rightarrow> workspace" where
  "disarm_auto_stop w = w\<lparr>w_auto_stop_at := None\<rparr>"

definition due_for_auto_stop :: "time \<Rightarrow> workspace \<Rightarrow> bool" where
  "due_for_auto_stop now w \<longleftrightarrow> w_state w = ON
     \<and> (case w_auto_stop_at w of None \<Rightarrow> False | Some t \<Rightarrow> t \<le> now)"

section \<open>Slots, addresses, published ports, audit\<close>

definition workspace_ip :: "workspace \<Rightarrow> string" where
  "workspace_ip w = ''10.42.0.'' @ show_int (w_idx w + 10)"

text \<open>\<open>next_free_idx\<close>: the loop \<open>while i in used: i += 1\<close>.\<close>

function free_from :: "int \<Rightarrow> int list \<Rightarrow> int" where
  "free_from i used = (if i \<in> set used then free_from (i + 1) used else i)"
  by pat_completeness auto
termination
proof (relation "measure (\<lambda>(i, used). card {x \<in> set used. i \<le> x})")
  fix i :: int and used
  assume "i \<in> set used"
  then have "i \<in> {x \<in> set used. i \<le> x} - {x \<in> set used. i + 1 \<le> x}" by simp
  moreover have "{x \<in> set used. i + 1 \<le> x} \<subseteq> {x \<in> set used. i \<le> x}" by auto
  ultimately have "{x \<in> set used. i + 1 \<le> x} \<subset> {x \<in> set used. i \<le> x}" by blast
  then have "card {x \<in> set used. i + 1 \<le> x} < card {x \<in> set used. i \<le> x}"
    by (rule psubset_card_mono [rotated]) simp
  then show "((i + 1, used), i, used) \<in> measure (\<lambda>(i, used). card {x \<in> set used. i \<le> x})"
    by simp
qed simp

declare free_from.simps [simp del]

definition next_free_idx :: "db \<Rightarrow> int" where
  "next_free_idx d = free_from 1 (map w_idx (workspaces d))"

definition audit :: "int option \<Rightarrow> string \<Rightarrow> string option \<Rightarrow> session \<Rightarrow> session" where
  "audit actor action target s =
     commit (edit (\<lambda>d. d\<lparr>audit_log := audit_log d @
       [\<lparr>au_actor_id = actor, au_action = action, au_target = target\<rparr>]\<rparr>) s)"

section \<open>Lemmas\<close>

lemma hour_pos [simp]: "0 < hour" by (simp add: hour_def second_def)

lemma hour_floor_le: "hour_floor t \<le> t"
  by (simp add: hour_floor_def)

lemma hour_floor_gt: "t < hour_floor t + hour"
  by (simp add: hour_floor_def mod_less_eq_dividend)

lemma hour_floor_idem [simp]: "hour_floor (hour_floor t) = hour_floor t"
  by (simp add: hour_floor_def minus_mod_eq_mult_div)

lemma hour_floor_mono: "a \<le> b \<Longrightarrow> hour_floor a \<le> hour_floor b"
  by (simp add: hour_floor_def minus_mod_eq_mult_div zdiv_mono1 mult_left_mono)

lemma free_from_spec:
  "free_from i used \<notin> set used \<and> i \<le> free_from i used
     \<and> (\<forall>j. i \<le> j \<and> j < free_from i used \<longrightarrow> j \<in> set used)"
proof (induction i used rule: free_from.induct)
  case (1 i used)
  show ?case
  proof (cases "i \<in> set used")
    case True
    with 1 show ?thesis
      by (subst (1 2 3) free_from.simps) (auto, metis add1_zle_eq order_le_less)
  next
    case False
    then show ?thesis by (subst (1 2 3) free_from.simps) auto
  qed
qed

lemma tier_of_Inr:
  "tier_of w = Inr t \<Longrightarrow> valid_tier t \<and> cpu_milli t = w_cpu_milli w \<and> mem_mib t = w_mem_mib w
     \<and> disk_gib t = w_disk_gib w"
  using mk_tier_valid [of "w_cpu_milli w" "w_mem_mib w" "w_disk_gib w" t]
  by (auto simp: tier_of_def mk_tier_Inr)

text \<open>What a settled period does to the ledger.\<close>

lemma settle_period_cases:
  assumes "settle_period w p on ch mh f t_opt s = Inr (n, s')"
  obtains (nothing) "n = 0" "s' = s"
  | (duplicate) "0 < n" "s' = rollback (next_id s)"
  | (charged) tx where "0 < n" "tx_user_id tx = w_user_id w" "tx_workspace_id tx = Some (w_id w)"
      "tx_amount_micro tx = - n" "tx_period_start tx = Some p"
      "cur s' = move_balance (w_user_id w) (- n)
         ((cur s)\<lparr>transactions := transactions (cur s) @ [tx]\<rparr>)"
      "saved s' = cur s'"
proof -
  from assms obtain t where t: "(case t_opt of Some t \<Rightarrow> return t | None \<Rightarrow> tier_of w) = Inr t"
    by (auto simp: settle_period_def andthen_Inr_iff)
  obtain amount detail where am: "settle_micro t (rates_of (cur s)) on (w_state w = ARCHIVED) ch mh f
      = (amount, detail)" by fastforce
  let ?k = "if f \<ge> fl64 (999 / 1000) then CHARGE_HOUR else CHARGE_PARTIAL"
  let ?post = "post_transaction (w_user_id w) (Some (w_id w)) ?k (- amount) (Some p)
      (SettleDetail detail) None True s"
  show thesis
  proof (cases "amount \<le> 0")
    case True
    with assms t am have "n = 0" "s' = s" by (simp_all add: settle_period_def)
    then show ?thesis by (rule nothing)
  next
    case False
    with assms t am have n: "n = amount" and s': "s' = snd ?post"
      by (auto simp: settle_period_def Let_def split: prod.splits)
    show ?thesis
    proof (cases "fst ?post")
      case None
      then show ?thesis using duplicate n s' False post_transaction_rolled_back by auto
    next
      case (Some tx)
      from post_transaction_cur [OF Some] show ?thesis
        using n s' False by (intro charged [of tx]) auto
    qed
  qed
qed

lemma settle_amount_le_gate:
  assumes "settle_period w p True ch mh f (Some t) s = Inr (n, s')"
    and "valid_tier t" "nonneg_rates (rates_of (cur s))" "0 \<le> f" "f \<le> 1"
    and "ch \<le> cpu_cores t" "mh \<le> mem_gib t" "w_state w \<noteq> ARCHIVED"
  shows "n \<le> max_hour_micro t (rates_of (cur s))"
proof -
  have "0 \<le> max_hour_micro t (rates_of (cur s))"
    using assms(2,3) by (simp add: max_hour_micro_def micro_nonneg)
  moreover have "fst (settle_micro t (rates_of (cur s)) True False ch mh f)
      \<le> max_hour_micro t (rates_of (cur s))"
    using assms by (intro settle_micro_within) auto
  ultimately show ?thesis using assms(1,8)
    by (auto simp: settle_period_def Let_def split: if_splits prod.splits)
qed

text \<open>A gate that lets the hour run keeps the balance from going negative.\<close>

lemma gate_keeps_balance:
  assumes "can_afford_next_hour (cur s) w = Inr (True, have_micro, need)"
    and "tier_of w = Inr t" and "nonneg_rates (rates_of (cur s))" and "clean s"
    and "w_state w \<noteq> ARCHIVED" and "0 \<le> f" and "f \<le> 1" and "ch \<le> cpu_cores t" and "mh \<le> mem_gib t"
    and "settle_period w p True ch mh f (Some t) s = Inr (n, s')"
  shows "0 \<le> balance_micro (cur s') (w_user_id w)"
proof -
  have t: "valid_tier t" using tier_of_Inr [OF assms(2)] by simp
  have bal: "max_hour_micro t (rates_of (cur s)) \<le> balance_micro (cur s) (w_user_id w)"
    using assms(1,2) by (simp add: can_afford_next_hour_def gate_micro_def Let_def)
  have n: "n \<le> max_hour_micro t (rates_of (cur s))"
    using settle_amount_le_gate [OF assms(10) t assms(3,6,7,8,9,5)] .
  have nn: "0 \<le> max_hour_micro t (rates_of (cur s))"
    using t assms(3) by (simp add: max_hour_micro_def micro_nonneg)
  show ?thesis
  proof (rule settle_period_cases [OF assms(10)])
    assume "0 < n" "s' = rollback (next_id s)"
    then show ?thesis using bal nn assms(4) by (simp add: clean_def)
  qed (use bal n nn in \<open>simp_all add: balance_move\<close>)
qed

section \<open>Properties\<close>

text \<open>C3. The gate keeps a running hour from overdrawing the account: if the gate lets an
  hour of an offered tier run (rates non-negative), then after that hour, or any part of it, is
  settled with usage within the tier, the balance is not negative.\<close>
theorem gate_prevents_overdraft:
  assumes "can_afford_next_hour (cur s) w = Inr (True, have_micro, need)"
    and "tier_of w = Inr t" and "nonneg_rates (rates_of (cur s))" and "clean s"
    and "w_state w \<noteq> ARCHIVED" and "0 \<le> f" and "f \<le> 1" and "ch \<le> cpu_cores t" and "mh \<le> mem_gib t"
    and "settle_period w p True ch mh f (Some t) s = Inr (n, s')"
  shows "0 \<le> balance_micro (cur s') (w_user_id w)"
  using assms by (rule gate_keeps_balance)

definition sample_hermes :: hermes_cols where
  "sample_hermes = \<lparr>h_enabled = False, h_installed = False, h_dash_user = None,
     h_dash_password = None, h_vhost_ready = False, h_error = None, h_telegram_enabled = False,
     h_telegram_installed = False, h_telegram_token = None, h_telegram_users = None,
     h_telegram_error = None\<rparr>"

definition sample_openclaw :: openclaw_cols where
  "sample_openclaw = \<lparr>oc_enabled = False, oc_installed = False, oc_password = None,
     oc_error = None, oc_telegram_enabled = False, oc_telegram_installed = False,
     oc_telegram_error = None\<rparr>"

definition sample_web :: web_cols where
  "sample_web = \<lparr>wb_enabled = False, wb_installed = False, wb_password = None,
     wb_error = None, wb_vhost_ready = False\<rparr>"

text \<open>A workspace as a row starts out, with the column defaults.\<close>

definition new_workspace :: "int \<Rightarrow> int \<Rightarrow> int \<Rightarrow> time \<Rightarrow> workspace" where
  "new_workspace i u idx now =
     \<lparr>w_id = i, w_user_id = u, w_idx = idx, w_incus_project = ''ws-'' @ show_int idx,
      w_instance = ''ws'', w_state = PROVISIONING, w_desired_on = False, w_cpu_milli = 1000,
      w_mem_mib = 1024, w_root_gib = 6, w_docker_gib = 8, w_created_at = now,
      w_started_at = None, w_period_start = None, w_archived_at = None, w_purge_after = None,
      w_last_activity = None, w_auto_stop_at = None, w_error = None, w_ssh_enabled = False,
      w_ssh_keys = None, w_rdp_enabled = False, w_rdp_installed = False,
      w_disk_used_mib = None, w_disk_checked_at = None, w_hermes = sample_hermes,
      w_openclaw = sample_openclaw, w_opencode = sample_web, w_openwebui = sample_web\<rparr>"

lemma tier_of_new_workspace: "tier_of (new_workspace i u idx now) = Inr default_tier"
  by (simp add: tier_of_def mk_tier_def new_workspace_def w_disk_gib_def default_tier_def
      CPU_OPTIONS_MILLI_def MEM_OPTIONS_MIB_def)

definition funded_db :: "int \<Rightarrow> int \<Rightarrow> db" where
  "funded_db u n = empty_db\<lparr>credit_accounts := [\<lparr>ca_user_id = u, ca_balance_micro = n\<rparr>]\<rparr>"

lemma setting_lookup_none: "settings d = [] \<Longrightarrow> setting_lookup d = (\<lambda>_. None)"
  by (simp add: setting_lookup_def fun_eq_iff)

lemma funded_db_simps [simp]:
  "balance_micro (funded_db u n) u = n" "transactions (funded_db u n) = []"
  "rates_of (funded_db u n) = default_rates"
  by (simp_all add: funded_db_def empty_db_def balance_micro_def rates_of_def get_settings_def
      setting_lookup_none default_rates_def)

theorem gate_prevents_overdraft_witness:
  "\<exists>n s'. settle_period (new_workspace 1 7 1 0\<lparr>w_state := ON\<rparr>) 0 True 0 0 1 (Some default_tier)
      (open_session (funded_db 7 (492 * MICRO)) 0) = Inr (n, s')
    \<and> n = 342 * MICRO \<and> 0 \<le> balance_micro (cur s') 7"
proof -
  let ?w = "new_workspace 1 7 1 0\<lparr>w_state := ON\<rparr>"
  let ?s = "open_session (funded_db 7 (492 * MICRO)) 0"
  have t: "tier_of ?w = Inr default_tier"
    using tier_of_new_workspace [of 1 7 1 0] by (simp add: tier_of_def w_disk_gib_def)
  have u: "w_user_id ?w = 7" "w_state ?w = ON" by (simp_all add: new_workspace_def)
  have max: "max_hour_micro default_tier default_rates = 492 * MICRO"
    by (simp add: max_hour_micro_def disk_micro_def reservation_micro_def usage_micro_def
        default_rates_eq default_tier_def cpu_cores_def mem_gib_def fdiv_def fmul_def fadd_def
        int_float_def MICRO_def Let_def)
  have am: "fst (settle_micro default_tier default_rates True False 0 0 1) = 342 * MICRO"
    by (simp add: settle_micro_def disk_micro_def reservation_micro_def usage_micro_def
        default_rates_eq default_tier_def cpu_cores_def mem_gib_def fdiv_def fmul_def fadd_def
        int_float_def MICRO_def Let_def)
  have af: "can_afford_next_hour (cur ?s) ?w = Inr (True, 492 * MICRO, 492 * MICRO)"
    using t u max by (simp add: can_afford_next_hour_def gate_micro_def Let_def)
  obtain detail where d: "settle_micro default_tier default_rates True False 0 0 1
      = (342 * MICRO, detail)" using am by (metis prod.collapse)
  have "\<exists>s'. settle_period ?w 0 True 0 0 1 (Some default_tier) ?s = Inr (342 * MICRO, s')"
    by (simp add: settle_period_def u d Let_def case_prod_beta) (simp add: MICRO_def)
  then obtain s' where
    s': "settle_period ?w 0 True 0 0 1 (Some default_tier) ?s = Inr (342 * MICRO, s')" ..
  have "0 \<le> balance_micro (cur s') (w_user_id ?w)"
    by (rule gate_prevents_overdraft [OF af t _ _ _ _ _ _ _ s'])
      (use nonneg_default_rates u default_tier_size in simp_all)
  with s' u show ?thesis by auto
qed

text \<open>The part of an hour settled at power-off or at a size change is at most one hour of
  the tier in force, at most the gate amount, and it never contains a usage charge: the
  measured consumption of a part hour is not billed, only its disk and reservation.\<close>
lemma part_hour_bounded:
  assumes "settle_elapsed now w True (Some t) s = Inr (n, s')"
    and "valid_tier t" and "nonneg_rates (rates_of (cur s))" and "w_state w \<noteq> ARCHIVED"
  shows "0 \<le> n \<and> n \<le> idle_hour_micro t (rates_of (cur s))"
proof -
  have nn: "0 \<le> idle_hour_micro t (rates_of (cur s))"
    using assms by (simp add: idle_hour_micro_def micro_nonneg)
  show ?thesis
  proof (cases "w_period_start w")
    case None
    with assms nn show ?thesis by (simp add: settle_elapsed_def)
  next
    case (Some start)
    let ?e = "fdiv (total_seconds (now - start)) 3600"
    show ?thesis
    proof (cases "?e \<le> fl64 (5 / 10000)")
      case True
      with Some assms nn show ?thesis by (simp add: settle_elapsed_def)
    next
      case False
      have "0 \<le> fl64 (5 / 10000)" by (simp add: fl64_nonneg)
      then have e: "0 \<le> min ?e 1" "min ?e 1 \<le> 1" using False by simp_all
      have "usage_micro 0 0 (rates_of (cur s)) = 0" by (simp add: usage_micro_def fadd_def)
      then have "fst (settle_micro t (rates_of (cur s)) True False 0 0 (min ?e 1))
          \<le> idle_hour_micro t (rates_of (cur s))"
        using assms(2,3) e disk_micro_mono [of t _ "min ?e 1" 1 False]
          reservation_micro_mono [of t _ "min ?e 1" 1]
        by (simp add: settle_micro_def Let_def idle_hour_micro_def add_mono)
      with assms Some False nn show ?thesis
        by (auto simp: settle_elapsed_def settle_period_def Let_def split: if_splits prod.splits)
    qed
  qed
qed

lemma part_hour_bounded_witness:
  "\<exists>n s'. settle_elapsed (hour div 2) (new_workspace 1 7 1 0\<lparr>w_state := ON, w_period_start := Some 0\<rparr>)
      True (Some default_tier) (open_session (funded_db 7 0) 0) = Inr (n, s')
    \<and> 0 \<le> n \<and> n \<le> idle_hour_micro default_tier default_rates"
proof -
  let ?w = "new_workspace 1 7 1 0\<lparr>w_state := ON, w_period_start := Some 0\<rparr>"
  let ?s = "open_session (funded_db 7 0) 0"
  obtain n s' where e: "settle_elapsed (hour div 2) ?w True (Some default_tier) ?s = Inr (n, s')"
    by (cases "settle_elapsed (hour div 2) ?w True (Some default_tier) ?s")
      (auto simp: settle_elapsed_def settle_period_def Let_def split: if_splits prod.splits option.splits)
  have "0 \<le> n \<and> n \<le> idle_hour_micro default_tier (rates_of (cur ?s))"
    by (rule part_hour_bounded [OF e valid_default_tier])
      (simp_all add: nonneg_default_rates new_workspace_def)
  with e show ?thesis by auto
qed

text \<open>A run ends exactly at its deadline: a machine armed at some time is due for the
  automatic stop from that time plus the configured hours on and not before, and never once
  its owner has disarmed it.\<close>
lemma auto_stop_deadline:
  "due_for_auto_stop t (arm_auto_stop cf now w)
     = (w_state w = ON \<and> now + cf_auto_stop_hours cf * hour \<le> t)
   \<and> due_for_auto_stop t (disarm_auto_stop w) = False"
  by (simp add: due_for_auto_stop_def arm_auto_stop_def disarm_auto_stop_def)

text \<open>A new machine gets the lowest free slot: the slot is positive, no existing workspace
  has it, and every lower positive slot is taken.\<close>
lemma next_free_idx_lowest:
  "1 \<le> next_free_idx d \<and> next_free_idx d \<notin> w_idx ` set (workspaces d)
   \<and> {1..<next_free_idx d} \<subseteq> w_idx ` set (workspaces d)"
  using free_from_spec [of 1 "map w_idx (workspaces d)"]
  by (auto simp: next_free_idx_def)

end
