(* ===== verification/Metering.thy ===== *)
theory Metering
  imports Billing "HOL-Library.List_Lexorder" "HOL-Library.Char_ord"
begin

text \<open>
  AI token metering of \<open>control/mmd/service.py\<close>: the price table that seeds itself, the
  exchange rate and discount of a service, and \<open>meter_ai_usage\<close>, which bills the difference
  between the cumulative totals a workspace reports and the high-water marks kept for it.
  A report is a list of sessions, each with its models and their totals, in the order of the
  dicts. A mark in hand is a value; it is written back to its row when the charge has landed.
\<close>

section \<open>Prices and settings\<close>

definition ai_tx_kind :: "service \<Rightarrow> tx_kind option" where
  "ai_tx_kind sv = (case sv of Claude \<Rightarrow> Some CHARGE_AI | Codex \<Rightarrow> Some CHARGE_CODEX
     | Openrouter \<Rightarrow> None)"

definition price_rows :: "db \<Rightarrow> service \<Rightarrow> (string \<times> model_price) list" where
  "price_rows d sv = map (\<lambda>r. (mp_model (ap_price r), ap_price r))
     (filter (\<lambda>r. ap_service r = service_name sv) (ai_prices d))"

fun seed_rows :: "service \<Rightarrow> int \<Rightarrow> (string \<times> model_price) list \<Rightarrow> ai_model_price list" where
  "seed_rows sv n [] = []"
| "seed_rows sv n ((k, p) # ps) =
     \<lparr>ap_id = n + 1, ap_service = service_name sv, ap_price = p\<lparr>mp_model := k\<rparr>\<rparr> # seed_rows sv (n + 1) ps"

text \<open>\<open>ai_prices\<close>: an empty table of a known service is seeded, and the seeding committed.\<close>

definition load_ai_prices :: "service \<Rightarrow> session \<Rightarrow> (string \<times> model_price) list \<times> session" where
  "load_ai_prices sv s =
     (case (price_rows (cur s) sv, SEED_BY_SERVICE sv) of
        ([], Some seed) \<Rightarrow>
          let s' = commit (edit (\<lambda>d. d\<lparr>ai_prices := ai_prices d @ seed_rows sv (seq s) seed\<rparr>)
                (s\<lparr>seq := seq s + int (length seed)\<rparr>))
          in (price_rows (cur s') sv, s')
      | (rows, _) \<Rightarrow> (rows, s))"

definition ai_number :: "(string \<rightharpoonup> string) \<Rightarrow> string \<Rightarrow> rat \<Rightarrow> rat" where
  "ai_number st key dflt =
     (case st key of None \<Rightarrow> dflt
      | Some v \<Rightarrow> (case py_float v of None \<Rightarrow> dflt | Some x \<Rightarrow> x))"

definition ai_default :: "string \<Rightarrow> rat" where
  "ai_default key = (case DEFAULT_AI_SETTINGS key of None \<Rightarrow> 0 | Some x \<Rightarrow> x)"

definition ai_settings :: "(string \<rightharpoonup> string) \<Rightarrow> service \<Rightarrow> rat \<times> rat" where
  "ai_settings st sv =
     (let usd_rate = ai_number st ''usd_to_toman'' (ai_default ''usd_to_toman'')
      in if sv = Openrouter then (usd_rate, 0)
         else let key = discount_key sv; dflt = ai_default key
              in if st key = None \<and> sv = Claude \<and> st ''ai_discount_percent'' \<noteq> None
                 then (usd_rate, ai_number st ''ai_discount_percent'' dflt)
                 else (usd_rate, ai_number st key dflt))"

section \<open>One pass over a report\<close>

type_synonym mark_key = "string \<times> string"
type_synonym report = "(string \<times> (string \<times> tokens) list) list"

record in_hand =
  ih_key :: mark_key
  ih_new :: bool
  ih_mark :: ai_usage_mark

record meter_state =
  ms_marks :: "in_hand list"
  ms_total :: int
  ms_models :: "(string \<times> (category \<Rightarrow> int) \<times> int) list"
  ms_unpriced :: "string list"
  ms_touched :: "(mark_key \<times> (category \<Rightarrow> int)) list"

definition load_marks :: "db \<Rightarrow> int \<Rightarrow> service \<Rightarrow> in_hand list" where
  "load_marks d ws sv =
     map (\<lambda>m. \<lparr>ih_key = (am_session_id m, am_model m), ih_new = False, ih_mark = m\<rparr>)
       (filter (\<lambda>m. am_workspace_id m = ws \<and> am_service m = service_name sv) (ai_marks d))"

definition fresh_mark :: "int \<Rightarrow> service \<Rightarrow> mark_key \<Rightarrow> ai_usage_mark" where
  "fresh_mark ws sv k =
     \<lparr>am_workspace_id = ws, am_service = service_name sv, am_session_id = take 96 (fst k),
      am_model = take 96 (snd k), am_tokens = (\<lambda>_. 0), am_billed_micro = 0\<rparr>"

definition find_mark :: "in_hand list \<Rightarrow> mark_key \<Rightarrow> in_hand option" where
  "find_mark ms k = find (\<lambda>h. ih_key h = k) ms"

text \<open>\<open>marks.get\<close>, or a new mark added to the dict.\<close>

definition take_mark ::
  "int \<Rightarrow> service \<Rightarrow> mark_key \<Rightarrow> in_hand list \<Rightarrow> ai_usage_mark \<times> in_hand list" where
  "take_mark ws sv k ms =
     (case find_mark ms k of
        Some h \<Rightarrow> (ih_mark h, ms)
      | None \<Rightarrow> let m = fresh_mark ws sv k
                in (m, ms @ [\<lparr>ih_key = k, ih_new = True, ih_mark = m\<rparr>]))"

definition token_delta :: "tokens \<Rightarrow> ai_usage_mark \<Rightarrow> category \<Rightarrow> int" where
  "token_delta t m c = max 0 (tok t c - am_tokens m c)"

definition add_to_model ::
  "string \<Rightarrow> (category \<Rightarrow> int) \<Rightarrow> int \<Rightarrow> (string \<times> (category \<Rightarrow> int) \<times> int) list \<Rightarrow>
   (string \<times> (category \<Rightarrow> int) \<times> int) list" where
  "add_to_model m delta micro acc =
     (if m \<in> set (map fst acc)
      then map_rows (\<lambda>r. fst r = m) (\<lambda>(n, t, x). (n, (\<lambda>c. t c + delta c), x + micro)) acc
      else acc @ [(m, delta, micro)])"

text \<open>The body of the loops, for one session's one model.\<close>

definition meter_entry ::
  "int \<Rightarrow> service \<Rightarrow> (string \<times> model_price) list \<Rightarrow> rat \<Rightarrow> rat \<Rightarrow>
   string \<times> string \<times> tokens \<Rightarrow> meter_state \<Rightarrow> meter_state" where
  "meter_entry ws sv prices usd_rate discount e st =
     (let (sid, model, totals) = e in
      case resolve model prices of
        None \<Rightarrow> st\<lparr>ms_unpriced := List.insert model (ms_unpriced st)\<rparr>
      | Some price \<Rightarrow>
          let (mark, ms) = take_mark ws sv (sid, model) (ms_marks st);
              delta = token_delta totals mark
          in if \<not> list_ex (\<lambda>c. delta c \<noteq> 0) CATEGORIES then st\<lparr>ms_marks := ms\<rparr>
             else let micro = toman_micro (\<lambda>c. Some (delta c)) price usd_rate discount
                  in st\<lparr>ms_marks := map_rows (\<lambda>h. ih_key h = (sid, model))
                            (\<lambda>h. h\<lparr>ih_mark := (ih_mark h)\<lparr>am_billed_micro :=
                               am_billed_micro (ih_mark h) + micro\<rparr>\<rparr>) ms,
                        ms_total := ms_total st + micro,
                        ms_models := add_to_model (mp_model price) delta micro (ms_models st),
                        ms_touched := ms_touched st @
                          [((sid, model), \<lambda>c. max (tok totals c) (am_tokens mark c))]\<rparr>)"

definition entries_of :: "report \<Rightarrow> (string \<times> string \<times> tokens) list" where
  "entries_of r = concat (map (\<lambda>(sid, models). map (\<lambda>(m, t). (sid, m, t)) models) r)"

definition meter_pass ::
  "db \<Rightarrow> int \<Rightarrow> service \<Rightarrow> (string \<times> model_price) list \<Rightarrow> rat \<Rightarrow> rat \<Rightarrow> report \<Rightarrow> meter_state" where
  "meter_pass d ws sv prices usd_rate discount r =
     fold (meter_entry ws sv prices usd_rate discount) (entries_of r)
       \<lparr>ms_marks = load_marks d ws sv, ms_total = 0, ms_models = [], ms_unpriced = [],
        ms_touched = []\<rparr>"

section \<open>Writing the marks back\<close>

definition same_mark :: "ai_usage_mark \<Rightarrow> ai_usage_mark \<Rightarrow> bool" where
  "same_mark a b \<longleftrightarrow> am_workspace_id a = am_workspace_id b \<and> am_service a = am_service b
     \<and> am_session_id a = am_session_id b \<and> am_model a = am_model b"

text \<open>The unique key of the marks table, checked when the pending rows are flushed.\<close>

fun marks_conflict :: "ai_usage_mark list \<Rightarrow> ai_usage_mark list \<Rightarrow> bool" where
  "marks_conflict rows [] = False"
| "marks_conflict rows (m # ms) = (list_ex (same_mark m) rows \<or> marks_conflict (rows @ [m]) ms)"

definition new_marks :: "meter_state \<Rightarrow> ai_usage_mark list" where
  "new_marks st = map ih_mark (filter ih_new (ms_marks st))"

text \<open>The flush of the loop's changes: new rows inserted, the old rows' \<open>billed_micro\<close> written.\<close>

definition flush_marks :: "meter_state \<Rightarrow> db \<Rightarrow> db" where
  "flush_marks st d = d\<lparr>ai_marks :=
     fold (\<lambda>h. map_rows (same_mark (ih_mark h)) (\<lambda>_. ih_mark h))
       (filter (\<lambda>h. \<not> ih_new h) (ms_marks st)) (ai_marks d) @ new_marks st\<rparr>"

text \<open>\<open>for mark, newest in touched\<close>: the marks take the newest totals.\<close>

definition raise_mark :: "in_hand list \<Rightarrow> mark_key \<times> (category \<Rightarrow> int) \<Rightarrow> db \<Rightarrow> db" where
  "raise_mark ms t d =
     (case find_mark ms (fst t) of None \<Rightarrow> d
      | Some h \<Rightarrow> d\<lparr>ai_marks := map_rows (same_mark (ih_mark h)) (\<lambda>m. m\<lparr>am_tokens := snd t\<rparr>)
                      (ai_marks d)\<rparr>)"

record meter_result =
  mr_charged_micro :: int
  mr_models :: "(string \<times> rat) list"
  mr_unpriced :: "string list"
  mr_skipped :: bool

datatype meter_error = NoLedgerKind service

definition meter_ai_usage ::
  "time \<Rightarrow> workspace \<Rightarrow> report \<Rightarrow> service \<Rightarrow> session \<Rightarrow> (meter_error, meter_result \<times> session) result" where
  "meter_ai_usage now w r sv s0 =
     (let (prices, s) = load_ai_prices sv s0;
          (usd_rate, discount) = ai_settings (get_settings (cur s)) sv;
          period = ai_period now;
          st = meter_pass (cur s) (w_id w) sv prices usd_rate discount r;
          unpriced = sort (ms_unpriced st)
      in if ms_touched st = []
         then return (\<lparr>mr_charged_micro = 0, mr_models = [], mr_unpriced = unpriced,
                       mr_skipped = False\<rparr>,
                      edit (\<lambda>d. d\<lparr>ai_marks := ai_marks d @ new_marks st\<rparr>) s)
         else case ai_tx_kind sv of
           None \<Rightarrow> raise (NoLedgerKind sv)
         | Some kind \<Rightarrow>
             let skipped = \<lparr>mr_charged_micro = 0, mr_models = [], mr_unpriced = unpriced,
                            mr_skipped = True\<rparr>
             in if marks_conflict (ai_marks (cur s)) (new_marks st)
                then return (skipped, rollback s)
                else case post_transaction (w_user_id w) (Some (w_id w)) kind (- ms_total st)
                       (Some period)
                       (AiDetail (service_name sv) usd_rate discount
                          (map (\<lambda>(m, t, x). (m, map (\<lambda>c. (c, t c)) CATEGORIES, x)) (ms_models st)))
                       None False (edit (flush_marks st) s) of
                    (None, s') \<Rightarrow> return (skipped, rollback s')
                  | (Some _, s') \<Rightarrow>
                      return (\<lparr>mr_charged_micro = ms_total st,
                               mr_models = map (\<lambda>(m, t, x). (m, to_toman x)) (ms_models st),
                               mr_unpriced = unpriced, mr_skipped = False\<rparr>,
                              commit (edit (fold (raise_mark (ms_marks st)) (ms_touched st)) s')))"

section \<open>The abstract meter: a high-water mark per session and model\<close>

text \<open>
  The level of a session's model is the tokens of its mark, zero where it has none. The
  specification of a pass is over levels: it bills what a report exceeds the level by, and
  the level becomes the larger of the two.
\<close>

definition key_row :: "int \<Rightarrow> service \<Rightarrow> mark_key \<Rightarrow> ai_usage_mark \<Rightarrow> bool" where
  "key_row ws sv k m \<longleftrightarrow> am_workspace_id m = ws \<and> am_service m = service_name sv
     \<and> (am_session_id m, am_model m) = k"

definition level :: "ai_usage_mark list \<Rightarrow> int \<Rightarrow> service \<Rightarrow> mark_key \<Rightarrow> category \<Rightarrow> int" where
  "level rows ws sv k = (case find (key_row ws sv k) rows of None \<Rightarrow> (\<lambda>_. 0) | Some m \<Rightarrow> am_tokens m)"

definition mark_columns :: "ai_usage_mark \<Rightarrow> int \<times> string \<times> string \<times> string" where
  "mark_columns m = (am_workspace_id m, am_service m, am_session_id m, am_model m)"

definition unique_marks :: "db \<Rightarrow> bool" where
  "unique_marks d \<longleftrightarrow> distinct (map mark_columns (ai_marks d))"

definition short_ids :: "report \<Rightarrow> bool" where
  "short_ids r \<longleftrightarrow> list_all (\<lambda>(sid, m, t). length sid \<le> 96 \<and> length m \<le> 96) (entries_of r)"

text \<open>The keys of a dict of dicts are distinct.\<close>

definition entry_key :: "string \<times> string \<times> tokens \<Rightarrow> mark_key" where
  "entry_key e = (case e of (sid, m, t) \<Rightarrow> (sid, m))"

definition dict_report :: "report \<Rightarrow> bool" where
  "dict_report r \<longleftrightarrow> distinct (map entry_key (entries_of r))"

text \<open>What one entry costs at a given level.\<close>

definition entry_cost ::
  "ai_usage_mark list \<Rightarrow> int \<Rightarrow> service \<Rightarrow> (string \<times> model_price) list \<Rightarrow> rat \<Rightarrow> rat \<Rightarrow>
   string \<times> string \<times> tokens \<Rightarrow> int" where
  "entry_cost rows ws sv prices usd_rate discount e =
     (case e of (sid, m, t) \<Rightarrow>
        (case resolve m prices of None \<Rightarrow> 0
         | Some p \<Rightarrow> toman_micro (\<lambda>c. Some (max 0 (tok t c - level rows ws sv (sid, m) c)))
             p usd_rate discount))"

lemma same_mark_columns: "same_mark a b \<longleftrightarrow> mark_columns a = mark_columns b"
  by (auto simp: same_mark_def mark_columns_def)

lemma key_row_same_mark: "key_row ws sv k m \<Longrightarrow> same_mark m x = key_row ws sv k x"
  by (auto simp: key_row_def same_mark_def)

lemma category_in [simp]: "c \<in> set CATEGORIES"
  by (cases c) (simp_all add: CATEGORIES_def)

lemma fmul_zero_left [simp]: "fmul 0 x = 0"
  by (simp add: fmul_def)

lemma toman_micro_zero [simp]: "toman_micro (\<lambda>c. Some 0) p usd_rate d = 0"
  by (simp add: toman_micro_def usd_for_def tok_def CATEGORIES_def fadd_def fdiv_def
      int_float_def)

lemma toman_micro_nonneg: "0 \<le> toman_micro t p u d"
  by (simp add: toman_micro_def Let_def)

lemma level_eq:
  assumes "distinct (map mark_columns rows)" and "m \<in> set rows" and "key_row ws sv k m"
  shows "level rows ws sv k = am_tokens m"
proof -
  have "key_row ws sv k = (\<lambda>x. mark_columns x = mark_columns m)"
    using assms(3) by (auto simp: key_row_def mark_columns_def fun_eq_iff)
  then show ?thesis using distinct_map_find [OF assms(1,2)] by (simp add: level_def)
qed

lemma level_none: "(\<And>m. m \<in> set rows \<Longrightarrow> \<not> key_row ws sv k m) \<Longrightarrow> level rows ws sv k = (\<lambda>_. 0)"
  by (simp add: level_def find_None_iff' [THEN iffD2])

section \<open>The invariant of the loop\<close>

text \<open>
  What holds of the loop's state after the entries \<open>es\<close>, for a table with unique marks and
  identities short enough not to be cut.
\<close>

definition priced :: "(string \<times> model_price) list \<Rightarrow> string \<times> string \<times> tokens \<Rightarrow> bool" where
  "priced prices e \<longleftrightarrow> resolve (fst (snd e)) prices \<noteq> None"

definition hand_ok :: "db \<Rightarrow> int \<Rightarrow> service \<Rightarrow> in_hand \<Rightarrow> bool" where
  "hand_ok d ws sv h \<longleftrightarrow> key_row ws sv (ih_key h) (ih_mark h)
     \<and> am_tokens (ih_mark h) = level (ai_marks d) ws sv (ih_key h)
     \<and> (ih_new h \<longleftrightarrow> \<not> list_ex (key_row ws sv (ih_key h)) (ai_marks d))"

definition hands_ok :: "db \<Rightarrow> int \<Rightarrow> service \<Rightarrow> in_hand list \<Rightarrow> bool" where
  "hands_ok d ws sv hs \<longleftrightarrow> distinct (map ih_key hs) \<and> list_all (hand_ok d ws sv) hs
     \<and> (\<forall>m \<in> set (ai_marks d). \<forall>k. key_row ws sv k m \<longrightarrow> k \<in> ih_key ` set hs)"

definition touched_ok ::
  "db \<Rightarrow> int \<Rightarrow> service \<Rightarrow> (string \<times> model_price) list \<Rightarrow> (string \<times> string \<times> tokens) list \<Rightarrow>
   meter_state \<Rightarrow> bool" where
  "touched_ok d ws sv prices es st \<longleftrightarrow>
     distinct (map fst (ms_touched st))
     \<and> fst ` set (ms_touched st) \<subseteq> ih_key ` set (ms_marks st)
     \<and> (\<forall>(k, f) \<in> set (ms_touched st). \<exists>e \<in> set es. entry_key e = k \<and> priced prices e
          \<and> f = (\<lambda>c. max (tok (snd (snd e)) c) (level (ai_marks d) ws sv k c)))
     \<and> (\<forall>e \<in> set es. priced prices e \<longrightarrow> entry_key e \<notin> fst ` set (ms_touched st) \<longrightarrow>
          (\<forall>c. tok (snd (snd e)) c \<le> level (ai_marks d) ws sv (entry_key e) c))"

lemma find_mark_Some: "find_mark ms k = Some h \<Longrightarrow> h \<in> set ms \<and> ih_key h = k"
  by (auto simp: find_mark_def dest: find_SomeD)

lemma find_mark_None: "find_mark ms k = None \<longleftrightarrow> k \<notin> ih_key ` set ms"
  by (auto simp: find_mark_def find_None_iff')

lemma load_marks_complete:
  "m \<in> set (ai_marks d) \<Longrightarrow> key_row ws sv k m \<Longrightarrow> k \<in> ih_key ` set (load_marks d ws sv)"
  by (force simp: load_marks_def key_row_def)

lemma hands_ok_load:
  assumes "unique_marks d"
  shows "hands_ok d ws sv (load_marks d ws sv)"
proof -
  let ?P = "\<lambda>m. am_workspace_id m = ws \<and> am_service m = service_name sv"
  have "distinct (map mark_columns (filter ?P (ai_marks d)))"
    using assms by (simp add: unique_marks_def distinct_map_filter)
  then have "inj_on mark_columns (set (filter ?P (ai_marks d)))" "distinct (filter ?P (ai_marks d))"
    by (simp_all add: distinct_map)
  then have "distinct (map (\<lambda>m. (am_session_id m, am_model m)) (filter ?P (ai_marks d)))"
    by (auto simp: distinct_map inj_on_def mark_columns_def)
  then have "distinct (map ih_key (load_marks d ws sv))"
    by (simp add: load_marks_def comp_def)
  moreover have "hand_ok d ws sv h" if "h \<in> set (load_marks d ws sv)" for h
  proof -
    from that obtain m where m: "m \<in> set (ai_marks d)" "?P m"
      and h: "h = \<lparr>ih_key = (am_session_id m, am_model m), ih_new = False, ih_mark = m\<rparr>"
      by (auto simp: load_marks_def)
    have k: "key_row ws sv (ih_key h) m" using m h by (simp add: key_row_def)
    then have "list_ex (key_row ws sv (ih_key h)) (ai_marks d)" using m by (auto simp: list_ex_iff)
    with k m h level_eq [of "ai_marks d" m] assms show ?thesis
      by (simp add: hand_ok_def unique_marks_def)
  qed
  ultimately show ?thesis using load_marks_complete by (auto simp: hands_ok_def list_all_iff)
qed

lemma hands_ok_take:
  assumes ok: "hands_ok d ws sv hs" and len: "length (fst k) \<le> 96" "length (snd k) \<le> 96"
    and tk: "take_mark ws sv k hs = (mark, hs')"
  shows "hands_ok d ws sv hs'" "am_tokens mark = level (ai_marks d) ws sv k"
    "k \<in> ih_key ` set hs'" "ih_key ` set hs \<subseteq> ih_key ` set hs'"
proof -
  have "hands_ok d ws sv hs' \<and> am_tokens mark = level (ai_marks d) ws sv k
      \<and> k \<in> ih_key ` set hs' \<and> ih_key ` set hs \<subseteq> ih_key ` set hs'"
  proof (cases "find_mark hs k")
    case (Some h)
    from find_mark_Some [OF this] ok have "hand_ok d ws sv h" "ih_key h = k" "h \<in> set hs"
      by (auto simp: hands_ok_def list_all_iff)
    with Some tk ok show ?thesis by (auto simp: take_mark_def hand_ok_def)
  next
    case None
    then have k: "k \<notin> ih_key ` set hs" by (simp add: find_mark_None)
    have hs': "hs' = hs @ [\<lparr>ih_key = k, ih_new = True, ih_mark = mark\<rparr>]"
      and mark: "mark = fresh_mark ws sv k"
      using None tk by (auto simp: take_mark_def Let_def)
    have kr: "key_row ws sv k mark" using len by (simp add: mark fresh_mark_def key_row_def)
    have none: "\<not> key_row ws sv k m" if "m \<in> set (ai_marks d)" for m
      using ok k that by (cases k) (auto simp: hands_ok_def)
    then have "level (ai_marks d) ws sv k = (\<lambda>_. 0)" by (rule level_none)
    then have "hand_ok d ws sv \<lparr>ih_key = k, ih_new = True, ih_mark = mark\<rparr>"
      using kr none by (auto simp: hand_ok_def mark fresh_mark_def list_ex_iff)
    with ok k hs' \<open>level _ _ _ _ = _\<close> show ?thesis
      by (auto simp: hands_ok_def mark fresh_mark_def)
  qed
  then show "hands_ok d ws sv hs'" "am_tokens mark = level (ai_marks d) ws sv k"
    "k \<in> ih_key ` set hs'" "ih_key ` set hs \<subseteq> ih_key ` set hs'" by blast+
qed

text \<open>Billing a mark in hand changes neither its key nor its tokens.\<close>

lemma hands_ok_bill:
  assumes "hands_ok d ws sv hs"
  shows "hands_ok d ws sv (map_rows (\<lambda>h. ih_key h = k)
      (\<lambda>h. h\<lparr>ih_mark := (ih_mark h)\<lparr>am_billed_micro := am_billed_micro (ih_mark h) + n\<rparr>\<rparr>) hs)"
    (is "hands_ok d ws sv (map_rows ?p ?f hs)")
proof -
  have keys: "map ih_key (map_rows ?p ?f hs) = map ih_key hs" by (rule map_map_rows) simp
  then have ks: "ih_key ` set (map_rows ?p ?f hs) = ih_key ` set hs"
    by (simp only: set_map [symmetric])
  have "hand_ok d ws sv (?f h) = hand_ok d ws sv h" for h
    by (simp add: hand_ok_def key_row_def)
  then have "list_all (hand_ok d ws sv) (map_rows ?p ?f hs) = list_all (hand_ok d ws sv) hs"
    by (induction hs) auto
  with assms show ?thesis unfolding hands_ok_def keys ks by blast
qed

lemma keys_bill [simp]:
  "ih_key ` set (map_rows p (\<lambda>h. h\<lparr>ih_mark := g h\<rparr>) hs) = ih_key ` set hs"
proof -
  have keys: "map ih_key (map_rows p (\<lambda>h. h\<lparr>ih_mark := g h\<rparr>) hs) = map ih_key hs"
    by (rule map_map_rows) simp
  show ?thesis unfolding set_map [symmetric] keys ..
qed

definition pass_ok ::
  "db \<Rightarrow> int \<Rightarrow> service \<Rightarrow> (string \<times> model_price) list \<Rightarrow> rat \<Rightarrow> rat \<Rightarrow>
   (string \<times> string \<times> tokens) list \<Rightarrow> meter_state \<Rightarrow> bool" where
  "pass_ok d ws sv prices u disc es st \<longleftrightarrow>
     hands_ok d ws sv (ms_marks st) \<and> touched_ok d ws sv prices es st
     \<and> ms_total st = sum_list (map (entry_cost (ai_marks d) ws sv prices u disc) es)"

lemma touched_okD:
  assumes "touched_ok d ws sv prices es st"
  shows "distinct (map fst (ms_touched st))"
    "fst ` set (ms_touched st) \<subseteq> ih_key ` set (ms_marks st)"
    "(k, f) \<in> set (ms_touched st) \<Longrightarrow> \<exists>e \<in> set es. entry_key e = k \<and> priced prices e
       \<and> f = (\<lambda>c. max (tok (snd (snd e)) c) (level (ai_marks d) ws sv k c))"
    "e \<in> set es \<Longrightarrow> priced prices e \<Longrightarrow> entry_key e \<notin> fst ` set (ms_touched st) \<Longrightarrow>
       tok (snd (snd e)) c \<le> level (ai_marks d) ws sv (entry_key e) c"
  using assms unfolding touched_ok_def by blast+

lemma touched_okI:
  assumes "distinct (map fst (ms_touched st))"
    "fst ` set (ms_touched st) \<subseteq> ih_key ` set (ms_marks st)"
    "\<And>k f. (k, f) \<in> set (ms_touched st) \<Longrightarrow> \<exists>e \<in> set es. entry_key e = k \<and> priced prices e
       \<and> f = (\<lambda>c. max (tok (snd (snd e)) c) (level (ai_marks d) ws sv k c))"
    "\<And>e c. e \<in> set es \<Longrightarrow> priced prices e \<Longrightarrow> entry_key e \<notin> fst ` set (ms_touched st) \<Longrightarrow>
       tok (snd (snd e)) c \<le> level (ai_marks d) ws sv (entry_key e) c"
  shows "touched_ok d ws sv prices es st"
  unfolding touched_ok_def using assms by blast

lemma pass_ok_step:
  assumes ok: "pass_ok d ws sv prices u disc es st"
    and new: "entry_key e \<notin> entry_key ` set es"
    and len: "length (fst (entry_key e)) \<le> 96" "length (snd (entry_key e)) \<le> 96"
  shows "pass_ok d ws sv prices u disc (es @ [e]) (meter_entry ws sv prices u disc e st)"
proof -
  obtain sid m t where e: "e = (sid, m, t)" by (cases e)
  let ?k = "(sid, m)"
  let ?L = "level (ai_marks d) ws sv ?k"
  have k: "entry_key e = ?k" by (simp add: e entry_key_def)
  have "touched_ok d ws sv prices es st" using ok by (simp add: pass_ok_def)
  note tch = touched_okD [OF this]
  have nt: "?k \<notin> fst ` set (ms_touched st)"
  proof
    assume "?k \<in> fst ` set (ms_touched st)"
    then obtain f where "(?k, f) \<in> set (ms_touched st)" by auto
    from tch(3) [OF this] new k show False by force
  qed
  show ?thesis
  proof (cases "resolve m prices")
    case None
    then have "\<not> priced prices e" by (simp add: priced_def e)
    with None ok show ?thesis
      by (auto simp: pass_ok_def touched_ok_def meter_entry_def e entry_cost_def)
  next
    case (Some p)
    obtain mark hs where tk: "take_mark ws sv ?k (ms_marks st) = (mark, hs)" by fastforce
    have h: "hands_ok d ws sv (ms_marks st)" using ok by (simp add: pass_ok_def)
    note T = hands_ok_take [OF h _ _ tk, unfolded fst_conv snd_conv]
    have T': "hands_ok d ws sv hs" "am_tokens mark = ?L" "?k \<in> ih_key ` set hs"
      "ih_key ` set (ms_marks st) \<subseteq> ih_key ` set hs"
      using T len k by simp_all
    have pr: "priced prices e" using Some by (simp add: priced_def e)
    have delta: "token_delta t mark = (\<lambda>c. max 0 (tok t c - ?L c))"
      by (simp add: token_delta_def T' fun_eq_iff)
    have cost: "entry_cost (ai_marks d) ws sv prices u disc e
        = toman_micro (\<lambda>c. Some (token_delta t mark c)) p u disc"
      using Some by (simp add: entry_cost_def e delta)
    show ?thesis
    proof (cases "list_ex (\<lambda>c. token_delta t mark c \<noteq> 0) CATEGORIES")
      case False
      then have z: "token_delta t mark = (\<lambda>_. 0)" by (auto simp: list_ex_iff fun_eq_iff)
      then have "tok t c \<le> ?L c" for c using delta fun_cong [of _ _ c] by (smt (verit))
      then have le: "\<forall>c. tok (snd (snd e)) c \<le> level (ai_marks d) ws sv (entry_key e) c"
        by (simp add: e entry_key_def)
      have st': "meter_entry ws sv prices u disc e st = st\<lparr>ms_marks := hs\<rparr>"
        using False Some tk by (simp add: meter_entry_def e Let_def)
      have z': "entry_cost (ai_marks d) ws sv prices u disc e = 0" using cost z by simp
      have "touched_ok d ws sv prices (es @ [e]) (st\<lparr>ms_marks := hs\<rparr>)"
      proof (rule touched_okI, goal_cases)
        case (3 k f)
        then show ?case using tch(3) [of k f] by auto
      qed (use tch T'(4) le in auto)
      with ok T'(1) z' show ?thesis by (simp add: pass_ok_def st')
    next
      case True
      let ?n = "(?k, \<lambda>c. max (tok t c) (?L c))"
      have st': "ms_touched (meter_entry ws sv prices u disc e st) = ms_touched st @ [?n]"
        "ih_key ` set (ms_marks (meter_entry ws sv prices u disc e st)) = ih_key ` set hs"
        "ms_total (meter_entry ws sv prices u disc e st)
          = ms_total st + entry_cost (ai_marks d) ws sv prices u disc e"
        "hands_ok d ws sv (ms_marks (meter_entry ws sv prices u disc e st))"
        using True Some tk T' cost
        by (simp_all add: meter_entry_def e Let_def hands_ok_bill)
      have "touched_ok d ws sv prices (es @ [e]) (meter_entry ws sv prices u disc e st)"
      proof (rule touched_okI, goal_cases)
        case 1
        then show ?case using tch(1) nt st' by simp
      next
        case 2
        then show ?case using tch(2) T'(3,4) st' by auto
      next
        case (3 k' f)
        then consider "(k', f) \<in> set (ms_touched st)" | "(k', f) = ?n" using st' by auto
        then show ?case
        proof cases
          case 1
          then show ?thesis using tch(3) [of k' f] by auto
        next
          case 2
          then show ?thesis using pr k by (auto simp: e)
        qed
      next
        case (4 e' c)
        then show ?case using tch(4) [of e' c] st' k by auto
      qed
      with st' ok show ?thesis by (simp add: pass_ok_def)
    qed
  qed
qed

lemma pass_ok_fold:
  assumes "pass_ok d ws sv prices u disc done st"
    and "distinct (map entry_key (done @ es))"
    and "\<And>e. e \<in> set es \<Longrightarrow> length (fst (entry_key e)) \<le> 96 \<and> length (snd (entry_key e)) \<le> 96"
  shows "pass_ok d ws sv prices u disc (done @ es)
           (fold (meter_entry ws sv prices u disc) es st)"
  using assms
proof (induction es arbitrary: "done" st)
  case Nil
  then show ?case by simp
next
  case (Cons e es)
  have "pass_ok d ws sv prices u disc (done @ [e]) (meter_entry ws sv prices u disc e st)"
    using Cons.prems by (intro pass_ok_step) auto
  from Cons.IH [OF this] Cons.prems show ?case by simp
qed

lemma pass_ok_meter_pass:
  assumes "unique_marks d" "dict_report r" "short_ids r"
  shows "pass_ok d ws sv prices u disc (entries_of r) (meter_pass d ws sv prices u disc r)"
proof -
  have "pass_ok d ws sv prices u disc []
      \<lparr>ms_marks = load_marks d ws sv, ms_total = 0, ms_models = [], ms_unpriced = [],
        ms_touched = []\<rparr>"
    using hands_ok_load [OF assms(1)] by (simp add: pass_ok_def touched_ok_def)
  from pass_ok_fold [OF this, of "entries_of r"] assms(2,3) show ?thesis
    by (simp add: meter_pass_def dict_report_def short_ids_def list_all_iff entry_key_def
        case_prod_beta)
qed

section \<open>Writing back realises the levels\<close>

lemma level_map_rows_other:
  assumes "k' \<noteq> k" and "\<And>m. key_row ws sv k m \<Longrightarrow> key_row ws sv k (f m)"
  shows "level (map_rows (key_row ws sv k) f rows) ws sv k' = level rows ws sv k'"
proof -
  have "find (key_row ws sv k') (map_rows (key_row ws sv k) f rows) = find (key_row ws sv k') rows"
    using assms by (intro find_map_rows_other) (auto simp: key_row_def)
  then show ?thesis by (simp add: level_def)
qed

lemma level_map_rows_same:
  assumes "\<And>m. key_row ws sv k m \<Longrightarrow> key_row ws sv k (f m)"
    and "list_ex (key_row ws sv k) rows" and "\<And>m. key_row ws sv k m \<Longrightarrow> am_tokens (f m) = g"
  shows "level (map_rows (key_row ws sv k) f rows) ws sv k = g"
  using assms(2) by (induction rows) (auto simp: level_def assms(1,3))

lemma list_ex_map_rows:
  assumes "\<And>m. p m \<Longrightarrow> q (f m) = q m"
  shows "list_ex q (map_rows p f rows) = list_ex q rows"
  by (induction rows) (auto simp: assms)

lemma key_row_cong: "key_row ws sv k m \<Longrightarrow> key_row ws sv k m' \<Longrightarrow>
    key_row ws sv' k' m = key_row ws sv' k' m'"
  by (auto simp: key_row_def)

text \<open>The flush writes only \<open>billed_micro\<close> of old rows: no level moves, and every mark in
  hand has a row afterwards.\<close>

lemma flush_old_levels:
  assumes "list_all (hand_ok d ws sv) hs" and "\<And>k. level rows ws sv k = level (ai_marks d) ws sv k"
  shows "level (fold (\<lambda>h. map_rows (same_mark (ih_mark h)) (\<lambda>_. ih_mark h)) hs rows) ws sv k
    = level (ai_marks d) ws sv k"
  using assms
proof (induction hs arbitrary: rows)
  case Nil
  then show ?case by simp
next
  case (Cons h hs)
  have h: "key_row ws sv (ih_key h) (ih_mark h)" "am_tokens (ih_mark h) = level (ai_marks d) ws sv (ih_key h)"
    using Cons.prems(1) by (auto simp: hand_ok_def)
  have "same_mark (ih_mark h) = key_row ws sv (ih_key h)"
    using key_row_same_mark [OF h(1)] by (simp add: fun_eq_iff)
  moreover have "level (map_rows (key_row ws sv (ih_key h)) (\<lambda>_. ih_mark h) rows) ws sv j
      = level (ai_marks d) ws sv j" for j
  proof (cases "j = ih_key h")
    case True
    show ?thesis
    proof (cases "list_ex (key_row ws sv (ih_key h)) rows")
      case ex: True
      with True h show ?thesis by (simp add: level_map_rows_same)
    next
      case False
      then have "map_rows (key_row ws sv (ih_key h)) (\<lambda>_. ih_mark h) rows = rows"
        by (intro map_rows_none) (auto simp: list_ex_iff)
      with Cons.prems(2) show ?thesis by simp
    qed
  next
    case False
    with h Cons.prems(2) show ?thesis by (simp add: level_map_rows_other)
  qed
  ultimately show ?case using Cons by simp
qed

lemma flush_old_rows:
  assumes "list_all (hand_ok d ws sv) hs"
  shows "list_ex (key_row ws sv k) (fold (\<lambda>h. map_rows (same_mark (ih_mark h)) (\<lambda>_. ih_mark h)) hs rows)
    = list_ex (key_row ws sv k) rows"
  using assms
proof (induction hs arbitrary: rows)
  case (Cons h hs)
  have h: "key_row ws sv (ih_key h) (ih_mark h)" using Cons.prems by (auto simp: hand_ok_def)
  have "same_mark (ih_mark h) = key_row ws sv (ih_key h)"
    using key_row_same_mark [OF h] by (simp add: fun_eq_iff)
  then have "list_ex (key_row ws sv k) (map_rows (same_mark (ih_mark h)) (\<lambda>_. ih_mark h) rows)
      = list_ex (key_row ws sv k) rows"
    using h by (simp only:) (rule list_ex_map_rows, metis key_row_cong)
  with Cons show ?case by simp
qed simp

lemma level_append:
  "level (rows @ ms) ws sv k = (if list_ex (key_row ws sv k) rows then level rows ws sv k
     else level ms ws sv k)"
  by (auto simp: level_def find_append find_None_iff' list_ex_iff split: option.splits
      dest!: find_SomeD)

lemma new_marks_level:
  assumes "hands_ok d ws sv (ms_marks st)" and "\<not> list_ex (key_row ws sv k) (ai_marks d)"
  shows "level (new_marks st) ws sv k = (\<lambda>_. 0)"
proof (cases "find (key_row ws sv k) (new_marks st)")
  case None
  then show ?thesis by (simp add: level_def)
next
  case (Some m)
  from find_SomeD [OF this] obtain h where h: "h \<in> set (ms_marks st)" "m = ih_mark h"
    "key_row ws sv k m" by (auto simp: new_marks_def)
  then have "hand_ok d ws sv h" using assms(1) by (auto simp: hands_ok_def list_all_iff)
  then have "am_tokens m = level (ai_marks d) ws sv (ih_key h)" "ih_key h = k"
    using h by (auto simp: hand_ok_def key_row_def)
  moreover have "level (ai_marks d) ws sv k = (\<lambda>_. 0)"
    using assms(2) by (intro level_none) (auto simp: list_ex_iff)
  ultimately show ?thesis using Some by (simp add: level_def)
qed

lemma flush_level:
  assumes "hands_ok d ws sv (ms_marks st)"
  shows "level (ai_marks (flush_marks st d)) ws sv k = level (ai_marks d) ws sv k"
    and "k \<in> ih_key ` set (ms_marks st) \<Longrightarrow> list_ex (key_row ws sv k) (ai_marks (flush_marks st d))"
proof -
  let ?old = "filter (\<lambda>h. \<not> ih_new h) (ms_marks st)"
  let ?rows = "fold (\<lambda>h. map_rows (same_mark (ih_mark h)) (\<lambda>_. ih_mark h)) ?old (ai_marks d)"
  have ok: "list_all (hand_ok d ws sv) ?old" using assms by (auto simp: hands_ok_def list_all_iff)
  have lev: "level ?rows ws sv k = level (ai_marks d) ws sv k" for k
    by (rule flush_old_levels [OF ok]) simp
  note ex = flush_old_rows [OF ok, of _ "ai_marks d"]
  show "level (ai_marks (flush_marks st d)) ws sv k = level (ai_marks d) ws sv k"
  proof (cases "list_ex (key_row ws sv k) (ai_marks d)")
    case True
    then show ?thesis using ex lev by (simp add: flush_marks_def level_append)
  next
    case False
    then have "level (ai_marks d) ws sv k = (\<lambda>_. 0)" by (intro level_none) (auto simp: list_ex_iff)
    with False show ?thesis using ex new_marks_level [OF assms False]
      by (simp add: flush_marks_def level_append)
  qed
  assume "k \<in> ih_key ` set (ms_marks st)"
  then obtain h where h: "h \<in> set (ms_marks st)" "ih_key h = k" by auto
  then have ok_h: "hand_ok d ws sv h" using assms by (auto simp: hands_ok_def list_all_iff)
  show "list_ex (key_row ws sv k) (ai_marks (flush_marks st d))"
  proof (cases "ih_new h")
    case True
    then show ?thesis using h ok_h
      by (auto simp: flush_marks_def new_marks_def list_ex_iff hand_ok_def)
  next
    case False
    then have "list_ex (key_row ws sv k) (ai_marks d)" using ok_h h by (simp add: hand_ok_def)
    then show ?thesis using ex by (simp add: flush_marks_def)
  qed
qed

text \<open>Raising the touched marks sets each touched level, and no other.\<close>

lemma raise_mark_rows:
  assumes "hands_ok d ws sv hs" and "fst t \<in> ih_key ` set hs"
  shows "ai_marks (raise_mark hs t d')
    = map_rows (key_row ws sv (fst t)) (\<lambda>m. m\<lparr>am_tokens := snd t\<rparr>) (ai_marks d')"
proof -
  obtain h where h: "find_mark hs (fst t) = Some h"
    using assms(2) by (cases "find_mark hs (fst t)") (auto simp: find_mark_None)
  with find_mark_Some [OF h] assms(1) have "key_row ws sv (fst t) (ih_mark h)"
    by (auto simp: hands_ok_def hand_ok_def list_all_iff)
  then have "same_mark (ih_mark h) = key_row ws sv (fst t)"
    by (simp add: fun_eq_iff key_row_same_mark)
  with h show ?thesis by (simp add: raise_mark_def)
qed

lemma raise_levels:
  assumes "hands_ok d ws sv hs" and "distinct (map fst ts)"
    and "fst ` set ts \<subseteq> ih_key ` set hs"
    and "\<And>k. k \<in> fst ` set ts \<Longrightarrow> list_ex (key_row ws sv k) (ai_marks d')"
  shows "level (ai_marks (fold (raise_mark hs) ts d')) ws sv k
    = (case map_of ts k of None \<Rightarrow> level (ai_marks d') ws sv k | Some f \<Rightarrow> f)"
  using assms(2-)
proof (induction ts arbitrary: d')
  case Nil
  then show ?case by simp
next
  case (Cons t ts)
  obtain j f where t: "t = (j, f)" by (cases t)
  have rows: "ai_marks (raise_mark hs t d')
      = map_rows (key_row ws sv j) (\<lambda>m. m\<lparr>am_tokens := f\<rparr>) (ai_marks d')"
    using raise_mark_rows [OF assms(1), of t d'] Cons.prems t by simp
  have kr: "key_row ws sv i (m\<lparr>am_tokens := f\<rparr>) = key_row ws sv i m" for i m
    by (simp add: key_row_def)
  have ex: "list_ex (key_row ws sv i) (ai_marks (raise_mark hs t d'))
      = list_ex (key_row ws sv i) (ai_marks d')" for i
    unfolding rows by (rule list_ex_map_rows) (simp add: kr)
  have IH: "level (ai_marks (fold (raise_mark hs) ts (raise_mark hs t d'))) ws sv k
      = (case map_of ts k of None \<Rightarrow> level (ai_marks (raise_mark hs t d')) ws sv k | Some f \<Rightarrow> f)"
    using Cons.prems by (intro Cons.IH) (auto simp: ex)
  show ?case
  proof (cases "k = j")
    case True
    then have "map_of ts k = None" using Cons.prems(1) t by (simp add: map_of_eq_None_iff)
    moreover have "level (ai_marks (raise_mark hs t d')) ws sv j = f"
      unfolding rows using Cons.prems(3) t by (intro level_map_rows_same) (auto simp: kr)
    ultimately show ?thesis using IH True t by simp
  next
    case False
    then have "level (ai_marks (raise_mark hs t d')) ws sv k = level (ai_marks d') ws sv k"
      unfolding rows by (intro level_map_rows_other) (auto simp: kr)
    with IH False t show ?thesis by (cases "map_of ts k") simp_all
  qed
qed

section \<open>What a charged pass does\<close>

lemma load_ai_prices_frame:
  assumes "load_ai_prices sv s0 = (prices, s)"
  shows "ai_marks (cur s) = ai_marks (cur s0)" "transactions (cur s) = transactions (cur s0)"
    "balance_micro (cur s) u = balance_micro (cur s0) u" "settings (cur s) = settings (cur s0)"
    "prices = price_rows (cur s) sv" "clean s0 \<Longrightarrow> clean s"
    "workspaces (cur s) = workspaces (cur s0)"
  using assms
  by (auto simp: load_ai_prices_def Let_def balance_micro_def clean_def split: list.splits option.splits)

lemma load_ai_prices_again:
  assumes "load_ai_prices sv s0 = (prices, s)" and "ai_prices (cur s') = ai_prices (cur s)"
  shows "fst (load_ai_prices sv s') = prices"
proof -
  have rows: "price_rows (cur s') sv = price_rows (cur s) sv"
    using assms(2) by (simp add: price_rows_def)
  show ?thesis
  proof (cases "price_rows (cur s) sv")
    case Nil
    have "SEED_BY_SERVICE sv = None"
    proof (rule ccontr)
      assume "SEED_BY_SERVICE sv \<noteq> None"
      then obtain seed where seed: "SEED_BY_SERVICE sv = Some seed" by auto
      then have ne: "seed \<noteq> []"
        by (auto simp: SEED_BY_SERVICE_def SEED_PRICES_def CODEX_SEED_PRICES_def split: service.splits)
      show False
      proof (cases "price_rows (cur s0) sv")
        case c: Nil
        with seed have "s = commit (edit (\<lambda>d. d\<lparr>ai_prices := ai_prices d @ seed_rows sv (seq s0) seed\<rparr>)
            (s0\<lparr>seq := seq s0 + int (length seed)\<rparr>))"
          using assms(1) by (simp add: load_ai_prices_def Let_def)
        with Nil ne show False by (auto simp: price_rows_def case_prod_beta filter_empty_conv neq_Nil_conv)
      next
        case (Cons r rs)
        then have "s = s0" using assms(1) seed by (simp add: load_ai_prices_def)
        with Cons Nil show False by simp
      qed
    qed
    with rows Nil load_ai_prices_frame(5) [OF assms(1)] show ?thesis
      by (simp add: load_ai_prices_def)
  next
    case (Cons r rs)
    with rows load_ai_prices_frame(5) [OF assms(1)] show ?thesis
      by (simp add: load_ai_prices_def)
  qed
qed

lemma raise_fold_frame [simp]:
  "transactions (fold (raise_mark hs) ts d) = transactions d"
  "credit_accounts (fold (raise_mark hs) ts d) = credit_accounts d"
  "ai_prices (fold (raise_mark hs) ts d) = ai_prices d"
  "settings (fold (raise_mark hs) ts d) = settings d"
  by (induction ts arbitrary: d) (auto simp: raise_mark_def split: option.splits)

lemma flush_marks_frame [simp]:
  "transactions (flush_marks st d) = transactions d"
  "credit_accounts (flush_marks st d) = credit_accounts d"
  "ai_prices (flush_marks st d) = ai_prices d"
  "settings (flush_marks st d) = settings d"
  by (simp_all add: flush_marks_def)

lemma balance_frame:
  "credit_accounts d = credit_accounts d' \<Longrightarrow> balance_micro d u = balance_micro d' u"
  by (simp add: balance_micro_def)

lemma posted_Some:
  "fst p = Some x \<Longrightarrow> (case p of (None, s) \<Rightarrow> f s | (Some y, s) \<Rightarrow> g y s) = g x (snd p)"
  by (cases p) auto

lemma posted_None:
  "fst p = None \<Longrightarrow> (case p of (None, s) \<Rightarrow> f s | (Some y, s) \<Rightarrow> g y s) = f (snd p)"
  by (cases p) auto

text \<open>The three outcomes of a pass that does not raise.\<close>

lemma meter_cases:
  assumes "meter_ai_usage now w r sv s0 = Inr (res, s')"
  obtains (nothing) prices s st where "load_ai_prices sv s0 = (prices, s)"
      "st = meter_pass (cur s) (w_id w) sv prices
        (fst (ai_settings (get_settings (cur s)) sv)) (snd (ai_settings (get_settings (cur s)) sv)) r"
      "ms_touched st = []" "mr_charged_micro res = 0" "\<not> mr_skipped res"
      "s' = edit (\<lambda>d. d\<lparr>ai_marks := ai_marks d @ new_marks st\<rparr>) s"
  | (skipped) prices s where "load_ai_prices sv s0 = (prices, s)"
      "mr_charged_micro res = 0" "mr_skipped res" "cur s' = saved s" "saved s' = saved s"
  | (charged) prices s st kind detail where "load_ai_prices sv s0 = (prices, s)"
      "st = meter_pass (cur s) (w_id w) sv prices
        (fst (ai_settings (get_settings (cur s)) sv)) (snd (ai_settings (get_settings (cur s)) sv)) r"
      "ms_touched st \<noteq> []" "mr_charged_micro res = ms_total st" "\<not> mr_skipped res"
      "\<not> marks_conflict (ai_marks (cur s)) (new_marks st)" "saved s' = cur s'"
      "cur s' = fold (raise_mark (ms_marks st)) (ms_touched st)
         (move_balance (w_user_id w) (- ms_total st) ((flush_marks st (cur s))\<lparr>transactions :=
            transactions (cur s) @ [new_tx (seq s + 1) (w_user_id w) (Some (w_id w)) kind
              (- ms_total st) (Some (ai_period now)) detail None]\<rparr>))"
proof -
  obtain prices s where l: "load_ai_prices sv s0 = (prices, s)" by fastforce
  obtain u disc where ud: "ai_settings (get_settings (cur s)) sv = (u, disc)" by fastforce
  let ?st = "meter_pass (cur s) (w_id w) sv prices u disc r"
  show thesis
  proof (cases "ms_touched ?st = []")
    case True
    with assms l ud show thesis
      by - (rule nothing [of prices s ?st], auto simp: meter_ai_usage_def Let_def)
  next
    case False
    then obtain kind where k: "ai_tx_kind sv = Some kind"
      using assms l ud by (auto simp: meter_ai_usage_def Let_def split: option.splits)
    show thesis
    proof (cases "marks_conflict (ai_marks (cur s)) (new_marks ?st)")
      case True
      then show thesis using assms l ud k False
        by (intro skipped [of prices s]) (auto simp: meter_ai_usage_def Let_def)
    next
      case nc: False
      let ?dt = "AiDetail (service_name sv) u disc
          (map (\<lambda>(m, t, x). (m, map (\<lambda>c. (c, t c)) CATEGORIES, x)) (ms_models ?st))"
      let ?post = "post_transaction (w_user_id w) (Some (w_id w)) kind (- ms_total ?st)
          (Some (ai_period now)) ?dt None False (edit (flush_marks ?st) s)"
      have m: "meter_ai_usage now w r sv s0 = (case ?post of
          (None, s') \<Rightarrow> return (\<lparr>mr_charged_micro = 0, mr_models = [],
             mr_unpriced = sort (ms_unpriced ?st), mr_skipped = True\<rparr>, rollback s')
        | (Some _, s') \<Rightarrow> return (\<lparr>mr_charged_micro = ms_total ?st,
             mr_models = map (\<lambda>(m, t, x). (m, to_toman x)) (ms_models ?st),
             mr_unpriced = sort (ms_unpriced ?st), mr_skipped = False\<rparr>,
             commit (edit (fold (raise_mark (ms_marks ?st)) (ms_touched ?st)) s')))"
        using l ud k False nc by (simp add: meter_ai_usage_def Let_def)
      show thesis
      proof (cases "fst ?post")
        case None
        from m [unfolded posted_None [OF None] post_transaction_rolled_back [OF None]] assms l
        show thesis by (intro skipped [of prices s]) auto
      next
        case (Some tx)
        note trans [OF assms [symmetric] m [unfolded posted_Some [OF Some]]]
        then have res: "mr_charged_micro res = ms_total ?st" "\<not> mr_skipped res"
          and s': "s' = commit (edit (fold (raise_mark (ms_marks ?st)) (ms_touched ?st)) (snd ?post))"
          by simp_all
        have st: "?st = meter_pass (cur s) (w_id w) sv prices
            (fst (ai_settings (get_settings (cur s)) sv)) (snd (ai_settings (get_settings (cur s)) sv)) r"
          by (simp add: ud)
        have c: "cur s' = fold (raise_mark (ms_marks ?st)) (ms_touched ?st)
          (move_balance (w_user_id w) (- ms_total ?st) ((flush_marks ?st (cur s))\<lparr>transactions :=
            transactions (cur s) @ [new_tx (seq s + 1) (w_user_id w) (Some (w_id w)) kind
              (- ms_total ?st) (Some (ai_period now)) ?dt None]\<rparr>))"
          using post_transaction_cur [OF Some] by (simp add: s')
        have sv: "saved s' = cur s'" by (simp add: s')
        show thesis by (rule charged [OF l st False res nc sv c])
      qed
    qed
  qed
qed

lemma marks_conflict_iff:
  "marks_conflict rows ms \<longleftrightarrow>
     \<not> (distinct (map mark_columns ms)
        \<and> set (map mark_columns ms) \<inter> set (map mark_columns rows) = {})"
proof (induction rows ms rule: marks_conflict.induct)
  case (2 rows m ms)
  have "list_ex (same_mark m) rows \<longleftrightarrow> mark_columns m \<in> mark_columns ` set rows"
    by (auto simp: list_ex_iff same_mark_columns)
  with 2 show ?case by auto
qed simp

lemma no_conflict_distinct:
  assumes "distinct (map mark_columns rows)" and "\<not> marks_conflict rows ms"
  shows "distinct (map mark_columns rows @ map mark_columns ms)"
  using assms by (auto simp: marks_conflict_iff)

lemma pass_levels:
  assumes "pass_ok d ws sv prices u disc es st" and "distinct (map entry_key es)"
    and "e \<in> set es" and "priced prices e"
  shows "(case map_of (ms_touched st) (entry_key e) of None \<Rightarrow> level (ai_marks d) ws sv (entry_key e)
      | Some f \<Rightarrow> f) = (\<lambda>c. max (tok (snd (snd e)) c) (level (ai_marks d) ws sv (entry_key e) c))"
proof -
  have "touched_ok d ws sv prices es st" using assms(1) by (simp add: pass_ok_def)
  note tch = touched_okD [OF this]
  show ?thesis
  proof (cases "map_of (ms_touched st) (entry_key e)")
    case None
    then have "entry_key e \<notin> fst ` set (ms_touched st)" by (simp add: map_of_eq_None_iff)
    from tch(4) [OF assms(3,4) this] None show ?thesis by (simp add: fun_eq_iff max_absorb2)
  next
    case (Some f)
    from tch(3) [OF map_of_SomeD [OF Some]] obtain e' where
      e': "e' \<in> set es" "entry_key e' = entry_key e"
        "f = (\<lambda>c. max (tok (snd (snd e')) c) (level (ai_marks d) ws sv (entry_key e) c))" by auto
    with assms(2,3) have "e' = e" by (simp add: distinct_map inj_on_def)
    with Some e' show ?thesis by simp
  qed
qed

lemma pass_levels_other:
  assumes "pass_ok d ws sv prices u disc es st"
    and "\<And>e. e \<in> set es \<Longrightarrow> priced prices e \<Longrightarrow> entry_key e \<noteq> k"
  shows "map_of (ms_touched st) k = None"
proof -
  have "touched_ok d ws sv prices es st" using assms(1) by (simp add: pass_ok_def)
  note tch = touched_okD [OF this]
  show ?thesis
  proof (cases "map_of (ms_touched st) k")
    case (Some f)
    from tch(3) [OF map_of_SomeD [OF Some]] assms(2) show ?thesis by blast
  qed simp
qed

lemma meter_entry_untouched:
  assumes "ms_touched (meter_entry ws sv prices u disc e st) = []"
  shows "ms_touched st = []" "ms_total (meter_entry ws sv prices u disc e st) = ms_total st"
  using assms
  by (auto simp: meter_entry_def Let_def split: prod.splits option.splits if_splits)

lemma meter_pass_untouched:
  assumes "ms_touched (meter_pass d ws sv prices u disc r) = []"
  shows "ms_total (meter_pass d ws sv prices u disc r) = 0"
proof -
  have *: "ms_touched (fold (meter_entry ws sv prices u disc) es st) = [] \<Longrightarrow>
      ms_total (fold (meter_entry ws sv prices u disc) es st) = ms_total st \<and> ms_touched st = []"
    for es st
  proof (induction es arbitrary: st)
    case (Cons e es)
    then have "ms_total (fold (meter_entry ws sv prices u disc) (e # es) st)
        = ms_total (meter_entry ws sv prices u disc e st)"
      "ms_touched (meter_entry ws sv prices u disc e st) = []" by simp_all
    with meter_entry_untouched [OF this(2)] show ?case by simp
  qed simp
  from * [OF assms [unfolded meter_pass_def]] show ?thesis by (simp add: meter_pass_def)
qed

lemma columns_raise:
  "map mark_columns (ai_marks (fold (raise_mark hs) ts d)) = map mark_columns (ai_marks d)"
proof (induction ts arbitrary: d)
  case (Cons t ts)
  have "map mark_columns (ai_marks (raise_mark hs t d)) = map mark_columns (ai_marks d)"
    by (auto simp: raise_mark_def mark_columns_def intro!: map_map_rows split: option.splits)
  with Cons show ?case by simp
qed simp

lemma columns_flush:
  "map mark_columns (ai_marks (flush_marks st d))
    = map mark_columns (ai_marks d) @ map mark_columns (new_marks st)"
proof -
  have "map mark_columns (fold (\<lambda>h. map_rows (same_mark (ih_mark h)) (\<lambda>_. ih_mark h)) hs rows)
      = map mark_columns rows" for hs rows
  proof (induction hs arbitrary: rows)
    case (Cons h hs)
    have "map mark_columns (map_rows (same_mark (ih_mark h)) (\<lambda>_. ih_mark h) rows)
        = map mark_columns rows"
      by (rule map_map_rows) (simp add: same_mark_columns)
    with Cons show ?case by simp
  qed simp
  then show ?thesis by (simp add: flush_marks_def)
qed

text \<open>Levels after a pass that is not skipped.\<close>

lemma meter_levels:
  assumes cl: "clean s0" and un: "unique_marks (cur s0)" and dr: "dict_report r" and sh: "short_ids r"
    and run: "meter_ai_usage now w r sv s0 = Inr (res, s')" and ns: "\<not> mr_skipped res"
  obtains prices s st where "load_ai_prices sv s0 = (prices, s)"
    "pass_ok (cur s) (w_id w) sv prices (fst (ai_settings (get_settings (cur s0)) sv))
       (snd (ai_settings (get_settings (cur s0)) sv)) (entries_of r) st"
    "mr_charged_micro res = ms_total st"
    "\<And>k. level (ai_marks (cur s')) (w_id w) sv k
       = (case map_of (ms_touched st) k of
            None \<Rightarrow> level (ai_marks (cur s0)) (w_id w) sv k | Some f \<Rightarrow> f)"
    "\<And>u. balance_micro (cur s') u
       = balance_micro (cur s0) u - (if u = w_user_id w then ms_total st else 0)"
    "ms_touched st \<noteq> [] \<Longrightarrow> clean s' \<and> unique_marks (cur s')
       \<and> ai_prices (cur s') = ai_prices (cur s) \<and> settings (cur s') = settings (cur s0)"
    "ms_touched st = [] \<Longrightarrow> ms_total st = 0"
proof (rule meter_cases [OF run])
  fix prices s st
  assume l: "load_ai_prices sv s0 = (prices, s)" and st: "st = meter_pass (cur s) (w_id w) sv prices
      (fst (ai_settings (get_settings (cur s)) sv)) (snd (ai_settings (get_settings (cur s)) sv)) r"
    and t: "ms_touched st = []" and ch: "mr_charged_micro res = 0"
    and s': "s' = edit (\<lambda>d. d\<lparr>ai_marks := ai_marks d @ new_marks st\<rparr>) s"
  note fr = load_ai_prices_frame [OF l]
  have gs: "get_settings (cur s) = get_settings (cur s0)"
    by (simp add: get_settings_def setting_lookup_def fr fun_eq_iff)
  have un': "unique_marks (cur s)" using un by (simp add: unique_marks_def fr)
  have ok: "pass_ok (cur s) (w_id w) sv prices (fst (ai_settings (get_settings (cur s0)) sv))
       (snd (ai_settings (get_settings (cur s0)) sv)) (entries_of r) st"
    unfolding st gs by (rule pass_ok_meter_pass [OF un' dr sh])
  then have h: "hands_ok (cur s) (w_id w) sv (ms_marks st)" by (simp add: pass_ok_def)
  have lev: "level (ai_marks (cur s')) (w_id w) sv k = level (ai_marks (cur s0)) (w_id w) sv k" for k
  proof (cases "list_ex (key_row (w_id w) sv k) (ai_marks (cur s))")
    case True
    then show ?thesis by (simp add: s' level_append fr)
  next
    case False
    then have "level (ai_marks (cur s)) (w_id w) sv k = (\<lambda>_. 0)"
      by (intro level_none) (auto simp: list_ex_iff)
    with False show ?thesis using new_marks_level [OF h False] by (simp add: s' level_append fr)
  qed
  have z: "ms_total st = 0"
    unfolding st by (rule meter_pass_untouched) (use t st in simp)
  have ch': "mr_charged_micro res = ms_total st" using ch z by simp
  have bal: "balance_micro (cur s') u
      = balance_micro (cur s0) u - (if u = w_user_id w then ms_total st else 0)" for u
    using z fr(3) [of u] balance_frame [of "cur s'" "cur s" u] by (simp add: s')
  have lev': "level (ai_marks (cur s')) (w_id w) sv k
      = (case map_of (ms_touched st) k of
            None \<Rightarrow> level (ai_marks (cur s0)) (w_id w) sv k | Some f \<Rightarrow> f)" for k
    using lev by (simp add: t)
  show thesis by (rule that [OF l ok ch' lev' bal]) (use t z in simp_all)
next
  fix prices s assume "mr_skipped res" with ns show thesis by simp
next
  fix prices s st kind detail
  assume l: "load_ai_prices sv s0 = (prices, s)" and st: "st = meter_pass (cur s) (w_id w) sv prices
      (fst (ai_settings (get_settings (cur s)) sv)) (snd (ai_settings (get_settings (cur s)) sv)) r"
    and t: "ms_touched st \<noteq> []" and ch: "mr_charged_micro res = ms_total st"
    and nc: "\<not> marks_conflict (ai_marks (cur s)) (new_marks st)" and sv: "saved s' = cur s'"
    and c: "cur s' = fold (raise_mark (ms_marks st)) (ms_touched st)
         (move_balance (w_user_id w) (- ms_total st) ((flush_marks st (cur s))\<lparr>transactions :=
            transactions (cur s) @ [new_tx (seq s + 1) (w_user_id w) (Some (w_id w)) kind
              (- ms_total st) (Some (ai_period now)) detail None]\<rparr>))"
  note fr = load_ai_prices_frame [OF l]
  have gs: "get_settings (cur s) = get_settings (cur s0)"
    by (simp add: get_settings_def setting_lookup_def fr fun_eq_iff)
  have un': "unique_marks (cur s)" using un by (simp add: unique_marks_def fr)
  have ok: "pass_ok (cur s) (w_id w) sv prices (fst (ai_settings (get_settings (cur s0)) sv))
       (snd (ai_settings (get_settings (cur s0)) sv)) (entries_of r) st"
    unfolding st gs by (rule pass_ok_meter_pass [OF un' dr sh])
  then have h: "hands_ok (cur s) (w_id w) sv (ms_marks st)"
    and tk: "touched_ok (cur s) (w_id w) sv prices (entries_of r) st" by (simp_all add: pass_ok_def)
  let ?d = "move_balance (w_user_id w) (- ms_total st) ((flush_marks st (cur s))\<lparr>transactions :=
            transactions (cur s) @ [new_tx (seq s + 1) (w_user_id w) (Some (w_id w)) kind
              (- ms_total st) (Some (ai_period now)) detail None]\<rparr>)"
  have m: "ai_marks ?d = ai_marks (flush_marks st (cur s))" by simp
  have lev: "level (ai_marks (cur s')) (w_id w) sv k
       = (case map_of (ms_touched st) k of
            None \<Rightarrow> level (ai_marks (cur s0)) (w_id w) sv k | Some f \<Rightarrow> f)" for k
  proof -
    have "list_ex (key_row (w_id w) sv j) (ai_marks ?d)" if "j \<in> fst ` set (ms_touched st)" for j
      using flush_level(2) [OF h, of j] touched_okD(2) [OF tk] that m by auto
    from raise_levels [OF h touched_okD(1,2) [OF tk] this]
    have "level (ai_marks (cur s')) (w_id w) sv k
       = (case map_of (ms_touched st) k of
            None \<Rightarrow> level (ai_marks ?d) (w_id w) sv k | Some f \<Rightarrow> f)" unfolding c .
    moreover have "level (ai_marks ?d) (w_id w) sv k = level (ai_marks (cur s0)) (w_id w) sv k"
      using flush_level(1) [OF h, of k] m fr(1) by simp
    ultimately show ?thesis by (simp only:)
  qed
  have mb: "balance_micro ?d u
      = balance_micro (flush_marks st (cur s)) u + (if u = w_user_id w then - ms_total st else 0)" for u
    by (simp add: balance_move)
  have bal: "balance_micro (cur s') u
      = balance_micro (cur s0) u - (if u = w_user_id w then ms_total st else 0)" for u
  proof -
    have "balance_micro (cur s') u = balance_micro ?d u" unfolding c by (rule balance_frame) simp
    moreover have "balance_micro (flush_marks st (cur s)) u = balance_micro (cur s0) u"
      using balance_frame [of "flush_marks st (cur s)" "cur s" u] fr(3) [of u] by simp
    ultimately show ?thesis using mb [of u] by simp
  qed
  have "map mark_columns (ai_marks (cur s'))
      = map mark_columns (ai_marks (cur s)) @ map mark_columns (new_marks st)"
    unfolding c using m by (simp add: columns_raise columns_flush)
  then have "unique_marks (cur s')"
    using no_conflict_distinct [OF _ nc] un' by (simp only: unique_marks_def)
  moreover have "ai_prices (cur s') = ai_prices (cur s)" "settings (cur s') = settings (cur s0)"
    unfolding c by (simp_all add: fr)
  ultimately have tail: "clean s' \<and> unique_marks (cur s')
       \<and> ai_prices (cur s') = ai_prices (cur s) \<and> settings (cur s') = settings (cur s0)"
    using sv by (simp add: clean_def)
  show thesis by (rule that [OF l ok ch lev bal tail]) (use t in simp)
qed

section \<open>A sample pass\<close>

definition sample_report :: "int \<Rightarrow> report" where
  "sample_report n = [(''s'', [(''m'', [CatInput \<mapsto> n])])]"

definition metered_db :: db where
  "metered_db = (funded_db 7 5000000)\<lparr>
     ai_prices := [\<lparr>ap_id = 1, ap_service = ''claude'', ap_price = mp ''m'' 1 1 1 1 1\<rparr>],
     settings := [\<lparr>st_key = ''usd_to_toman'', st_value = ''1''\<rparr>,
       \<lparr>st_key = ''claude_discount_percent'', st_value = ''0''\<rparr>]\<rparr>"

lemma metered_settings: "ai_settings (get_settings metered_db) Claude = (1, 0)"
  by code_simp

lemma metered_prices:
  "load_ai_prices Claude (open_session metered_db 0)
    = ([(''m'', mp ''m'' 1 1 1 1 1)], open_session metered_db 0)"
  by (simp add: load_ai_prices_def price_rows_def metered_db_def SEED_BY_SERVICE_def)

lemma metered_cost:
  "toman_micro (\<lambda>c. Some (if c = CatInput then 2000000 else 0)) (mp ''m'' 1 1 1 1 1) 1 0 = 2000000"
  by (simp add: toman_micro_def usd_for_def tok_def CATEGORIES_def fadd_def fsub_def fmul_def
      fdiv_def int_float_def discount_multiplier_def MICRO_def del: set_CATEGORIES)

lemma metered_delta:
  "token_delta [CatInput \<mapsto> 2000000] (fresh_mark 1 Claude (''s'', ''m''))
    = (\<lambda>c. if c = CatInput then 2000000 else 0)"
  by (simp add: token_delta_def fresh_mark_def tok_def fun_eq_iff)

lemma metered_pass:
  "meter_pass metered_db 1 Claude [(''m'', mp ''m'' 1 1 1 1 1)] 1 0 (sample_report 2000000) =
    \<lparr>ms_marks = [\<lparr>ih_key = (''s'', ''m''), ih_new = True,
       ih_mark = (fresh_mark 1 Claude (''s'', ''m''))\<lparr>am_billed_micro := 2000000\<rparr>\<rparr>],
     ms_total = 2000000,
     ms_models = [(''m'', \<lambda>c. if c = CatInput then 2000000 else 0, 2000000)],
     ms_unpriced = [],
     ms_touched = [((''s'', ''m''), \<lambda>c. if c = CatInput then 2000000 else 0)]\<rparr>"
  apply (simp add: meter_pass_def entries_of_def sample_report_def load_marks_def metered_db_def
      funded_db_def empty_db_def meter_entry_def resolve_def take_mark_def find_mark_def
      metered_delta metered_cost add_to_model_def Let_def CATEGORIES_def)
  apply (simp add: fresh_mark_def tok_def fun_eq_iff)
  done

lemma metered_ok:
  "clean (open_session metered_db 0)" "unique_marks (cur (open_session metered_db 0))"
  "dict_report (sample_report n)" "short_ids (sample_report n)"
  "balance_micro metered_db 7 = 5000000"
  by (simp_all add: unique_marks_def metered_db_def funded_db_def empty_db_def dict_report_def
      short_ids_def sample_report_def entries_of_def entry_key_def balance_micro_def)

lemma metered_run:
  "\<exists>res s'. meter_ai_usage 0 (new_workspace 1 7 1 0) (sample_report 2000000) Claude
      (open_session metered_db 0) = Inr (res, s') \<and> mr_charged_micro res = 2000000
    \<and> \<not> mr_skipped res"
proof -
  have "transactions metered_db = []" "ai_marks metered_db = []"
    by (simp_all add: metered_db_def funded_db_def empty_db_def)
  moreover have "w_id (new_workspace 1 7 1 0) = 1" by (simp add: new_workspace_def)
  ultimately show ?thesis
    by (simp add: meter_ai_usage_def metered_prices metered_settings metered_pass Let_def
        ai_tx_kind_def new_marks_def post_transaction_def tx_conflict_def)
qed

section \<open>An identity longer than its column\<close>

text \<open>
  A mark's session and model are cut to 96 characters when the row is made, and looked up
  uncut. Of an identity that is longer, the second pass finds no mark, makes the row again,
  and the flush is refused.
\<close>

definition cut_hand :: "int \<Rightarrow> service \<Rightarrow> mark_key \<Rightarrow> in_hand \<Rightarrow> bool" where
  "cut_hand ws sv k h \<longleftrightarrow> ih_key h = k \<longrightarrow>
     ih_new h \<and> mark_columns (ih_mark h) = mark_columns (fresh_mark ws sv k)"

lemma cut_hand_entry:
  assumes "list_all (cut_hand ws sv k) (ms_marks st)"
  shows "list_all (cut_hand ws sv k) (ms_marks (meter_entry ws sv prices u disc e st))"
    and "k \<in> ih_key ` set (ms_marks st) \<Longrightarrow>
      k \<in> ih_key ` set (ms_marks (meter_entry ws sv prices u disc e st))"
    and "ms_touched st \<noteq> [] \<Longrightarrow> ms_touched (meter_entry ws sv prices u disc e st) \<noteq> []"
    and "k \<notin> ih_key ` set (ms_marks st) \<Longrightarrow> entry_key e \<noteq> k \<Longrightarrow>
      k \<notin> ih_key ` set (ms_marks (meter_entry ws sv prices u disc e st))"
proof -
  obtain sid m t where e: "e = (sid, m, t)" by (cases e)
  obtain mark hs where tk: "take_mark ws sv (sid, m) (ms_marks st) = (mark, hs)" by fastforce
  have hs: "list_all (cut_hand ws sv k) hs" "ih_key ` set (ms_marks st) \<subseteq> ih_key ` set hs"
    "ih_key ` set hs \<subseteq> insert (sid, m) (ih_key ` set (ms_marks st))"
    using tk assms by (auto simp: take_mark_def cut_hand_def Let_def split: option.splits)
  have bill: "list_all (cut_hand ws sv k) (map_rows p
      (\<lambda>h. h\<lparr>ih_mark := (ih_mark h)\<lparr>am_billed_micro := am_billed_micro (ih_mark h) + n\<rparr>\<rparr>) hs)"
    for p n using hs(1)
  proof (induction hs)
    case (Cons h hs)
    then show ?case by (auto simp: cut_hand_def mark_columns_def)
  qed simp
  let ?st' = "meter_entry ws sv prices u disc e st"
  consider "?st' = st\<lparr>ms_unpriced := List.insert m (ms_unpriced st)\<rparr>"
    | "ms_touched ?st' = ms_touched st" "ms_marks ?st' = hs"
    | p n x where "ms_touched ?st' = ms_touched st @ [x]" "ms_marks ?st' = map_rows p
      (\<lambda>h. h\<lparr>ih_mark := (ih_mark h)\<lparr>am_billed_micro := am_billed_micro (ih_mark h) + n\<rparr>\<rparr>) hs"
  proof (cases "resolve m prices")
    case None
    with that(1) show ?thesis by (simp add: meter_entry_def e)
  next
    case (Some p)
    show ?thesis
    proof (cases "list_ex (\<lambda>c. token_delta t mark c \<noteq> 0) CATEGORIES")
      case True
      show ?thesis
        by (rule that(3)) (use Some True tk in \<open>simp_all add: meter_entry_def e Let_def\<close>)
    next
      case False
      show ?thesis
        by (rule that(2)) (use Some False tk in \<open>simp_all add: meter_entry_def e Let_def\<close>)
    qed
  qed
  then have "list_all (cut_hand ws sv k) (ms_marks ?st')
    \<and> (k \<in> ih_key ` set (ms_marks st) \<longrightarrow> k \<in> ih_key ` set (ms_marks ?st'))
    \<and> (ms_touched st \<noteq> [] \<longrightarrow> ms_touched ?st' \<noteq> [])
    \<and> (k \<notin> ih_key ` set (ms_marks st) \<longrightarrow> entry_key e \<noteq> k \<longrightarrow> k \<notin> ih_key ` set (ms_marks ?st'))"
  proof cases
    case 1
    then show ?thesis using assms by simp
  next
    case 2
    then show ?thesis using hs by (auto simp: e entry_key_def)
  next
    case 3
    then show ?thesis using hs bill by (auto simp: e entry_key_def)
  qed
  then show "list_all (cut_hand ws sv k) (ms_marks ?st')"
    and "k \<in> ih_key ` set (ms_marks st) \<Longrightarrow> k \<in> ih_key ` set (ms_marks ?st')"
    and "ms_touched st \<noteq> [] \<Longrightarrow> ms_touched ?st' \<noteq> []"
    and "k \<notin> ih_key ` set (ms_marks st) \<Longrightarrow> entry_key e \<noteq> k \<Longrightarrow> k \<notin> ih_key ` set (ms_marks ?st')"
    by blast+
qed

lemma cut_hand_fold:
  assumes "list_all (cut_hand ws sv k) (ms_marks st)"
  shows "list_all (cut_hand ws sv k) (ms_marks (fold (meter_entry ws sv prices u disc) es st))
    \<and> (k \<in> ih_key ` set (ms_marks st) \<longrightarrow>
        k \<in> ih_key ` set (ms_marks (fold (meter_entry ws sv prices u disc) es st)))
    \<and> (ms_touched st \<noteq> [] \<longrightarrow> ms_touched (fold (meter_entry ws sv prices u disc) es st) \<noteq> [])
    \<and> (k \<notin> ih_key ` set (ms_marks st) \<longrightarrow> k \<notin> entry_key ` set es \<longrightarrow>
        k \<notin> ih_key ` set (ms_marks (fold (meter_entry ws sv prices u disc) es st)))"
  using assms
proof (induction es arbitrary: st)
  case (Cons e es)
  note step = cut_hand_entry [OF Cons.prems, where prices = prices and u = u and disc = disc and e = e]
  have "entry_key e \<noteq> k" if "k \<notin> entry_key ` set (e # es)" using that by auto
  with Cons.IH [OF step(1)] step(2-4) show ?case by simp
qed simp

lemma cut_identity_pending:
  fixes ws :: int and sv :: service and u disc :: rat
  assumes dict: "dict_report r" and e: "(sid, m, t) \<in> set (entries_of r)"
    and long: "96 < length sid" and rows: "\<forall>x \<in> set (ai_marks d). length (am_session_id x) \<le> 96"
    and pr: "priced prices (sid, m, t)" and pos: "0 < tok t c"
  defines "st \<equiv> meter_pass d ws sv prices u disc r"
  shows "ms_touched st \<noteq> []" "mark_columns (fresh_mark ws sv (sid, m)) \<in> mark_columns ` set (new_marks st)"
proof -
  let ?k = "(sid, m)"
  let ?f = "fold (meter_entry ws sv prices u disc)"
  let ?st0 = "\<lparr>ms_marks = load_marks d ws sv, ms_total = 0, ms_models = [], ms_unpriced = [],
        ms_touched = []\<rparr>"
  obtain es1 es2 where es: "entries_of r = es1 @ (sid, m, t) # es2"
    using split_list [OF e] by blast
  have k1: "?k \<notin> entry_key ` set es1" using dict by (auto simp: dict_report_def es entry_key_def)
  have nk: "?k \<notin> ih_key ` set (ms_marks ?st0)" using rows long by (auto simp: load_marks_def)
  then have "list_all (cut_hand ws sv ?k) (ms_marks ?st0)"
    by (force simp: list_all_iff cut_hand_def)
  note s1 = cut_hand_fold [OF this, of prices u disc es1]
  let ?st1 = "?f es1 ?st0"
  let ?st2 = "meter_entry ws sv prices u disc (sid, m, t) ?st1"
  have none: "find_mark (ms_marks ?st1) ?k = None" using s1 k1 nk by (simp add: find_mark_None)
  obtain p where p: "resolve m prices = Some p" using pr by (auto simp: priced_def)
  have "token_delta t (fresh_mark ws sv ?k) c \<noteq> 0" using pos by (simp add: token_delta_def fresh_mark_def)
  then have ex: "list_ex (\<lambda>c. token_delta t (fresh_mark ws sv ?k) c \<noteq> 0) CATEGORIES"
    by (auto simp: list_ex_iff)
  have "ms_touched ?st2 \<noteq> [] \<and> ?k \<in> ih_key ` set (ms_marks ?st2)"
    using none p ex by (simp add: meter_entry_def take_mark_def Let_def)
  moreover have "list_all (cut_hand ws sv ?k) (ms_marks ?st2)" using s1 cut_hand_entry(1) by blast
  ultimately have fin: "ms_touched (?f es2 ?st2) \<noteq> []" "?k \<in> ih_key ` set (ms_marks (?f es2 ?st2))"
    "list_all (cut_hand ws sv ?k) (ms_marks (?f es2 ?st2))"
    using cut_hand_fold [of ws sv ?k ?st2 prices u disc es2] by blast+
  have st: "st = ?f es2 ?st2" by (simp add: st_def meter_pass_def es)
  show "ms_touched st \<noteq> []" using fin st by simp
  obtain h where h: "h \<in> set (ms_marks (?f es2 ?st2))" "ih_key h = ?k" using fin(2) by auto
  then have "cut_hand ws sv ?k h" using fin(3) by (simp add: list_all_iff)
  with h have "ih_new h" "mark_columns (fresh_mark ws sv ?k) = mark_columns (ih_mark h)"
    by (simp_all add: cut_hand_def)
  with h show "mark_columns (fresh_mark ws sv ?k) \<in> mark_columns ` set (new_marks st)"
    by (auto simp: new_marks_def st)
qed

section \<open>Properties\<close>

text \<open>C2. The meter implements the abstract high-water mark: a pass that is not skipped charges
  exactly the sum, over the priced models of the report, of the price of what each total
  exceeds its mark by; it takes that sum from the owner's balance and nobody else's; and
  afterwards each priced mark is the larger of the old mark and the reported total, while
  every other mark, including one whose model has no price, is untouched.\<close>
theorem meter_bills_the_increase:
  assumes "clean s0" and "unique_marks (cur s0)" and "dict_report r" and "short_ids r"
    and "meter_ai_usage now w r sv s0 = Inr (res, s')" and "\<not> mr_skipped res"
    and "prices = fst (load_ai_prices sv s0)"
    and "(u, disc) = ai_settings (get_settings (cur s0)) sv"
  shows "mr_charged_micro res
      = sum_list (map (entry_cost (ai_marks (cur s0)) (w_id w) sv prices u disc) (entries_of r))
    \<and> (\<forall>v. balance_micro (cur s') v
        = balance_micro (cur s0) v - (if v = w_user_id w then mr_charged_micro res else 0))
    \<and> (\<forall>e \<in> set (entries_of r). priced prices e \<longrightarrow>
        level (ai_marks (cur s')) (w_id w) sv (entry_key e)
          = (\<lambda>c. max (tok (snd (snd e)) c) (level (ai_marks (cur s0)) (w_id w) sv (entry_key e) c)))
    \<and> (\<forall>k. (\<forall>e \<in> set (entries_of r). priced prices e \<longrightarrow> entry_key e \<noteq> k) \<longrightarrow>
        level (ai_marks (cur s')) (w_id w) sv k = level (ai_marks (cur s0)) (w_id w) sv k)"
proof (rule meter_levels [OF assms(1-6)])
  fix ps s st
  assume l: "load_ai_prices sv s0 = (ps, s)"
    and ok: "pass_ok (cur s) (w_id w) sv ps (fst (ai_settings (get_settings (cur s0)) sv))
       (snd (ai_settings (get_settings (cur s0)) sv)) (entries_of r) st"
    and ch: "mr_charged_micro res = ms_total st"
    and lev: "\<And>k. level (ai_marks (cur s')) (w_id w) sv k
       = (case map_of (ms_touched st) k of
            None \<Rightarrow> level (ai_marks (cur s0)) (w_id w) sv k | Some f \<Rightarrow> f)"
    and bal: "\<And>u. balance_micro (cur s') u
       = balance_micro (cur s0) u - (if u = w_user_id w then ms_total st else 0)"
  have ps: "prices = ps" and ud: "fst (ai_settings (get_settings (cur s0)) sv) = u"
    "snd (ai_settings (get_settings (cur s0)) sv) = disc"
    using l assms(7) assms(8) [symmetric] by simp_all
  have m: "ai_marks (cur s) = ai_marks (cur s0)" by (rule load_ai_prices_frame(1) [OF l])
  note ok' = ok [unfolded ud]
  have "distinct (map entry_key (entries_of r))" using assms(3) by (simp add: dict_report_def)
  note pl = pass_levels [OF ok' this, unfolded m, folded lev] and po = pass_levels_other [OF ok']
  have other: "level (ai_marks (cur s')) (w_id w) sv k = level (ai_marks (cur s0)) (w_id w) sv k"
    if "\<forall>e \<in> set (entries_of r). priced ps e \<longrightarrow> entry_key e \<noteq> k" for k
    using po [of k] that lev [of k] by simp
  have "mr_charged_micro res
      = sum_list (map (entry_cost (ai_marks (cur s0)) (w_id w) sv ps u disc) (entries_of r))"
    using ok' ch by (simp add: pass_ok_def m)
  with pl other bal ch show ?thesis unfolding ps by (intro conjI ballI allI impI) simp_all
qed

text \<open>Running the meter again over the same report is free: after a pass that charged, a
  second pass with the same totals, at whatever later time, charges nothing and moves no
  balance. So a worker may run it as often as it likes, and re-run it after a crash.\<close>
lemma meter_again_is_free:
  assumes "clean s0" and "unique_marks (cur s0)" and "dict_report r" and "short_ids r"
    and "meter_ai_usage now w r sv s0 = Inr (res, s1)" and "mr_charged_micro res \<noteq> 0"
    and "meter_ai_usage later w r sv s1 = Inr (res2, s2)"
  shows "mr_charged_micro res2 = 0 \<and> balance_micro (cur s2) v = balance_micro (cur s1) v"
proof -
  have ns: "\<not> mr_skipped res"
    by (rule meter_cases [OF assms(5)]) (use assms(6) in simp_all)
  obtain prices s st where l: "load_ai_prices sv s0 = (prices, s)"
    and ok: "pass_ok (cur s) (w_id w) sv prices (fst (ai_settings (get_settings (cur s0)) sv))
       (snd (ai_settings (get_settings (cur s0)) sv)) (entries_of r) st"
    and ch: "mr_charged_micro res = ms_total st"
    and lev: "\<And>k. level (ai_marks (cur s1)) (w_id w) sv k
       = (case map_of (ms_touched st) k of
            None \<Rightarrow> level (ai_marks (cur s0)) (w_id w) sv k | Some f \<Rightarrow> f)"
    and "\<And>u. balance_micro (cur s1) u
       = balance_micro (cur s0) u - (if u = w_user_id w then ms_total st else 0)"
    and tl: "ms_touched st \<noteq> [] \<Longrightarrow> clean s1 \<and> unique_marks (cur s1)
       \<and> ai_prices (cur s1) = ai_prices (cur s) \<and> settings (cur s1) = settings (cur s0)"
    and tz: "ms_touched st = [] \<Longrightarrow> ms_total st = 0"
    by (rule meter_levels [OF assms(1-5) ns]) (rule that; assumption)
  have t: "clean s1" "unique_marks (cur s1)" "ai_prices (cur s1) = ai_prices (cur s)"
    using tl tz ch assms(6) by auto
  have same: "fst (load_ai_prices sv s1) = prices"
    by (rule load_ai_prices_again [OF l t(3)])
  have m: "ai_marks (cur s) = ai_marks (cur s0)" by (rule load_ai_prices_frame(1) [OF l])
  have dist: "distinct (map entry_key (entries_of r))" using assms(3) by (simp add: dict_report_def)
  have zero: "entry_cost (ai_marks (cur s1)) (w_id w) sv prices u disc e = 0"
    if e: "e \<in> set (entries_of r)" for e u disc
  proof (cases "priced prices e")
    case True
    have "level (ai_marks (cur s1)) (w_id w) sv (entry_key e)
      = (\<lambda>c. max (tok (snd (snd e)) c) (level (ai_marks (cur s0)) (w_id w) sv (entry_key e) c))"
      by (rule pass_levels [OF ok dist e True, unfolded m, folded lev])
    then have z: "max 0 (tok (snd (snd e)) c - level (ai_marks (cur s1)) (w_id w) sv (entry_key e) c) = 0"
      for c by simp
    then show ?thesis
      by (cases e) (simp add: entry_cost_def entry_key_def split: option.splits)
  next
    case False
    then show ?thesis by (cases e) (simp add: entry_cost_def priced_def)
  qed
  show ?thesis
  proof (cases "mr_skipped res2")
    case True
    show ?thesis
    proof (rule meter_cases [OF assms(7)])
      fix ps s' assume "load_ai_prices sv s1 = (ps, s')" "mr_charged_micro res2 = 0"
        "cur s2 = saved s'"
      then show ?thesis using load_ai_prices_frame [of sv s1 ps s'] t(1)
        by (simp add: clean_def)
    qed (use True in simp_all)
  next
    case False
    show ?thesis
    proof (rule meter_levels [OF t(1,2) assms(3,4,7) False])
      fix ps s' st'
      assume l': "load_ai_prices sv s1 = (ps, s')"
      and ok': "pass_ok (cur s') (w_id w) sv ps (fst (ai_settings (get_settings (cur s1)) sv))
         (snd (ai_settings (get_settings (cur s1)) sv)) (entries_of r) st'"
      and ch': "mr_charged_micro res2 = ms_total st'"
      and bal': "\<And>u. balance_micro (cur s2) u
         = balance_micro (cur s1) u - (if u = w_user_id w then ms_total st' else 0)"
      have "ps = prices" using same l' by simp
      then have "ms_total st' = 0"
        using ok' zero load_ai_prices_frame(1) [OF l'] by (simp add: pass_ok_def cong: map_cong)
      with ch' bal' show ?thesis by simp
    qed
  qed
qed

text \<open>A session name longer than its column stops the billing of the whole workspace: once
  a mark holds the name cut to 96 characters, every later report that still contains the long
  name is refused by the unique key, so nothing is charged, no mark moves, and the result says
  the period was charged already, whatever the period and whatever else the report holds.\<close>

lemma long_session_blocks_billing:
  assumes "clean s0" and "dict_report r" and "sv \<noteq> Openrouter"
    and "\<forall>x \<in> set (ai_marks (cur s0)). length (am_session_id x) \<le> 96"
    and "list_ex (key_row (w_id w) sv (take 96 sid, take 96 m)) (ai_marks (cur s0))"
    and "96 < length sid" and "(sid, m, t) \<in> set (entries_of r)"
    and "priced (fst (load_ai_prices sv s0)) (sid, m, t)" and "0 < tok t c"
  shows "\<exists>res s'. meter_ai_usage now w r sv s0 = Inr (res, s') \<and> mr_skipped res
    \<and> mr_charged_micro res = 0 \<and> balance_micro (cur s') v = balance_micro (cur s0) v
    \<and> ai_marks (cur s') = ai_marks (cur s0)"
proof -
  obtain prices s where l: "load_ai_prices sv s0 = (prices, s)" by fastforce
  note fr = load_ai_prices_frame [OF l]
  obtain u disc where ud: "ai_settings (get_settings (cur s)) sv = (u, disc)" by fastforce
  let ?st = "meter_pass (cur s) (w_id w) sv prices u disc r"
  have pr: "priced prices (sid, m, t)" using assms(8) l by simp
  have rows: "\<forall>x \<in> set (ai_marks (cur s)). length (am_session_id x) \<le> 96" using assms(4) fr(1) by simp
  note cut = cut_identity_pending [OF assms(2,7,6) rows pr assms(9)]
  have "mark_columns (fresh_mark (w_id w) sv (sid, m)) \<in> mark_columns ` set (ai_marks (cur s))"
    using assms(5) by (force simp: fr(1) list_ex_iff key_row_def mark_columns_def fresh_mark_def image_iff)
  then have conf: "marks_conflict (ai_marks (cur s)) (new_marks ?st)"
    using cut(2) [of "w_id w" sv u disc] by (auto simp: marks_conflict_iff)
  obtain kind where k: "ai_tx_kind sv = Some kind"
    using assms(3) by (cases sv) (simp_all add: ai_tx_kind_def)
  show ?thesis using l ud conf cut(1) k fr assms(1)
    by (simp add: meter_ai_usage_def Let_def clean_def)
qed

definition cut_db :: db where
  "cut_db = metered_db\<lparr>ai_marks := [fresh_mark 1 Claude (replicate 97 CHR ''s'', ''m'')]\<rparr>"

lemma long_session_blocks_billing_witness:
  "\<exists>res s'. meter_ai_usage 0 (new_workspace 1 7 1 0)
      [(replicate 97 CHR ''s'', [(''m'', [CatInput \<mapsto> 9])]), (''t'', [(''m'', [CatInput \<mapsto> 5000])])]
      Claude (open_session cut_db 0) = Inr (res, s') \<and> mr_skipped res
    \<and> mr_charged_micro res = 0 \<and> balance_micro (cur s') 7 = balance_micro cut_db 7
    \<and> ai_marks (cur s') = ai_marks cut_db"
proof -
  let ?r = "[(replicate 97 CHR ''s'', [(''m'', [CatInput \<mapsto> 9])]), (''t'', [(''m'', [CatInput \<mapsto> 5000])])]"
  have "fst (load_ai_prices Claude (open_session cut_db 0)) = [(''m'', mp ''m'' 1 1 1 1 1)]"
    by (simp add: load_ai_prices_def price_rows_def cut_db_def metered_db_def SEED_BY_SERVICE_def)
  then have "priced (fst (load_ai_prices Claude (open_session cut_db 0)))
      (replicate 97 CHR ''s'', ''m'', [CatInput \<mapsto> 9])"
    by (simp add: priced_def resolve_def)
  moreover have "dict_report ?r"
    by (simp add: dict_report_def entries_of_def entry_key_def numeral_eq_Suc)
  ultimately show ?thesis
    using long_session_blocks_billing [of "open_session cut_db 0" ?r Claude "new_workspace 1 7 1 0"
        "replicate 97 CHR ''s''" "''m''" "[CatInput \<mapsto> 9]" CatInput 0 7]
    by (simp add: cut_db_def fresh_mark_def key_row_def new_workspace_def entries_of_def tok_def)
qed

theorem meter_bills_the_increase_witness:
  "\<exists>res s'. meter_ai_usage 0 (new_workspace 1 7 1 0) (sample_report 2000000) Claude
      (open_session metered_db 0) = Inr (res, s') \<and> balance_micro (cur s') 7 = 3000000"
proof -
  obtain res s' where run: "meter_ai_usage 0 (new_workspace 1 7 1 0) (sample_report 2000000) Claude
      (open_session metered_db 0) = Inr (res, s')" "mr_charged_micro res = 2000000"
      "\<not> mr_skipped res" using metered_run by blast
  have "balance_micro (cur s') 7 = balance_micro (cur (open_session metered_db 0)) 7
      - (if 7 = w_user_id (new_workspace 1 7 1 0) then mr_charged_micro res else 0)"
    using meter_bills_the_increase [OF metered_ok(1-4) run(1,3) refl, of 1 0]
    by (simp add: metered_settings)
  then show ?thesis using run metered_ok(5) by (simp add: new_workspace_def)
qed

lemma meter_again_is_free_witness:
  "\<exists>res s1. meter_ai_usage 0 (new_workspace 1 7 1 0) (sample_report 2000000) Claude
      (open_session metered_db 0) = Inr (res, s1)
    \<and> (\<forall>res2 s2. meter_ai_usage 900000000 (new_workspace 1 7 1 0) (sample_report 2000000) Claude s1
        = Inr (res2, s2) \<longrightarrow> mr_charged_micro res2 = 0)"
proof -
  obtain res s1 where run: "meter_ai_usage 0 (new_workspace 1 7 1 0) (sample_report 2000000) Claude
      (open_session metered_db 0) = Inr (res, s1)" "mr_charged_micro res = 2000000"
    using metered_run by blast
  have "mr_charged_micro res \<noteq> 0" using run(2) by simp
  note meter_again_is_free [OF metered_ok(1-4) run(1) this]
  with run(1) show ?thesis by blast
qed

end
