(* ===== verification/Outbox.thy ===== *)
theory Outbox
  imports Settings
begin

text \<open>
  The outbox of \<open>control/mmd/sms.py\<close>: the catalogue of message kinds, a customer's
  preferences, queueing with a dedupe key, and delivery with back-off. The text of a message is
  not modelled (its scripts lie outside the code points of this model of strings); whether a kind has
  a template is. The answer of the Bale API to a send is an argument.
\<close>

section \<open>The catalogue\<close>

definition MAX_SEND_ATTEMPTS :: int where "MAX_SEND_ATTEMPTS = 5"
definition BACKOFF :: "int list" where "BACKOFF = [60, 300, 900, 1800]"
definition DEFAULT_CREDIT_STEP_TOMAN :: int where "DEFAULT_CREDIT_STEP_TOMAN = 50000"
definition MIN_CREDIT_STEP_TOMAN :: int where "MIN_CREDIT_STEP_TOMAN = 1000"
definition MAX_CREDIT_STEP_TOMAN :: int where "MAX_CREDIT_STEP_TOMAN = 1000000000"

record template =
  tp_kind :: string
  tp_category :: string
  tp_audience :: string
  tp_optional :: bool

abbreviation tpl :: "string \<Rightarrow> string \<Rightarrow> string \<Rightarrow> bool \<Rightarrow> template" where
  "tpl k c a opt \<equiv> \<lparr>tp_kind = k, tp_category = c, tp_audience = a, tp_optional = opt\<rparr>"

definition CATALOGUE :: "template list" where
  "CATALOGUE =
    [tpl ''approved'' ''account'' ''customer'' False,
     tpl ''rejected'' ''account'' ''customer'' False,
     tpl ''low_credit'' ''money'' ''customer'' True,
     tpl ''stopped_no_credit'' ''money'' ''customer'' True,
     tpl ''credit_step'' ''money'' ''customer'' True,
     tpl ''key_blocked'' ''money'' ''customer'' True,
     tpl ''auto_stopped'' ''machine'' ''customer'' True,
     tpl ''pool_stopped'' ''machine'' ''customer'' True,
     tpl ''disk_high'' ''machine'' ''customer'' True,
     tpl ''workspace_ready'' ''machine'' ''customer'' True,
     tpl ''operation_failed'' ''machine'' ''customer'' True,
     tpl ''ticket_replied'' ''support'' ''customer'' True,
     tpl ''ticket_closed'' ''support'' ''customer'' True,
     tpl ''password_changed'' ''security'' ''customer'' False,
     tpl ''new_login'' ''security'' ''customer'' False,
     tpl ''signup_code'' ''auth'' ''customer'' False,
     tpl ''verification_code'' ''auth'' ''customer'' False,
     tpl ''already_registered'' ''auth'' ''customer'' False,
     tpl ''login_code'' ''auth'' ''customer'' False,
     tpl ''password_reset_code'' ''auth'' ''customer'' False,
     tpl ''admin_signup_pending'' ''admin'' ''admin'' True,
     tpl ''admin_ticket_opened'' ''admin'' ''admin'' True,
     tpl ''admin_backup_failed'' ''admin'' ''admin'' True,
     tpl ''admin_pool_low'' ''admin'' ''admin'' True,
     tpl ''admin_ticket_overdue'' ''admin'' ''admin'' True,
     tpl ''admin_error_rate'' ''admin'' ''admin'' True,
     tpl ''admin_worker_stalled'' ''admin'' ''admin'' True,
     tpl ''admin_pool_down'' ''admin'' ''admin'' True]"

definition template_of :: "string \<Rightarrow> template option" where
  "template_of kind = find (\<lambda>t. tp_kind t = kind) CATALOGUE"

definition OPTIONAL_KINDS :: "string list" where
  "OPTIONAL_KINDS = map tp_kind (filter (\<lambda>t. tp_optional t \<and> tp_audience t = ''customer'') CATALOGUE)"

section \<open>Preferences\<close>

definition pref :: "(string \<rightharpoonup> bool) \<Rightarrow> string \<Rightarrow> bool" where
  "pref prefs kind = (case prefs kind of None \<Rightarrow> True | Some b \<Rightarrow> b)"

definition wants :: "user \<Rightarrow> string \<Rightarrow> bool" where
  "wants u kind = (case template_of kind of
     None \<Rightarrow> True
   | Some t \<Rightarrow> if \<not> tp_optional t then True else pref (u_sms_prefs u) kind)"

definition preferences :: "user \<Rightarrow> (string \<times> bool) list" where
  "preferences u = map (\<lambda>k. (k, pref (u_sms_prefs u) k)) OPTIONAL_KINDS"

section \<open>Queueing\<close>

datatype sms_error = InvalidPhone | NoTemplate string

text \<open>\<open>PHONE_RE.fullmatch\<close>.\<close>

definition phone_ok :: "string \<Rightarrow> bool" where
  "phone_ok p \<longleftrightarrow> length p = 11 \<and> startswith p ''09'' \<and> list_all is_ascii_digit p"

definition message_for :: "string \<Rightarrow> (sms_error, unit) result" where
  "message_for kind = (case template_of kind of None \<Rightarrow> raise (NoTemplate kind) | Some _ \<Rightarrow> return ())"

definition queue ::
  "time \<Rightarrow> int option \<Rightarrow> string option \<Rightarrow> string \<Rightarrow> string option \<Rightarrow> user option \<Rightarrow> session \<Rightarrow>
   (sms_error, sms_message option) result \<times> session" where
  "queue now user_id raw_phone kind dedupe u_opt s =
     (let phone = strip (case raw_phone of None \<Rightarrow> [] | Some p \<Rightarrow> p) in
      if \<not> phone_ok phone then (raise InvalidPhone, s)
      else if (case u_opt of Some u \<Rightarrow> \<not> wants u kind | None \<Rightarrow> False) then (return None, s)
      else if (case dedupe of Some k \<Rightarrow> k \<noteq> [] \<and>
                 list_ex (\<lambda>m. sm_dedupe_key m = Some k) (sms_messages (cur s)) | None \<Rightarrow> False)
      then (return None, s)
      else case message_for kind of
        Inl e \<Rightarrow> (raise e, s)
      | Inr _ \<Rightarrow>
          let s1 = next_id s;
              row = \<lparr>sm_id = seq s1, sm_user_id = user_id, sm_phone = phone, sm_kind = kind,
                     sm_status = ''queued'', sm_attempts = 0, sm_error = None,
                     sm_provider_message_id = None, sm_dedupe_key = dedupe,
                     sm_next_attempt_at = Some now, sm_created_at = now, sm_sent_at = None\<rparr>
          in (return (Some row), edit (\<lambda>d. d\<lparr>sms_messages := sms_messages d @ [row]\<rparr>) s1))"

section \<open>Delivery\<close>

definition chat_for :: "db \<Rightarrow> string \<Rightarrow> int option" where
  "chat_for d phone = map_option bc_chat_id (find (\<lambda>c. bc_phone c = phone) (bale_contacts d))"

definition set_sms :: "int \<Rightarrow> (sms_message \<Rightarrow> sms_message) \<Rightarrow> db \<Rightarrow> db" where
  "set_sms i f d = d\<lparr>sms_messages := map_rows (\<lambda>m. sm_id m = i) f (sms_messages d)\<rparr>"

definition RELINK_WINDOW :: time where "RELINK_WINDOW = 24 * hour"

definition relinkable :: "time \<Rightarrow> db \<Rightarrow> sms_message \<Rightarrow> bool" where
  "relinkable now d m \<longleftrightarrow> sm_status m = ''unlinked'' \<and> sm_created_at m \<ge> now - RELINK_WINDOW
     \<and> sm_kind m \<notin> set (map tp_kind (filter (\<lambda>t. tp_category t = ''auth'') CATALOGUE))
     \<and> chat_for d (sm_phone m) \<noteq> None"

definition requeue_after_linking :: "time \<Rightarrow> session \<Rightarrow> int \<times> session" where
  "requeue_after_linking now s =
     (let n = int (length (filter (relinkable now (cur s)) (sms_messages (cur s))))
      in if n = 0 then (0, s)
         else (n, commit (edit (\<lambda>d. d\<lparr>sms_messages := map_rows (relinkable now d)
                (\<lambda>m. m\<lparr>sm_status := ''queued'', sm_error := None, sm_next_attempt_at := Some now\<rparr>)
                (sms_messages d)\<rparr>) s)))"

definition is_due :: "time \<Rightarrow> sms_message \<Rightarrow> bool" where
  "is_due now m \<longleftrightarrow> sm_status m = ''queued'' \<and> sm_attempts m < MAX_SEND_ATTEMPTS
     \<and> (case sm_next_attempt_at m of None \<Rightarrow> True | Some t \<Rightarrow> t \<le> now)"

definition due :: "time \<Rightarrow> db \<Rightarrow> sms_message list" where
  "due now d = take 20 (sort_key sm_created_at (filter (is_due now) (sms_messages d)))"

text \<open>The answer of \<open>balelib.send\<close>: a message id, or the text of what it raised.\<close>

type_synonym send_answer = "string + string"

definition backoff_seconds :: "int \<Rightarrow> int" where
  "backoff_seconds attempts = BACKOFF ! min (nat (attempts - 1)) (length BACKOFF - 1)"

definition deliver :: "time \<Rightarrow> sms_message \<Rightarrow> send_answer \<Rightarrow> session \<Rightarrow> bool \<times> session" where
  "deliver now row answer s =
     (case chat_for (cur s) (sm_phone row) of
        None \<Rightarrow> (False, commit (edit (set_sms (sm_id row) (\<lambda>m. m\<lparr>sm_status := ''unlinked'',
                   sm_error := Some ''the number has not opened the bot''\<rparr>)) s))
      | Some _ \<Rightarrow>
          let n = sm_attempts row + 1 in
          case answer of
            Inl err \<Rightarrow>
              (False, commit (edit (set_sms (sm_id row) (\<lambda>m.
                 if n \<ge> MAX_SEND_ATTEMPTS
                 then m\<lparr>sm_attempts := n, sm_error := Some (take 255 err), sm_status := ''failed''\<rparr>
                 else m\<lparr>sm_attempts := n, sm_error := Some (take 255 err),
                        sm_next_attempt_at := Some (now + backoff_seconds n * second)\<rparr>)) s))
          | Inr mid \<Rightarrow>
              (True, commit (edit (set_sms (sm_id row) (\<lambda>m. m\<lparr>sm_attempts := n,
                 sm_provider_message_id := Some mid, sm_status := ''sent'',
                 sm_sent_at := Some now, sm_error := None\<rparr>)) s)))"

text \<open>
  One pass of the worker over the outbox (\<open>sms_once\<close>): requeue, then each due row with its
  answer. The trace holds the id of every message handed to the API, with whether it went out.
\<close>

fun deliver_all :: "time \<Rightarrow> sms_message list \<Rightarrow> (int \<Rightarrow> send_answer) \<Rightarrow> session \<Rightarrow>
    (int \<times> bool) list \<times> session" where
  "deliver_all now [] answers s = ([], s)"
| "deliver_all now (m # ms) answers s =
     (let sends = (if chat_for (cur s) (sm_phone m) = None then []
                   else [(sm_id m, case answers (sm_id m) of Inl _ \<Rightarrow> False | Inr _ \<Rightarrow> True)]);
          (_, s1) = deliver now m (answers (sm_id m)) s;
          (rest, s2) = deliver_all now ms answers s1
      in (sends @ rest, s2))"

definition outbox_pass :: "time \<Rightarrow> (int \<Rightarrow> send_answer) \<Rightarrow> session \<Rightarrow> (int \<times> bool) list \<times> session" where
  "outbox_pass now answers s =
     (let s1 = snd (requeue_after_linking now s)
      in deliver_all now (due now (cur s1)) answers s1)"

section \<open>Counting sends\<close>

definition count_sends :: "int \<Rightarrow> (int \<times> bool) list \<Rightarrow> nat" where
  "count_sends i tr = length (filter (\<lambda>x. fst x = i) tr)"

definition count_wins :: "int \<Rightarrow> (int \<times> bool) list \<Rightarrow> nat" where
  "count_wins i tr = length (filter (\<lambda>x. x = (i, True)) tr)"

lemma count_append [simp]:
  "count_sends i (tr @ us) = count_sends i tr + count_sends i us"
  "count_wins i (tr @ us) = count_wins i tr + count_wins i us"
  by (simp_all add: count_sends_def count_wins_def)

lemma count_single [simp]:
  "count_sends i [(j, b)] = (if i = j then 1 else 0)"
  "count_wins i [(j, b)] = (if i = j \<and> b then 1 else 0)"
  "count_sends i [] = 0" "count_wins i [] = 0"
  by (auto simp: count_sends_def count_wins_def)

text \<open>What ties the trace to the rows: attempts count sends, and a sent row has one success.\<close>

definition message_ok :: "(int \<times> bool) list \<Rightarrow> sms_message \<Rightarrow> bool" where
  "message_ok tr m \<longleftrightarrow> int (count_sends (sm_id m) tr) = sm_attempts m
     \<and> count_wins (sm_id m) tr = (if sm_status m = ''sent'' then 1 else 0)
     \<and> sm_attempts m \<le> MAX_SEND_ATTEMPTS
     \<and> (sm_status m = ''queued'' \<or> sm_status m = ''unlinked'' \<longrightarrow> sm_attempts m < MAX_SEND_ATTEMPTS)"

definition outbox_inv :: "(int \<times> bool) list \<Rightarrow> session \<Rightarrow> bool" where
  "outbox_inv tr s \<longleftrightarrow> distinct (map sm_id (sms_messages (cur s)))
     \<and> list_all (\<lambda>m. sm_id m \<le> seq s \<and> message_ok tr m) (sms_messages (cur s))
     \<and> fst ` set tr \<subseteq> sm_id ` set (sms_messages (cur s))"

lemma outbox_inv_update:
  assumes inv: "outbox_inv tr s" and m: "m \<in> set (sms_messages (cur s))"
    and f: "\<And>x. sm_id (f x) = sm_id x" and ok: "message_ok (tr @ us) (f m)"
    and us: "\<And>x. x \<in> set us \<Longrightarrow> fst x = sm_id m"
  shows "outbox_inv (tr @ us) (commit (edit (set_sms (sm_id m) f) s))"
proof -
  have ids: "map sm_id (map_rows (\<lambda>x. sm_id x = sm_id m) f rs) = map sm_id rs" for rs
    by (rule map_map_rows) (rule f)
  have dist: "distinct (map sm_id (sms_messages (cur s)))" using inv by (simp add: outbox_inv_def)
  have same: "x = m" if "x \<in> set (sms_messages (cur s))" "sm_id x = sm_id m" for x
    using dist m that by (auto simp: distinct_map inj_on_def)
  have other: "message_ok (tr @ us) x" if "message_ok tr x" "sm_id x \<noteq> sm_id m" for x
  proof -
    have "filter (\<lambda>y. fst y = sm_id x) us = []" "filter (\<lambda>y. y = (sm_id x, True)) us = []"
      using us that(2) by (auto simp: filter_empty_conv)
    then have "count_sends (sm_id x) us = 0" "count_wins (sm_id x) us = 0"
      by (simp_all add: count_sends_def count_wins_def)
    with that(1) show ?thesis by (simp add: message_ok_def)
  qed
  have "list_all (\<lambda>x. sm_id x \<le> seq s \<and> message_ok (tr @ us) x)
      (map_rows (\<lambda>x. sm_id x = sm_id m) f (sms_messages (cur s)))"
    unfolding list_all_iff
  proof
    fix y assume "y \<in> set (map_rows (\<lambda>x. sm_id x = sm_id m) f (sms_messages (cur s)))"
    then obtain x where x: "x \<in> set (sms_messages (cur s))" "y = (if sm_id x = sm_id m then f x else x)"
      by (auto simp: set_map_rows)
    then have xo: "sm_id x \<le> seq s" "message_ok tr x" using inv by (auto simp: outbox_inv_def list_all_iff)
    show "sm_id y \<le> seq s \<and> message_ok (tr @ us) y"
    proof (cases "sm_id x = sm_id m")
      case True
      then show ?thesis using x xo ok same f by auto
    next
      case False
      then show ?thesis using x xo other by simp
    qed
  qed
  moreover have "fst ` set (tr @ us) \<subseteq> sm_id ` set (sms_messages (cur s))"
    using inv us m by (auto simp: outbox_inv_def)
  moreover have "sm_id ` set (map_rows (\<lambda>x. sm_id x = sm_id m) f (sms_messages (cur s)))
      = sm_id ` set (sms_messages (cur s))"
    using ids by (metis set_map)
  ultimately show ?thesis using dist by (simp add: outbox_inv_def set_sms_def ids)
qed

lemma deliver_inv:
  assumes inv: "outbox_inv tr s" and m: "m \<in> set (sms_messages (cur s))"
    and q: "sm_status m = ''queued''" "sm_attempts m < MAX_SEND_ATTEMPTS"
  shows "outbox_inv (tr @ (if chat_for (cur s) (sm_phone m) = None then []
      else [(sm_id m, case answer of Inl _ \<Rightarrow> False | Inr _ \<Rightarrow> True)]))
    (snd (deliver now m answer s))"
proof -
  have mo: "message_ok tr m" using inv m by (auto simp: outbox_inv_def list_all_iff)
  note up = outbox_inv_update [OF inv m]
  show ?thesis
  proof (cases "chat_for (cur s) (sm_phone m)")
    case None
    have "outbox_inv (tr @ []) (snd (deliver now m answer s))"
      unfolding deliver_def using None
      by (simp only: option.case snd_conv, intro up)
        (use mo q in \<open>simp_all add: message_ok_def\<close>)
    with None show ?thesis by simp
  next
    case (Some c)
    show ?thesis
    proof (cases answer)
      case (Inl err)
      have "outbox_inv (tr @ [(sm_id m, False)]) (snd (deliver now m answer s))"
        unfolding deliver_def Let_def using Some Inl
        by (simp only: option.case sum.case snd_conv, intro up)
          (use mo q in \<open>auto simp: message_ok_def MAX_SEND_ATTEMPTS_def\<close>)
      with Some Inl show ?thesis by simp
    next
      case (Inr mid)
      have "outbox_inv (tr @ [(sm_id m, True)]) (snd (deliver now m answer s))"
        unfolding deliver_def Let_def using Some Inr
        by (simp only: option.case sum.case snd_conv, intro up)
          (use mo q in \<open>auto simp: message_ok_def MAX_SEND_ATTEMPTS_def\<close>)
      with Some Inr show ?thesis by simp
    qed
  qed
qed

lemma deliver_other:
  assumes "x \<in> set (sms_messages (cur s))" "sm_id x \<noteq> sm_id m"
  shows "x \<in> set (sms_messages (cur (snd (deliver now m answer s))))"
  using assms
  by (auto simp: deliver_def Let_def set_sms_def set_map_rows split: option.splits sum.splits)

lemma deliver_all_inv:
  assumes "outbox_inv tr s" and "set ms \<subseteq> set (sms_messages (cur s))" and "distinct (map sm_id ms)"
    and "\<forall>m \<in> set ms. sm_status m = ''queued'' \<and> sm_attempts m < MAX_SEND_ATTEMPTS"
  shows "outbox_inv (tr @ fst (deliver_all now ms answers s)) (snd (deliver_all now ms answers s))"
  using assms
proof (induction ms arbitrary: tr s)
  case Nil
  then show ?case by simp
next
  case (Cons m ms)
  let ?a = "answers (sm_id m)"
  let ?u = "if chat_for (cur s) (sm_phone m) = None then []
      else [(sm_id m, case ?a of Inl _ \<Rightarrow> False | Inr _ \<Rightarrow> True)]"
  let ?s1 = "snd (deliver now m ?a s)"
  have inv: "outbox_inv (tr @ ?u) ?s1"
    using Cons.prems by (intro deliver_inv) auto
  have "set ms \<subseteq> set (sms_messages (cur ?s1))"
  proof
    fix x assume x: "x \<in> set ms"
    have "sm_id m \<notin> sm_id ` set ms" using Cons.prems(3) by simp
    with x have "sm_id x \<noteq> sm_id m" by (metis imageI)
    then show "x \<in> set (sms_messages (cur ?s1))"
      using x Cons.prems(2) by (intro deliver_other) auto
  qed
  then have IH: "outbox_inv ((tr @ ?u) @ fst (deliver_all now ms answers ?s1))
      (snd (deliver_all now ms answers ?s1))"
    using Cons.prems by (intro Cons.IH [OF inv]) auto
  have st: "fst (deliver_all now (m # ms) answers s) = ?u @ fst (deliver_all now ms answers ?s1)"
    "snd (deliver_all now (m # ms) answers s) = snd (deliver_all now ms answers ?s1)"
    by (simp_all add: Let_def case_prod_beta)
  show ?case unfolding st using IH by (simp only: append.assoc)
qed

lemma requeue_inv:
  assumes "outbox_inv tr s"
  shows "outbox_inv tr (snd (requeue_after_linking now s))"
proof -
  let ?f = "\<lambda>m. m\<lparr>sm_status := ''queued'', sm_error := None, sm_next_attempt_at := Some now\<rparr>"
  let ?rs = "map_rows (relinkable now (cur s)) ?f (sms_messages (cur s))"
  have ids: "map sm_id ?rs = map sm_id (sms_messages (cur s))" by (rule map_map_rows) simp
  have "message_ok tr (?f m)" if "relinkable now (cur s) m" "message_ok tr m" for m
    using that by (auto simp: relinkable_def message_ok_def)
  then have "list_all (\<lambda>m. sm_id m \<le> seq s \<and> message_ok tr m) ?rs"
    using assms by (auto simp: outbox_inv_def list_all_iff set_map_rows)
  moreover have "sm_id ` set ?rs = sm_id ` set (sms_messages (cur s))" using ids by (metis set_map)
  ultimately show ?thesis
    using assms ids by (simp add: requeue_after_linking_def Let_def outbox_inv_def)
qed

lemma outbox_pass_inv:
  assumes "outbox_inv tr s"
  shows "outbox_inv (tr @ fst (outbox_pass now answers s)) (snd (outbox_pass now answers s))"
proof -
  let ?s1 = "snd (requeue_after_linking now s)"
  let ?due = "due now (cur ?s1)"
  have inv: "outbox_inv tr ?s1" by (rule requeue_inv [OF assms])
  have sub: "set ?due \<subseteq> {m \<in> set (sms_messages (cur ?s1)). is_due now m}"
    unfolding due_def using set_take_subset by fastforce
  have "distinct (map sm_id (sort_key sm_created_at (filter (is_due now) (sms_messages (cur ?s1)))))"
    using inv by (simp add: outbox_inv_def distinct_map inj_on_def)
  then have "distinct (map sm_id ?due)" by (simp add: due_def take_map [symmetric] distinct_take)
  then show ?thesis
    unfolding outbox_pass_def Let_def
    using sub by (intro deliver_all_inv [OF inv]) (auto simp: is_due_def)
qed

lemma queue_state:
  "snd (queue now user_id phone kind dedupe u_opt s) = s
   \<or> snd (queue now user_id phone kind dedupe u_opt s)
      = edit (\<lambda>d. d\<lparr>sms_messages := sms_messages d @ [\<lparr>sm_id = seq s + 1, sm_user_id = user_id,
           sm_phone = strip (case phone of None \<Rightarrow> [] | Some p \<Rightarrow> p), sm_kind = kind,
           sm_status = ''queued'', sm_attempts = 0, sm_error = None,
           sm_provider_message_id = None, sm_dedupe_key = dedupe,
           sm_next_attempt_at = Some now, sm_created_at = now, sm_sent_at = None\<rparr>]\<rparr>) (next_id s)"
  unfolding queue_def Let_def by (simp split: sum.split)

lemma queue_inv:
  assumes inv: "outbox_inv tr s"
  shows "outbox_inv tr (snd (queue now user_id phone kind dedupe u_opt s))"
proof (cases "snd (queue now user_id phone kind dedupe u_opt s) = s")
  case True
  with inv show ?thesis by simp
next
  case False
  let ?row = "\<lparr>sm_id = seq s + 1, sm_user_id = user_id,
     sm_phone = strip (case phone of None \<Rightarrow> [] | Some p \<Rightarrow> p), sm_kind = kind,
     sm_status = ''queued'', sm_attempts = 0, sm_error = None,
     sm_provider_message_id = None, sm_dedupe_key = dedupe,
     sm_next_attempt_at = Some now, sm_created_at = now, sm_sent_at = None\<rparr>"
  have q: "snd (queue now user_id phone kind dedupe u_opt s)
      = edit (\<lambda>d. d\<lparr>sms_messages := sms_messages d @ [?row]\<rparr>) (next_id s)"
    using False queue_state by blast
  have new: "seq s + 1 \<notin> sm_id ` set (sms_messages (cur s))"
    using inv by (force simp: outbox_inv_def list_all_iff)
  have "seq s + 1 \<notin> fst ` set tr" using inv new by (auto simp: outbox_inv_def)
  then have "filter (\<lambda>x. fst x = seq s + 1) tr = []" "filter (\<lambda>x. x = (seq s + 1, True)) tr = []"
    by (force simp: filter_empty_conv)+
  then have "message_ok tr ?row"
    by (simp add: message_ok_def count_sends_def count_wins_def MAX_SEND_ATTEMPTS_def)
  moreover have "list_all (\<lambda>m. sm_id m \<le> seq s + 1 \<and> message_ok tr m) (sms_messages (cur s))"
    using inv by (force simp: outbox_inv_def list_all_iff)
  ultimately show ?thesis using inv new unfolding q by (auto simp: outbox_inv_def)
qed

text \<open>A history of the outbox: messages queued, chats linked or unlinked, passes of the worker.\<close>

datatype outbox_event =
  Queued time "int option" "string option" string "string option" "user option"
| Contacts "bale_contact list"
| Pass time "int \<Rightarrow> send_answer"

fun outbox_run :: "outbox_event list \<Rightarrow> (int \<times> bool) list \<times> session \<Rightarrow> (int \<times> bool) list \<times> session" where
  "outbox_run [] st = st"
| "outbox_run (Queued now u p k dk uo # es) (tr, s) = outbox_run es (tr, snd (queue now u p k dk uo s))"
| "outbox_run (Contacts cs # es) (tr, s) =
     outbox_run es (tr, commit (edit (\<lambda>d. d\<lparr>bale_contacts := cs\<rparr>) s))"
| "outbox_run (Pass now answers # es) (tr, s) =
     (case outbox_pass now answers s of (us, s') \<Rightarrow> outbox_run es (tr @ us, s'))"

lemma outbox_run_inv:
  "outbox_inv (fst st) (snd st) \<Longrightarrow> outbox_inv (fst (outbox_run es st)) (snd (outbox_run es st))"
proof (induction es st rule: outbox_run.induct)
  case (3 cs es tr s)
  then show ?case by (simp add: outbox_inv_def)
next
  case (4 now answers es tr s)
  obtain us s' where p: "outbox_pass now answers s = (us, s')" by fastforce
  have "outbox_inv (tr @ us) s'" using outbox_pass_inv [of tr s now answers] 4(2) p by simp
  then show ?case using 4(1) [OF p [symmetric]] p by simp
qed (auto simp: queue_inv)

section \<open>Properties\<close>


end
