(* ===== verification/Operations.thy ===== *)
theory Operations
  imports Outbox
begin

text \<open>
  \<open>control/mmd/notifications.py\<close> and \<open>control/mmd/operations.py\<close>: durable notifications
  with idempotent conditions, and the long-running operations of a workspace. The free-form
  \<open>detail\<close> of both is not modelled.
\<close>

section \<open>Notifications\<close>

definition has_key :: "int \<Rightarrow> string \<Rightarrow> notification \<Rightarrow> bool" where
  "has_key user_id key n \<longleftrightarrow> nt_user_id n = user_id \<and> nt_dedupe_key n = Some key"

definition set_notification :: "int \<Rightarrow> (notification \<Rightarrow> notification) \<Rightarrow> db \<Rightarrow> db" where
  "set_notification i f d = d\<lparr>notifications := map_rows (\<lambda>n. nt_id n = i) f (notifications d)\<rparr>"

definition emit ::
  "time \<Rightarrow> int \<Rightarrow> string \<Rightarrow> string \<Rightarrow> string \<Rightarrow> string option \<Rightarrow> string option \<Rightarrow> session \<Rightarrow> session" where
  "emit now user_id kind cd severity href dedupe s =
     (case (case dedupe of None \<Rightarrow> None
            | Some k \<Rightarrow> if k = [] then None
                else find (has_key user_id k) (notifications (cur s))) of
        None \<Rightarrow>
          let s1 = next_id s;
              row = \<lparr>nt_id = seq s1, nt_user_id = user_id, nt_kind = kind, nt_severity = severity,
                     nt_code = cd, nt_href = href, nt_dedupe_key = dedupe, nt_read_at = None,
                     nt_resolved_at = None, nt_created_at = now\<rparr>
          in commit (edit (\<lambda>d. d\<lparr>notifications := notifications d @ [row]\<rparr>) s1)
      | Some row \<Rightarrow>
          let became_new = (nt_resolved_at row \<noteq> None \<or> nt_code row \<noteq> cd)
          in commit (edit (set_notification (nt_id row) (\<lambda>n.
               let n' = n\<lparr>nt_kind := kind, nt_code := cd, nt_severity := severity,
                          nt_href := href, nt_resolved_at := None\<rparr>
               in if became_new then n'\<lparr>nt_read_at := None, nt_created_at := now\<rparr> else n')) s))"

definition resolve_notification :: "int \<Rightarrow> string \<Rightarrow> time \<Rightarrow> session \<Rightarrow> session" where
  "resolve_notification user_id key now s =
     (case find (\<lambda>n. has_key user_id key n \<and> nt_resolved_at n = None) (notifications (cur s)) of
        None \<Rightarrow> s
      | Some row \<Rightarrow> commit (edit (set_notification (nt_id row)
                      (\<lambda>n. n\<lparr>nt_resolved_at := Some now\<rparr>)) s))"

section \<open>Operations\<close>

definition op_active :: "operation \<Rightarrow> bool" where
  "op_active p \<longleftrightarrow> op_status p = ''queued'' \<or> op_status p = ''running''"

definition create_operation ::
  "string \<Rightarrow> int option \<Rightarrow> int option \<Rightarrow> int option \<Rightarrow> session \<Rightarrow> operation \<times> session" where
  "create_operation kind user_id workspace_id actor_id s =
     (case (case workspace_id of None \<Rightarrow> None
            | Some w \<Rightarrow> find (\<lambda>p. op_workspace_id p = Some w \<and> op_active p) (operations (cur s))) of
        Some p \<Rightarrow> (p, s)
      | None \<Rightarrow>
          let s1 = next_id s;
              p = \<lparr>op_id = seq s1, op_user_id = user_id, op_workspace_id = workspace_id,
                   op_actor_id = actor_id, op_kind = kind, op_status = ''queued'',
                   op_progress_code = ''queued'', op_error_code = None, op_finished_at = None\<rparr>
          in (p, commit (edit (\<lambda>d. d\<lparr>operations := operations d @ [p]\<rparr>) s1)))"

definition set_operation :: "int \<Rightarrow> (operation \<Rightarrow> operation) \<Rightarrow> db \<Rightarrow> db" where
  "set_operation i f d = d\<lparr>operations := map_rows (\<lambda>p. op_id p = i) f (operations d)\<rparr>"

definition op_progress :: "operation \<Rightarrow> string \<Rightarrow> session \<Rightarrow> session" where
  "op_progress p cd s = commit (edit (set_operation (op_id p) (\<lambda>p.
     p\<lparr>op_status := ''running'', op_progress_code := cd, op_error_code := None\<rparr>)) s)"

text \<open>\<open>_text\<close>: an unsendable number is ignored, without a commit.\<close>

definition op_text :: "time \<Rightarrow> int \<Rightarrow> string \<Rightarrow> string \<Rightarrow> session \<Rightarrow> session" where
  "op_text now user_id kind dedupe s =
     (case get_user (cur s) user_id of
        None \<Rightarrow> s
      | Some u \<Rightarrow>
          (case queue now (Some (u_id u)) (u_phone u) kind (Some dedupe) (Some u) s of
             (Inl _, s1) \<Rightarrow> s1
           | (Inr _, s1) \<Rightarrow> commit s1))"

definition op_finish :: "operation \<Rightarrow> time \<Rightarrow> session \<Rightarrow> session" where
  "op_finish p now s =
     (let s1 = commit (edit (set_operation (op_id p) (\<lambda>p.
            p\<lparr>op_status := ''succeeded'', op_progress_code := ''done'',
              op_finished_at := Some now\<rparr>)) s)
      in case op_user_id p of
           None \<Rightarrow> s1
         | Some u \<Rightarrow> if u = 0 then s1
             else let s2 = emit now u ''operation'' (op_kind p @ ''_succeeded'') ''success''
                         (Some ''/console'') (Some (''operation:'' @ show_int (op_id p))) s1
                  in if op_kind p = ''workspace_create''
                     then op_text now u ''workspace_ready'' (''opdone:'' @ show_int (op_id p)) s2
                     else s2)"

definition op_fail :: "operation \<Rightarrow> string \<Rightarrow> time \<Rightarrow> session \<Rightarrow> session" where
  "op_fail p cd now s =
     (let s1 = commit (edit (set_operation (op_id p) (\<lambda>p.
            p\<lparr>op_status := ''failed'', op_progress_code := ''failed'', op_error_code := Some cd,
              op_finished_at := Some now\<rparr>)) s)
      in case op_user_id p of
           None \<Rightarrow> s1
         | Some u \<Rightarrow> if u = 0 then s1
             else op_text now u ''operation_failed'' (''opfail:'' @ show_int (op_id p))
                    (emit now u ''operation'' (op_kind p @ ''_failed'') ''critical''
                       (Some ''/console/support'') (Some (''operation:'' @ show_int (op_id p))) s1))"

section \<open>Frames\<close>

text \<open>Queueing and notifying touch their own tables only.\<close>

lemma queue_frame [frame, simp]:
  "workspaces (cur (snd (queue now ui ph kind dk uo s))) = workspaces (cur s)"
  "users (cur (snd (queue now ui ph kind dk uo s))) = users (cur s)"
  "operations (cur (snd (queue now ui ph kind dk uo s))) = operations (cur s)"
  "notifications (cur (snd (queue now ui ph kind dk uo s))) = notifications (cur s)"
  "transactions (cur (snd (queue now ui ph kind dk uo s))) = transactions (cur s)"
  "credit_accounts (cur (snd (queue now ui ph kind dk uo s))) = credit_accounts (cur s)"
  "exposed_ports (cur (snd (queue now ui ph kind dk uo s))) = exposed_ports (cur s)"
  "settings (cur (snd (queue now ui ph kind dk uo s))) = settings (cur s)"
  "or_accounts (cur (snd (queue now ui ph kind dk uo s))) = or_accounts (cur s)"
  "saved (snd (queue now ui ph kind dk uo s)) = saved s"
  using queue_state [of now ui ph kind dk uo s] by auto

lemma emit_frame [frame, simp]:
  "workspaces (cur (emit now u k c sv h dk s)) = workspaces (cur s)"
  "users (cur (emit now u k c sv h dk s)) = users (cur s)"
  "operations (cur (emit now u k c sv h dk s)) = operations (cur s)"
  "transactions (cur (emit now u k c sv h dk s)) = transactions (cur s)"
  "credit_accounts (cur (emit now u k c sv h dk s)) = credit_accounts (cur s)"
  "exposed_ports (cur (emit now u k c sv h dk s)) = exposed_ports (cur s)"
  "settings (cur (emit now u k c sv h dk s)) = settings (cur s)"
  "or_accounts (cur (emit now u k c sv h dk s)) = or_accounts (cur s)"
  "clean (emit now u k c sv h dk s)"
  by (auto simp: emit_def Let_def set_notification_def split: option.splits)

lemma resolve_frame [frame, simp]:
  "workspaces (cur (resolve_notification u k now s)) = workspaces (cur s)"
  "users (cur (resolve_notification u k now s)) = users (cur s)"
  "operations (cur (resolve_notification u k now s)) = operations (cur s)"
  "transactions (cur (resolve_notification u k now s)) = transactions (cur s)"
  "credit_accounts (cur (resolve_notification u k now s)) = credit_accounts (cur s)"
  "sms_messages (cur (resolve_notification u k now s)) = sms_messages (cur s)"
  by (auto simp: resolve_notification_def set_notification_def split: option.splits)

lemma op_text_cur:
  "cur (op_text now u k dk s) = cur s
   \<or> (\<exists>usr. cur (op_text now u k dk s)
        = cur (snd (queue now (Some (u_id usr)) (u_phone usr) k (Some dk) (Some usr) s)))"
proof (cases "get_user (cur s) u")
  case None
  then show ?thesis by (simp add: op_text_def)
next
  case (Some usr)
  obtain r s1 where "queue now (Some (u_id usr)) (u_phone usr) k (Some dk) (Some usr) s = (r, s1)"
    by fastforce
  with Some show ?thesis by (cases r) (auto simp: op_text_def intro!: exI [of _ usr])
qed

lemma op_text_frame [frame, simp]:
  "workspaces (cur (op_text now u k dk s)) = workspaces (cur s)"
  "users (cur (op_text now u k dk s)) = users (cur s)"
  "operations (cur (op_text now u k dk s)) = operations (cur s)"
  "transactions (cur (op_text now u k dk s)) = transactions (cur s)"
  "credit_accounts (cur (op_text now u k dk s)) = credit_accounts (cur s)"
  "exposed_ports (cur (op_text now u k dk s)) = exposed_ports (cur s)"
  "settings (cur (op_text now u k dk s)) = settings (cur s)"
  "or_accounts (cur (op_text now u k dk s)) = or_accounts (cur s)"
  using op_text_cur [of now u k dk s] by auto

end
