(* ===== verification/OpenRouterKeys.thy ===== *)
theory OpenRouterKeys
  imports Metering Operations
begin

text \<open>
  \<open>control/mmd/hermes.py\<close>, the key calls of \<open>control/mmd/openrouter.py\<close> and the account part of
  \<open>hermes_once\<close> in \<open>control/mmd/worker.py\<close>: the default model, the spending cap, minting,
  revoking and metering a customer's OpenRouter key. The supplier is a map from key hashes to
  what it holds of a key; each call succeeds, is refused, or is applied and its reply lost.
\<close>

section \<open>The shared model setting\<close>

definition SETTING_DEFAULT_MODEL :: string where
  "SETTING_DEFAULT_MODEL = ''openrouter_default_model''"
definition LEGACY_DEFAULT_MODEL :: string where "LEGACY_DEFAULT_MODEL = ''hermes_default_model''"
definition HERMES_DEFAULT_MODEL :: string where "HERMES_DEFAULT_MODEL = ''z-ai/glm-5.2:free''"
definition MODEL_PREFIX :: string where "MODEL_PREFIX = ''openrouter/''"

definition or_else :: "string \<Rightarrow> string \<Rightarrow> string" where
  "or_else a b = (if a = [] then b else a)"

definition default_model :: "db \<Rightarrow> string" where
  "default_model d = or_else (get_setting d SETTING_DEFAULT_MODEL [])
     (or_else (get_setting d LEGACY_DEFAULT_MODEL []) HERMES_DEFAULT_MODEL)"

definition prefixed_model :: "db \<Rightarrow> string" where
  "prefixed_model d = (let m = default_model d
     in if startswith m MODEL_PREFIX then m else MODEL_PREFIX @ m)"

definition remove_prefix :: "string \<Rightarrow> string \<Rightarrow> string" where
  "remove_prefix p s = (if startswith s p then drop (length p) s else s)"

definition set_default_model :: "string \<Rightarrow> session \<Rightarrow> string \<times> session" where
  "set_default_model model s =
     (let v = or_else (take 128 (remove_prefix MODEL_PREFIX (strip model))) HERMES_DEFAULT_MODEL
      in (v, edit (set_setting SETTING_DEFAULT_MODEL v) s))"

section \<open>OpenClaw's and the agents' settings\<close>

definition OPENCLAW_DEFAULT_MODEL :: string where
  "OPENCLAW_DEFAULT_MODEL = ''openrouter/z-ai/glm-5.2''"

definition normalise_model :: "string \<Rightarrow> string" where
  "normalise_model model =
     (let m = strip model
      in if m = [] then OPENCLAW_DEFAULT_MODEL
         else if startswith m MODEL_PREFIX then m else MODEL_PREFIX @ m)"

definition set_openclaw_model :: "string \<Rightarrow> session \<Rightarrow> string \<times> session" where
  "set_openclaw_model model s =
     (normalise_model model, edit (set_setting ''openclaw_default_model'' (normalise_model model)) s)"

datatype agent = ClaudeAgent | CodexAgent

definition agent_key :: "agent \<Rightarrow> string" where
  "agent_key a = (case a of ClaudeAgent \<Rightarrow> ''claude_default_model'' | CodexAgent \<Rightarrow> ''codex_default_model'')"

definition agent_model :: "agent \<Rightarrow> db \<Rightarrow> string" where
  "agent_model a d = strip (get_setting d (agent_key a) [])"

definition set_agent_model :: "agent \<Rightarrow> string \<Rightarrow> session \<Rightarrow> string \<times> session" where
  "set_agent_model a model s =
     (let v = take 128 (strip model) in (v, edit (set_setting (agent_key a) v) s))"

section \<open>The spending cap\<close>

definition MIN_CAP_USD :: rat where "MIN_CAP_USD = fl64 (1 / 10)"
definition MAX_CAP_USD :: rat where "MAX_CAP_USD = 500"

definition affordable_usd :: "int \<Rightarrow> rat \<Rightarrow> rat \<Rightarrow> rat" where
  "affordable_usd balance usd_to_toman discount_percent =
     (if usd_to_toman \<le> 0 then MIN_CAP_USD
      else let mult = discount_multiplier discount_percent;
               toman = max 0 (fl64 (of_int balance / of_int MICRO))
           in if mult \<le> 0 then MAX_CAP_USD
              else max MIN_CAP_USD (min MAX_CAP_USD (fdiv (fdiv toman usd_to_toman) mult)))"

section \<open>The supplier\<close>

record remote_key =
  rk_disabled :: bool
  rk_usage :: rat
  rk_limit :: "rat option"

type_synonym supplier = "string \<rightharpoonup> remote_key"

datatype call_reply = CallOk | CallRefused string | CallLost string

text \<open>The outcomes of the calls one account pass makes, and the key a creation returns.\<close>

record or_net =
  on_secret :: string
  on_hash :: string
  on_create :: call_reply
  on_get :: call_reply
  on_update :: call_reply
  on_delete :: call_reply

definition sent_limit :: "rat \<Rightarrow> rat" where
  "sent_limit cap = py_round_nd 4 (max 0 cap)"

definition on_reply :: "call_reply \<Rightarrow> 'a \<Rightarrow> supplier \<Rightarrow> supplier \<Rightarrow> (string, 'a) result \<times> supplier" where
  "on_reply r a applied before =
     (case r of CallOk \<Rightarrow> (return a, applied) | CallRefused e \<Rightarrow> (raise e, before)
      | CallLost e \<Rightarrow> (raise e, applied))"

definition create_key :: "or_net \<Rightarrow> rat \<Rightarrow> supplier \<Rightarrow> (string, string \<times> string) result \<times> supplier" where
  "create_key net cap sp = on_reply (on_create net) (on_secret net, on_hash net)
     (sp(on_hash net \<mapsto> \<lparr>rk_disabled = False, rk_usage = 0, rk_limit = Some (sent_limit cap)\<rparr>)) sp"

definition update_key ::
  "or_net \<Rightarrow> string \<Rightarrow> rat \<Rightarrow> bool \<Rightarrow> supplier \<Rightarrow> (string, unit) result \<times> supplier" where
  "update_key net h cap disabled sp =
     (case sp h of
        None \<Rightarrow> (raise ''HTTP 404'', sp)
      | Some k \<Rightarrow> on_reply (on_update net) ()
          (sp(h \<mapsto> k\<lparr>rk_disabled := disabled, rk_limit := Some (sent_limit cap)\<rparr>)) sp)"

definition get_key :: "or_net \<Rightarrow> string \<Rightarrow> supplier \<Rightarrow> (string, remote_key) result" where
  "get_key net h sp =
     (case sp h of None \<Rightarrow> raise ''HTTP 404''
      | Some k \<Rightarrow> fst (on_reply (on_get net) k sp sp))"

definition delete_key :: "or_net \<Rightarrow> string \<Rightarrow> supplier \<Rightarrow> (string, unit) result \<times> supplier" where
  "delete_key net h sp =
     (case sp h of None \<Rightarrow> (raise ''HTTP 404'', sp)
      | Some _ \<Rightarrow> on_reply (on_delete net) () (sp(h := None)) sp)"

section \<open>Accounts\<close>

definition get_account :: "db \<Rightarrow> int \<Rightarrow> openrouter_account option" where
  "get_account d i = find (\<lambda>a. oa_user_id a = i) (or_accounts d)"

definition set_account ::
  "int \<Rightarrow> (openrouter_account \<Rightarrow> openrouter_account) \<Rightarrow> session \<Rightarrow> session" where
  "set_account i f s =
     edit (\<lambda>d. d\<lparr>or_accounts := map_rows (\<lambda>a. oa_user_id a = i) f (or_accounts d)\<rparr>) s"

definition has_text :: "string option \<Rightarrow> bool" where
  "has_text t \<longleftrightarrow> t \<noteq> None \<and> t \<noteq> Some []"

text \<open>\<open>revoke_key\<close>; a strict revocation raises unless the key is already gone upstream.\<close>

fun contains :: "string \<Rightarrow> string \<Rightarrow> bool" where
  "contains sub [] \<longleftrightarrow> sub = []"
| "contains sub (c # s) \<longleftrightarrow> startswith (c # s) sub \<or> contains sub s"

definition forgotten :: "openrouter_account \<Rightarrow> openrouter_account" where
  "forgotten a = a\<lparr>oa_key := None, oa_key_hash := None, oa_credit_blocked := True,
     oa_limit_dirty := False\<rparr>"

definition revoke_key ::
  "or_net \<Rightarrow> bool \<Rightarrow> openrouter_account \<Rightarrow> session \<times> supplier \<Rightarrow> string option \<times> session \<times> supplier" where
  "revoke_key net strict a st =
     (let (s, sp) = st;
          (r, sup1) = (case oa_key_hash a of
             Some h \<Rightarrow> if h = [] then (return (), sp) else delete_key net h sp
           | None \<Rightarrow> (return (), sp))
      in case r of
           Inl e \<Rightarrow> if strict \<and> \<not> contains ''HTTP 404'' e then (Some e, s, sup1)
                    else (None, set_account (oa_user_id a) forgotten s, sup1)
         | Inr _ \<Rightarrow> (None, set_account (oa_user_id a) forgotten s, sup1))"

section \<open>Metering\<close>

text \<open>\<open>meter\<close>: the increase of the supplier's total, charged once per bucket.\<close>

definition spend_micro :: "rat \<Rightarrow> rat \<Rightarrow> rat \<Rightarrow> int" where
  "spend_micro delta usd_to_toman discount_percent =
     max 0 (rne (fmul (fmul (fmul delta usd_to_toman) (discount_multiplier discount_percent))
       (of_int MICRO)))"

definition hermes_meter ::
  "time \<Rightarrow> openrouter_account \<Rightarrow> rat \<Rightarrow> rat \<Rightarrow> rat \<Rightarrow> session \<Rightarrow> int \<times> session" where
  "hermes_meter now a current usd_to_toman discount_percent s =
     (let previous = oa_usage_usd a; delta = fsub current previous; i = oa_user_id a
      in if delta \<le> 0
         then (0, if current < previous
                  then set_account i (\<lambda>a. a\<lparr>oa_usage_usd := current\<rparr>) s else s)
         else let micro = spend_micro delta usd_to_toman discount_percent
              in if micro \<le> 0 then (0, s)
                 else case post_transaction i None CHARGE_HERMES (- micro) (Some (ai_period now))
                        (HermesDetail (py_round_nd 6 delta) usd_to_toman discount_percent)
                        (Some (''openrouter:'' @ show_int i)) False s of
                   (None, s1) \<Rightarrow> (0, rollback s1)
                 | (Some _, s1) \<Rightarrow>
                     (micro, commit (set_account i (\<lambda>a. a\<lparr>oa_usage_usd := current\<rparr>) s1)))"

section \<open>One account of the worker's pass\<close>

definition synced :: "time \<Rightarrow> bool \<Rightarrow> rat \<Rightarrow> openrouter_account \<Rightarrow> openrouter_account" where
  "synced now blocked cap a = a\<lparr>oa_credit_blocked := blocked, oa_limit_dirty := False,
     oa_limit_usd := Some cap, oa_limit_synced_at := Some now, oa_error := None\<rparr>"

text \<open>The branch for a customer without a key: mint it, and disable it at zero credit.\<close>

definition mint_account ::
  "time \<Rightarrow> or_net \<Rightarrow> int \<Rightarrow> bool \<Rightarrow> rat \<Rightarrow> session \<times> supplier \<Rightarrow> string option \<times> session \<times> supplier" where
  "mint_account now net i blocked cap st =
     (let (s, sp) = st in
      case create_key net cap sp of
        (Inl e, sup1) \<Rightarrow> (Some e, s, sup1)
      | (Inr (secret, h), sup1) \<Rightarrow>
          let s1 = set_account i (\<lambda>a. a\<lparr>oa_key := Some secret, oa_key_hash := Some h,
                     oa_usage_usd := 0, oa_credit_blocked := False, oa_error := None\<rparr>) s;
              (r, sup2) = (if blocked then update_key net h cap True sup1 else (return (), sup1))
          in case r of
               Inl e \<Rightarrow> (Some e, s1, sup2)
             | Inr _ \<Rightarrow> (None, commit (set_account i (synced now blocked cap) s1), sup2))"

text \<open>\<open>_text\<close> with its preference check, uncommitted.\<close>

definition text_user :: "time \<Rightarrow> int \<Rightarrow> string \<Rightarrow> string \<Rightarrow> session \<Rightarrow> session" where
  "text_user now i kind dedupe s =
     (case get_user (cur s) i of None \<Rightarrow> s
      | Some u \<Rightarrow> snd (queue now (Some (u_id u)) (u_phone u) kind (Some dedupe) (Some u) s))"

text \<open>The branch for a customer with a key; \<open>stamp\<close> is the hour in the message's key.\<close>

definition sync_account ::
  "time \<Rightarrow> string \<Rightarrow> or_net \<Rightarrow> rat \<Rightarrow> rat \<Rightarrow> bool \<Rightarrow> openrouter_account \<Rightarrow> string \<Rightarrow>
   session \<times> supplier \<Rightarrow> string option \<times> session \<times> supplier" where
  "sync_account now stamp net usd_rate discount meter_usage a h st =
     (let (s, sp) = st; i = oa_user_id a in
      case get_key net h sp of
        Inl e \<Rightarrow> (Some e, s, sp)
      | Inr info \<Rightarrow>
          let s1 = (if meter_usage then snd (hermes_meter now a (rk_usage info) usd_rate discount s)
                    else s);
              balance = balance_micro (cur s1) i;
              blocked = (balance \<le> 0);
              cap = fadd (rk_usage info) (affordable_usd balance usd_rate discount);
              changed = (case rk_limit info of None \<Rightarrow> True
                         | Some l \<Rightarrow> \<bar>fsub l cap\<bar> > fl64 (1 / 100));
              (r, sup1) = (if changed \<or> rk_disabled info \<noteq> blocked
                           then update_key net h cap blocked sp else (return (), sp))
          in case r of
               Inl e \<Rightarrow> (Some e, s1, sup1)
             | Inr _ \<Rightarrow>
                 let s2 = (if blocked \<and> \<not> oa_credit_blocked a
                           then text_user now i ''key_blocked''
                                  (''keyblocked:'' @ show_int i @ '':'' @ stamp) s1
                           else s1)
                 in (None, commit (set_account i (synced now blocked cap) s2), sup1))"

definition account_pass ::
  "time \<Rightarrow> string \<Rightarrow> or_net \<Rightarrow> rat \<Rightarrow> rat \<Rightarrow> bool \<Rightarrow> openrouter_account \<Rightarrow> session \<times> supplier \<Rightarrow>
   string option \<times> session \<times> supplier" where
  "account_pass now stamp net usd_rate discount meter_usage a st =
     (let balance = balance_micro (cur (fst st)) (oa_user_id a); blocked = (balance \<le> 0)
      in case oa_key_hash a of
           Some (c # h) \<Rightarrow>
             if \<not> meter_usage \<and> \<not> oa_limit_dirty a \<and> oa_credit_blocked a = blocked
             then (None, st)
             else sync_account now stamp net usd_rate discount meter_usage a (c # h) st
         | _ \<Rightarrow> mint_account now net (oa_user_id a) blocked
                 (affordable_usd balance usd_rate discount) st)"

text \<open>A failed call is recorded on the account and does not stop the others.\<close>

definition account_step ::
  "time \<Rightarrow> string \<Rightarrow> (int \<Rightarrow> or_net) \<Rightarrow> rat \<Rightarrow> rat \<Rightarrow> bool \<Rightarrow> int \<Rightarrow> session \<times> supplier \<Rightarrow>
   session \<times> supplier" where
  "account_step now stamp nets usd_rate discount meter_usage i st =
     (case get_account (cur (fst st)) i of
        None \<Rightarrow> st
      | Some a \<Rightarrow>
          (case account_pass now stamp (nets i) usd_rate discount meter_usage a st of
             (Some e, s1, sup1) \<Rightarrow>
               (commit (set_account i (\<lambda>a. a\<lparr>oa_error := Some (take 500 e)\<rparr>) s1), sup1)
           | (None, s1, sup1) \<Rightarrow> (s1, sup1)))"

definition fresh_account :: "int \<Rightarrow> openrouter_account" where
  "fresh_account i = \<lparr>oa_user_id = i, oa_key_hash = None, oa_key = None, oa_usage_usd = 0,
     oa_credit_blocked = True, oa_limit_dirty = True, oa_limit_usd = None,
     oa_limit_synced_at = None, oa_error = None\<rparr>"

text \<open>Every approved customer gets an account row; the passes of intent take those that need it.\<close>

definition ensure_accounts :: "session \<Rightarrow> session" where
  "ensure_accounts s = commit (edit (\<lambda>d. d\<lparr>or_accounts := or_accounts d @ map (\<lambda>u. fresh_account (u_id u))
     (filter (\<lambda>u. u_status u = UApproved \<and> get_account d (u_id u) = None) (users d))\<rparr>) s)"

definition needs_pass :: "db \<Rightarrow> openrouter_account \<Rightarrow> bool" where
  "needs_pass d a \<longleftrightarrow> \<not> has_text (oa_key_hash a) \<or> oa_limit_dirty a
     \<or> oa_credit_blocked a \<noteq> (balance_micro d (oa_user_id a) \<le> 0)"

definition pass_accounts :: "bool \<Rightarrow> db \<Rightarrow> int list" where
  "pass_accounts meter_usage d =
     map u_id (filter (\<lambda>u. u_status u = UApproved \<and>
       (meter_usage \<or> (case get_account d (u_id u) of None \<Rightarrow> False | Some a \<Rightarrow> needs_pass d a))) (users d))"

definition openrouter_once ::
  "config \<Rightarrow> time \<Rightarrow> string \<Rightarrow> (int \<Rightarrow> or_net) \<Rightarrow> bool \<Rightarrow> session \<times> supplier \<Rightarrow> session \<times> supplier" where
  "openrouter_once cf now stamp nets meter_usage st =
     (if cf_openrouter_key cf = [] then st
      else let s1 = ensure_accounts (fst st);
               (usd_rate, discount) = ai_settings (get_settings (cur s1)) Openrouter
           in fold (account_step now stamp nets usd_rate discount meter_usage)
                (pass_accounts meter_usage (cur s1)) (s1, snd st))"

section \<open>Lemmas\<close>

lemma get_account_set:
  assumes "\<And>a. oa_user_id (f a) = oa_user_id a"
  shows "get_account (cur (set_account i f s)) j
    = (if j = i then map_option f (get_account (cur s) i) else get_account (cur s) j)"
proof (cases "j = i")
  case True
  then show ?thesis by (simp add: get_account_def set_account_def find_map_rows_same assms)
next
  case False
  then have "find (\<lambda>a. oa_user_id a = j) (map_rows (\<lambda>a. oa_user_id a = i) f (or_accounts (cur s)))
      = find (\<lambda>a. oa_user_id a = j) (or_accounts (cur s))"
    by (intro find_map_rows_other) (auto simp: assms)
  with False show ?thesis by (simp add: get_account_def set_account_def)
qed

lemma set_account_frame [frame, simp]:
  "balance_micro (cur (set_account i f s)) u = balance_micro (cur s) u"
  "transactions (cur (set_account i f s)) = transactions (cur s)"
  "users (cur (set_account i f s)) = users (cur s)"
  "saved (set_account i f s) = saved s"
  by (simp_all add: set_account_def balance_micro_def)

lemma get_account_move [simp]: "get_account (move_balance u n d) i = get_account d i"
  and get_account_tx [simp]: "get_account (d\<lparr>transactions := ts\<rparr>) i = get_account d i"
  by (simp_all add: get_account_def)

lemma get_account_commit [simp]: "get_account (cur (commit s)) i = get_account (cur s) i"
  by simp

lemma get_account_id: "get_account d i = Some a \<Longrightarrow> oa_user_id a = i"
  by (auto simp: get_account_def dest: find_SomeD)

text \<open>A metering step either posts one charge and moves the mark to the total, or charges nothing.\<close>

lemma hermes_meter_cases:
  assumes "hermes_meter now a c rate disc s = (n, s')" and "clean s"
  obtains (charged) "0 < n" "n = spend_micro (fsub c (oa_usage_usd a)) rate disc"
      "0 < fsub c (oa_usage_usd a)"
      "balance_micro (cur s') u = balance_micro (cur s) u - (if u = oa_user_id a then n else 0)"
      "get_account (cur s') (oa_user_id a)
         = map_option (oa_usage_usd_update (\<lambda>_. c)) (get_account (cur s) (oa_user_id a))"
  | (fell) "n = 0" "c < oa_usage_usd a" "balance_micro (cur s') u = balance_micro (cur s) u"
      "get_account (cur s') (oa_user_id a)
         = map_option (oa_usage_usd_update (\<lambda>_. c)) (get_account (cur s) (oa_user_id a))"
  | (held) "n = 0" "oa_usage_usd a \<le> c" "cur s' = cur s"
proof (cases "fsub c (oa_usage_usd a) \<le> 0")
  case True
  show thesis
  proof (cases "c < oa_usage_usd a")
    case less: True
    then show thesis using assms True
      by (intro fell) (auto simp: hermes_meter_def Let_def get_account_set)
  next
    case False
    with assms True show thesis by (intro held) (auto simp: hermes_meter_def)
  qed
next
  case pos: False
  have le: "oa_usage_usd a \<le> c"
  proof (rule ccontr)
    assume "\<not> oa_usage_usd a \<le> c"
    then have "fl64 (c - oa_usage_usd a) \<le> fl64 0" by (intro fl64_mono) simp
    with pos show False by (simp add: fsub_def)
  qed
  let ?m = "spend_micro (fsub c (oa_usage_usd a)) rate disc"
  show thesis
  proof (cases "?m \<le> 0")
    case True
    with pos le assms show thesis by (intro held) (auto simp: hermes_meter_def Let_def)
  next
    case False
    let ?post = "post_transaction (oa_user_id a) None CHARGE_HERMES (- ?m) (Some (ai_period now))
      (HermesDetail (py_round_nd 6 (fsub c (oa_usage_usd a))) rate disc)
      (Some (''openrouter:'' @ show_int (oa_user_id a))) False s"
    obtain t s1 where p: "?post = (t, s1)" by fastforce
    have red: "hermes_meter now a c rate disc s = (case t of None \<Rightarrow> (0, rollback s1)
        | Some _ \<Rightarrow> (?m, commit (set_account (oa_user_id a) (\<lambda>a. a\<lparr>oa_usage_usd := c\<rparr>) s1)))"
      using pos False p by (simp add: hermes_meter_def Let_def)
    show thesis
    proof (cases t)
      case None
      with p have "s1 = rollback (next_id s)"
        by (auto simp: post_transaction_def Let_def split: if_splits)
      with None red assms le show thesis by (intro held) (auto simp: clean_def)
    next
      case (Some tx)
      with p have c1: "cur s1 = move_balance (oa_user_id a) (- ?m)
          ((cur s)\<lparr>transactions := transactions (cur s) @ [tx]\<rparr>)"
        by (auto simp: post_transaction_def Let_def split: if_splits)
      have "n = ?m" and "s' = commit (set_account (oa_user_id a) (\<lambda>a. a\<lparr>oa_usage_usd := c\<rparr>) s1)"
        using red Some assms(1) by auto
      with False pos c1 show thesis
        by (intro charged) (simp_all add: balance_move get_account_set cong: map_option_cong)
    qed
  qed
qed

section \<open>Properties\<close>

text \<open>The dollar cap of a key lies between the least and the greatest cap, rises with the
  balance, and rises with the discount: a larger discount buys more upstream spend, never less.\<close>
lemma cap_follows_credit:
  assumes "b \<le> b'" and "d \<le> d'"
  shows "MIN_CAP_USD \<le> affordable_usd b rate d \<and> affordable_usd b rate d \<le> MAX_CAP_USD
    \<and> affordable_usd b rate d \<le> affordable_usd b' rate d'"
proof -
  have m: "MIN_CAP_USD \<le> MAX_CAP_USD"
    unfolding MIN_CAP_USD_def MAX_CAP_USD_def by code_simp
  have bounds: "MIN_CAP_USD \<le> affordable_usd b rate d \<and> affordable_usd b rate d \<le> MAX_CAP_USD" for b d
    using m by (auto simp: affordable_usd_def Let_def)
  have "affordable_usd b rate d \<le> affordable_usd b' rate d'"
  proof (cases "rate \<le> 0 \<or> discount_multiplier d' \<le> 0")
    case True
    with bounds [of b d] show ?thesis by (auto simp: affordable_usd_def Let_def)
  next
    case False
    let ?t = "\<lambda>b. max 0 (fl64 (of_int b / of_int MICRO)) :: rat"
    have anti: "discount_multiplier d' \<le> discount_multiplier d"
      by (rule discount_multiplier_antimono [OF assms(2)])
    have "?t b \<le> ?t b'"
      using assms(1) by (intro max.mono fl64_mono divide_right_mono) (simp_all add: MICRO_def)
    then have "fdiv (?t b) rate \<le> fdiv (?t b') rate"
      using False unfolding fdiv_def by (intro fl64_mono divide_right_mono) auto
    moreover have "0 \<le> fdiv (?t b) rate"
      using False by (intro fdiv_nonneg) auto
    ultimately have "fdiv (?t b) rate / discount_multiplier d
        \<le> fdiv (?t b') rate / discount_multiplier d'"
      using False anti by (intro frac_le) auto
    then have "fdiv (fdiv (?t b) rate) (discount_multiplier d)
        \<le> fdiv (fdiv (?t b') rate) (discount_multiplier d')"
      unfolding fdiv_def by (rule fl64_mono)
    with False anti show ?thesis by (auto simp: affordable_usd_def Let_def)
  qed
  with bounds [of b d] show ?thesis by simp
qed

lemma cap_follows_credit_witness:
  "affordable_usd (5 * 10^11) 200000 0 \<le> affordable_usd (7 * 10^11) 200000 50
   \<and> affordable_usd (5 * 10^11) 200000 0 = 5 / 2"
proof -
  have "affordable_usd (5 * 10^11) 200000 0 = 5 / 2" by code_simp
  then show ?thesis
    using cap_follows_credit [of "5 * 10^11" "7 * 10^11" 0 50 200000] by simp
qed

text \<open>Supplier spend is billed once. A metering step of a stored account either charges the
  price of the spend above the mark and moves the mark to the supplier's total, or charges
  nothing, and then the mark stays (so that the spend is billed later) unless the total fell.\<close>

lemma spend_billed_once:
  assumes "hermes_meter now a c rate disc s = (n, s')" and "clean s"
    and "get_account (cur s) (oa_user_id a) = Some a"
  shows "balance_micro (cur s') (oa_user_id a) = balance_micro (cur s) (oa_user_id a) - n
    \<and> (\<exists>a'. get_account (cur s') (oa_user_id a) = Some a'
        \<and> (if 0 < n then n = spend_micro (fsub c (oa_usage_usd a)) rate disc \<and> oa_usage_usd a' = c
           else n = 0 \<and> oa_usage_usd a' = min c (oa_usage_usd a)))"
  by (rule hermes_meter_cases [OF assms(1,2), where u = "oa_user_id a"])
    (use assms(3) in \<open>auto simp: min_def\<close>)

definition or_db :: db where
  "or_db = empty_db\<lparr>or_accounts := [(fresh_account 7)\<lparr>oa_key_hash := Some ''h'', oa_key := Some ''k'',
     oa_usage_usd := 1, oa_credit_blocked := False\<rparr>],
     credit_accounts := [\<lparr>ca_user_id = 7, ca_balance_micro = 300000 * MICRO\<rparr>]\<rparr>"

definition or_acct :: openrouter_account where
  "or_acct = (fresh_account 7)\<lparr>oa_key_hash := Some ''h'', oa_key := Some ''k'',
     oa_usage_usd := 1, oa_credit_blocked := False\<rparr>"

lemma or_db_account: "get_account or_db 7 = Some or_acct"
  by (simp add: get_account_def or_db_def or_acct_def fresh_account_def)

lemma spend_billed_once_witness:
  "\<exists>s'. hermes_meter 0 or_acct 2 200000 0 (open_session or_db 0) = (200000 * MICRO, s')
     \<and> balance_micro (cur s') 7 = 100000 * MICRO"
proof -
  obtain n s' where h: "hermes_meter 0 or_acct 2 200000 0 (open_session or_db 0) = (n, s')"
    by fastforce
  have "fst (hermes_meter 0 or_acct 2 200000 0 (open_session or_db 0)) = 200000 * MICRO"
    by code_simp
  with h have n: "n = 200000 * MICRO" by simp
  have u: "oa_user_id or_acct = 7" by (simp add: or_acct_def fresh_account_def)
  have "balance_micro or_db 7 = 300000 * MICRO" by (simp add: balance_micro_def or_db_def)
  with spend_billed_once [OF h] n u or_db_account
  have "balance_micro (cur s') 7 = 100000 * MICRO" by simp
  with h n show ?thesis by simp
qed

lemma text_user_frame [frame, simp]:
  "balance_micro (cur (text_user now i k dk s)) u = balance_micro (cur s) u"
  "or_accounts (cur (text_user now i k dk s)) = or_accounts (cur s)"
  "users (cur (text_user now i k dk s)) = users (cur s)"
  by (auto simp: text_user_def balance_micro_def split: option.splits)

lemma get_account_text [simp]:
  "get_account (cur (text_user now i k dk s)) j = get_account (cur s) j"
  by (simp add: get_account_def)

lemma hermes_meter_account:
  assumes "get_account (cur s) (oa_user_id a) = Some a" and "clean s"
  shows "\<exists>a'. get_account (cur (snd (hermes_meter now a c rate disc s))) (oa_user_id a) = Some a'
    \<and> oa_key_hash a' = oa_key_hash a"
proof -
  obtain n s' where h: "hermes_meter now a c rate disc s = (n, s')" by fastforce
  show ?thesis
    by (rule hermes_meter_cases [OF h assms(2), where u = 0]) (use assms(1) h in auto)
qed

lemma update_key_ok:
  assumes "update_key net h cap b sp = (Inr (), sp')"
  shows "\<exists>k. sp' h = Some k \<and> rk_disabled k = b"
  using assms by (auto simp: update_key_def on_reply_def split: option.splits call_reply.splits)

lemma synced_simps [simp]:
  "oa_user_id (synced now b cap a) = oa_user_id a"
  "oa_key_hash (synced now b cap a) = oa_key_hash a"
  "oa_credit_blocked (synced now b cap a) = b"
  by (simp_all add: synced_def)

lemma mint_blocks:
  assumes "mint_account now net i b cap (s, sp) = (None, s', sp')"
    and "get_account (cur s) i = Some a"
  shows "\<exists>a' h k. get_account (cur s') i = Some a' \<and> oa_key_hash a' = Some h
    \<and> oa_credit_blocked a' = b \<and> sp' h = Some k \<and> rk_disabled k = b
    \<and> balance_micro (cur s') u = balance_micro (cur s) u"
  using assms
  by (auto simp: mint_account_def create_key_def on_reply_def Let_def get_account_set
      split: sum.splits call_reply.splits if_splits prod.splits dest!: update_key_ok)

lemma sync_blocks:
  assumes "sync_account now stamp net rate disc m a h (s, sp) = (None, s', sp')"
    and "get_account (cur s) (oa_user_id a) = Some a" and "clean s" and "oa_key_hash a = Some h"
  shows "\<exists>a' k. get_account (cur s') (oa_user_id a) = Some a' \<and> oa_key_hash a' = Some h
    \<and> oa_credit_blocked a' = (balance_micro (cur s') (oa_user_id a) \<le> 0)
    \<and> sp' h = Some k \<and> rk_disabled k = (balance_micro (cur s') (oa_user_id a) \<le> 0)"
proof -
  obtain info where info: "get_key net h sp = Inr info"
    using assms(1) by (cases "get_key net h sp") (simp_all add: sync_account_def Let_def)
  then have k: "sp h = Some info"
    by (auto simp: get_key_def on_reply_def split: option.splits call_reply.splits)
  define s1 where "s1 = (if m then snd (hermes_meter now a (rk_usage info) rate disc s) else s)"
  define b where "b = (balance_micro (cur s1) (oa_user_id a) \<le> 0)"
  obtain a1 where a1: "get_account (cur s1) (oa_user_id a) = Some a1" "oa_key_hash a1 = Some h"
    using hermes_meter_account [OF assms(2,3), of now "rk_usage info" rate disc] assms(2)
    by (cases m) (auto simp: s1_def assms(4))
  define s2 where "s2 = (if b \<and> \<not> oa_credit_blocked a
    then text_user now (oa_user_id a) ''key_blocked''
      (''keyblocked:'' @ show_int (oa_user_id a) @ '':'' @ stamp) s1 else s1)"
  have s2: "get_account (cur s2) j = get_account (cur s1) j"
    "balance_micro (cur s2) j = balance_micro (cur s1) j" for j
    by (simp_all add: s2_def)
  have "\<exists>cap. s' = commit (set_account (oa_user_id a) (synced now b cap) s2)
      \<and> (sp' = sp \<and> rk_disabled info = b \<or> update_key net h cap b sp = (Inr (), sp'))"
    using assms(1) info unfolding s2_def b_def s1_def
    by (cases m) (auto simp: sync_account_def Let_def split: sum.splits if_splits prod.splits option.splits)
  then obtain cap where s': "s' = commit (set_account (oa_user_id a) (synced now b cap) s2)"
    and sp': "sp' = sp \<and> rk_disabled info = b \<or> update_key net h cap b sp = (Inr (), sp')"
    by blast
  have "\<exists>k. sp' h = Some k \<and> rk_disabled k = b"
    using sp' k update_key_ok by auto
  then show ?thesis
    using a1 by (auto simp: s' get_account_set s2 b_def)
qed

text \<open>C38. A customer without credit cannot spend upstream. When the pass of an account that needs
  one (every account, if usage is metered) goes through, the customer has a key, the supplier
  holds it disabled exactly when the balance is not positive, and the account says the same.\<close>
theorem key_follows_credit:
  assumes "account_pass now stamp net rate disc meter_usage a (s, sp) = (None, s', sp')"
    and "get_account (cur s) (oa_user_id a) = Some a" and "clean s"
    and "meter_usage \<or> needs_pass (cur s) a"
  shows "\<exists>a' h k. get_account (cur s') (oa_user_id a) = Some a' \<and> oa_key_hash a' = Some h
    \<and> sp' h = Some k \<and> rk_disabled k = (balance_micro (cur s') (oa_user_id a) \<le> 0)
    \<and> oa_credit_blocked a' = rk_disabled k"
proof (cases "has_text (oa_key_hash a)")
  case True
  then obtain c h where h: "oa_key_hash a = Some (c # h)"
    by (auto simp: has_text_def neq_Nil_conv)
  with assms True have "sync_account now stamp net rate disc meter_usage a (c # h) (s, sp) = (None, s', sp')"
    by (auto simp: account_pass_def needs_pass_def Let_def split: if_splits)
  from sync_blocks [OF this assms(2,3) h] show ?thesis by auto
next
  case False
  then have "mint_account now net (oa_user_id a) (balance_micro (cur s) (oa_user_id a) \<le> 0)
      (affordable_usd (balance_micro (cur s) (oa_user_id a)) rate disc) (s, sp) = (None, s', sp')"
    using assms(1) by (auto simp: account_pass_def has_text_def Let_def
        split: option.splits list.splits)
  from mint_blocks [OF this assms(2), where u = "oa_user_id a"] show ?thesis by auto
qed

definition or_calls :: or_net where
  "or_calls = \<lparr>on_secret = ''sk'', on_hash = ''n'', on_create = CallOk, on_get = CallOk,
     on_update = CallOk, on_delete = CallOk\<rparr>"

definition or_supplier :: supplier where
  "or_supplier = [''h'' \<mapsto> \<lparr>rk_disabled = False, rk_usage = 5 / 2, rk_limit = Some 2\<rparr>]"

theorem key_follows_credit_witness:
  "\<exists>s' sp' k. account_pass 0 [] or_calls 200000 0 True or_acct (open_session or_db 0, or_supplier)
       = (None, s', sp') \<and> balance_micro (cur s') 7 = 0 \<and> sp' ''h'' = Some k \<and> rk_disabled k"
proof -
  let ?r = "account_pass 0 [] or_calls 200000 0 True or_acct (open_session or_db 0, or_supplier)"
  obtain e s' sp' where r: "?r = (e, s', sp')" by (metis prod_cases3)
  have "(case ?r of (e, s1, _) \<Rightarrow>
      (e, balance_micro (cur s1) 7, map_option oa_key_hash (get_account (cur s1) 7)))
      = (None, 0, Some (Some ''h''))"
    by code_simp
  then have "fst ?r = None" and bal: "balance_micro (cur (fst (snd ?r))) 7 = 0"
    and hs: "map_option oa_key_hash (get_account (cur (fst (snd ?r))) 7) = Some (Some ''h'')"
    by (simp_all only: case_prod_beta prod.inject)
  with r have e: "?r = (None, s', sp')" by simp
  have u: "oa_user_id or_acct = 7" by (simp add: or_acct_def fresh_account_def)
  from key_follows_credit [OF e] or_db_account u r bal hs e show ?thesis by auto
qed

end
