(* ===== verification/Ports.thy ===== *)
theory Ports
  imports Billing
begin

text \<open>
  \<open>control/mmd/ports.py\<close> and the handlers that publish and withdraw a port
  (\<open>create_port\<close> and \<open>delete_port\<close> of \<open>app.py\<close>, \<open>sync_published_ports\<close> of
  \<open>service.py\<close>). A random draw, the answer of the kernel's probe and the rows other sessions
  commit in between are an \<open>attempt\<close>; the host's forwarding rules are a list of mappings.
\<close>

section \<open>Constants and errors\<close>

definition PORT_RANGE_START :: int where "PORT_RANGE_START = 20000"
definition PORT_RANGE_END :: int where "PORT_RANGE_END = 29999"
definition MAX_PORTS_PER_WORKSPACE :: int where "MAX_PORTS_PER_WORKSPACE = 5"
definition ALLOC_ATTEMPTS :: nat where "ALLOC_ATTEMPTS = 40"
definition PROTO_BOTH :: string where "PROTO_BOTH = ''both''"
definition PROTOCOLS :: "string list" where "PROTOCOLS = [''tcp'', ''udp'', PROTO_BOTH]"

datatype port_error =
  PortOutOfRange | BadProtocol | PortDuplicate | PortLimit | PortExhausted | PortReserved

definition expand :: "string \<Rightarrow> string list" where
  "expand protocol = (if protocol = PROTO_BOTH then [''tcp'', ''udp''] else [protocol])"

section \<open>Allocation\<close>

text \<open>The unique constraints of \<open>exposed_ports\<close>.\<close>

definition port_conflict :: "db \<Rightarrow> exposed_port \<Rightarrow> bool" where
  "port_conflict d r \<longleftrightarrow> list_ex (\<lambda>p. ep_external_port p = ep_external_port r
     \<or> (ep_workspace_id p = ep_workspace_id r \<and> ep_internal_port p = ep_internal_port r
        \<and> ep_protocol p = ep_protocol r)) (exposed_ports d)"

record attempt =
  at_draw :: int
  at_free :: bool
  at_others :: "exposed_port list"

definition candidate :: "attempt \<Rightarrow> int" where
  "candidate a = at_draw a mod (PORT_RANGE_END - PORT_RANGE_START + 1) + PORT_RANGE_START"

text \<open>Rows that other sessions commit: the database takes those its constraints allow.\<close>

fun others_commit :: "exposed_port list \<Rightarrow> session \<Rightarrow> session" where
  "others_commit [] s = s"
| "others_commit (r # rs) s = others_commit rs
     (if port_conflict (saved s) r then s
      else s\<lparr>cur := (cur s)\<lparr>exposed_ports := exposed_ports (cur s) @ [r]\<rparr>,
             saved := (saved s)\<lparr>exposed_ports := exposed_ports (saved s) @ [r]\<rparr>\<rparr>)"

definition new_port ::
  "int \<Rightarrow> int \<Rightarrow> int \<Rightarrow> int \<Rightarrow> string \<Rightarrow> string option \<Rightarrow> port_kind \<Rightarrow> exposed_port" where
  "new_port i ws internal external protocol note kind =
     \<lparr>ep_id = i, ep_workspace_id = ws, ep_internal_port = internal, ep_external_port = external,
      ep_protocol = protocol, ep_kind = kind,
      ep_device = ''pub-'' @ protocol @ ''-'' @ show_int internal,
      ep_note = note, ep_web_ready = False\<rparr>"

fun alloc_loop ::
  "int \<Rightarrow> int \<Rightarrow> string \<Rightarrow> string option \<Rightarrow> port_kind \<Rightarrow> int list \<Rightarrow> attempt list \<Rightarrow> session \<Rightarrow>
   (port_error, exposed_port) result \<times> session" where
  "alloc_loop ws internal protocol note kind taken [] s = (raise PortExhausted, s)"
| "alloc_loop ws internal protocol note kind taken (a # as) s =
     (if candidate a \<in> set taken \<or> \<not> at_free a
      then alloc_loop ws internal protocol note kind taken as s
      else let s1 = next_id (others_commit (at_others a) s);
               row = new_port (seq s1) ws internal (candidate a) protocol note kind
           in if port_conflict (cur s1) row
              then alloc_loop ws internal protocol note kind (candidate a # taken) as (rollback s1)
              else (return row, commit (edit (\<lambda>d. d\<lparr>exposed_ports := exposed_ports d @ [row]\<rparr>) s1)))"

definition ports_of :: "db \<Rightarrow> int \<Rightarrow> port_kind \<Rightarrow> exposed_port list" where
  "ports_of d ws kind = filter (\<lambda>p. ep_workspace_id p = ws \<and> ep_kind p = kind) (exposed_ports d)"

definition allocate ::
  "int \<Rightarrow> int \<Rightarrow> string \<Rightarrow> string option \<Rightarrow> port_kind \<Rightarrow> attempt list \<Rightarrow> session \<Rightarrow>
   (port_error, exposed_port) result \<times> session" where
  "allocate ws internal protocol note kind as s =
     (if \<not> (1 \<le> internal \<and> internal \<le> 65535) then (raise PortOutOfRange, s)
      else if protocol \<notin> set PROTOCOLS then (raise BadProtocol, s)
      else if list_ex (\<lambda>p. ep_internal_port p = internal) (ports_of (cur s) ws kind)
           then (raise PortDuplicate, s)
      else if kind = PUser \<and> int (length (ports_of (cur s) ws PUser)) \<ge> MAX_PORTS_PER_WORKSPACE
           then (raise PortLimit, s)
      else alloc_loop ws internal protocol note kind (map ep_external_port (exposed_ports (cur s)))
             (take ALLOC_ATTEMPTS as) s)"

definition release :: "exposed_port \<Rightarrow> session \<Rightarrow> (port_error, session) result" where
  "release r s =
     (if ep_kind r \<noteq> PUser then raise PortReserved
      else return (commit (edit (\<lambda>d. d\<lparr>exposed_ports :=
             filter (\<lambda>p. ep_id p \<noteq> ep_id r) (exposed_ports d)\<rparr>) s)))"

definition SERVICE_INTERNAL :: "(port_kind \<times> int) list" where
  "SERVICE_INTERNAL = [(PSsh, 22), (PRdp, 3389)]"

text \<open>\<open>reserve_service_ports\<close>; \<open>as\<close> holds the attempts of each allocation.\<close>

fun reserve_loop ::
  "int \<Rightarrow> (port_kind \<times> int) list \<Rightarrow> (port_kind \<Rightarrow> attempt list) \<Rightarrow> session \<Rightarrow>
   (port_error, (port_kind \<times> int) list) result \<times> session" where
  "reserve_loop ws [] as s = (return [], s)"
| "reserve_loop ws ((kind, internal) # ks) as s =
     (let (r, s1) = (case ports_of (cur s) ws kind of
            p # _ \<Rightarrow> (return p, s)
          | [] \<Rightarrow> allocate ws internal ''tcp'' None kind (as kind) s)
      in case r of
           Inl e \<Rightarrow> (raise e, s1)
         | Inr p \<Rightarrow>
             (case reserve_loop ws ks as s1 of
                (Inl e, s2) \<Rightarrow> (raise e, s2)
              | (Inr out, s2) \<Rightarrow> (return ((kind, ep_external_port p) # out), s2)))"

definition reserve_service_ports ::
  "int \<Rightarrow> (port_kind \<Rightarrow> attempt list) \<Rightarrow> session \<Rightarrow>
   (port_error, (port_kind \<times> int) list) result \<times> session" where
  "reserve_service_ports ws as s = reserve_loop ws SERVICE_INTERNAL as s"

section \<open>The host's forwarding rules\<close>

record mapping =
  mg_external_port :: int
  mg_internal_port :: int
  mg_protocol :: string
  mg_ip :: string

text \<open>The complete set \<open>sync_published_ports\<close> sends: the join of ports and workspaces.\<close>

definition published :: "int option \<Rightarrow> int option \<Rightarrow> db \<Rightarrow> mapping list" where
  "published exclude_ws exclude_port d =
     concat (map (\<lambda>p. concat (map (\<lambda>w. map (\<lambda>proto.
         \<lparr>mg_external_port = ep_external_port p, mg_internal_port = ep_internal_port p,
          mg_protocol = proto, mg_ip = workspace_ip w\<rparr>) (expand (ep_protocol p)))
       (filter (\<lambda>w. w_id w = ep_workspace_id p \<and> exclude_ws \<noteq> Some (w_id w)) (workspaces d))))
     (filter (\<lambda>p. exclude_port \<noteq> Some (ep_id p)) (exposed_ports d)))"

text \<open>
  One call to the provisioner: it applies the set and says so, refuses and leaves the rules,
  or applies it and the reply is lost (a timeout).
\<close>

datatype fw_reply = Applied | Refused | LostReply

definition push_rules :: "fw_reply \<Rightarrow> mapping list \<Rightarrow> mapping list \<Rightarrow> bool \<times> mapping list" where
  "push_rules reply ms rules =
     (case reply of Applied \<Rightarrow> (True, ms) | Refused \<Rightarrow> (False, rules) | LostReply \<Rightarrow> (False, ms))"

section \<open>The handlers\<close>

datatype port_answer =
  PortCreated exposed_port | PortRejected port_error | PortFailed | NoSuchPort | PortDeleted

definition create_port ::
  "int \<Rightarrow> workspace \<Rightarrow> int \<Rightarrow> string option \<Rightarrow> attempt list \<Rightarrow> fw_reply \<Rightarrow> fw_reply \<Rightarrow>
   session \<times> mapping list \<Rightarrow> port_answer \<times> session \<times> mapping list" where
  "create_port user_id w internal note as reply1 reply2 st =
     (let (s, rules) = st in
      case allocate (w_id w) internal PROTO_BOTH note PUser as s of
        (Inl e, s1) \<Rightarrow> (PortRejected e, s1, rules)
      | (Inr row, s1) \<Rightarrow>
          let (ok, rules1) = push_rules reply1 (published None None (cur s1)) rules
          in if ok then (PortCreated row,
                         audit (Some user_id) ''port_publish'' (Some (w_incus_project w)) s1, rules1)
             else case release row s1 of
                    Inl e \<Rightarrow> (PortRejected e, s1, rules1)
                  | Inr s2 \<Rightarrow>
                      let (_, rules2) = push_rules reply2 (published None None (cur s2)) rules1
                      in (PortFailed, s2, rules2))"

definition delete_port ::
  "int \<Rightarrow> workspace \<Rightarrow> int \<Rightarrow> fw_reply \<Rightarrow> session \<times> mapping list \<Rightarrow>
   port_answer \<times> session \<times> mapping list" where
  "delete_port user_id w port_id reply st =
     (let (s, rules) = st in
      case find (\<lambda>p. ep_id p = port_id) (exposed_ports (cur s)) of
        None \<Rightarrow> (NoSuchPort, s, rules)
      | Some row \<Rightarrow>
          if ep_workspace_id row \<noteq> w_id w then (NoSuchPort, s, rules)
          else if ep_kind row \<noteq> PUser then (PortRejected PortReserved, s, rules)
          else let (ok, rules1) = push_rules reply (published None (Some (ep_id row)) (cur s)) rules
               in if \<not> ok then (PortFailed, s, rules1)
                  else let s1 = audit (Some user_id) ''port_unpublish'' (Some (w_incus_project w)) s
                       in case release row s1 of
                            Inl e \<Rightarrow> (PortRejected e, s1, rules1)
                          | Inr s2 \<Rightarrow> (PortDeleted, s2, rules1))"

section \<open>Lemmas\<close>

definition distinct_external :: "db \<Rightarrow> bool" where
  "distinct_external d \<longleftrightarrow> distinct (map ep_external_port (exposed_ports d))"

text \<open>The rows other sessions may commit while a session allocates.\<close>

definition others_in :: "attempt list \<Rightarrow> exposed_port set" where
  "others_in as = (\<Union>a \<in> set as. set (at_others a))"

lemma range_of_candidate: "PORT_RANGE_START \<le> candidate a \<and> candidate a \<le> PORT_RANGE_END"
proof -
  have "0 \<le> at_draw a mod 10000" "at_draw a mod 10000 < 10000" by simp_all
  then show ?thesis
    unfolding candidate_def PORT_RANGE_START_def PORT_RANGE_END_def by simp
qed

lemma distinct_external_snoc:
  "distinct_external d \<Longrightarrow> \<not> port_conflict d r \<Longrightarrow>
     distinct_external (d\<lparr>exposed_ports := exposed_ports d @ [r]\<rparr>)"
  by (force simp: distinct_external_def port_conflict_def list_ex_iff)

lemma others_commit_spec:
  assumes "clean s" "distinct_external (cur s)"
  shows "clean (others_commit rs s) \<and> distinct_external (cur (others_commit rs s))
    \<and> seq (others_commit rs s) = seq s
    \<and> workspaces (cur (others_commit rs s)) = workspaces (cur s)
    \<and> (\<exists>ext. set ext \<subseteq> set rs \<and>
        exposed_ports (cur (others_commit rs s)) = exposed_ports (cur s) @ ext)"
  using assms
proof (induction rs arbitrary: s)
  case Nil
  then show ?case by simp
next
  case (Cons r rs)
  show ?case
  proof (cases "port_conflict (saved s) r")
    case True
    then show ?thesis using Cons.IH [OF Cons.prems] by auto
  next
    case False
    let ?s = "s\<lparr>cur := (cur s)\<lparr>exposed_ports := exposed_ports (cur s) @ [r]\<rparr>,
                saved := (saved s)\<lparr>exposed_ports := exposed_ports (saved s) @ [r]\<rparr>\<rparr>"
    have "clean ?s" "distinct_external (cur ?s)"
      using Cons.prems False distinct_external_snoc [of "cur s" r] by (simp_all add: clean_def)
    from Cons.IH [OF this] obtain ext where "set ext \<subseteq> set rs"
      "exposed_ports (cur (others_commit rs ?s)) = exposed_ports (cur ?s) @ ext" by blast
    then have "set (r # ext) \<subseteq> set (r # rs)"
      "exposed_ports (cur (others_commit rs ?s)) = exposed_ports (cur s) @ (r # ext)" by auto
    with Cons.IH [OF \<open>clean ?s\<close> \<open>distinct_external (cur ?s)\<close>] False show ?thesis
      by (simp only: others_commit.simps if_False) force
  qed
qed

text \<open>What the loop appends to the table, and the row it returns.\<close>

definition alloc_post ::
  "int \<Rightarrow> int \<Rightarrow> string \<Rightarrow> port_kind \<Rightarrow> exposed_port set \<Rightarrow> session \<Rightarrow>
   (port_error, exposed_port) result \<Rightarrow> session \<Rightarrow> bool" where
  "alloc_post ws internal protocol kind others s res s' \<longleftrightarrow>
     clean s' \<and> distinct_external (cur s') \<and> seq s \<le> seq s'
     \<and> workspaces (cur s') = workspaces (cur s)
     \<and> (\<exists>ext. set ext \<subseteq> others \<and> exposed_ports (cur s')
          = exposed_ports (cur s) @ ext @ (case res of Inl _ \<Rightarrow> [] | Inr row \<Rightarrow> [row]))
     \<and> (\<forall>row. res = Inr row \<longrightarrow> ep_workspace_id row = ws \<and> ep_internal_port row = internal
          \<and> ep_protocol row = protocol \<and> ep_kind row = kind \<and> seq s < ep_id row \<and> ep_id row \<le> seq s'
          \<and> PORT_RANGE_START \<le> ep_external_port row \<and> ep_external_port row \<le> PORT_RANGE_END)"

lemma alloc_loop_post:
  assumes "clean s" "distinct_external (cur s)"
  shows "alloc_post ws internal protocol kind (others_in as) s
    (fst (alloc_loop ws internal protocol note kind taken as s))
    (snd (alloc_loop ws internal protocol note kind taken as s))"
  using assms
proof (induction as arbitrary: taken s)
  case Nil
  then show ?case by (simp add: alloc_post_def)
next
  case (Cons a as)
  have sub: "others_in as \<subseteq> others_in (a # as)" by (auto simp: others_in_def)
  show ?case
  proof (cases "candidate a \<in> set taken \<or> \<not> at_free a")
    case True
    then show ?thesis using Cons.IH [OF Cons.prems, of taken] sub
      by (auto simp: alloc_post_def)
  next
    case False
    let ?s1 = "next_id (others_commit (at_others a) s)"
    let ?row = "new_port (seq ?s1) ws internal (candidate a) protocol note kind"
    note oc = others_commit_spec [OF Cons.prems, of "at_others a"]
    then obtain ext where ext: "set ext \<subseteq> set (at_others a)"
      "exposed_ports (cur ?s1) = exposed_ports (cur s) @ ext" by auto
    have in_o: "set (at_others a) \<subseteq> others_in (a # as)" by (auto simp: others_in_def)
    show ?thesis
    proof (cases "port_conflict (cur ?s1) ?row")
      case True
      let ?s2 = "rollback ?s1"
      have cl: "clean ?s1" using oc by (simp add: clean_def)
      then have eq2: "?s2 = ?s1" by (rule rollback_clean)
      have s2: "clean ?s2" "distinct_external (cur ?s2)" "cur ?s2 = cur ?s1"
        unfolding eq2 using oc cl by simp_all
      from Cons.IH [OF s2(1,2), of "candidate a # taken"]
      have IH: "alloc_post ws internal protocol kind (others_in as) ?s2
        (fst (alloc_loop ws internal protocol note kind (candidate a # taken) as ?s2))
        (snd (alloc_loop ws internal protocol note kind (candidate a # taken) as ?s2))" .
      have eq: "alloc_loop ws internal protocol note kind taken (a # as) s
          = alloc_loop ws internal protocol note kind (candidate a # taken) as ?s2"
        using False True by (simp add: Let_def)
      from IH obtain ext2 where "set ext2 \<subseteq> others_in as"
        "exposed_ports (cur (snd (alloc_loop ws internal protocol note kind (candidate a # taken) as ?s2)))
          = exposed_ports (cur ?s2) @ ext2 @
            (case fst (alloc_loop ws internal protocol note kind (candidate a # taken) as ?s2) of
               Inl _ \<Rightarrow> [] | Inr row \<Rightarrow> [row])"
        by (auto simp: alloc_post_def)
      then have "\<exists>e. set e \<subseteq> others_in (a # as) \<and>
        exposed_ports (cur (snd (alloc_loop ws internal protocol note kind (candidate a # taken) as ?s2)))
          = exposed_ports (cur s) @ e @
            (case fst (alloc_loop ws internal protocol note kind (candidate a # taken) as ?s2) of
               Inl _ \<Rightarrow> [] | Inr row \<Rightarrow> [row])"
        using ext s2(3) sub in_o by (intro exI [of _ "ext @ ext2"]) auto
      with IH oc s2(3) show ?thesis unfolding eq alloc_post_def by auto
    next
      case nc: False
      have "distinct_external ((cur ?s1)\<lparr>exposed_ports := exposed_ports (cur ?s1) @ [?row]\<rparr>)"
        using oc nc by (intro distinct_external_snoc) simp_all
      then show ?thesis using False nc ext oc in_o range_of_candidate [of a]
        by (auto simp: alloc_post_def Let_def new_port_def clean_def)
    qed
  qed
qed

lemma allocate_post:
  assumes "clean s" "distinct_external (cur s)"
    and "allocate ws internal protocol note kind as s = (res, s')"
  shows "alloc_post ws internal protocol kind (others_in as) s res s'"
proof -
  have same: "alloc_post ws internal protocol kind (others_in as) s (Inl e) s" for e
    using assms(1,2) by (simp add: alloc_post_def)
  have sub: "others_in (take n as) \<subseteq> others_in as" for n
    using set_take_subset [of n as] by (auto simp: others_in_def)
  have mono: "alloc_post ws internal protocol kind (others_in as) s r s''"
    if "alloc_post ws internal protocol kind (others_in (take n as)) s r s''" for n r s''
    using that sub [of n] unfolding alloc_post_def by blast
  let ?L = "alloc_loop ws internal protocol note kind (map ep_external_port (exposed_ports (cur s)))
      (take ALLOC_ATTEMPTS as) s"
  have L: "alloc_post ws internal protocol kind (others_in as) s (fst ?L) (snd ?L)"
    by (rule mono [OF alloc_loop_post [OF assms(1,2)]])
  from assms(3) consider e where "res = Inl e" "s' = s" | "?L = (res, s')"
    by (auto simp: allocate_def split: if_splits)
  then show ?thesis
  proof cases
    case 1
    then show ?thesis using same by simp
  next
    case 2
    then show ?thesis using L by simp
  qed
qed

text \<open>What a workspace's ports satisfy: the customer's limit, and no internal port twice.\<close>

definition ws_ports_ok :: "int \<Rightarrow> db \<Rightarrow> bool" where
  "ws_ports_ok ws d \<longleftrightarrow> int (length (ports_of d ws PUser)) \<le> MAX_PORTS_PER_WORKSPACE
     \<and> (\<forall>kind. distinct (map ep_internal_port (ports_of d ws kind)))"

lemma ports_of_post:
  assumes "alloc_post ws internal protocol kind others s res s'"
    and "\<forall>r \<in> others. ep_workspace_id r \<noteq> ws"
  shows "ports_of (cur s') ws k = ports_of (cur s) ws k
    @ (case res of Inl _ \<Rightarrow> [] | Inr row \<Rightarrow> if k = kind then [row] else [])"
proof -
  from assms(1) obtain ext where ext: "set ext \<subseteq> others" "exposed_ports (cur s')
      = exposed_ports (cur s) @ ext @ (case res of Inl _ \<Rightarrow> [] | Inr row \<Rightarrow> [row])"
    by (auto simp: alloc_post_def)
  have "filter (\<lambda>p. ep_workspace_id p = ws \<and> ep_kind p = k) ext = []"
    using ext(1) assms(2) by (auto simp: filter_empty_conv)
  with ext assms(1) show ?thesis by (auto simp: ports_of_def alloc_post_def split: sum.split)
qed

text \<open>The published set grows with the table.\<close>

lemma published_mono:
  assumes "set (exposed_ports d) \<subseteq> set (exposed_ports d')" "workspaces d' = workspaces d"
  shows "set (published None None d) \<subseteq> set (published None None d')"
  using assms by (auto simp: published_def)

lemma published_without:
  assumes "exposed_ports d' = filter (\<lambda>p. ep_id p \<noteq> i) (exposed_ports d)" "workspaces d' = workspaces d"
  shows "published None None d' = published None (Some i) d"
  using assms by (simp add: published_def eq_commute)

lemma published_cong:
  "exposed_ports d = exposed_ports d' \<Longrightarrow> workspaces d = workspaces d' \<Longrightarrow>
     published a b d = published a b d'"
  by (simp add: published_def)

section \<open>Properties\<close>

text \<open>Every rule of the host forwards a port that is reserved.\<close>

definition rules_backed :: "session \<times> mapping list \<Rightarrow> bool" where
  "rules_backed st \<longleftrightarrow> set (snd st) \<subseteq> set (published None None (cur (fst st)))"

definition ids_upto :: "int \<Rightarrow> exposed_port set \<Rightarrow> bool" where
  "ids_upto n rows \<longleftrightarrow> (\<forall>r \<in> rows. ep_id r \<le> n)"

lemma audit_frame [simp]:
  "exposed_ports (cur (audit a b c s)) = exposed_ports (cur s)"
  "workspaces (cur (audit a b c s)) = workspaces (cur s)"
  "transactions (cur (audit a b c s)) = transactions (cur s)"
  "credit_accounts (cur (audit a b c s)) = credit_accounts (cur s)"
  "clean (audit a b c s)"
  by (simp_all add: audit_def)

lemma published_audit [simp]: "published x y (cur (audit a b c s)) = published x y (cur s)"
  by (rule published_cong) simp_all


text \<open>Reserving the SSH and RDP ports of a workspace is idempotent: once it has returned,
  reserving again, with any draws, returns the same two external ports and changes nothing, so
  an address a customer has written down never moves.\<close>
lemma reserve_service_ports_idempotent:
  assumes "clean s" and "distinct_external (cur s)"
    and "\<forall>k. \<forall>r \<in> others_in (as k). ep_workspace_id r \<noteq> ws"
    and "reserve_service_ports ws as s = (Inr out, s1)"
  shows "reserve_service_ports ws as' s1 = (Inr out, s1) \<and> map fst out = [PSsh, PRdp]"
proof -
  have step: "\<exists>p ps. r = Inr p \<and> ports_of (cur s') ws kind = p # ps"
    if "(case ports_of (cur s) ws kind of p # _ \<Rightarrow> (Inr p, s)
          | [] \<Rightarrow> allocate ws internal ''tcp'' None kind (as kind) s) = (r, s')" "r = Inr q"
      "clean s" "distinct_external (cur s)" for kind internal r s' q s
  proof (cases "ports_of (cur s) ws kind")
    case Nil
    with that have al: "allocate ws internal ''tcp'' None kind (as kind) s = (r, s')" by simp
    have "\<forall>r \<in> others_in (as kind). ep_workspace_id r \<noteq> ws" using assms(3) by blast
    from ports_of_post [OF allocate_post [OF that(3,4) al] this, of kind] Nil that(2)
    show ?thesis by simp
  qed (use that in auto)
  have keep: "clean s' \<and> distinct_external (cur s') \<and> (\<exists>e. ports_of (cur s') ws k = ports_of (cur s) ws k @ e)"
    if "(case ports_of (cur s) ws kind of p # _ \<Rightarrow> (Inr p, s)
          | [] \<Rightarrow> allocate ws internal ''tcp'' None kind (as kind) s) = (r, s')"
      "clean s" "distinct_external (cur s)" for kind internal r s' k s
  proof (cases "ports_of (cur s) ws kind")
    case Nil
    with that have al: "allocate ws internal ''tcp'' None kind (as kind) s = (r, s')" by simp
    have "\<forall>r \<in> others_in (as kind). ep_workspace_id r \<noteq> ws" using assms(3) by blast
    from ports_of_post [OF allocate_post [OF that(2,3) al] this, of k]
      allocate_post [OF that(2,3) al] show ?thesis by (auto simp: alloc_post_def)
  qed (use that in auto)
  obtain r1 s2 where a1: "(case ports_of (cur s) ws PSsh of p # _ \<Rightarrow> (Inr p, s)
          | [] \<Rightarrow> allocate ws 22 ''tcp'' None PSsh (as PSsh) s) = (r1, s2)" by fastforce
  then obtain p1 where r1: "r1 = Inr p1"
    using assms(4) by (cases r1) (simp_all add: reserve_service_ports_def SERVICE_INTERNAL_def)
  obtain r2 s3 where a2: "(case ports_of (cur s2) ws PRdp of p # _ \<Rightarrow> (Inr p, s2)
          | [] \<Rightarrow> allocate ws 3389 ''tcp'' None PRdp (as PRdp) s2) = (r2, s3)" by fastforce
  then obtain p2 where r2: "r2 = Inr p2"
    using assms(4) a1 r1
    by (cases r2) (simp_all add: reserve_service_ports_def SERVICE_INTERNAL_def)
  have out: "out = [(PSsh, ep_external_port p1), (PRdp, ep_external_port p2)]" "s1 = s3"
    using assms(4) a1 r1 a2 r2
    by (simp_all add: reserve_service_ports_def SERVICE_INTERNAL_def)
  note k1 = keep [OF a1 assms(1,2)]
  obtain q1 where "ports_of (cur s2) ws PSsh = p1 # q1"
    using step [OF a1 r1 assms(1,2)] r1 by auto
  then obtain q where ssh: "ports_of (cur s3) ws PSsh = p1 # q"
    using keep [OF a2, of PSsh] k1 by auto
  obtain q2 where rdp: "ports_of (cur s3) ws PRdp = p2 # q2"
    using step [OF a2 r2] k1 r2 by auto
  show ?thesis using out ssh rdp
    by (simp add: reserve_service_ports_def SERVICE_INTERNAL_def)
qed

text \<open>C14. The host never forwards a port without a reservation: publishing and withdrawing keep
  every forwarding rule backed by a row of the table, on every path, including a refusal of
  the provisioner at any of its calls, provided a call that reports failure has not applied
  the set it was sent.\<close>
theorem handlers_keep_rules_backed:
  assumes "clean s" and "distinct_external (cur s)" and "rules_backed (s, rules)"
    and "ids_upto (seq s) (set (exposed_ports (cur s)) \<union> others_in as)"
    and "reply1 \<noteq> LostReply" and "reply2 \<noteq> LostReply"
  shows "rules_backed (snd (create_port u w internal note as reply1 reply2 (s, rules)))
    \<and> rules_backed (snd (delete_port u w port_id reply1 (s, rules)))"
proof
  obtain res s1 where al: "allocate (w_id w) internal PROTO_BOTH note PUser as s = (res, s1)"
    by fastforce
  note post = allocate_post [OF assms(1,2) al]
  obtain ext where ext: "set ext \<subseteq> others_in as" "exposed_ports (cur s1)
      = exposed_ports (cur s) @ ext @ (case res of Inl _ \<Rightarrow> [] | Inr row \<Rightarrow> [row])"
      "workspaces (cur s1) = workspaces (cur s)"
    using post by (auto simp: alloc_post_def)
  have "set (published None None (cur s)) \<subseteq> set (published None None (cur s1))"
    using ext by (intro published_mono) auto
  then have backed: "set rules \<subseteq> set (published None None (cur s1))"
    using assms(3) by (auto simp: rules_backed_def)
  show "rules_backed (snd (create_port u w internal note as reply1 reply2 (s, rules)))"
  proof (cases res)
    case (Inl e)
    with al backed show ?thesis by (simp add: create_port_def rules_backed_def)
  next
    case (Inr row)
    have row: "ep_kind row = PUser" "seq s < ep_id row"
      using post Inr by (auto simp: alloc_post_def)
    show ?thesis
    proof (cases reply1)
      case Applied
      with al Inr show ?thesis by (simp add: create_port_def rules_backed_def push_rules_def)
    next
      case Refused
      let ?d = "(cur s1)\<lparr>exposed_ports := filter (\<lambda>p. ep_id p \<noteq> ep_id row) (exposed_ports (cur s1))\<rparr>"
      have "set (exposed_ports (cur s)) \<subseteq> set (exposed_ports ?d)"
      proof
        fix x assume x: "x \<in> set (exposed_ports (cur s))"
        then have "ep_id x \<le> seq s" using assms(4) by (simp add: ids_upto_def)
        with x row(2) ext(2) show "x \<in> set (exposed_ports ?d)" by simp
      qed
      then have "set (published None None (cur s)) \<subseteq> set (published None None ?d)"
        using ext(3) by (intro published_mono) simp_all
      then have "set rules \<subseteq> set (published None None ?d)"
        using assms(3) by (auto simp: rules_backed_def)
      with Refused al Inr row assms(6) show ?thesis
        by (cases reply2) (simp_all add: create_port_def rules_backed_def push_rules_def release_def)
    qed (use assms(5) in simp)
  qed
  show "rules_backed (snd (delete_port u w port_id reply1 (s, rules)))"
  proof (cases "find (\<lambda>p. ep_id p = port_id) (exposed_ports (cur s))")
    case None
    with assms(3) show ?thesis by (simp add: delete_port_def)
  next
    case (Some row)
    let ?s1 = "audit (Some u) ''port_unpublish'' (Some (w_incus_project w)) s"
    let ?d = "(cur ?s1)\<lparr>exposed_ports := filter (\<lambda>p. ep_id p \<noteq> ep_id row) (exposed_ports (cur ?s1))\<rparr>"
    have "published None None ?d = published None (Some (ep_id row)) (cur s)"
      by (rule published_without) simp_all
    with Some assms(3,5) show ?thesis
      by (cases reply1) (simp_all add: delete_port_def rules_backed_def push_rules_def release_def)
  qed
qed

section \<open>Witnesses\<close>

definition port_db :: db where
  "port_db = (funded_db 7 0)\<lparr>workspaces := [new_workspace 1 7 1 0]\<rparr>"

definition draw :: "int \<Rightarrow> attempt" where
  "draw n = \<lparr>at_draw = n, at_free = True, at_others = []\<rparr>"

lemma port_db_ok:
  "clean (open_session port_db 0)" "distinct_external (cur (open_session port_db 0))"
  "ws_ports_ok 1 (cur (open_session port_db 0))" "exposed_ports port_db = []"
  "others_in [draw n] = {}" "others_in [] = {}"
  by (simp_all add: port_db_def funded_db_def empty_db_def distinct_external_def ws_ports_ok_def
      ports_of_def MAX_PORTS_PER_WORKSPACE_def others_in_def draw_def)


lemma reserve_service_ports_idempotent_witness:
  "\<exists>out s1. reserve_service_ports 1 (\<lambda>k. if k = PSsh then [draw 5] else [draw 6])
      (open_session port_db 0) = (Inr out, s1) \<and> out = [(PSsh, 20005), (PRdp, 20006)]
    \<and> reserve_service_ports 1 (\<lambda>_. []) s1 = (Inr out, s1)"
proof -
  let ?as = "\<lambda>k. if k = PSsh then [draw 5] else [draw 6]"
  obtain s1 where r: "reserve_service_ports 1 ?as (open_session port_db 0)
      = (Inr [(PSsh, 20005), (PRdp, 20006)], s1)"
    using port_db_ok(4)
    by (simp add: reserve_service_ports_def SERVICE_INTERNAL_def allocate_def PROTOCOLS_def
        ports_of_def ALLOC_ATTEMPTS_def candidate_def draw_def PORT_RANGE_START_def
        PORT_RANGE_END_def port_conflict_def new_port_def Let_def)
  have "\<forall>k. \<forall>r \<in> others_in (?as k). ep_workspace_id r \<noteq> 1" by (simp add: port_db_ok)
  from reserve_service_ports_idempotent [OF port_db_ok(1,2) this r] r show ?thesis by blast
qed

theorem handlers_keep_rules_backed_witness:
  "rules_backed (snd (create_port 7 (new_workspace 1 7 1 0) 8080 None [draw 4815] Applied Refused
      (open_session port_db 0, [])))"
proof -
  have "rules_backed (open_session port_db 0, [])" by (simp add: rules_backed_def)
  moreover have "ids_upto (seq (open_session port_db 0))
      (set (exposed_ports (cur (open_session port_db 0))) \<union> others_in [draw 4815])"
    by (simp add: port_db_ok ids_upto_def)
  ultimately show ?thesis
    using handlers_keep_rules_backed [OF port_db_ok(1,2)] by blast
qed

end
