(* ===== verification/WorkspaceApi.thy ===== *)
theory WorkspaceApi
  imports Ports Operations
begin

text \<open>
  The handlers of \<open>control/mmd/app.py\<close> that move a workspace: create, delete, keep running,
  power, size, reset, and the administrator's power-off. The replies of Incus are arguments.
  The clock is read once per handler. A power change is two steps, since the handler commits
  STARTING or STOPPING and then awaits Incus while the worker runs. The text of an error
  column is the name of its cause.
\<close>

section \<open>Answers and replies\<close>

text \<open>What a handler answers: \<open>Done\<close> the status, \<open>Failed\<close> the HTTP status and code of \<open>fail\<close>.\<close>

datatype answer = Done string | Failed int string

text \<open>An Incus call succeeds, or raises with a text.\<close>

datatype incus_reply = IncusOk | IncusFails string

definition my_workspace :: "db \<Rightarrow> user \<Rightarrow> workspace option" where
  "my_workspace d u = find (\<lambda>w. w_user_id w = u_id u) (workspaces d)"

definition update_ws :: "int \<Rightarrow> (workspace \<Rightarrow> workspace) \<Rightarrow> session \<Rightarrow> session" where
  "update_ws i f s = edit (set_ws i f) s"

definition mark_error :: "int \<Rightarrow> string \<Rightarrow> session \<Rightarrow> session" where
  "mark_error i text s = commit (update_ws i (\<lambda>w. w\<lparr>w_state := ERROR, w_error := Some text\<rparr>) s)"

definition exn_text :: "invalid_tier \<Rightarrow> string" where
  "exn_text e = (case e of NotWholeNumbers \<Rightarrow> ''ValueError'' | _ \<Rightarrow> ''InvalidTier'')"

section \<open>Creation and deletion\<close>

definition requested_workspace :: "int \<Rightarrow> int \<Rightarrow> int \<Rightarrow> time \<Rightarrow> int \<Rightarrow> int \<Rightarrow> workspace" where
  "requested_workspace i u idx now cpu mem =
     (new_workspace i u idx now)\<lparr>w_cpu_milli := cpu, w_mem_mib := mem\<rparr>"

definition create_workspace ::
  "time \<Rightarrow> user \<Rightarrow> int \<Rightarrow> int \<Rightarrow> session \<Rightarrow> answer \<times> session" where
  "create_workspace now u cpu mem s =
     (if u_status u \<noteq> UApproved then (Failed 409 ''pending_approval'', s)
      else if my_workspace (cur s) u \<noteq> None then (Failed 409 ''already_has_machine'', s)
      else case mk_tier cpu mem (DEFAULT_ROOT_GIB + DEFAULT_DOCKER_GIB) of
        Inl _ \<Rightarrow> (Failed 400 ''invalid_size'', s)
      | Inr _ \<Rightarrow>
          let idx = next_free_idx (cur s);
              s1 = next_id s;
              w = requested_workspace (seq s1) (u_id u) idx now cpu mem;
              s2 = commit (edit (\<lambda>d. d\<lparr>workspaces := workspaces d @ [w]\<rparr>) s1);
              (_, s3) = create_operation ''workspace_create'' (Some (u_id u)) (Some (w_id w))
                          (Some (u_id u)) s2
          in (Done ''queued'',
              audit (Some (u_id u)) ''workspace_create_started'' (Some (w_incus_project w)) s3))"

definition delete_workspace ::
  "(string \<Rightarrow> string \<Rightarrow> bool) \<Rightarrow> time \<Rightarrow> user \<Rightarrow> string \<Rightarrow> string \<Rightarrow> session \<Rightarrow> answer \<times> session" where
  "delete_workspace verify_password now u confirm password s =
     (case my_workspace (cur s) u of
        None \<Rightarrow> (Failed 404 ''no_workspace'', s)
      | Some w \<Rightarrow>
          if lower (strip confirm) \<noteq> lower (strip (u_username u))
          then (Failed 400 ''delete_confirm_mismatch'', s)
          else if \<not> verify_password password (u_password_hash u)
          then (Failed 401 ''wrong_password'', s)
          else if w_state w = DELETING \<or> w_state w = RESETTING then (Failed 409 ''busy'', s)
          else case (if w_state w = ON then settle_elapsed now w True None s else return (0, s)) of
            Inl _ \<Rightarrow> (Failed 500 ''internal'', rollback s)
          | Inr (_, s1) \<Rightarrow>
              let s2 = commit (update_ws (w_id w)
                         (\<lambda>w. w\<lparr>w_desired_on := False, w_state := DELETING\<rparr>) s1);
                  (_, s3) = create_operation ''workspace_delete'' (Some (u_id u)) (Some (w_id w))
                              (Some (u_id u)) s2
              in (Done ''queued'',
                  audit (Some (u_id u)) ''workspace_delete_started'' (Some (w_incus_project w)) s3))"

definition keep_running :: "user \<Rightarrow> session \<Rightarrow> answer \<times> session" where
  "keep_running u s =
     (case my_workspace (cur s) u of
        None \<Rightarrow> (Failed 404 ''no_workspace'', s)
      | Some w \<Rightarrow>
          if w_state w \<noteq> ON then (Failed 409 ''machine_off'', s)
          else if w_auto_stop_at w = None then (Done ''kept'', s)
          else (Done ''kept'',
                audit (Some (u_id u)) ''auto_stop_waived'' (Some (w_incus_project w))
                  (commit (update_ws (w_id w) disarm_auto_stop s))))"

section \<open>Power\<close>

text \<open>
  The first half of a start: the guards, the credit gate, admission and the commit of
  STARTING. \<open>None\<close> means that the handler goes on to call Incus.
\<close>

definition power_on_begin ::
  "int \<Rightarrow> int \<Rightarrow> workspace \<Rightarrow> session \<Rightarrow> answer option \<times> session" where
  "power_on_begin cpus mem_kb w s =
     (if w_state w = ON then (Some (Done ''on''), s)
      else if w_state w = ARCHIVED then (Some (Failed 409 ''archived''), s)
      else if w_state w \<noteq> OFF \<and> w_state w \<noteq> ERROR then (Some (Failed 409 ''busy''), s)
      else case can_afford_next_hour (cur s) w of
        Inl e \<Rightarrow> (Some (Failed 500 ''power_failed''), mark_error (w_id w) (exn_text e) s)
      | Inr (affordable, _, _) \<Rightarrow>
          if \<not> affordable then (Some (Failed 402 ''insufficient_credit''), s)
          else case check_admission cpus mem_kb (cur s) w None of
            Inl e \<Rightarrow> (Some (Failed 500 ''power_failed''), mark_error (w_id w) (exn_text e) s)
          | Inr adm \<Rightarrow>
              if \<not> allowed adm then (Some (Failed 503 ''no_capacity''), s)
              else (None, commit (update_ws (w_id w) (\<lambda>r. r\<lparr>w_state := STARTING,
                      w_error := (if w_state w = ERROR then None else w_error r)\<rparr>) s)))"

definition started_row :: "config \<Rightarrow> time \<Rightarrow> workspace \<Rightarrow> workspace" where
  "started_row cf now w = arm_auto_stop cf now (w\<lparr>w_state := ON, w_desired_on := True,
     w_started_at := Some now, w_period_start := Some now, w_last_activity := Some now\<rparr>)"

text \<open>The second half: the size is applied before the start; \<open>patch\<close> answers what is sent.\<close>

definition power_on_finish ::
  "config \<Rightarrow> time \<Rightarrow> ((string \<times> string) list \<Rightarrow> incus_reply) \<Rightarrow> incus_reply \<Rightarrow> int \<Rightarrow> workspace \<Rightarrow>
   session \<Rightarrow> answer \<times> session" where
  "power_on_finish cf now patch start user_id w s =
     (case tier_of w of
        Inl e \<Rightarrow> (Failed 500 ''power_failed'', mark_error (w_id w) (exn_text e) s)
      | Inr t \<Rightarrow>
          (case patch (incus_config t) of
             IncusFails e \<Rightarrow> (Failed 500 ''power_failed'', mark_error (w_id w) e s)
           | IncusOk \<Rightarrow>
               (case start of
                  IncusFails e \<Rightarrow> (Failed 500 ''power_failed'', mark_error (w_id w) e s)
                | IncusOk \<Rightarrow> (Done ''on'',
                    audit (Some user_id) ''power_on'' (Some (w_incus_project w))
                      (commit (update_ws (w_id w) (started_row cf now) s))))))"

definition power_off_begin :: "workspace \<Rightarrow> session \<Rightarrow> answer option \<times> session" where
  "power_off_begin w s =
     (if w_state w = OFF then (Some (Done ''off''), s)
      else (None, commit (update_ws (w_id w) (\<lambda>w. w\<lparr>w_state := STOPPING\<rparr>) s)))"

definition stopped_row :: "workspace \<Rightarrow> workspace" where
  "stopped_row w =
     disarm_auto_stop (w\<lparr>w_state := OFF, w_desired_on := False, w_period_start := None\<rparr>)"

text \<open>Settling the part-hour and closing the run: every ordered stop does this, uncommitted.\<close>

definition close_run :: "time \<Rightarrow> workspace \<Rightarrow> session \<Rightarrow> (invalid_tier, session) result" where
  "close_run now w s = andthen (settle_elapsed now w True None s)
     (\<lambda>(_, s1). return (update_ws (w_id w) stopped_row s1))"

definition power_off_finish ::
  "time \<Rightarrow> incus_reply \<Rightarrow> string \<Rightarrow> int \<Rightarrow> workspace \<Rightarrow> session \<Rightarrow> answer \<times> session" where
  "power_off_finish now stop action actor w s =
     (case stop of
        IncusFails e \<Rightarrow> (Failed 500 ''power_failed'', mark_error (w_id w) e s)
      | IncusOk \<Rightarrow>
          (case close_run now w s of
             Inl e \<Rightarrow> (Failed 500 ''power_failed'', mark_error (w_id w) (exn_text e) s)
           | Inr s1 \<Rightarrow> (Done ''off'',
               audit (Some actor) action (Some (w_incus_project w)) (commit s1))))"

text \<open>\<open>workspace_power\<close>, when nothing else runs in between.\<close>

record incus =
  ic_patch :: "(string \<times> string) list \<Rightarrow> incus_reply"
  ic_start :: incus_reply
  ic_stop :: incus_reply

definition reload :: "workspace \<Rightarrow> session \<Rightarrow> workspace" where
  "reload w s = (case get_ws (cur s) (w_id w) of Some r \<Rightarrow> r | None \<Rightarrow> w)"

definition workspace_power ::
  "config \<Rightarrow> int \<Rightarrow> int \<Rightarrow> incus \<Rightarrow> time \<Rightarrow> user \<Rightarrow> bool \<Rightarrow> session \<Rightarrow> answer \<times> session" where
  "workspace_power cf cpus mem_kb ic now u on s =
     (case my_workspace (cur s) u of
        None \<Rightarrow> (Failed 404 ''no_workspace'', s)
      | Some w \<Rightarrow>
          if on then
            (case power_on_begin cpus mem_kb w s of
               (Some a, s1) \<Rightarrow> (a, s1)
             | (None, s1) \<Rightarrow>
                 power_on_finish cf now (ic_patch ic) (ic_start ic) (u_id u) (reload w s1) s1)
          else
            (case power_off_begin w s of
               (Some a, s1) \<Rightarrow> (a, s1)
             | (None, s1) \<Rightarrow>
                 power_off_finish now (ic_stop ic) ''power_off'' (u_id u) (reload w s1) s1))"

definition admin_power_off ::
  "incus \<Rightarrow> time \<Rightarrow> int \<Rightarrow> int \<Rightarrow> session \<Rightarrow> answer \<times> session" where
  "admin_power_off ic now admin i s =
     (case get_ws (cur s) i of
        None \<Rightarrow> (Failed 404 ''no_such_workspace'', s)
      | Some w \<Rightarrow>
          if w_state w = OFF then (Done ''off'', s)
          else if w_state w \<noteq> ON then (Failed 409 ''power_bad_state'', s)
          else (case power_off_begin w s of
                  (Some a, s1) \<Rightarrow> (a, s1)
                | (None, s1) \<Rightarrow>
                    power_off_finish now (ic_stop ic) ''admin_power_off'' admin (reload w s1) s1))"

section \<open>Size\<close>

text \<open>
  \<open>workspace_tier\<close>. A failing Incus call leaves the part-hour settled (its posting commits) but
  neither the new period nor the new size; an \<open>InvalidTier\<close> outside the \<open>except\<close> clauses is an
  internal error.
\<close>

definition workspace_tier ::
  "int \<Rightarrow> int \<Rightarrow> incus \<Rightarrow> time \<Rightarrow> user \<Rightarrow> int option \<Rightarrow> int option \<Rightarrow> session \<Rightarrow> answer \<times> session" where
  "workspace_tier cpus mem_kb ic now u cpu mem s =
     (case my_workspace (cur s) u of
        None \<Rightarrow> (Failed 404 ''no_workspace'', s)
      | Some w \<Rightarrow>
       case parse_tier cpu mem (Some (w_disk_gib w)) of
        Inl _ \<Rightarrow> (Failed 400 ''invalid_size'', s)
      | Inr new \<Rightarrow>
       case tier_of w of
        Inl _ \<Rightarrow> (Failed 500 ''internal'', s)
      | Inr old \<Rightarrow>
       if cpu_milli new = cpu_milli old \<and> mem_mib new = mem_mib old then (Done ''unchanged'', s)
       else let running = (w_state w = ON) in
       if running \<and> mem_mib new < mem_mib old then (Failed 409 ''mem_shrink_running'', s)
       else case (if running \<and> (cpu_milli new > cpu_milli old \<or> mem_mib new > mem_mib old)
                  then andthen (check_admission cpus mem_kb (cur s) w (Some new))
                         (\<lambda>adm. return (allowed adm))
                  else return True) of
        Inl _ \<Rightarrow> (Failed 500 ''internal'', s)
      | Inr False \<Rightarrow> (Failed 503 ''no_capacity'', s)
      | Inr True \<Rightarrow>
       let resized = (\<lambda>s. audit (Some (u_id u)) ''size_change'' (Some (w_incus_project w))
             (commit (update_ws (w_id w)
                (\<lambda>w. w\<lparr>w_cpu_milli := cpu_milli new, w_mem_mib := mem_mib new\<rparr>) s)))
       in if running
          then (case settle_elapsed now w True (Some old) s of
                  Inl _ \<Rightarrow> (Failed 500 ''internal'', rollback s)
                | Inr (_, s1) \<Rightarrow>
                    let s2 = update_ws (w_id w) (\<lambda>w. w\<lparr>w_period_start := Some now\<rparr>) s1
                    in case ic_patch ic (incus_config new) of
                         IncusFails _ \<Rightarrow> (Failed 500 ''resize_failed'', rollback s2)
                       | IncusOk \<Rightarrow> (Done ''resized'', resized s2))
          else (Done ''resized'', resized s))"

section \<open>Reset\<close>

definition workspace_reset ::
  "(string \<Rightarrow> string \<Rightarrow> bool) \<Rightarrow> time \<Rightarrow> user \<Rightarrow> string \<Rightarrow> string \<Rightarrow> session \<Rightarrow> answer \<times> session" where
  "workspace_reset verify_password now u confirm password s =
     (case my_workspace (cur s) u of
        None \<Rightarrow> (Failed 404 ''no_workspace'', s)
      | Some w \<Rightarrow>
          if w_state w \<noteq> ON \<and> w_state w \<noteq> OFF \<and> w_state w \<noteq> ERROR
          then (Failed 409 ''reset_bad_state'', s)
          else if lower (strip confirm) \<noteq> lower (u_username u)
          then (Failed 400 ''reset_confirm_mismatch'', s)
          else if \<not> verify_password password (u_password_hash u)
          then (Failed 403 ''bad_password'',
                audit (Some (u_id u)) ''reset_refused'' (Some (w_incus_project w)) s)
          else case (if w_state w = ON then settle_elapsed now w True None s else return (0, s)) of
            Inl _ \<Rightarrow> (Failed 500 ''internal'', rollback s)
          | Inr (_, s1) \<Rightarrow>
              let s2 = commit (update_ws (w_id w)
                         (\<lambda>w. w\<lparr>w_state := RESETTING, w_error := None\<rparr>) s1);
                  s3 = audit (Some (u_id u)) ''reset_started'' (Some (w_incus_project w)) s2;
                  (_, s4) = create_operation ''factory_reset'' (Some (u_id u)) (Some (w_id w))
                              (Some (u_id u)) s3
              in (Done ''operation_queued'', s4))"

end
