(* ===== verification/Clock.thy ===== *)
theory Clock
  imports PyText Models
begin

text \<open>
  The parts of Python's \<open>datetime\<close> the worker formats into keys: the proleptic Gregorian
  calendar of \<open>datetime.date.fromordinal\<close>, \<open>strftime\<close> and \<open>isoformat\<close> of a UTC time.
\<close>

section \<open>The calendar\<close>

definition DAYS_IN_MONTH :: "int list" where
  "DAYS_IN_MONTH = [31, 28, 31, 30, 31, 30, 31, 31, 30, 31, 30, 31]"

definition is_leap :: "int \<Rightarrow> bool" where
  "is_leap y \<longleftrightarrow> y mod 4 = 0 \<and> (y mod 100 \<noteq> 0 \<or> y mod 400 = 0)"

definition days_in_month :: "bool \<Rightarrow> nat \<Rightarrow> int" where
  "days_in_month leap m = DAYS_IN_MONTH ! (m - 1) + (if m = 2 \<and> leap then 1 else 0)"

fun days_before_month :: "bool \<Rightarrow> nat \<Rightarrow> int" where
  "days_before_month leap 0 = 0"
| "days_before_month leap (Suc m) =
     (if m = 0 then 0 else days_before_month leap m + days_in_month leap m)"

text \<open>The month and day of a day of the year, counted from zero.\<close>

definition month_day :: "bool \<Rightarrow> int \<Rightarrow> nat \<times> int" where
  "month_day leap n =
     (let m = nat ((n + 50) div 32);
          m' = (if days_before_month leap m > n then m - 1 else m)
      in (m', n - days_before_month leap m' + 1))"

definition ordinal_ymd :: "int \<Rightarrow> int \<times> nat \<times> int" where
  "ordinal_ymd ord =
     (let n = ord - 1; y400 = (n div 146097) * 400 + 1; n = n mod 146097;
          n100 = n div 36524; n = n mod 36524;
          n4 = n div 1461; n = n mod 1461;
          n1 = n div 365; n = n mod 365;
          y = y400 + n100 * 100 + n4 * 4 + n1
      in if n1 = 4 \<or> n100 = 4 then (y - 1, 12, 31)
         else let (m, d) = month_day (n1 = 3 \<and> (n4 \<noteq> 24 \<or> n100 = 3)) n in (y, m, d))"

definition EPOCH_ORDINAL :: int where "EPOCH_ORDINAL = 719163"

section \<open>Formatting\<close>

text \<open>\<open>{n:0kd}\<close> for a number that is not negative.\<close>

definition zero_pad :: "nat \<Rightarrow> int \<Rightarrow> string" where
  "zero_pad k n = (let s = show_int n in replicate (k - length s) (CHR ''0'') @ s)"

definition date_of :: "time \<Rightarrow> int \<times> nat \<times> int" where
  "date_of t = ordinal_ymd (t div (24 * hour) + EPOCH_ORDINAL)"

definition hour_of :: "time \<Rightarrow> int" where "hour_of t = t div hour mod 24"
definition minute_of :: "time \<Rightarrow> int" where "minute_of t = t div (60 * second) mod 60"
definition second_of :: "time \<Rightarrow> int" where "second_of t = t div second mod 60"

text \<open>\<open>%Y%m%d\<close>, then with the hour, the minute and the second appended.\<close>

definition stamp_day :: "time \<Rightarrow> string" where
  "stamp_day t = (case date_of t of (y, m, d) \<Rightarrow>
     zero_pad 4 y @ zero_pad 2 (int m) @ zero_pad 2 d)"

definition stamp_hour :: "time \<Rightarrow> string" where
  "stamp_hour t = stamp_day t @ zero_pad 2 (hour_of t)"

definition stamp_minute :: "time \<Rightarrow> string" where
  "stamp_minute t = stamp_hour t @ zero_pad 2 (minute_of t)"

definition stamp_second :: "time \<Rightarrow> string" where
  "stamp_second t = stamp_minute t @ zero_pad 2 (second_of t)"

text \<open>\<open>isoformat()\<close> of an aware UTC time.\<close>

definition isoformat :: "time \<Rightarrow> string" where
  "isoformat t = (case date_of t of (y, m, d) \<Rightarrow>
     zero_pad 4 y @ ''-'' @ zero_pad 2 (int m) @ ''-'' @ zero_pad 2 d @ ''T''
     @ zero_pad 2 (hour_of t) @ '':'' @ zero_pad 2 (minute_of t) @ '':'' @ zero_pad 2 (second_of t)
     @ (if t mod second = 0 then [] else ''.'' @ zero_pad 6 (t mod second)) @ ''+00:00'')"

text \<open>Some dates, across leap days and century years.\<close>

lemma ordinal_ymd_examples:
  "ordinal_ymd EPOCH_ORDINAL = (1970, 1, 1)"
  "ordinal_ymd (EPOCH_ORDINAL + 11016) = (2000, 2, 29)"
  "ordinal_ymd (EPOCH_ORDINAL + 20088) = (2024, 12, 31)"
  "ordinal_ymd (EPOCH_ORDINAL + 47540) = (2100, 2, 28)"
  by (code_simp)+

lemma stamp_example: "stamp_minute 1735689599000000 = ''202412312359''"
  by code_simp

end
