(* ===== verification/WorkerPasses.thy ===== *)
theory WorkerPasses
  imports WorkspaceApi Clock
begin

text \<open>
  The passes of \<open>control/mmd/worker.py\<close> over workspaces and customers: sampling, hourly
  settlement and the credit gate, the automatic stop, archival, reconciliation with Incus, the
  pool guard, the service ports and the credit messages. The replies of Incus, the provisioner,
  the metrics endpoint and Prometheus are arguments, and a pass reads the clock once. A pass
  answers \<open>Some e\<close> when an exception left it: the open session is rolled back and the tick ends.
\<close>

section \<open>Loops\<close>

text \<open>\<open>for ws in db.scalars(...)\<close>: the rows are chosen first, each is read when its turn comes.\<close>

fun each_ws ::
  "(workspace \<Rightarrow> session \<Rightarrow> 'e option \<times> session) \<Rightarrow> int list \<Rightarrow> session \<Rightarrow> 'e option \<times> session" where
  "each_ws body [] s = (None, s)"
| "each_ws body (i # is) s =
     (case get_ws (cur s) i of
        None \<Rightarrow> each_ws body is s
      | Some w \<Rightarrow>
          (case body w s of
             (Some e, s1) \<Rightarrow> (Some e, rollback s1)
           | (None, s1) \<Rightarrow> each_ws body is s1))"

definition ws_ids :: "(workspace \<Rightarrow> bool) \<Rightarrow> db \<Rightarrow> int list" where
  "ws_ids p d = map w_id (filter p (workspaces d))"

text \<open>\<open>_text\<close>: queued without a commit, an unsendable number ignored.\<close>

definition worker_text :: "time \<Rightarrow> int \<Rightarrow> string \<Rightarrow> string option \<Rightarrow> session \<Rightarrow> session" where
  "worker_text now user_id kind dedupe s =
     (case get_user (cur s) user_id of
        None \<Rightarrow> s
      | Some u \<Rightarrow> snd (queue now (Some (u_id u)) (u_phone u) kind dedupe (Some u) s))"

section \<open>Metering and settlement\<close>

text \<open>\<open>int(x)\<close> of a float.\<close>

definition py_trunc :: "rat \<Rightarrow> int" where
  "py_trunc x = (if x < 0 then - \<lfloor>- x\<rfloor> else \<lfloor>x\<rfloor>)"

text \<open>\<open>meter_once\<close>; \<open>sample\<close> is the scrape, by project and instance.\<close>

definition meter_once ::
  "time \<Rightarrow> (string \<Rightarrow> string \<Rightarrow> (rat \<times> rat) option) option \<Rightarrow> session \<Rightarrow> session" where
  "meter_once now scrape s =
     (case scrape of
        None \<Rightarrow> s
      | Some sample \<Rightarrow> commit (edit (\<lambda>d. d\<lparr>samples := samples d @ concat (map
          (\<lambda>w. case sample (w_incus_project w) (w_instance w) of
                 None \<Rightarrow> []
               | Some (cpu, mem) \<Rightarrow> [\<lparr>us_workspace_id = w_id w, us_ts = now,
                    us_cpu_seconds_total = cpu, us_mem_bytes = py_trunc mem\<rparr>])
          (filter (\<lambda>w. w_state w = ON) (workspaces d)))\<rparr>) s))"

definition usage_for_period :: "db \<Rightarrow> int \<Rightarrow> time \<Rightarrow> time \<Rightarrow> rat \<times> rat" where
  "usage_for_period d i start until =
     (let rows = sort_key us_ts (filter (\<lambda>r. us_workspace_id r = i
            \<and> start \<le> us_ts r \<and> us_ts r \<le> until) (samples d))
      in if length rows < 2 then (0, 0)
         else let delta = max 0 (fsub (us_cpu_seconds_total (last rows)) (us_cpu_seconds_total (hd rows)));
                  span_h = max (fdiv (total_seconds (us_ts (last rows) - us_ts (hd rows))) 3600)
                             (fl64 (1 / 1000000));
                  mean = fdiv (fl64 (of_int (sum_list (map us_mem_bytes rows))
                                / of_int (int (length rows)))) 1073741824
              in (fdiv delta 3600, fmul mean span_h))"

text \<open>One workspace of \<open>settle_once\<close>.\<close>

definition settle_body ::
  "(workspace \<Rightarrow> incus_reply) \<Rightarrow> time \<Rightarrow> workspace \<Rightarrow> session \<Rightarrow> invalid_tier option \<times> session" where
  "settle_body stop now w s =
     (let this_hour = hour_floor now;
          start = (case w_period_start w of Some t \<Rightarrow> t | None \<Rightarrow> hour_floor (w_created_at w))
      in if hour_floor start \<ge> this_hour then (None, s)
         else let period = hour_floor start;
                  powered = (w_state w = ON);
                  (cpu_h, mem_h) = (if powered
                    then usage_for_period (cur s) (w_id w) period (period + hour) else (0, 0))
              in case settle_period w period powered cpu_h mem_h 1 None s of
                   Inl e \<Rightarrow> (Some e, s)
                 | Inr (_, s1) \<Rightarrow>
                     let s2 = commit (update_ws (w_id w)
                                (\<lambda>w. w\<lparr>w_period_start := Some this_hour\<rparr>) s1)
                     in if \<not> powered then (None, s2)
                        else case can_afford_next_hour (cur s2) w of
                          Inl e \<Rightarrow> (Some e, s2)
                        | Inr (True, _, _) \<Rightarrow> (None, s2)
                        | Inr (False, _, _) \<Rightarrow>
                            (case stop w of
                               IncusFails _ \<Rightarrow> (None, s2)
                             | IncusOk \<Rightarrow> (None, commit (worker_text now (w_user_id w)
                                 ''stopped_no_credit''
                                 (Some (''nocredit:'' @ show_int (w_id w) @ '':'' @ stamp_hour this_hour))
                                 (update_ws (w_id w)
                                   (\<lambda>w. w\<lparr>w_state := OFF, w_desired_on := False\<rparr>) s2)))))"

definition settle_once ::
  "(workspace \<Rightarrow> incus_reply) \<Rightarrow> time \<Rightarrow> session \<Rightarrow> invalid_tier option \<times> session" where
  "settle_once stop now s = each_ws (settle_body stop now)
     (ws_ids (\<lambda>w. w_state w = ON \<or> w_state w = OFF \<or> w_state w = ARCHIVED) (cur s)) s"

section \<open>The automatic stop\<close>

definition auto_stop_body ::
  "(workspace \<Rightarrow> incus_reply) \<Rightarrow> time \<Rightarrow> workspace \<Rightarrow> session \<Rightarrow> invalid_tier option \<times> session" where
  "auto_stop_body stop now w s =
     (if \<not> due_for_auto_stop now w then (None, s)
      else case stop w of
        IncusFails _ \<Rightarrow> (None, s)
      | IncusOk \<Rightarrow>
          (case close_run now w s of
             Inl e \<Rightarrow> (Some e, s)
           | Inr s1 \<Rightarrow> (None, audit None ''auto_stop'' (Some (w_incus_project w))
               (commit (worker_text now (w_user_id w) ''auto_stopped''
                  (Some (''autostop:'' @ show_int (w_id w) @ '':'' @ stamp_minute now)) s1)))))"

definition auto_stop_once ::
  "(workspace \<Rightarrow> incus_reply) \<Rightarrow> time \<Rightarrow> session \<Rightarrow> invalid_tier option \<times> session" where
  "auto_stop_once stop now s = each_ws (auto_stop_body stop now)
     (ws_ids (\<lambda>w. w_state w = ON \<and> w_auto_stop_at w \<noteq> None) (cur s)) s"

section \<open>Archival and purge\<close>

text \<open>What the provisioner answers: success, or a failure with an optional error text.\<close>

datatype prov_reply = ProvOk | ProvFails "string option"

definition lifecycle_body ::
  "config \<Rightarrow> (workspace \<Rightarrow> prov_reply) \<Rightarrow> (workspace \<Rightarrow> prov_reply) \<Rightarrow> time \<Rightarrow> workspace \<Rightarrow> session \<Rightarrow>
   invalid_tier option \<times> session" where
  "lifecycle_body cf archive destroy now w s =
     (let s1 =
        (if (w_state w = OFF \<or> w_state w = ON) \<and> balance_micro (cur s) (w_user_id w) \<le> 0
         then let s' = commit (update_ws (w_id w) (\<lambda>w. w\<lparr>w_state := ARCHIVING\<rparr>) s)
              in commit (update_ws (w_id w) (\<lambda>r.
                   case archive w of
                     ProvOk \<Rightarrow> r\<lparr>w_state := ARCHIVED, w_archived_at := Some now,
                       w_purge_after := Some (now + cf_archive_retention_days cf * 24 * hour)\<rparr>
                   | ProvFails e \<Rightarrow> r\<lparr>w_state := OFF, w_error := e\<rparr>) s')
         else s);
        r = reload w s1
      in if w_state r = ARCHIVED \<and> (case w_purge_after r of Some t \<Rightarrow> now > t | None \<Rightarrow> False)
         then (case destroy w of
                 ProvOk \<Rightarrow> (None, commit (update_ws (w_id w) (\<lambda>w. w\<lparr>w_state := DELETED\<rparr>) s1))
               | ProvFails _ \<Rightarrow> (None, s1))
         else (None, s1))"

definition lifecycle_once ::
  "config \<Rightarrow> (workspace \<Rightarrow> prov_reply) \<Rightarrow> (workspace \<Rightarrow> prov_reply) \<Rightarrow> time \<Rightarrow> session \<Rightarrow>
   invalid_tier option \<times> session" where
  "lifecycle_once cf archive destroy now s =
     each_ws (lifecycle_body cf archive destroy now) (ws_ids (\<lambda>_. True) (cur s)) s"

section \<open>Reconciliation with Incus\<close>

text \<open>A workspace left in ERROR, STARTING or STOPPING adopts what Incus reports.\<close>

definition adopted_row :: "time \<Rightarrow> bool \<Rightarrow> workspace \<Rightarrow> workspace" where
  "adopted_row now actually_on w =
     w\<lparr>w_state := (if actually_on then ON else OFF), w_error := None,
       w_period_start := (if actually_on
          then (if w_period_start w = None then Some now else w_period_start w) else None)\<rparr>"

definition adopt :: "time \<Rightarrow> bool \<Rightarrow> workspace \<Rightarrow> session \<Rightarrow> session" where
  "adopt now actually_on w s =
     (if w_state w = ERROR \<or> w_state w = STARTING \<or> w_state w = STOPPING
      then audit None ''workspace_state_adopted'' (Some (w_incus_project w))
             (update_ws (w_id w) (adopted_row now actually_on) s)
      else s)"

definition reconcile_body ::
  "config \<Rightarrow> int \<Rightarrow> int \<Rightarrow> (workspace \<Rightarrow> bool option) \<Rightarrow> (workspace \<Rightarrow> incus_reply) \<Rightarrow>
   (workspace \<Rightarrow> incus_reply) \<Rightarrow> time \<Rightarrow> workspace \<Rightarrow> session \<Rightarrow> invalid_tier option \<times> session" where
  "reconcile_body cf cpus mem_kb status start stop now w s =
     (case status w of
        None \<Rightarrow> (None, s)
      | Some actually_on \<Rightarrow>
          let s1 = adopt now actually_on w s; r = reload w s1
          in if actually_on \<and> (w_state r = OFF \<or> \<not> w_desired_on r)
             then (case stop w of
                     IncusFails _ \<Rightarrow> (None, s1)
                   | IncusOk \<Rightarrow> (None, commit (update_ws (w_id w)
                       (\<lambda>w. disarm_auto_stop (w\<lparr>w_state := OFF, w_period_start := None\<rparr>)) s1)))
             else if \<not> actually_on \<and> w_state r = ON
             then case can_afford_next_hour (cur s1) r of
                    Inl e \<Rightarrow> (Some e, s1)
                  | Inr (affordable, _, _) \<Rightarrow>
                      (case check_admission cpus mem_kb (cur s1) r None of
                         Inl e \<Rightarrow> (Some e, s1)
                       | Inr adm \<Rightarrow> (None, commit (update_ws (w_id w) (\<lambda>v.
                           if w_desired_on r \<and> affordable \<and> allowed adm
                           then (case start w of
                                   IncusOk \<Rightarrow> arm_auto_stop cf now v
                                 | IncusFails _ \<Rightarrow> v\<lparr>w_state := OFF\<rparr>)
                           else v\<lparr>w_state := OFF\<rparr>) s1)))
             else (None, s1))"

definition reconcile_once ::
  "config \<Rightarrow> int \<Rightarrow> int \<Rightarrow> (workspace \<Rightarrow> bool option) \<Rightarrow> (workspace \<Rightarrow> incus_reply) \<Rightarrow>
   (workspace \<Rightarrow> incus_reply) \<Rightarrow> time \<Rightarrow> session \<Rightarrow> invalid_tier option \<times> session" where
  "reconcile_once cf cpus mem_kb status start stop now s =
     each_ws (reconcile_body cf cpus mem_kb status start stop now)
       (ws_ids (\<lambda>w. w_state w \<in> {ON, OFF, ERROR, STARTING, STOPPING}) (cur s)) s"

end
