(* ===== verification/Usernames.thy ===== *)
theory Usernames
  imports PyText
begin

text \<open>
  \<open>control/mmd/usernames.py\<close>: what a username may be, and the host names built from it.
  The regular expression is read as a predicate on characters; a trimmed name has no
  trailing newline, so \<open>$\<close> is the end of the string.
\<close>

section \<open>Rules\<close>

definition USERNAME_MIN_LEN :: nat where "USERNAME_MIN_LEN = 3"
definition USERNAME_MAX_LEN :: nat where "USERNAME_MAX_LEN = 32"

definition RESERVED :: "string list" where
  "RESERVED =
    [''www'', ''api'', ''admin'', ''root'', ''ports'', ''hermes'', ''claude'', ''codex'', ''openclaw'',
     ''mail'', ''smtp'', ''imap'',
     ''ftp'', ''ns'', ''ns1'', ''ns2'', ''dns'', ''mx'', ''cdn'', ''static'', ''assets'', ''app'',
     ''dashboard'', ''console'', ''panel'', ''support'', ''help'', ''docs'', ''status'',
     ''billing'', ''pay'', ''payment'', ''account'', ''accounts'', ''login'', ''signin'',
     ''signup'', ''register'', ''auth'', ''oauth'', ''sso'', ''test'', ''demo'', ''example'',
     ''localhost'', ''mmd'', ''mmddev'', ''openrouter'', ''anthropic'', ''system'',
     ''ssh'', ''rdp'', ''terminal'', ''gateway'', ''proxy'', ''registry'', ''health'',
     ''monitor'', ''monitoring'', ''storage'', ''backup'',
     ''support-agent'', ''supportagent'']"

datatype username_error =
  UsernameRequired | UsernameShort | UsernameLong | UsernameCharset | UsernameReserved
| UsernameNumeric

definition name_end :: "char \<Rightarrow> bool" where
  "name_end c \<longleftrightarrow> is_lower_az c \<or> is_ascii_digit c"

text \<open>\<open>_VALID\<close>: letters and digits, with hyphens inside.\<close>

definition valid_chars :: "string \<Rightarrow> bool" where
  "valid_chars s \<longleftrightarrow> s \<noteq> [] \<and> name_end (hd s) \<and> name_end (last s)
     \<and> list_all (\<lambda>c. name_end c \<or> c = CHR ''-'') s"

definition normalise :: "string \<Rightarrow> string" where
  "normalise raw = lower (strip raw)"

definition validate :: "string \<Rightarrow> (username_error, string) result" where
  "validate raw =
     (let name = normalise raw in
      if name = [] then raise UsernameRequired
      else if length name < USERNAME_MIN_LEN then raise UsernameShort
      else if length name > USERNAME_MAX_LEN then raise UsernameLong
      else if \<not> valid_chars name then raise UsernameCharset
      else if name \<in> set RESERVED then raise UsernameReserved
      else if list_all is_digit name then raise UsernameNumeric
      else return name)"

section \<open>A unique name\<close>

definition suffixed :: "string \<Rightarrow> nat \<Rightarrow> string" where
  "suffixed stem n = stem @ ''-'' @ show_nat n"

text \<open>\<open>rstrip("-")\<close>.\<close>

definition rstrip_hyphen :: "string \<Rightarrow> string" where
  "rstrip_hyphen s = rev (dropWhile (\<lambda>c. c = CHR ''-'') (rev s))"

function first_suffix :: "string \<Rightarrow> string list \<Rightarrow> nat \<Rightarrow> nat" where
  "first_suffix stem taken n =
     (if suffixed stem n \<in> set taken then first_suffix stem taken (n + 1) else n)"
  by pat_completeness auto
termination
proof (relation "measure (\<lambda>(stem, taken, n). card {x \<in> set taken. \<exists>m \<ge> n. x = suffixed stem m})")
  fix stem and taken :: "string list" and n
  let ?S = "\<lambda>n. {x \<in> set taken. \<exists>m \<ge> n. x = suffixed stem m}"
  assume "suffixed stem n \<in> set taken"
  then have "suffixed stem n \<in> ?S n" by auto
  moreover have "suffixed stem n \<notin> ?S (n + 1)"
  proof
    assume "suffixed stem n \<in> ?S (n + 1)"
    then obtain m where "m \<ge> n + 1" "suffixed stem n = suffixed stem m" by auto
    then show False by (auto simp: suffixed_def dest: show_nat_inj)
  qed
  moreover have "?S (n + 1) \<subseteq> ?S n"
    by (intro Collect_mono) (metis add_leE)
  ultimately have "?S (n + 1) \<subset> ?S n" by blast
  then have "card (?S (n + 1)) < card (?S n)" by (rule psubset_card_mono [rotated]) simp
  then show "((stem, taken, n + 1), stem, taken, n)
      \<in> measure (\<lambda>(stem, taken, n). card {x \<in> set taken. \<exists>m \<ge> n. x = suffixed stem m})" by simp
qed simp

declare first_suffix.simps [simp del]

definition make_unique :: "string \<Rightarrow> string list \<Rightarrow> string" where
  "make_unique name taken =
     (if name \<notin> set taken then name
      else let stem = rstrip_hyphen (take (USERNAME_MAX_LEN - 3) name)
           in suffixed stem (first_suffix stem taken 2))"

section \<open>Host names\<close>

definition application_host :: "string \<Rightarrow> int \<Rightarrow> string \<Rightarrow> string" where
  "application_host username internal_port domain = username @ ''.'' @ domain"

definition hermes_host :: "string \<Rightarrow> string \<Rightarrow> string" where
  "hermes_host username domain = ''hermes.'' @ normalise username @ ''.'' @ domain"

definition openclaw_host :: "string \<Rightarrow> string \<Rightarrow> string" where
  "openclaw_host username domain = ''openclaw.'' @ normalise username @ ''.'' @ domain"

definition opencode_host :: "string \<Rightarrow> string \<Rightarrow> string" where
  "opencode_host username domain = ''opencode.'' @ normalise username @ ''.'' @ domain"

definition openwebui_host :: "string \<Rightarrow> string \<Rightarrow> string" where
  "openwebui_host username domain = ''openweb.'' @ normalise username @ ''.'' @ domain"

section \<open>Lemmas\<close>

text \<open>What an accepted name is, stated without the steps that check it.\<close>

definition dns_label :: "string \<Rightarrow> bool" where
  "dns_label s \<longleftrightarrow> 3 \<le> length s \<and> length s \<le> 32 \<and> valid_chars s
     \<and> s \<notin> set RESERVED \<and> (\<exists>c \<in> set s. \<not> is_digit c)"

lemma name_end_plain: "name_end c \<Longrightarrow> lower_char c = c \<and> \<not> is_space c \<and> c \<noteq> CHR ''.''"
proof -
  assume "name_end c"
  then have r: "(97 \<le> code c \<and> code c \<le> 122) \<or> (48 \<le> code c \<and> code c \<le> 57)"
    by (simp add: name_end_def is_lower_az_def is_ascii_digit_def)
  have "c \<noteq> CHR ''.''"
  proof
    assume "c = CHR ''.''"
    with r show False by simp
  qed
  moreover have "lower_char c = c" using r by (auto simp: lower_char_def is_upper_az_def)
  moreover have "\<not> is_space c" using r by (auto simp: is_space_def)
  ultimately show ?thesis by blast
qed

lemma hyphen_plain: "lower_char (CHR ''-'') = CHR ''-''" "\<not> is_space (CHR ''-'')"
  by (simp_all add: lower_char_def is_upper_az_def is_space_def)

lemma valid_chars_plain: "valid_chars s \<Longrightarrow> c \<in> set s \<Longrightarrow> lower_char c = c \<and> \<not> is_space c \<and> c \<noteq> CHR ''.''"
  using name_end_plain [of c] hyphen_plain by (auto simp: valid_chars_def list_all_iff)

lemma normalise_valid: "valid_chars s \<Longrightarrow> normalise s = s"
  using valid_chars_plain [of s]
  by (simp add: normalise_def strip_no_space lower_def map_idI)

lemma validate_Inr: "validate raw = Inr name \<longleftrightarrow> name = normalise raw \<and> dns_label (normalise raw)"
proof -
  have "valid_chars s \<Longrightarrow> s \<noteq> []" for s by (simp add: valid_chars_def)
  then show ?thesis
    by (auto simp: validate_def Let_def dns_label_def USERNAME_MIN_LEN_def USERNAME_MAX_LEN_def
        list_all_iff)
qed

lemma label_no_dot: "dns_label s \<Longrightarrow> CHR ''.'' \<notin> set s"
  using valid_chars_plain [of s] by (auto simp: dns_label_def)

lemma label_normalise: "dns_label s \<Longrightarrow> normalise s = s"
  by (simp add: dns_label_def normalise_valid)

lemma first_suffix_free: "suffixed stem (first_suffix stem taken n) \<notin> set taken"
proof (induction stem taken n rule: first_suffix.induct)
  case (1 stem taken n)
  then show ?case by (subst first_suffix.simps) auto
qed

section \<open>Properties\<close>

text \<open>Validation accepts exactly the names that are safe host labels once trimmed and
  lowered: three to thirty-two lower-case letters, digits and inner hyphens, not reserved and
  not all digits; it returns the trimmed and lowered name, and validating that again returns it
  unchanged, so two spellings of one host cannot be two accounts.\<close>
lemma validate_accepts_labels:
  "(validate raw = Inr name \<longleftrightarrow> name = normalise raw \<and> dns_label name)
   \<and> (dns_label name \<longleftrightarrow> validate name = Inr name)"
  using validate_Inr [of raw name] validate_Inr [of name name] label_normalise [of name] by auto

text \<open>The five kinds of address a customer's name appears in.\<close>

datatype host_kind = AppHost | HermesHost | OpenclawHost | OpencodeHost | OpenwebuiHost

fun host_of :: "host_kind \<Rightarrow> string \<Rightarrow> string \<Rightarrow> string" where
  "host_of AppHost name domain = application_host name 0 domain"
| "host_of HermesHost name domain = hermes_host name domain"
| "host_of OpenclawHost name domain = openclaw_host name domain"
| "host_of OpencodeHost name domain = opencode_host name domain"
| "host_of OpenwebuiHost name domain = openwebui_host name domain"

fun host_prefix :: "host_kind \<Rightarrow> string" where
  "host_prefix AppHost = []"
| "host_prefix HermesHost = ''hermes.''"
| "host_prefix OpenclawHost = ''openclaw.''"
| "host_prefix OpencodeHost = ''opencode.''"
| "host_prefix OpenwebuiHost = ''openweb.''"

lemma host_of_label: "dns_label name \<Longrightarrow> host_of k name domain = host_prefix k @ name @ ''.'' @ domain"
  by (cases k) (simp_all add: label_normalise application_host_def hermes_host_def openclaw_host_def
      opencode_host_def openwebui_host_def)

lemma cut_at_dot:
  assumes "CHR ''.'' \<notin> set u" "CHR ''.'' \<notin> set v"
  shows "p @ CHR ''.'' # u = q @ CHR ''.'' # v \<longleftrightarrow> p = q \<and> u = v"
proof
  have tw: "takeWhile (\<lambda>c. c \<noteq> CHR ''.'') (rev w @ CHR ''.'' # x) = rev w"
    if "CHR ''.'' \<notin> set w" for w x :: string
    using that by (subst takeWhile_append2) auto
  assume eq: "p @ CHR ''.'' # u = q @ CHR ''.'' # v"
  then have "takeWhile (\<lambda>c. c \<noteq> CHR ''.'') (rev (p @ CHR ''.'' # u))
      = takeWhile (\<lambda>c. c \<noteq> CHR ''.'') (rev (q @ CHR ''.'' # v))" by simp
  then have "rev u = rev v"
    using tw [OF assms(1), of "rev p"] tw [OF assms(2), of "rev q"] by simp
  with eq show "p = q \<and> u = v" by simp
qed simp

lemma host_prefix_cases:
  "k = AppHost \<and> host_prefix k = [] \<or> (\<exists>w. host_prefix k = w @ ''.'' \<and> CHR ''.'' \<notin> set w)"
  by (cases k) (auto intro: exI [of _ "''hermes''"] exI [of _ "''openclaw''"]
      exI [of _ "''opencode''"] exI [of _ "''openweb''"])

text \<open>No two customers' addresses collide: under one domain, the published-port, Hermes,
  OpenClaw, OpenCode and Open WebUI hosts of valid usernames are all different, so a host names
  one customer and one service.\<close>

lemma hosts_same:
  assumes "dns_label u" and "dns_label v" and "host_of k u domain = host_of j v domain"
  shows "u = v \<and> k = j"
proof -
  have eq: "host_prefix k @ u = host_prefix j @ v"
    using assms(3) host_of_label [OF assms(1)] host_of_label [OF assms(2)] by simp
  note nd = label_no_dot [OF assms(1)] label_no_dot [OF assms(2)]
  have inj: "host_prefix k = host_prefix j \<Longrightarrow> k = j" by (cases k; cases j) simp_all
  consider "host_prefix k = []" "host_prefix j = []"
    | w where "host_prefix k = w @ ''.''" "host_prefix j = []"
    | w where "host_prefix k = []" "host_prefix j = w @ ''.''"
    | w x where "host_prefix k = w @ ''.''" "host_prefix j = x @ ''.''"
    using host_prefix_cases [of k] host_prefix_cases [of j] by metis
  then show ?thesis
  proof cases
    case 1
    then show ?thesis using eq inj by simp
  next
    case 2
    then have "CHR ''.'' \<in> set v" using eq by (metis append_Nil in_set_conv_decomp append.assoc append_Cons)
    with nd show ?thesis by simp
  next
    case 3
    then have "CHR ''.'' \<in> set u" using eq by (metis append_Nil in_set_conv_decomp append.assoc append_Cons)
    with nd show ?thesis by simp
  next
    case 4
    then have "w @ CHR ''.'' # u = x @ CHR ''.'' # v" using eq by simp
    with cut_at_dot [OF nd] have "w = x" "u = v" by blast+
    with 4 inj show ?thesis by simp
  qed
qed

text \<open>Resolving a collision ends with a name nobody has.\<close>

lemma make_unique_is_free: "make_unique name taken \<notin> set taken"
  by (simp add: make_unique_def Let_def first_suffix_free)

end
