(* ===== verification/ManagedApps.thy ===== *)
theory ManagedApps
  imports OpenRouterKeys WorkerPasses Usernames
begin

text \<open>
  The AI applications of a workspace: the toggles of \<open>control/mmd/app.py\<close> that record what a
  customer wants (\<open>ai_hermes\<close>, \<open>ai_openclaw\<close>, \<open>ai_openclaw_telegram\<close>, \<open>ai_managed_web\<close>) and the
  passes of \<open>control/mmd/worker.py\<close> that make the machine match (\<open>_hermes_install\<close>,
  \<open>openclaw_once\<close>, \<open>managed_web_once\<close>). What the provisioner answers and the secrets drawn are
  arguments.
\<close>

section \<open>Replies and secrets\<close>

text \<open>The provisioner succeeds (and says whether Telegram runs), fails with texts, or raises.\<close>

datatype app_reply = AppOk bool string | AppFails string string | AppRaises

definition last_chars :: "nat \<Rightarrow> string \<Rightarrow> string" where
  "last_chars n s = drop (length s - n) s"

definition app_error :: "string \<Rightarrow> string \<Rightarrow> string" where
  "app_error err output = last_chars 300 (or_else err (or_else output ''install failed''))"

text \<open>\<open>make_password\<close>: each draw picks a character of the alphabet without look-alikes.\<close>

definition PASSWORD_ALPHABET :: string where
  "PASSWORD_ALPHABET = ''abcdefghijkmnopqrstuvwxyzABCDEFGHJKLMNPQRSTUVWXYZ23456789''"

definition make_password :: "nat list \<Rightarrow> string" where
  "make_password draws = map (\<lambda>n. PASSWORD_ALPHABET ! (n mod length PASSWORD_ALPHABET)) draws"

section \<open>The columns of an application\<close>

datatype web_app = Opencode | Openwebui

fun web_of :: "web_app \<Rightarrow> workspace \<Rightarrow> web_cols" where
  "web_of Opencode w = w_opencode w"
| "web_of Openwebui w = w_openwebui w"

fun set_web :: "web_app \<Rightarrow> (web_cols \<Rightarrow> web_cols) \<Rightarrow> workspace \<Rightarrow> workspace" where
  "set_web Opencode f w = w\<lparr>w_opencode := f (w_opencode w)\<rparr>"
| "set_web Openwebui f w = w\<lparr>w_openwebui := f (w_openwebui w)\<rparr>"

definition set_hermes :: "(hermes_cols \<Rightarrow> hermes_cols) \<Rightarrow> workspace \<Rightarrow> workspace" where
  "set_hermes f w = w\<lparr>w_hermes := f (w_hermes w)\<rparr>"

definition set_openclaw :: "(openclaw_cols \<Rightarrow> openclaw_cols) \<Rightarrow> workspace \<Rightarrow> workspace" where
  "set_openclaw f w = w\<lparr>w_openclaw := f (w_openclaw w)\<rparr>"

definition has_key_text :: "db \<Rightarrow> int \<Rightarrow> bool" where
  "has_key_text d u = (case get_account d u of None \<Rightarrow> False | Some a \<Rightarrow> has_text (oa_key a))"

section \<open>The toggles\<close>

datatype toggle = Enable | Disable

definition telegram_token_ok :: "string \<Rightarrow> bool" where
  "telegram_token_ok t =
     (let ds = takeWhile is_ascii_digit t; rest = dropWhile is_ascii_digit t
      in 6 \<le> length ds \<and> length ds \<le> 15
         \<and> (case rest of [] \<Rightarrow> False
            | c # body \<Rightarrow> c = CHR '':'' \<and> 20 \<le> length body
                \<and> list_all (\<lambda>c. is_alnum_ascii c \<or> c = CHR ''_'' \<or> c = CHR ''-'') body))"

fun split_comma :: "string \<Rightarrow> string list" where
  "split_comma [] = [[]]"
| "split_comma (c # s) =
     (if c = CHR '','' then [] # split_comma s
      else case split_comma s of [] \<Rightarrow> [[c]] | x # xs \<Rightarrow> (c # x) # xs)"

definition telegram_id_ok :: "string \<Rightarrow> bool" where
  "telegram_id_ok s \<longleftrightarrow> 5 \<le> length s \<and> length s \<le> 15 \<and> list_all is_ascii_digit s
     \<and> hd s \<noteq> CHR ''0''"

definition telegram_users_ok :: "string \<Rightarrow> bool" where
  "telegram_users_ok s \<longleftrightarrow> list_all telegram_id_ok (split_comma s)"

record hermes_action =
  ha_action :: toggle
  ha_telegram :: "bool option"
  ha_token :: "string option"
  ha_users :: "string option"

definition first_text :: "string option \<Rightarrow> string option \<Rightarrow> string" where
  "first_text a b = (if has_text a then the a else if has_text b then the b else [])"

definition telegram_off :: "hermes_cols \<Rightarrow> hermes_cols" where
  "telegram_off h = h\<lparr>h_telegram_enabled := False, h_telegram_token := None,
     h_telegram_users := None, h_telegram_error := None\<rparr>"

text \<open>The Telegram part of enabling Hermes: an answer that refuses, or the new rows.\<close>

definition hermes_telegram ::
  "hermes_action \<Rightarrow> user \<Rightarrow> workspace \<Rightarrow> (answer, (workspace \<Rightarrow> workspace) \<times> (user \<Rightarrow> user)) result" where
  "hermes_telegram b u w =
     (case ha_telegram b of
        Some True \<Rightarrow>
          (let token = strip (first_text (ha_token b) (u_telegram_bot_token u));
               ids = filter (\<lambda>c. c \<noteq> CHR '' '') (first_text (ha_users b) (u_telegram_user_id u))
           in if \<not> telegram_token_ok token then raise (Failed 400 ''telegram_bad_token'')
              else if \<not> telegram_users_ok ids then raise (Failed 400 ''telegram_bad_users'')
              else if oc_telegram_enabled (w_openclaw w) then raise (Failed 409 ''telegram_bot_in_use'')
              else return
                (set_hermes (\<lambda>h. h\<lparr>h_telegram_enabled := True, h_telegram_token := Some token,
                   h_telegram_users := Some ids, h_telegram_error := None\<rparr>),
                 (\<lambda>u. let u1 = (if has_text (ha_token b) then u\<lparr>u_telegram_bot_token := Some token\<rparr> else u)
                      in if has_text (ha_users b) \<and> CHR '','' \<notin> set ids
                         then u1\<lparr>u_telegram_user_id := Some ids\<rparr> else u1)))
      | Some False \<Rightarrow>
          return ((if h_telegram_enabled (w_hermes w) then set_hermes telegram_off else id), id)
      | None \<Rightarrow> return (id, id))"

definition ai_hermes :: "hermes_action \<Rightarrow> user \<Rightarrow> session \<Rightarrow> answer \<times> session" where
  "ai_hermes b u s =
     (case my_workspace (cur s) u of
        None \<Rightarrow> (Failed 404 ''no_workspace'', s)
      | Some w \<Rightarrow>
       if u_username u = [] then (Failed 409 ''no_username'', s)
       else case (if ha_action b = Enable then hermes_telegram b u w
                  else return (set_hermes (\<lambda>h. (telegram_off h)\<lparr>h_vhost_ready := False\<rparr>), id)) of
              Inl refused \<Rightarrow> (refused, rollback s)
            | Inr (fw, fu) \<Rightarrow> (Done ''ok'',
                audit (Some (u_id u)) ''ai_hermes'' (Some (w_incus_project w))
                  (commit (edit (\<lambda>d. set_user (u_id u) fu
                     (set_ws (w_id w) (\<lambda>w. set_hermes (\<lambda>h. h\<lparr>h_enabled := (ha_action b = Enable),
                        h_error := None\<rparr>) (fw w)) d)) s))))"

definition ai_openclaw :: "toggle \<Rightarrow> user \<Rightarrow> session \<Rightarrow> answer \<times> session" where
  "ai_openclaw act u s =
     (case my_workspace (cur s) u of
        None \<Rightarrow> (Failed 404 ''no_workspace'', s)
      | Some w \<Rightarrow>
          if u_username u = [] then (Failed 409 ''no_username'', s)
          else if act = Enable \<and> \<not> has_key_text (cur s) (u_id u) then (Failed 409 ''needs_openrouter'', s)
          else (Done ''ok'', audit (Some (u_id u)) ''ai_openclaw'' (Some (w_incus_project w))
                 (commit (update_ws (w_id w) (set_openclaw (\<lambda>q. q\<lparr>oc_enabled := (act = Enable),
                    oc_password := (if act = Enable then oc_password q else None),
                    oc_error := None\<rparr>)) s))))"

definition ai_openclaw_telegram :: "toggle \<Rightarrow> user \<Rightarrow> session \<Rightarrow> answer \<times> session" where
  "ai_openclaw_telegram act u s =
     (case my_workspace (cur s) u of
        None \<Rightarrow> (Failed 404 ''no_workspace'', s)
      | Some w \<Rightarrow>
          if act = Enable \<and> \<not> oc_installed (w_openclaw w) then (Failed 409 ''openclaw_not_ready'', s)
          else if act = Enable \<and> \<not> (has_text (u_telegram_bot_token u) \<and> has_text (u_telegram_user_id u))
          then (Failed 409 ''telegram_not_configured'', s)
          else if act = Enable \<and> h_telegram_enabled (w_hermes w)
          then (Failed 409 ''telegram_bot_in_use'', s)
          else (Done ''ok'', audit (Some (u_id u)) ''openclaw_telegram'' (Some (w_incus_project w))
                 (commit (update_ws (w_id w) (set_openclaw (\<lambda>q. q\<lparr>oc_telegram_enabled := (act = Enable),
                    oc_error := None, oc_telegram_error := None\<rparr>)) s))))"

definition ai_managed_web :: "web_app \<Rightarrow> toggle \<Rightarrow> user \<Rightarrow> session \<Rightarrow> answer \<times> session" where
  "ai_managed_web app act u s =
     (case my_workspace (cur s) u of
        None \<Rightarrow> (Failed 404 ''no_workspace'', s)
      | Some w \<Rightarrow>
          if w_state w \<noteq> ON then (Failed 409 ''machine_off'', s)
          else if act = Enable \<and> \<not> has_key_text (cur s) (u_id u)
          then (Failed 409 ''openrouter_not_ready'', s)
          else (Done ''ok'', audit (Some (u_id u)) ''ai_managed_web'' (Some (w_incus_project w))
                 (commit (update_ws (w_id w) (set_web app (\<lambda>x.
                    let x1 = x\<lparr>wb_enabled := (act = Enable), wb_error := None\<rparr>
                    in if act = Disable then x1\<lparr>wb_vhost_ready := False, wb_password := None\<rparr>
                       else x1)) s))))"

text \<open>What \<open>_managed_web_state\<close> calls ready.\<close>

definition web_ready :: "web_cols \<Rightarrow> bool" where
  "web_ready x \<longleftrightarrow> wb_enabled x \<and> wb_installed x \<and> wb_vhost_ready x \<and> \<not> has_text (wb_error x)"

section \<open>The worker's passes\<close>

definition hermes_disabled :: "hermes_cols \<Rightarrow> hermes_cols" where
  "hermes_disabled h = h\<lparr>h_installed := False, h_vhost_ready := False,
     h_telegram_installed := False, h_error := None\<rparr>"

definition hermes_install ::
  "app_reply \<Rightarrow> nat list \<Rightarrow> workspace \<Rightarrow> session \<Rightarrow> string option \<times> session" where
  "hermes_install reply draws w s =
     (let h = w_hermes w in
      if \<not> h_enabled h then
        (if w_state w = ON then
           (case reply of
              AppRaises \<Rightarrow> (Some ''provisioner'', s)
            | AppFails e _ \<Rightarrow> (None, commit (update_ws (w_id w) (set_hermes
                (\<lambda>h. h\<lparr>h_error := Some (last_chars 300 (or_else e ''disable failed''))\<rparr>)) s))
            | AppOk _ _ \<Rightarrow> (None, commit (update_ws (w_id w) (set_hermes hermes_disabled) s)))
         else (None, commit (update_ws (w_id w) (set_hermes hermes_disabled) s)))
      else if w_state w \<noteq> ON \<or> \<not> has_key_text (cur s) (w_user_id w) then (None, s)
      else
        let name = (case get_user (cur s) (w_user_id w) of Some u \<Rightarrow> u_username u
                    | None \<Rightarrow> ''user'' @ show_int (w_user_id w));
            s1 = commit (update_ws (w_id w) (set_hermes (\<lambda>h.
                   h\<lparr>h_dash_user := (if has_text (h_dash_user h) then h_dash_user h else Some name),
                     h_dash_password := (if has_text (h_dash_password h) then h_dash_password h
                       else Some (make_password (take 20 draws)))\<rparr>)) s)
        in case reply of
             AppRaises \<Rightarrow> (None, s1)
           | AppOk telegram _ \<Rightarrow> (None, commit (update_ws (w_id w) (set_hermes (\<lambda>h.
               h\<lparr>h_installed := True, h_telegram_installed := telegram, h_telegram_token := None,
                 h_telegram_error := None, h_error := None\<rparr>)) s1))
           | AppFails e out \<Rightarrow> (None, commit (update_ws (w_id w) (set_hermes (\<lambda>h.
               h\<lparr>h_error := Some (app_error e out),
                 h_telegram_error := (if h_telegram_enabled h then Some (app_error e out)
                   else h_telegram_error h)\<rparr>)) s1)))"

definition hermes_installs ::
  "(workspace \<Rightarrow> app_reply) \<Rightarrow> (workspace \<Rightarrow> nat list) \<Rightarrow> session \<Rightarrow> string option \<times> session" where
  "hermes_installs replies draws s =
     each_ws (\<lambda>w s. hermes_install (replies w) (draws w) w s)
       (ws_ids (\<lambda>w. h_enabled (w_hermes w) \<or> h_installed (w_hermes w)) (cur s)) s"

definition openclaw_settled :: "openclaw_cols \<Rightarrow> bool" where
  "openclaw_settled q \<longleftrightarrow> oc_installed q \<and> has_text (oc_password q) \<and> \<not> has_text (oc_error q)
     \<and> oc_telegram_installed q = oc_telegram_enabled q"

definition openclaw_body ::
  "(workspace \<Rightarrow> app_reply) \<Rightarrow> (workspace \<Rightarrow> string) \<Rightarrow> workspace \<Rightarrow> session \<Rightarrow> string option \<times> session" where
  "openclaw_body replies secret w s =
     (let oc = w_openclaw w in
      if \<not> oc_enabled oc \<and> \<not> oc_installed oc then (None, s)
      else if w_state w \<noteq> ON then (None, s)
      else if \<not> oc_enabled oc then
        (case replies w of
           AppOk _ _ \<Rightarrow> (None, commit (update_ws (w_id w) (set_openclaw (\<lambda>q.
             q\<lparr>oc_installed := False, oc_password := None, oc_telegram_installed := False,
               oc_error := None, oc_telegram_error := None\<rparr>)) s))
         | AppFails _ _ \<Rightarrow> (None, s)
         | AppRaises \<Rightarrow> (Some ''provisioner'', s))
      else if openclaw_settled oc then (None, s)
      else if \<not> has_key_text (cur s) (w_user_id w) then (None, s)
      else
        let s1 = (if has_text (oc_password oc) then s
                  else commit (update_ws (w_id w) (set_openclaw (\<lambda>q. q\<lparr>oc_password := Some (secret w)\<rparr>)) s))
        in case replies w of
             AppRaises \<Rightarrow> (None, s1)
           | AppOk telegram terr \<Rightarrow> (None, commit (update_ws (w_id w) (set_openclaw (\<lambda>q.
               q\<lparr>oc_installed := True, oc_telegram_installed := telegram, oc_error := None,
                 oc_telegram_error := (if oc_telegram_enabled q \<and> \<not> telegram
                   then Some (last_chars 300 (or_else terr ''telegram channel failed'')) else None)\<rparr>)) s1))
           | AppFails e out \<Rightarrow> (None, commit (update_ws (w_id w) (set_openclaw (\<lambda>q.
               q\<lparr>oc_installed := False, oc_error := Some (app_error e out)\<rparr>)) s1)))"

definition openclaw_once ::
  "(workspace \<Rightarrow> app_reply) \<Rightarrow> (workspace \<Rightarrow> string) \<Rightarrow> session \<Rightarrow> string option \<times> session" where
  "openclaw_once replies secret s =
     each_ws (openclaw_body replies secret) (ws_ids (\<lambda>_. True) (cur s)) s"

text \<open>One application of one running workspace.\<close>

definition managed_web_app ::
  "(workspace \<Rightarrow> web_app \<Rightarrow> app_reply) \<Rightarrow> (workspace \<Rightarrow> web_app \<Rightarrow> string) \<Rightarrow> web_app \<Rightarrow> workspace \<Rightarrow>
   session \<Rightarrow> string option \<times> session" where
  "managed_web_app replies secret app w s =
     (let x = web_of app w; put = (\<lambda>f. update_ws (w_id w) (set_web app f)) in
      if \<not> wb_enabled x \<and> \<not> wb_installed x then (None, s)
      else if \<not> wb_enabled x then
        (let s1 = put (\<lambda>x. x\<lparr>wb_vhost_ready := False\<rparr>) s
         in case replies w app of
              AppRaises \<Rightarrow> (Some ''provisioner'', s1)
            | AppFails _ _ \<Rightarrow> (None, s1)
            | AppOk _ _ \<Rightarrow> (None, commit (put (\<lambda>x. x\<lparr>wb_installed := False,
                wb_password := None, wb_error := None\<rparr>) s1)))
      else if app = Openwebui \<and> w_mem_mib w < 2048 then
        (let s1 = put (\<lambda>x. x\<lparr>wb_vhost_ready := False\<rparr>) s
         in if wb_installed x \<and> replies w app = AppRaises then (Some ''provisioner'', s1)
            else (None, commit (put (\<lambda>x. x\<lparr>wb_installed := False,
                   wb_error := Some ''insufficient memory''\<rparr>) s1)))
      else if wb_installed x \<and> \<not> has_text (wb_error x) then (None, s)
      else if \<not> has_key_text (cur s) (w_user_id w) then (None, s)
      else
        let s1 = (if has_text (wb_password x) then s
                  else commit (put (\<lambda>x. x\<lparr>wb_password := Some (secret w app)\<rparr>) s))
        in case replies w app of
             AppRaises \<Rightarrow> (None, s1)
           | AppOk _ _ \<Rightarrow> (None, commit (put (\<lambda>x. x\<lparr>wb_installed := True, wb_error := None\<rparr>) s1))
           | AppFails e out \<Rightarrow> (None, commit (put (\<lambda>x. x\<lparr>wb_installed := False,
               wb_error := Some (app_error e out)\<rparr>) s1)))"

definition managed_web_body ::
  "(workspace \<Rightarrow> web_app \<Rightarrow> app_reply) \<Rightarrow> (workspace \<Rightarrow> web_app \<Rightarrow> string) \<Rightarrow> workspace \<Rightarrow> session \<Rightarrow>
   string option \<times> session" where
  "managed_web_body replies secret w s =
     (if w_state w \<noteq> ON then (None, s)
      else case managed_web_app replies secret Opencode w s of
             (Some e, s1) \<Rightarrow> (Some e, s1)
           | (None, s1) \<Rightarrow> managed_web_app replies secret Openwebui (reload w s1) s1)"

text \<open>What is left uncommitted when the pass ends goes with its session.\<close>

definition managed_web_once ::
  "(workspace \<Rightarrow> web_app \<Rightarrow> app_reply) \<Rightarrow> (workspace \<Rightarrow> web_app \<Rightarrow> string) \<Rightarrow> session \<Rightarrow>
   string option \<times> session" where
  "managed_web_once replies secret s =
     (case each_ws (managed_web_body replies secret) (ws_ids (\<lambda>_. True) (cur s)) s of
        (e, s1) \<Rightarrow> (e, rollback s1))"

end
