(* ===== verification/Alerts.thy ===== *)
theory Alerts
  imports WorkerPasses
begin

text \<open>
  The passes of \<open>control/mmd/worker.py\<close> that keep rows and people up to date: pruning of
  samples, the service ports of every workspace, the low-credit and credit-band messages, the
  operator alerts and the guard of the disk pool.
\<close>

section \<open>Pruning and service ports\<close>

definition SAMPLE_RETENTION_DAYS :: int where "SAMPLE_RETENTION_DAYS = 2"

definition prune_samples_once :: "time \<Rightarrow> session \<Rightarrow> session" where
  "prune_samples_once now s = commit (edit (\<lambda>d. d\<lparr>samples :=
     filter (\<lambda>r. \<not> us_ts r < now - SAMPLE_RETENTION_DAYS * 24 * hour) (samples d)\<rparr>) s)"

definition reserve_body ::
  "(int \<Rightarrow> port_kind \<Rightarrow> attempt list) \<Rightarrow> workspace \<Rightarrow> session \<Rightarrow> port_error option \<times> session" where
  "reserve_body draws w s =
     (if length (ports_of (cur s) (w_id w) PSsh) + length (ports_of (cur s) (w_id w) PRdp) < 2
      then (case reserve_service_ports (w_id w) (draws (w_id w)) s of
              (Inl e, s1) \<Rightarrow> (Some e, s1)
            | (Inr _, s1) \<Rightarrow> (None, commit s1))
      else (None, s))"

definition reserve_service_ports_once ::
  "(int \<Rightarrow> port_kind \<Rightarrow> attempt list) \<Rightarrow> fw_reply \<Rightarrow> session \<times> mapping list \<Rightarrow>
   port_error option \<times> session \<times> mapping list" where
  "reserve_service_ports_once draws reply st =
     (let (s, rules) = st;
          (e, s1) = each_ws (reserve_body draws)
            (ws_ids (\<lambda>w. w_state w \<noteq> DELETED \<and> w_state w \<noteq> DELETING) (cur s)) s
      in case e of
           Some err \<Rightarrow> (Some err, s1, rules)
         | None \<Rightarrow> (None, s1, snd (push_rules reply (published None None (cur s1)) rules)))"

section \<open>Low credit\<close>

definition low_credit_key :: "int \<Rightarrow> string" where
  "low_credit_key u = ''lowcredit:'' @ show_int u"

definition unresolved :: "db \<Rightarrow> int \<Rightarrow> string \<Rightarrow> bool" where
  "unresolved d u key \<longleftrightarrow>
     list_ex (\<lambda>n. has_key u key n \<and> nt_resolved_at n = None) (notifications d)"

text \<open>The \<open>created_at\<close> of the notification \<open>emit\<close> returned.\<close>

definition note_created :: "db \<Rightarrow> int \<Rightarrow> string \<Rightarrow> time" where
  "note_created d u key = (case find (has_key u key) (notifications d) of
     Some n \<Rightarrow> nt_created_at n | None \<Rightarrow> 0)"

definition low_credit_user :: "int \<Rightarrow> time \<Rightarrow> user \<Rightarrow> session \<Rightarrow> session" where
  "low_credit_user threshold now u s =
     (let balance = balance_micro (cur s) (u_id u); key = low_credit_key (u_id u)
      in if 0 < balance \<and> balance \<le> threshold
         then (if unresolved (cur s) (u_id u) key then s
               else let s1 = emit now (u_id u) ''credit'' ''low_credit'' ''warn''
                               (Some ''/console/billing'') (Some key) s
                    in commit (snd (queue now (Some (u_id u)) (u_phone u) ''low_credit''
                         (Some (key @ '':'' @ isoformat (note_created (cur s1) (u_id u) key)))
                         (Some u) s1)))
         else if balance > threshold then commit (resolve_notification (u_id u) key now s)
         else s)"

definition low_credit_once :: "config \<Rightarrow> time \<Rightarrow> session \<Rightarrow> session" where
  "low_credit_once cf now s =
     (let threshold = cf_sms_low_credit_toman cf * MICRO
      in if threshold \<le> 0 then s
         else fold (low_credit_user threshold now)
                (filter (\<lambda>u. u_status u = UApproved) (users (cur s))) s)"

section \<open>Operator alerts\<close>

definition admins :: "db \<Rightarrow> user list" where
  "admins d = filter (\<lambda>u. u_is_admin u \<and> u_status u = UApproved) (users d)"

definition text_admins :: "time \<Rightarrow> string \<Rightarrow> string option \<Rightarrow> session \<Rightarrow> session" where
  "text_admins now kind dedupe s =
     commit (fold (\<lambda>a s. snd (queue now (Some (u_id a)) (u_phone a) kind
         (case dedupe of None \<Rightarrow> None
          | Some k \<Rightarrow> if k = [] then None else Some (k @ '':'' @ show_int (u_id a)))
         (Some a) s)) (admins (cur s)) s)"

definition oldest_waiting :: "db \<Rightarrow> time option" where
  "oldest_waiting d =
     (case map tk_created_at (filter (\<lambda>t. tk_status t \<noteq> TClosed \<and> tk_status t \<noteq> TAnswered) (tickets d))
      of [] \<Rightarrow> None | t # ts \<Rightarrow> Some (fold min ts t))"

text \<open>\<open>error_rate\<close> is what Prometheus answers, if it does.\<close>

definition alerts_once :: "config \<Rightarrow> time \<Rightarrow> rat option \<Rightarrow> session \<Rightarrow> session" where
  "alerts_once cf now error_rate s =
     (let s1 =
        (if cf_support_sla_hours cf > 0
         then (case oldest_waiting (cur s) of
                 None \<Rightarrow> s
               | Some oldest \<Rightarrow>
                   if fdiv (total_seconds (now - oldest)) 3600 \<ge> of_int (cf_support_sla_hours cf)
                   then text_admins now ''admin_ticket_overdue''
                          (Some (''ticketsla:'' @ stamp_day now)) s
                   else s)
         else s)
      in if cf_error_rate_per_second cf > 0
         then (case error_rate of
                 None \<Rightarrow> s1
               | Some rate \<Rightarrow>
                   if rate \<ge> cf_error_rate_per_second cf
                   then text_admins now ''admin_error_rate''
                          (Some (''errorrate:'' @ stamp_hour now)) s1
                   else s1)
         else s1)"

section \<open>Credit bands\<close>

text \<open>
  \<open>credit_step_once\<close>: the watermark and the message go out in one transaction. The row is
  read again under its lock; a customer gone or no longer approved is skipped.
\<close>

definition credit_band :: "user \<Rightarrow> int \<Rightarrow> int" where
  "credit_band u balance = balance div
     ((if u_sms_credit_step_toman u = 0 then DEFAULT_CREDIT_STEP_TOMAN
       else u_sms_credit_step_toman u) * MICRO)"

definition set_band :: "int \<Rightarrow> int \<Rightarrow> session \<Rightarrow> session" where
  "set_band i band s = edit (set_user i (\<lambda>u. u\<lparr>u_sms_credit_band := Some band\<rparr>)) s"

definition credit_step_user :: "time \<Rightarrow> int \<Rightarrow> session \<Rightarrow> session" where
  "credit_step_user now i s =
     (case get_user (cur s) i of
        None \<Rightarrow> rollback s
      | Some u \<Rightarrow>
          if u_status u \<noteq> UApproved then rollback s
          else let band = credit_band u (balance_micro (cur s) i)
               in case u_sms_credit_band u of
                    None \<Rightarrow> commit (set_band i band s)
                  | Some previous \<Rightarrow>
                      if band = previous then s
                      else commit (worker_text now i ''credit_step'' None (set_band i band s)))"

definition credit_step_once :: "time \<Rightarrow> session \<Rightarrow> session" where
  "credit_step_once now s =
     fold (credit_step_user now) (map u_id (filter (\<lambda>u. u_status u = UApproved) (users (cur s)))) s"

section \<open>Disk\<close>

definition GIB :: int where "GIB = 1024 ^ 3"

text \<open>\<open>f"{x:.3f}"\<close> and \<open>round(x)\<close> of a float that is not negative.\<close>

definition fixed3 :: "rat \<Rightarrow> string" where
  "fixed3 x = (let n = rne (x * 1000) in show_int (n div 1000) @ ''.'' @ zero_pad 3 (n mod 1000))"

text \<open>\<open>disk_usage\<close>: per slot the bytes of root and Docker, and the pool's free and used bytes.\<close>

record disk_reply =
  dk_workspaces :: "(string \<times> int \<times> int) list"
  dk_available :: int
  dk_used :: int

definition disk_row :: "time \<Rightarrow> int \<Rightarrow> workspace \<Rightarrow> workspace" where
  "disk_row now used w =
     w\<lparr>w_disk_used_mib := Some (used div (1024 * 1024)), w_disk_checked_at := Some now\<rparr>"

definition disk_percent :: "workspace \<Rightarrow> int \<Rightarrow> rat" where
  "disk_percent w used_mib =
     (let limit_mib = w_disk_gib w * 1024
      in if limit_mib = 0 then 0 else fmul (fl64 (of_int used_mib / of_int limit_mib)) 100)"

definition disk_warn :: "config \<Rightarrow> time \<Rightarrow> workspace \<Rightarrow> int \<Rightarrow> session \<Rightarrow> session" where
  "disk_warn cf now w used s =
     (let s1 = update_ws (w_id w) (disk_row now used) s;
          pct = disk_percent w (used div (1024 * 1024));
          key = ''disk:'' @ show_int (w_id w)
      in if pct \<ge> of_int (cf_disk_warn_percent cf)
         then let first_time = (\<not> unresolved (cur s1) (w_user_id w) key);
                  s2 = emit now (w_user_id w) ''disk'' ''disk_nearly_full''
                         (if pct < 100 then ''warn'' else ''error'')
                         (Some ''/console/files'') (Some key) s1
              in if first_time
                 then worker_text now (w_user_id w) ''disk_high''
                        (Some (key @ '':'' @ stamp_second now)) s2
                 else s2
         else resolve_notification (w_user_id w) key now s1)"

text \<open>The samples of one scan; the slots are the keys \<open>str(idx)\<close>.\<close>

definition disk_samples ::
  "config \<Rightarrow> time \<Rightarrow> (string \<times> int \<times> int) list \<Rightarrow> session \<Rightarrow> session" where
  "disk_samples cf now rows s = commit (fold (\<lambda>(idx, root, docker) s.
     case find (\<lambda>w. show_int (w_idx w) = idx) (workspaces (cur s)) of
       None \<Rightarrow> s | Some w \<Rightarrow> disk_warn cf now w (root + docker) s) rows s)"

text \<open>
  The pool guard: the running machines by consumption, until the floor is met. \<open>again w\<close> is
  the free space the provisioner reports after stopping \<open>w\<close>.
\<close>

fun pool_guard ::
  "config \<Rightarrow> (workspace \<Rightarrow> incus_reply) \<Rightarrow> (workspace \<Rightarrow> int) \<Rightarrow> time \<Rightarrow> rat \<Rightarrow> workspace list \<Rightarrow> session \<Rightarrow>
   invalid_tier option \<times> session" where
  "pool_guard cf stop again now free [] s = (None, s)"
| "pool_guard cf stop again now free (w # ws) s =
     (if free \<ge> cf_pool_floor_gib cf then (None, s)
      else case stop w of
        IncusFails _ \<Rightarrow> pool_guard cf stop again now free ws s
      | IncusOk \<Rightarrow>
          (case close_run now w s of
             Inl e \<Rightarrow> (Some e, rollback s)
           | Inr s1 \<Rightarrow>
               let s2 = emit now (w_user_id w) ''disk'' ''stopped_pool_full'' ''error''
                          (Some ''/console/files'') (Some (''poolstop:'' @ show_int (w_id w))) s1;
                   s3 = worker_text now (w_user_id w) ''pool_stopped''
                          (Some (''poolstop:'' @ show_int (w_id w) @ '':'' @ stamp_hour now)) s2;
                   s4 = audit None ''disk_pool_stop'' (Some (w_incus_project w)) s3
               in pool_guard cf stop again now (fl64 (of_int (again w) / of_int GIB)) ws s4))"

definition disk_once ::
  "config \<Rightarrow> disk_reply option \<Rightarrow> (workspace \<Rightarrow> incus_reply) \<Rightarrow> (workspace \<Rightarrow> int) \<Rightarrow> time \<Rightarrow> session \<Rightarrow>
   invalid_tier option \<times> session" where
  "disk_once cf reply stop again now s =
     (case reply of
        None \<Rightarrow> (None, s)
      | Some r \<Rightarrow>
          let free_gib = fl64 (of_int (dk_available r) / of_int GIB);
              used_gib = fl64 (of_int (dk_used r) / of_int GIB);
              s1 = commit (edit (\<lambda>d.
                     set_setting ''pool_total_gib'' (fixed3 (fadd free_gib used_gib))
                       (set_setting ''pool_used_gib'' (fixed3 used_gib)
                         (set_setting ''pool_free_gib'' (fixed3 free_gib) d))) s);
              s2 = disk_samples cf now (dk_workspaces r) s1
          in if free_gib \<ge> cf_pool_floor_gib cf then (None, s2)
             else pool_guard cf stop again now free_gib
               (sort_key (\<lambda>w. - (case w_disk_used_mib w of Some n \<Rightarrow> n | None \<Rightarrow> 0))
                 (filter (\<lambda>w. w_state w = ON) (workspaces (cur s2))))
               (text_admins now ''admin_pool_low''
                  (Some (''poollow:'' @ stamp_hour now)) s2))"

section \<open>Heartbeat\<close>

definition heartbeat_once :: "time \<Rightarrow> bool \<Rightarrow> session \<Rightarrow> session" where
  "heartbeat_once now failed s =
     commit (edit (\<lambda>d.
       let d1 = set_setting ''worker_heartbeat'' (isoformat now) d
       in if failed then d1 else set_setting ''worker_last_success'' (isoformat now) d1) s)"

end
