(* ===== verification/WorkspaceOps.thy ===== *)
theory WorkspaceOps
  imports ManagedApps Alerts
begin

text \<open>
  The durable operations of \<open>control/mmd/worker.py\<close>: creating, resetting and deleting a
  workspace and erasing an account, one of them advanced per call of \<open>operations_once\<close>, and the
  handler that orders an erasure. The provisioner, Incus and the supplier's replies are
  arguments; the sizes sent to the provisioner are not modelled.
\<close>

section \<open>Replies\<close>

record op_world =
  ow_provision :: prov_reply
  ow_reset :: prov_reply
  ow_destroy :: prov_reply
  ow_stop :: incus_reply
  ow_firewall :: fw_reply
  ow_draws :: "port_kind \<Rightarrow> attempt list"
  ow_supplier :: or_net

text \<open>The state an operation works on: the session, the forwarding rules and the supplier's keys.\<close>

record op_state =
  os_session :: session
  os_rules :: "mapping list"
  os_supplier :: supplier

definition on_session :: "(session \<Rightarrow> session) \<Rightarrow> op_state \<Rightarrow> op_state" where
  "on_session f st = st\<lparr>os_session := f (os_session st)\<rparr>"

text \<open>\<open>sync_published_ports\<close> with its answer.\<close>

definition sync_ports :: "fw_reply \<Rightarrow> int option \<Rightarrow> op_state \<Rightarrow> bool \<times> op_state" where
  "sync_ports reply exclude st =
     (let (ok, rules) = push_rules reply (published exclude None (cur (os_session st))) (os_rules st)
      in (ok, st\<lparr>os_rules := rules\<rparr>))"

text \<open>An operation ends in order, or an exception leaves it.\<close>

datatype op_result = Ended | Raised string

section \<open>Rows removed with a workspace or an account\<close>

definition drop_machine_rows :: "int \<Rightarrow> db \<Rightarrow> db" where
  "drop_machine_rows i d = d\<lparr>
     samples := filter (\<lambda>r. us_workspace_id r \<noteq> i) (samples d),
     exposed_ports := filter (\<lambda>p. ep_workspace_id p \<noteq> i) (exposed_ports d),
     ssh_keys := filter (\<lambda>k. sk_workspace_id k \<noteq> i) (ssh_keys d),
     ai_marks := filter (\<lambda>m. am_workspace_id m \<noteq> i) (ai_marks d)\<rparr>"

text \<open>Deleting the row; the operations that name it go with it (\<open>ON DELETE CASCADE\<close>).\<close>

definition drop_workspace :: "int \<Rightarrow> db \<Rightarrow> db" where
  "drop_workspace i d = d\<lparr>workspaces := filter (\<lambda>w. w_id w \<noteq> i) (workspaces d),
     operations := filter (\<lambda>p. op_workspace_id p \<noteq> Some i) (operations d)\<rparr>"

text \<open>The statements of the erasure, in their order: the threads, the machine's rows, the money and
  notifications, what is keyed by the phone, the traces, and the rows themselves.\<close>

definition erase_threads :: "int \<Rightarrow> db \<Rightarrow> db" where
  "erase_threads i d = d\<lparr>
     ticket_messages := filter (\<lambda>m. tm_author_id m \<noteq> Some i \<and>
       tm_ticket_id m \<notin> set (map tk_id (filter (\<lambda>t. tk_user_id t = i) (tickets d)))) (ticket_messages d),
     tickets := filter (\<lambda>t. tk_user_id t \<noteq> i) (tickets d)\<rparr>"

definition erase_machine :: "workspace option \<Rightarrow> db \<Rightarrow> db" where
  "erase_machine wo d = (case wo of None \<Rightarrow> d
     | Some w \<Rightarrow> (drop_machine_rows (w_id w) d)\<lparr>transactions :=
         filter (\<lambda>t. tx_workspace_id t \<noteq> Some (w_id w)) (transactions d)\<rparr>)"

definition erase_money :: "int \<Rightarrow> db \<Rightarrow> db" where
  "erase_money i d = d\<lparr>
     transactions := filter (\<lambda>t. tx_user_id t \<noteq> i) (transactions d),
     credit_accounts := filter (\<lambda>a. ca_user_id a \<noteq> i) (credit_accounts d),
     notifications := filter (\<lambda>n. nt_user_id n \<noteq> i) (notifications d)\<rparr>"

definition erase_phone :: "string option \<Rightarrow> db \<Rightarrow> db" where
  "erase_phone phone d = (case phone of None \<Rightarrow> d
     | Some ph \<Rightarrow> if ph = [] then d else d\<lparr>
         bale_contacts := filter (\<lambda>c. bc_phone c \<noteq> ph) (bale_contacts d),
         sms_messages := filter (\<lambda>m. sm_phone m \<noteq> ph) (sms_messages d)\<rparr>)"

definition erase_traces :: "user \<Rightarrow> workspace option \<Rightarrow> db \<Rightarrow> db" where
  "erase_traces u wo d =
     (let targets = u_username u # (case wo of None \<Rightarrow> [] | Some w \<Rightarrow> [w_incus_project w])
      in d\<lparr>
     sms_messages := filter (\<lambda>m. sm_user_id m \<noteq> Some (u_id u)) (sms_messages d),
     audit_log := filter (\<lambda>a. au_actor_id a \<noteq> Some (u_id u)
       \<and> (case au_target a of None \<Rightarrow> True | Some t \<Rightarrow> t \<notin> set targets)) (audit_log d),
     users := map_rows (\<lambda>v. u_approved_by v = Some (u_id u)) (\<lambda>v. v\<lparr>u_approved_by := None\<rparr>) (users d),
     operations := filter (\<lambda>p. op_user_id p \<noteq> Some (u_id u)) (operations d)\<rparr>)"

definition erase_rows :: "int \<Rightarrow> workspace option \<Rightarrow> db \<Rightarrow> db" where
  "erase_rows i wo d =
     (let d1 = (case wo of None \<Rightarrow> d | Some w \<Rightarrow> drop_workspace (w_id w) d)
      in d1\<lparr>users := filter (\<lambda>v. u_id v \<noteq> i) (users d1),
            or_accounts := filter (\<lambda>a. oa_user_id a \<noteq> i) (or_accounts d1)\<rparr>)"

definition erase_account :: "user \<Rightarrow> workspace option \<Rightarrow> db \<Rightarrow> db" where
  "erase_account u wo d = erase_rows (u_id u) wo (erase_traces u wo (erase_phone (u_phone u)
     (erase_money (u_id u) (erase_machine wo (erase_threads (u_id u) d)))))"

section \<open>Erasing an account\<close>

definition delete_op :: "operation \<Rightarrow> session \<Rightarrow> session" where
  "delete_op p s = commit (edit (\<lambda>d. d\<lparr>operations :=
     filter (\<lambda>q. op_id q \<noteq> op_id p) (operations d)\<rparr>) s)"

text \<open>The first step of \<open>_purge_account\<close>: revoke the key upstream, strictly.\<close>

definition purge_key :: "config \<Rightarrow> op_world \<Rightarrow> operation \<Rightarrow> int \<Rightarrow> op_state \<Rightarrow> op_result \<times> op_state" where
  "purge_key cf ow p i st =
     (case get_account (cur (os_session st)) i of
        None \<Rightarrow> (Ended, st)
      | Some a \<Rightarrow>
          if \<not> has_text (oa_key_hash a) then (Ended, st)
          else let st1 = on_session (op_progress p ''revoking_ai'') st
               in if cf_openrouter_key cf = [] then (Raised ''no management key'', st1)
                  else (case revoke_key (ow_supplier ow) True a (os_session st1, os_supplier st1) of
                          (Some e, s2, sp2) \<Rightarrow> (Raised e, st1\<lparr>os_session := s2, os_supplier := sp2\<rparr>)
                        | (None, s2, sp2) \<Rightarrow>
                            (Ended, st1\<lparr>os_session := commit s2, os_supplier := sp2\<rparr>)))"

text \<open>Then the forwarding rules and the machine.\<close>

definition destroy_machine :: "op_world \<Rightarrow> operation \<Rightarrow> workspace \<Rightarrow> op_state \<Rightarrow> op_result \<times> op_state" where
  "destroy_machine ow p w st =
     (case sync_ports (ow_firewall ow) (Some (w_id w))
             (on_session (op_progress p ''removing_addresses'') st) of
        (False, st1) \<Rightarrow> (Raised ''could not remove published-port rules'', st1)
      | (True, st1) \<Rightarrow>
          let st2 = on_session (op_progress p ''destroying_machine'') st1
          in case ow_destroy ow of
               ProvFails _ \<Rightarrow> (Raised ''could not destroy workspace'', st2)
             | ProvOk \<Rightarrow> (Ended, st2))"

definition purge_account :: "config \<Rightarrow> op_world \<Rightarrow> operation \<Rightarrow> op_state \<Rightarrow> op_result \<times> op_state" where
  "purge_account cf ow p st =
     (case (case op_user_id p of None \<Rightarrow> None
            | Some i \<Rightarrow> if i = 0 then None else get_user (cur (os_session st)) i) of
        None \<Rightarrow> (Ended, on_session (delete_op p) st)
      | Some u \<Rightarrow>
          let wo = find (\<lambda>w. w_user_id w = u_id u) (workspaces (cur (os_session st)))
          in case purge_key cf ow p (u_id u) st of
               (Raised e, st1) \<Rightarrow> (Raised e, st1)
             | (Ended, st1) \<Rightarrow>
                 (case (case wo of None \<Rightarrow> (Ended, st1) | Some w \<Rightarrow> destroy_machine ow p w st1) of
                    (Raised e, st2) \<Rightarrow> (Raised e, st2)
                  | (Ended, st2) \<Rightarrow> (Ended, on_session (\<lambda>s.
                      commit (edit (erase_account u wo) (op_progress p ''erasing_account'' s))) st2)))"

section \<open>Factory reset\<close>

definition no_web :: "web_cols \<Rightarrow> web_cols" where
  "no_web x = x\<lparr>wb_enabled := False, wb_installed := False, wb_vhost_ready := False,
     wb_password := None, wb_error := None\<rparr>"

definition reset_intent :: "workspace \<Rightarrow> workspace" where
  "reset_intent w = w\<lparr>w_hermes := (w_hermes w)\<lparr>h_enabled := False\<rparr>,
     w_openclaw := (w_openclaw w)\<lparr>oc_enabled := False, oc_installed := False, oc_password := None,
       oc_error := None\<rparr>,
     w_opencode := no_web (w_opencode w), w_openwebui := no_web (w_openwebui w)\<rparr>"

definition reset_row :: "workspace \<Rightarrow> workspace" where
  "reset_row w = disarm_auto_stop (w\<lparr>w_state := OFF, w_desired_on := False, w_period_start := None,
     w_started_at := None, w_last_activity := None, w_ssh_enabled := False, w_ssh_keys := None,
     w_rdp_enabled := False, w_rdp_installed := False, w_error := None,
     w_hermes := (w_hermes w)\<lparr>h_installed := False, h_vhost_ready := False,
       h_telegram_enabled := False, h_telegram_installed := False, h_telegram_token := None,
       h_telegram_users := None, h_telegram_error := None, h_dash_user := None,
       h_dash_password := None, h_error := None\<rparr>\<rparr>)"

definition error_row :: "string option \<Rightarrow> workspace \<Rightarrow> workspace" where
  "error_row e w = w\<lparr>w_state := ERROR, w_error := e\<rparr>"

definition factory_reset ::
  "op_world \<Rightarrow> time \<Rightarrow> operation \<Rightarrow> workspace \<Rightarrow> session \<Rightarrow> session" where
  "factory_reset ow now p w s =
     (let s1 = op_progress p ''rebuilding_machine'' (commit (update_ws (w_id w) reset_intent s))
      in case ow_reset ow of
           ProvFails e \<Rightarrow> audit (op_actor_id p) ''reset_failed'' (Some (w_incus_project w))
             (op_fail p ''reset_failed'' now (update_ws (w_id w) (error_row e) s1))
         | ProvOk \<Rightarrow>
             (let s2 = op_progress p ''stopping_machine'' s1
              in case ow_stop ow of
                   IncusFails _ \<Rightarrow> op_fail p ''reset_stop_failed'' now (update_ws (w_id w)
                     (error_row (Some ''post-reset stop did not complete'')) s2)
                 | IncusOk \<Rightarrow> op_finish p now (audit (op_actor_id p) ''reset_done''
                     (Some (w_incus_project w)) (commit (update_ws (w_id w) reset_row s2)))))"

section \<open>Creation\<close>

text \<open>After a failed provision the operation is detached and the row goes.\<close>

definition detach_operations :: "int \<Rightarrow> db \<Rightarrow> db" where
  "detach_operations i d = d\<lparr>operations := map_rows (\<lambda>p. op_workspace_id p = Some i)
     (\<lambda>p. p\<lparr>op_workspace_id := None\<rparr>) (operations d)\<rparr>"

definition workspace_create ::
  "op_world \<Rightarrow> time \<Rightarrow> operation \<Rightarrow> workspace \<Rightarrow> op_state \<Rightarrow> op_result \<times> op_state" where
  "workspace_create ow now p w st =
     (let st1 = on_session (op_progress p ''creating_machine'') st
      in case ow_provision ow of
           ProvFails _ \<Rightarrow> (Ended, on_session (\<lambda>s.
             commit (edit (\<lambda>d. drop_workspace (w_id w) (detach_operations (w_id w) d))
               (op_fail p ''provision_failed'' now s))) st1)
         | ProvOk \<Rightarrow>
             (let st2 = on_session (op_progress p ''stopping_machine'') st1
              in case ow_stop ow of
                   IncusFails _ \<Rightarrow> (Ended, on_session (\<lambda>s. op_fail p ''provision_stop_failed'' now
                     (update_ws (w_id w) (error_row (Some ''post-provision stop did not complete'')) s)) st2)
                 | IncusOk \<Rightarrow>
                     (let s3 = update_ws (w_id w) (\<lambda>w. w\<lparr>w_state := OFF, w_desired_on := False,
                                 w_error := None\<rparr>) (os_session st2)
                      in case reserve_service_ports (w_id w) (ow_draws ow) s3 of
                           (Inl _, s4) \<Rightarrow> (Raised ''no free port'', st2\<lparr>os_session := s4\<rparr>)
                         | (Inr _, s4) \<Rightarrow>
                             (let (_, st5) = sync_ports (ow_firewall ow) None
                                    (st2\<lparr>os_session := commit s4\<rparr>)
                              in (Ended, on_session (\<lambda>s. op_finish p now
                                    (audit (op_actor_id p) ''workspace_create_done''
                                      (Some (w_incus_project w)) s)) st5)))))"

section \<open>Deletion\<close>

definition workspace_delete ::
  "op_world \<Rightarrow> time \<Rightarrow> operation \<Rightarrow> workspace \<Rightarrow> op_state \<Rightarrow> op_result \<times> op_state" where
  "workspace_delete ow now p w st =
     (case destroy_machine ow p w st of
        (Raised e, st1) \<Rightarrow> (Raised e, st1)
      | (Ended, st1) \<Rightarrow> (Ended, on_session (\<lambda>s.
          op_finish (p\<lparr>op_workspace_id := None\<rparr>) now
            (audit (op_actor_id p) ''workspace_delete_done'' (Some (w_incus_project w))
              (commit (edit (\<lambda>d. drop_workspace (w_id w)
                 (let d1 = set_operation (op_id p) (\<lambda>q. q\<lparr>op_workspace_id := None\<rparr>)
                             (drop_machine_rows (w_id w) d)
                  in d1\<lparr>transactions := map_rows (\<lambda>t. tx_workspace_id t = Some (w_id w))
                       (\<lambda>t. t\<lparr>tx_workspace_id := None\<rparr>) (transactions d1)\<rparr>)) s)))) st1))"

section \<open>The queue of operations\<close>

definition retryable :: "operation \<Rightarrow> bool" where
  "retryable p \<longleftrightarrow> op_status p = ''failed''
     \<and> (op_kind p = ''account_delete'' \<or> op_kind p = ''workspace_delete'')"

text \<open>Ordinary work first, then failed erasures, each by id.\<close>

definition next_operation :: "db \<Rightarrow> operation option" where
  "next_operation d =
     (case sort_key op_id (filter op_active (operations d)) of
        p # _ \<Rightarrow> Some p
      | [] \<Rightarrow> (case sort_key op_id (filter retryable (operations d)) of
                p # _ \<Rightarrow> Some p | [] \<Rightarrow> None))"

definition op_workspace :: "db \<Rightarrow> operation \<Rightarrow> workspace option" where
  "op_workspace d p = (case op_workspace_id p of None \<Rightarrow> None
     | Some i \<Rightarrow> if i = 0 then None else get_ws d i)"

definition run_operation ::
  "config \<Rightarrow> op_world \<Rightarrow> time \<Rightarrow> operation \<Rightarrow> op_state \<Rightarrow> op_result \<times> op_state" where
  "run_operation cf ow now p st =
     (if op_kind p = ''account_delete'' then purge_account cf ow p st
      else case op_workspace (cur (os_session st)) p of
        None \<Rightarrow> (Ended, on_session (op_fail p ''no_workspace'' now) st)
      | Some w \<Rightarrow>
          if op_kind p = ''factory_reset'' then (Ended, on_session (factory_reset ow now p w) st)
          else if op_kind p = ''workspace_create'' then workspace_create ow now p w st
          else if op_kind p = ''workspace_delete'' then workspace_delete ow now p w st
          else (Ended, on_session (op_fail p ''unknown_operation'' now) st))"

definition cleanup_failed :: "operation \<Rightarrow> time \<Rightarrow> session \<Rightarrow> session" where
  "cleanup_failed p now s =
     (let s1 = rollback s
      in if find (\<lambda>q. op_id q = op_id p) (operations (cur s1)) = None then s1
         else commit (edit (set_operation (op_id p) (\<lambda>q. q\<lparr>op_status := ''failed'',
                op_error_code := Some ''cleanup_failed'', op_finished_at := Some now\<rparr>)) s1))"

definition operations_once :: "config \<Rightarrow> op_world \<Rightarrow> time \<Rightarrow> op_state \<Rightarrow> op_state" where
  "operations_once cf ow now st =
     (case next_operation (cur (os_session st)) of
        None \<Rightarrow> st
      | Some p \<Rightarrow>
          (case run_operation cf ow now p st of
             (Ended, st1) \<Rightarrow> st1
           | (Raised _, st1) \<Rightarrow> on_session (cleanup_failed p now) st1))"

section \<open>Ordering an erasure\<close>

definition admin_delete_user :: "int \<Rightarrow> int \<Rightarrow> session \<Rightarrow> answer \<times> session" where
  "admin_delete_user admin i s =
     (if i = admin then (Failed 409 ''cannot_delete_self'', s)
      else case get_user (cur s) i of
        None \<Rightarrow> (Failed 404 ''no_such_user'', s)
      | Some u \<Rightarrow>
          if u_status u = UDeleting then (Done ''delete_queued'', s)
          else
            let wo = find (\<lambda>w. w_user_id w = i) (workspaces (cur s));
                s1 = edit (set_user i (\<lambda>u. u\<lparr>u_status := UDeleting,
                       u_session_version := u_session_version u + 1\<rparr>)) s;
                s2 = commit (case wo of None \<Rightarrow> s1
                       | Some w \<Rightarrow> update_ws (w_id w) (\<lambda>w. w\<lparr>w_desired_on := False\<rparr>) s1);
                (_, s3) = create_operation ''account_delete'' (Some i) (map_option w_id wo)
                            (Some admin) s2
            in (Done ''delete_queued'', s3))"

end
