(* ===== verification/Rows.thy ===== *)
theory Rows
  imports WorkspaceOps
begin

text \<open>
  How an invariant of workspace rows travels through a session. \<open>all_ws P s\<close> says that every
  workspace row satisfies \<open>P\<close>, in the open transaction and in the committed database; the
  lemmas of the collection \<open>ws_intro\<close> carry it over every operation that a handler or pass calls.
\<close>

named_theorems ws_intro \<comment> \<open>operations applied to a session\<close>
named_theorems ws_eq \<comment> \<open>operations whose result is named by an equation\<close>

section \<open>The predicate\<close>

text \<open>The unique columns of a workspace: its id, its owner and its slot.\<close>

definition w_keys :: "workspace \<Rightarrow> int \<times> int \<times> int" where
  "w_keys w = (w_id w, w_user_id w, w_idx w)"

definition table_ok :: "(workspace \<Rightarrow> bool) \<Rightarrow> int \<Rightarrow> workspace list \<Rightarrow> bool" where
  "table_ok P n ws \<longleftrightarrow> (\<forall>w \<in> set ws. P w \<and> w_id w \<le> n) \<and> distinct (map w_id ws)
     \<and> distinct (map w_user_id ws) \<and> distinct (map w_idx ws)"

definition all_ws :: "(workspace \<Rightarrow> bool) \<Rightarrow> session \<Rightarrow> bool" where
  "all_ws P s \<longleftrightarrow> table_ok P (seq s) (workspaces (cur s)) \<and> table_ok P (seq s) (workspaces (saved s))"

lemma table_ok_mono: "table_ok P n ws \<Longrightarrow> n \<le> m \<Longrightarrow> table_ok P m ws"
  by (auto simp: table_ok_def)

lemma table_ok_map:
  assumes "table_ok P n ws" and "\<And>w. P w \<Longrightarrow> w_keys (f w) = w_keys w"
    and "\<And>w. w \<in> set ws \<Longrightarrow> P w \<Longrightarrow> w_id w = i \<Longrightarrow> P (f w)"
  shows "table_ok P n (map_rows (\<lambda>w. w_id w = i) f ws)"
proof -
  let ?g = "\<lambda>w. if w_id w = i then f w else w"
  have k: "w_id (?g w) = w_id w" "w_user_id (?g w) = w_user_id w" "w_idx (?g w) = w_idx w"
    if "w \<in> set ws" for w
    using assms(2) [of w] that assms(1) by (auto simp: w_keys_def table_ok_def)
  have m: "map w_id (map ?g ws) = map w_id ws" "map w_user_id (map ?g ws) = map w_user_id ws"
    "map w_idx (map ?g ws) = map w_idx ws"
    using k by (auto simp del: if_image_distrib)
  have "\<forall>w \<in> set (map ?g ws). P w \<and> w_id w \<le> n"
    using assms by (auto simp: table_ok_def w_keys_def)
  with assms(1) show ?thesis
    unfolding map_rows_def table_ok_def m by blast
qed

lemma table_ok_filter: "table_ok P n ws \<Longrightarrow> table_ok P n (filter q ws)"
  by (auto simp: table_ok_def distinct_map_filter)

lemma all_ws_commit [ws_intro]: "all_ws P s \<Longrightarrow> all_ws P (commit s)"
  and all_ws_rollback [ws_intro]: "all_ws P s \<Longrightarrow> all_ws P (rollback s)"
  and all_ws_next_id [ws_intro]: "all_ws P s \<Longrightarrow> all_ws P (next_id s)"
  by (auto simp: all_ws_def elim: table_ok_mono)

lemma all_ws_edit: "all_ws P s \<Longrightarrow> workspaces (f (cur s)) = workspaces (cur s) \<Longrightarrow> all_ws P (edit f s)"
  by (simp add: all_ws_def)

lemma all_ws_edit_filter:
  "all_ws P s \<Longrightarrow> workspaces (f (cur s)) = filter q (workspaces (cur s)) \<Longrightarrow> all_ws P (edit f s)"
  by (simp add: all_ws_def table_ok_filter)

text \<open>Rewriting a row, knowing that it is the one loaded.\<close>

lemma all_ws_update_row:
  assumes "all_ws P s" and "\<And>w. P w \<Longrightarrow> w_keys (f w) = w_keys w"
    and "\<And>w. get_ws (cur s) i = Some w \<Longrightarrow> P w \<Longrightarrow> P (f w)"
  shows "all_ws P (update_ws i f s)"
proof -
  have "get_ws (cur s) i = Some w" if "w \<in> set (workspaces (cur s))" "w_id w = i" for w
    using that distinct_map_find [of w_id "workspaces (cur s)" w] assms(1)
    by (auto simp: all_ws_def table_ok_def get_ws_def)
  with assms show ?thesis
    by (simp add: all_ws_def update_ws_def set_ws_def table_ok_map)
qed

lemma all_ws_update:
  assumes "all_ws P s" and "\<And>w. P w \<Longrightarrow> w_keys (f w) = w_keys w" and "\<And>w. P w \<Longrightarrow> P (f w)"
  shows "all_ws P (update_ws i f s)"
  using assms by (rule all_ws_update_row)

lemma all_ws_get: "all_ws P s \<Longrightarrow> get_ws (cur s) i = Some w \<Longrightarrow> P w"
  using get_ws_SomeD by (auto simp: all_ws_def table_ok_def)

lemma all_ws_mine: "all_ws P s \<Longrightarrow> my_workspace (cur s) u = Some w \<Longrightarrow> P w"
  by (auto simp: all_ws_def table_ok_def my_workspace_def dest: find_SomeD)

lemma mine_is_get:
  assumes "all_ws P s" and "my_workspace (cur s) u = Some w"
  shows "get_ws (cur s) (w_id w) = Some w"
  using assms distinct_map_find [of w_id "workspaces (cur s)" w]
  by (auto simp: all_ws_def table_ok_def get_ws_def my_workspace_def dest: find_SomeD)

lemma reload_P: "all_ws P s \<Longrightarrow> P w \<Longrightarrow> P (reload w s)"
  by (auto simp: reload_def dest: all_ws_get split: option.splits)

section \<open>Operations that leave the rows alone\<close>

lemma all_ws_audit [ws_intro]: "all_ws P s \<Longrightarrow> all_ws P (audit a b c s)"
  by (simp add: all_ws_def audit_def)

lemma all_ws_queue [ws_intro]: "all_ws P s \<Longrightarrow> all_ws P (snd (queue n ui ph k dk uo s))"
  using queue_state [of n ui ph k dk uo s] by (auto simp: all_ws_def elim!: table_ok_mono)

lemma all_ws_queue_eq [ws_eq]:
  "queue n ui ph k dk uo s = (r, s') \<Longrightarrow> all_ws P s \<Longrightarrow> all_ws P s'"
  using all_ws_queue [of P s n ui ph k dk uo] by simp

lemma all_ws_text [ws_intro]: "all_ws P s \<Longrightarrow> all_ws P (worker_text n u k dk s)"
  by (auto simp: worker_text_def intro!: ws_intro split: option.splits)

lemma all_ws_op_text [ws_intro]: "all_ws P s \<Longrightarrow> all_ws P (op_text n u k dk s)"
  by (auto simp: op_text_def intro: ws_intro ws_eq split: option.splits sum.splits prod.splits)

lemma all_ws_emit [ws_intro]: "all_ws P s \<Longrightarrow> all_ws P (emit n u k c sv h dk s)"
  by (auto simp: emit_def Let_def set_notification_def intro!: ws_intro all_ws_edit split: option.splits)

lemma all_ws_resolve [ws_intro]: "all_ws P s \<Longrightarrow> all_ws P (resolve_notification u k n s)"
  by (auto simp: resolve_notification_def set_notification_def intro!: ws_intro all_ws_edit
      split: option.splits)

lemma all_ws_create_operation [ws_intro]:
  "all_ws P s \<Longrightarrow> all_ws P (snd (create_operation k u w a s))"
  by (auto simp: create_operation_def Let_def intro!: ws_intro all_ws_edit split: option.splits)

lemma all_ws_create_operation_eq [ws_eq]:
  "create_operation k u w a s = (p, s') \<Longrightarrow> all_ws P s \<Longrightarrow> all_ws P s'"
  using all_ws_create_operation [of P s k u w a] by simp

lemma set_operation_frame [frame, simp]: "workspaces (set_operation i f d) = workspaces d"
  by (simp add: set_operation_def)

lemma all_ws_progress [ws_intro]: "all_ws P s \<Longrightarrow> all_ws P (op_progress p c s)"
  by (auto simp: op_progress_def intro!: ws_intro all_ws_edit)

lemma all_ws_finish [ws_intro]: "all_ws P s \<Longrightarrow> all_ws P (op_finish p n s)"
  by (auto simp: op_finish_def Let_def intro!: ws_intro all_ws_edit split: option.splits)

lemma all_ws_op_fail [ws_intro]: "all_ws P s \<Longrightarrow> all_ws P (op_fail p c n s)"
  by (auto simp: op_fail_def Let_def intro!: ws_intro all_ws_edit split: option.splits)

lemma all_ws_post [ws_intro]: "all_ws P s \<Longrightarrow> all_ws P (snd (post_transaction u ws k n p dt sc c s))"
  by (auto simp: post_transaction_def Let_def intro!: ws_intro all_ws_edit)

lemma all_ws_settle_period [ws_eq]:
  "settle_period w p on ch mh f t s = Inr (n, s') \<Longrightarrow> all_ws P s \<Longrightarrow> all_ws P s'"
  by (auto simp: settle_period_def andthen_Inr_iff Let_def case_prod_beta intro: ws_intro
      split: if_splits)

lemma all_ws_settle_elapsed [ws_eq]:
  "settle_elapsed now w on t s = Inr (n, s') \<Longrightarrow> all_ws P s \<Longrightarrow> all_ws P s'"
  by (auto simp: settle_elapsed_def Let_def intro: ws_intro ws_eq split: option.splits if_splits)

lemma all_ws_others [ws_intro]: "all_ws P s \<Longrightarrow> all_ws P (others_commit rs s)"
proof (induction rs arbitrary: s)
  case Nil
  then show ?case by simp
next
  case (Cons r rs)
  from Cons.prems have "all_ws P (if port_conflict (saved s) r then s
      else s\<lparr>cur := (cur s)\<lparr>exposed_ports := exposed_ports (cur s) @ [r]\<rparr>,
             saved := (saved s)\<lparr>exposed_ports := exposed_ports (saved s) @ [r]\<rparr>\<rparr>)"
    by (simp add: all_ws_def)
  from Cons.IH [OF this] show ?case by simp
qed

lemma all_ws_alloc_loop:
  "alloc_loop ws internal proto nt kind taken att s = (r, s') \<Longrightarrow> all_ws P s \<Longrightarrow> all_ws P s'"
proof (induction att arbitrary: taken s)
  case Nil
  then show ?case by simp
next
  case (Cons a att)
  have keep: "all_ws P (next_id (others_commit (at_others a) s))"
    by (rule all_ws_next_id [OF all_ws_others [OF Cons.prems(2)]])
  show ?case
    using Cons.prems(1) Cons.IH [OF _ Cons.prems(2)]
      Cons.IH [OF _ all_ws_rollback [OF keep]] all_ws_commit [OF all_ws_edit [OF keep]]
    by (cases "candidate a \<in> set taken \<or> \<not> at_free a";
        cases "port_conflict (cur (next_id (others_commit (at_others a) s)))
          (new_port (seq (next_id (others_commit (at_others a) s))) ws internal (candidate a) proto nt kind)")
      (auto simp add: Let_def simp del: session_simps)
qed

lemma all_ws_allocate [ws_eq]:
  "allocate ws internal proto nt kind as s = (r, s') \<Longrightarrow> all_ws P s \<Longrightarrow> all_ws P s'"
  by (auto simp: allocate_def intro: all_ws_alloc_loop split: if_splits)

lemma all_ws_reserve_loop:
  "reserve_loop ws ks as s = (r, s') \<Longrightarrow> all_ws P s \<Longrightarrow> all_ws P s'"
proof (induction ws ks as s arbitrary: r s' rule: reserve_loop.induct)
  case (1 ws att s)
  then show ?case by simp
next
  case (2 ws kind internal ks att s)
  obtain q s1 where q: "(case ports_of (cur s) ws kind of p # _ \<Rightarrow> (return p, s)
      | [] \<Rightarrow> allocate ws internal ''tcp'' None kind (att kind) s) = (q, s1)" by fastforce
  with 2(3) have "all_ws P s1" by (auto intro: ws_intro ws_eq split: list.splits)
  with 2 q show ?case
    by (cases q) (auto simp: Let_def split: prod.splits sum.splits)
qed

lemma all_ws_reserve [ws_eq]:
  "reserve_service_ports ws as s = (r, s') \<Longrightarrow> all_ws P s \<Longrightarrow> all_ws P s'"
  unfolding reserve_service_ports_def by (rule all_ws_reserve_loop)

section \<open>Loops over the rows\<close>

lemma each_ws_invariant:
  assumes "\<And>w s. Q s \<Longrightarrow> get_ws (cur s) (w_id w) = Some w \<Longrightarrow> Q (snd (body w s))"
    and "\<And>s. Q s \<Longrightarrow> Q (rollback s)" and "Q s"
  shows "Q (snd (each_ws body ids s))"
  using assms(3)
proof (induction ids arbitrary: s)
  case Nil
  then show ?case by simp
next
  case (Cons i js)
  show ?case
  proof (cases "get_ws (cur s) i")
    case None
    with Cons show ?thesis by simp
  next
    case (Some w)
    then have "get_ws (cur s) (w_id w) = Some w" using get_ws_SomeD by fastforce
    from assms(1) [OF Cons.prems this] have q: "Q (snd (body w s))" .
    obtain e s1 where b: "body w s = (e, s1)" by fastforce
    with q Some Cons.IH assms(2) show ?thesis by (cases e) simp_all
  qed
qed

lemma each_ws_all:
  assumes "\<And>w s. all_ws P s \<Longrightarrow> P w \<Longrightarrow> all_ws P (snd (body w s))" and "all_ws P s"
  shows "all_ws P (snd (each_ws body ids s))"
  by (rule each_ws_invariant [where Q = "all_ws P"])
    (use assms in \<open>auto intro: ws_intro dest: all_ws_get\<close>)

text \<open>A loop none of whose rounds raises does not raise.\<close>

lemma each_ws_quiet:
  assumes "\<And>w s. Q s \<Longrightarrow> get_ws (cur s) (w_id w) = Some w \<Longrightarrow> fst (body w s) = None \<and> Q (snd (body w s))"
    and "Q s"
  shows "fst (each_ws body ids s) = None"
  using assms(2)
proof (induction ids arbitrary: s)
  case Nil
  then show ?case by simp
next
  case (Cons i js)
  show ?case
  proof (cases "get_ws (cur s) i")
    case None
    with Cons show ?thesis by simp
  next
    case (Some w)
    then have g: "get_ws (cur s) (w_id w) = Some w" using get_ws_SomeD by fastforce
    obtain e s1 where b: "body w s = (e, s1)" by fastforce
    with assms(1) [OF Cons.prems g] Some Cons.IH show ?thesis by simp
  qed
qed

end
