(* ===== verification/Lifecycle.thy ===== *)
theory Lifecycle
  imports Rows
begin

text \<open>
  The workspace as a state machine: every handler and pass of the model is a step on the
  session, the host's forwarding rules and the supplier's keys, in any order and with any
  replies and clock readings. The two halves of a power change are steps of their own, so that
  passes of the worker come in between. The invariants are proved by induction on the steps.
\<close>

section \<open>The invariant of a row\<close>

definition one_bot :: "workspace \<Rightarrow> bool" where
  "one_bot w \<longleftrightarrow> \<not> (h_telegram_enabled (w_hermes w) \<and> oc_telegram_enabled (w_openclaw w))"

definition offered_size :: "workspace \<Rightarrow> bool" where
  "offered_size w \<longleftrightarrow> w_cpu_milli w \<in> set CPU_OPTIONS_MILLI \<and> w_mem_mib w \<in> set MEM_OPTIONS_MIB
     \<and> 0 < w_disk_gib w"

definition row_ok :: "workspace \<Rightarrow> bool" where
  "row_ok w \<longleftrightarrow> (w_state w = ON \<longrightarrow> w_period_start w \<noteq> None)
     \<and> (w_state w = ARCHIVED \<longrightarrow> w_purge_after w \<noteq> None) \<and> offered_size w \<and> one_bot w"

lemma offered_size_tier: "offered_size w \<Longrightarrow> \<exists>t. tier_of w = Inr t"
  by (simp add: offered_size_def tier_of_def mk_tier_def)

lemma mk_tier_offered:
  "mk_tier c m d = Inr t \<Longrightarrow> c \<in> set CPU_OPTIONS_MILLI \<and> m \<in> set MEM_OPTIONS_MIB
     \<and> 0 < d \<and> cpu_milli t = c \<and> mem_mib t = m"
  by (auto simp: mk_tier_def split: if_splits)

lemmas row_defs = row_ok_def one_bot_def offered_size_def w_disk_gib_def

lemma row_ok_requested:
  "mk_tier c m d = Inr t \<Longrightarrow> row_ok (requested_workspace i u idx now c m)"
  by (drule mk_tier_offered)
    (simp add: row_defs requested_workspace_def new_workspace_def sample_hermes_def sample_openclaw_def)

text \<open>The rewritings of a row, each keeping the invariant.\<close>

lemma row_ok_state: "row_ok w \<Longrightarrow> x \<noteq> ON \<Longrightarrow> x \<noteq> ARCHIVED \<Longrightarrow> row_ok (w\<lparr>w_state := x\<rparr>)"
  and row_ok_disarm: "row_ok w \<Longrightarrow> row_ok (disarm_auto_stop w)"
  and row_ok_arm: "row_ok w \<Longrightarrow> row_ok (arm_auto_stop cf now w)"
  and row_ok_stopped: "row_ok w \<Longrightarrow> row_ok (stopped_row w)"
  and row_ok_started: "row_ok w \<Longrightarrow> row_ok (started_row cf now w)"
  and row_ok_adopted: "row_ok w \<Longrightarrow> row_ok (adopted_row now on w)"
  and row_ok_period: "row_ok w \<Longrightarrow> row_ok (w\<lparr>w_period_start := Some t\<rparr>)"
  and row_ok_disk: "row_ok w \<Longrightarrow> row_ok (disk_row now n w)"
  and row_ok_reset_intent: "row_ok w \<Longrightarrow> row_ok (reset_intent w)"
  and row_ok_reset: "row_ok w \<Longrightarrow> row_ok (reset_row w)"
  and row_ok_error: "row_ok w \<Longrightarrow> row_ok (error_row e w)"
  by (auto simp: row_defs disarm_auto_stop_def arm_auto_stop_def stopped_row_def started_row_def
      adopted_row_def disk_row_def reset_intent_def reset_row_def error_row_def)

lemma row_ok_web: "row_ok w \<Longrightarrow> row_ok (set_web app f w)"
  by (cases app) (auto simp: row_defs)

lemma row_ok_hermes:
  "row_ok w \<Longrightarrow> (h_telegram_enabled (f (w_hermes w)) \<Longrightarrow>
     h_telegram_enabled (w_hermes w) \<or> \<not> oc_telegram_enabled (w_openclaw w)) \<Longrightarrow> row_ok (set_hermes f w)"
  by (auto simp: row_defs set_hermes_def)

lemma row_ok_openclaw:
  "row_ok w \<Longrightarrow> (oc_telegram_enabled (f (w_openclaw w)) \<Longrightarrow>
     oc_telegram_enabled (w_openclaw w) \<or> \<not> h_telegram_enabled (w_hermes w)) \<Longrightarrow> row_ok (set_openclaw f w)"
  by (auto simp: row_defs set_openclaw_def)

lemma w_keys_simps [simp]:
  "w_keys (disarm_auto_stop w) = w_keys w" "w_keys (arm_auto_stop cf now w) = w_keys w"
  "w_keys (stopped_row w) = w_keys w" "w_keys (started_row cf now w) = w_keys w"
  "w_keys (adopted_row now on w) = w_keys w" "w_keys (disk_row now n w) = w_keys w"
  "w_keys (reset_intent w) = w_keys w" "w_keys (reset_row w) = w_keys w"
  "w_keys (error_row e w) = w_keys w" "w_keys (set_web app g w) = w_keys w"
  "w_keys (set_hermes h w) = w_keys w" "w_keys (set_openclaw k w) = w_keys w"
  by (cases app; simp add: w_keys_def disarm_auto_stop_def arm_auto_stop_def stopped_row_def
      started_row_def adopted_row_def disk_row_def reset_intent_def reset_row_def error_row_def
      set_hermes_def set_openclaw_def)+

lemma w_keys_updates [simp]:
  "w_keys (w\<lparr>w_state := a\<rparr>) = w_keys w" "w_keys (w\<lparr>w_error := b\<rparr>) = w_keys w"
  "w_keys (w\<lparr>w_desired_on := c\<rparr>) = w_keys w" "w_keys (w\<lparr>w_period_start := d\<rparr>) = w_keys w"
  "w_keys (w\<lparr>w_cpu_milli := e\<rparr>) = w_keys w" "w_keys (w\<lparr>w_mem_mib := f\<rparr>) = w_keys w"
  "w_keys (w\<lparr>w_archived_at := d\<rparr>) = w_keys w" "w_keys (w\<lparr>w_purge_after := d\<rparr>) = w_keys w"
  by (simp_all add: w_keys_def)

lemmas row_ok_rules = row_ok_state row_ok_disarm row_ok_arm row_ok_stopped row_ok_started
  row_ok_adopted row_ok_period row_ok_disk row_ok_reset_intent row_ok_reset row_ok_error row_ok_web

abbreviation rows_ok :: "session \<Rightarrow> bool" where
  "rows_ok \<equiv> all_ws row_ok"

section \<open>Handlers\<close>

lemma rows_mark_error [ws_intro]: "rows_ok s \<Longrightarrow> rows_ok (mark_error i e s)"
  by (auto simp: mark_error_def row_defs intro!: ws_intro all_ws_update)

text \<open>A row with a fresh id, for a customer without a machine, in the lowest free slot.\<close>

lemma rows_append:
  assumes "rows_ok s" and "row_ok w" and "w_id w = seq s + 1"
    and "my_workspace (cur s) u = None" and "w_user_id w = u_id u" and "w_idx w = next_free_idx (cur s)"
  shows "rows_ok (edit (\<lambda>d. d\<lparr>workspaces := workspaces d @ [w]\<rparr>) (next_id s))"
proof -
  have "w_idx w \<notin> w_idx ` set (workspaces (cur s))"
    using free_from_spec [of 1 "map w_idx (workspaces (cur s))"] assms(6)
    by (simp add: next_free_idx_def)
  moreover have "w_user_id w \<notin> w_user_id ` set (workspaces (cur s))"
    using assms(4,5) by (auto simp: my_workspace_def find_None_iff')
  moreover have "w_id w \<notin> w_id ` set (workspaces (cur s))"
    using assms(1,3) by (fastforce simp: all_ws_def table_ok_def)
  ultimately show ?thesis
    using assms(1-3) by (auto simp: all_ws_def table_ok_def intro: order_trans)
qed

lemma rows_create_workspace [ws_intro]:
  assumes "rows_ok s" shows "rows_ok (snd (create_workspace now u c m s))"
proof (cases "mk_tier c m (DEFAULT_ROOT_GIB + DEFAULT_DOCKER_GIB)")
  case (Inl e)
  with assms show ?thesis by (simp add: create_workspace_def)
next
  case (Inr t)
  let ?w = "requested_workspace (seq s + 1) (u_id u) (next_free_idx (cur s)) now c m"
  have "rows_ok (edit (\<lambda>d. d\<lparr>workspaces := workspaces d @ [?w]\<rparr>) (next_id s))"
    if "my_workspace (cur s) u = None"
    using assms that row_ok_requested [OF Inr]
    by (intro rows_append [where u = u]) (simp_all add: requested_workspace_def new_workspace_def)
  with Inr assms show ?thesis
    by (auto simp: create_workspace_def Let_def intro!: ws_intro intro: ws_eq split: prod.splits)
qed

lemma rows_update:
  "rows_ok s \<Longrightarrow> (\<And>w. row_ok w \<Longrightarrow> w_keys (f w) = w_keys w) \<Longrightarrow> (\<And>w. row_ok w \<Longrightarrow> row_ok (f w))
     \<Longrightarrow> rows_ok (update_ws i f s)"
  by (rule all_ws_update)

lemma rows_close_run [ws_eq]: "close_run now w s = Inr s' \<Longrightarrow> rows_ok s \<Longrightarrow> rows_ok s'"
  by (auto simp: close_run_def andthen_Inr_iff intro!: rows_update row_ok_stopped intro: ws_eq)

lemma rows_delete_workspace [ws_intro]: "rows_ok s \<Longrightarrow> rows_ok (snd (delete_workspace vp now u c p s))"
  by (auto simp: delete_workspace_def Let_def row_defs intro!: ws_intro all_ws_update
      intro: ws_eq split: sum.splits prod.splits option.splits if_splits)

lemma rows_keep_running [ws_intro]: "rows_ok s \<Longrightarrow> rows_ok (snd (keep_running u s))"
  by (auto simp: keep_running_def intro!: ws_intro rows_update row_ok_disarm split: option.splits)

lemma rows_power_on_begin [ws_intro]: "rows_ok s \<Longrightarrow> rows_ok (snd (power_on_begin cpus kb w s))"
  by (auto simp: power_on_begin_def row_defs intro!: ws_intro all_ws_update
      split: sum.splits prod.splits)

lemma rows_power_on_finish [ws_intro]:
  "rows_ok s \<Longrightarrow> rows_ok (snd (power_on_finish cf now patch start u w s))"
  by (auto simp: power_on_finish_def intro!: ws_intro rows_update row_ok_started
      split: sum.splits incus_reply.splits)

lemma rows_power_off_begin [ws_intro]: "rows_ok s \<Longrightarrow> rows_ok (snd (power_off_begin w s))"
  by (auto simp: power_off_begin_def intro!: ws_intro rows_update row_ok_state)

lemma rows_power_off_finish [ws_intro]:
  "rows_ok s \<Longrightarrow> rows_ok (snd (power_off_finish now stop a u w s))"
  by (auto simp: power_off_finish_def intro!: ws_intro intro: ws_eq split: sum.splits incus_reply.splits)

lemma rows_workspace_power [ws_intro]:
  "rows_ok s \<Longrightarrow> rows_ok (snd (workspace_power cf cpus kb ic now u on s))"
  using rows_power_on_begin [of s cpus kb] rows_power_off_begin [of s]
  by (auto simp: workspace_power_def split: option.splits prod.splits
      intro!: rows_power_on_finish rows_power_off_finish) (metis snd_conv)+

lemma rows_admin_power_off [ws_intro]: "rows_ok s \<Longrightarrow> rows_ok (snd (admin_power_off ic now a i s))"
  using rows_power_off_begin [of s]
  by (auto simp: admin_power_off_def split: option.splits prod.splits
      intro!: rows_power_off_finish) (metis snd_conv)+

lemma rows_workspace_reset [ws_intro]: "rows_ok s \<Longrightarrow> rows_ok (snd (workspace_reset vp now u c p s))"
  by (auto simp: workspace_reset_def Let_def row_defs intro!: ws_intro all_ws_update
      intro: ws_eq split: sum.splits prod.splits option.splits if_splits)

lemma row_ok_resized:
  assumes "parse_tier c m (Some dk) = Inr new" and "row_ok w"
  shows "row_ok (w\<lparr>w_cpu_milli := cpu_milli new, w_mem_mib := mem_mib new\<rparr>)"
proof -
  from assms(1) obtain c' m' where "mk_tier c' m' dk = Inr new"
    by (auto simp: parse_tier_def split: option.splits)
  then have "cpu_milli new \<in> set CPU_OPTIONS_MILLI" "mem_mib new \<in> set MEM_OPTIONS_MIB"
    using mk_tier_offered by auto
  with assms(2) show ?thesis by (simp add: row_defs)
qed

lemma rows_workspace_tier [ws_intro]:
  "rows_ok s \<Longrightarrow> rows_ok (snd (workspace_tier cpus kb ic now u c m s))"
  unfolding workspace_tier_def Let_def
  by (auto split: option.splits sum.splits bool.splits incus_reply.splits
      intro!: ws_intro rows_update row_ok_period intro: ws_eq row_ok_resized)

section \<open>Passes of the worker\<close>

lemma rows_meter [ws_intro]: "rows_ok s \<Longrightarrow> rows_ok (meter_once now scrape s)"
  by (auto simp: meter_once_def intro!: ws_intro all_ws_edit split: option.splits)

lemma rows_settle_body:
  assumes "rows_ok s" shows "rows_ok (snd (settle_body stop now w s))"
proof -
  have off: "row_ok v \<Longrightarrow> row_ok (v\<lparr>w_state := OFF, w_desired_on := False\<rparr>)" for v
    by (auto simp: row_defs)
  have charged: "rows_ok (commit (update_ws (w_id w) (\<lambda>w. w\<lparr>w_period_start := Some t\<rparr>) s1))"
    if "settle_period w p po c m 1 None s = Inr (n, s1)" for p po c m n s1 t
  proof -
    have "rows_ok s1" using that assms by (auto intro: ws_eq)
    then show ?thesis by (intro ws_intro rows_update row_ok_period) simp_all
  qed
  have stopped: "rows_ok (commit (worker_text now u k dk (update_ws i
      (\<lambda>w. w\<lparr>w_state := OFF, w_desired_on := False\<rparr>) s2)))" if "rows_ok s2" for u k dk i s2
    using that by (intro ws_intro rows_update off) simp_all
  show ?thesis
    unfolding settle_body_def Let_def using assms
    by (simp add: charged stopped split: option.split sum.split prod.split incus_reply.split bool.split)
qed

lemma rows_settle [ws_intro]: "rows_ok s \<Longrightarrow> rows_ok (snd (settle_once stop now s))"
  unfolding settle_once_def by (rule each_ws_all) (simp_all add: rows_settle_body)

lemma rows_auto_stop [ws_intro]: "rows_ok s \<Longrightarrow> rows_ok (snd (auto_stop_once stop now s))"
  unfolding auto_stop_once_def
  by (rule each_ws_all) (auto simp: auto_stop_body_def intro!: ws_intro intro: ws_eq
      split: incus_reply.splits sum.splits)

lemma rows_lifecycle_body:
  assumes "rows_ok s" shows "rows_ok (snd (lifecycle_body cf ar ds now w s))"
proof -
  have "rows_ok (commit (update_ws (w_id w) (\<lambda>r. case ar w of
      ProvOk \<Rightarrow> r\<lparr>w_state := ARCHIVED, w_archived_at := Some now,
        w_purge_after := Some (now + cf_archive_retention_days cf * 24 * hour)\<rparr>
    | ProvFails e \<Rightarrow> r\<lparr>w_state := OFF, w_error := e\<rparr>)
      (commit (update_ws (w_id w) (\<lambda>w. w\<lparr>w_state := ARCHIVING\<rparr>) s))))"
    using assms by (auto intro!: ws_intro rows_update simp: row_defs split: prov_reply.splits)
  with assms show ?thesis
    unfolding lifecycle_body_def Let_def
    by (auto split: prov_reply.splits intro!: ws_intro rows_update row_ok_state)
qed

lemma rows_lifecycle [ws_intro]: "rows_ok s \<Longrightarrow> rows_ok (snd (lifecycle_once cf ar ds now s))"
  unfolding lifecycle_once_def by (rule each_ws_all) (simp_all add: rows_lifecycle_body)

lemma rows_adopt [ws_intro]: "rows_ok s \<Longrightarrow> rows_ok (adopt now on w s)"
  by (auto simp: adopt_def intro!: ws_intro rows_update row_ok_adopted)

lemma rows_reconcile_body:
  assumes "rows_ok s" shows "rows_ok (snd (reconcile_body cf cpus kb st start stop now w s))"
proof -
  have halted: "row_ok v \<Longrightarrow> row_ok (disarm_auto_stop (v\<lparr>w_state := OFF, w_period_start := None\<rparr>))" for v
    by (auto simp: row_defs disarm_auto_stop_def)
  show ?thesis
  proof (cases "st w")
    case None
    with assms show ?thesis by (simp add: reconcile_body_def)
  next
    case (Some on)
    define s1 where "s1 = adopt now on w s"
    define r where "r = reload w s1"
    have ok: "rows_ok s1" using assms by (simp add: s1_def rows_adopt)
    have stop_ok: "rows_ok (commit (update_ws (w_id w)
        (\<lambda>w. disarm_auto_stop (w\<lparr>w_state := OFF, w_period_start := None\<rparr>)) s1))"
      by (rule all_ws_commit [OF rows_update [OF ok _ halted]]) simp_all
    have restore_ok: "rows_ok (commit (update_ws (w_id w) (\<lambda>v. if b then (case start w of
        IncusOk \<Rightarrow> arm_auto_stop cf now v | IncusFails _ \<Rightarrow> v\<lparr>w_state := OFF\<rparr>)
        else v\<lparr>w_state := OFF\<rparr>) s1))" for b
      by (rule all_ws_commit [OF rows_update [OF ok]])
        (auto simp: row_ok_arm row_ok_state split: incus_reply.split)
    show ?thesis
      by (simp add: reconcile_body_def Some Let_def flip: s1_def r_def)
        (simp add: ok stop_ok restore_ok split: sum.split prod.split incus_reply.split)
  qed
qed

lemma rows_reconcile [ws_intro]:
  "rows_ok s \<Longrightarrow> rows_ok (snd (reconcile_once cf cpus kb st start stop now s))"
  unfolding reconcile_once_def by (rule each_ws_all) (simp_all add: rows_reconcile_body)

lemma rows_prune [ws_intro]: "rows_ok s \<Longrightarrow> rows_ok (prune_samples_once now s)"
  by (auto simp: prune_samples_once_def intro!: ws_intro all_ws_edit)

lemma rows_reserve_ports [ws_intro]:
  assumes "rows_ok s" shows "rows_ok (fst (snd (reserve_service_ports_once draws reply (s, rules))))"
proof -
  have "rows_ok (snd (each_ws (reserve_body draws) ids s))" for ids
    using assms by (intro each_ws_all)
      (auto simp: reserve_body_def intro!: ws_intro intro: ws_eq split: sum.splits prod.splits)
  moreover obtain e s1 where "each_ws (reserve_body draws)
      (ws_ids (\<lambda>w. w_state w \<noteq> DELETED \<and> w_state w \<noteq> DELETING) (cur s)) s = (e, s1)"
    by fastforce
  ultimately have "rows_ok s1" by (metis snd_conv)
  with \<open>each_ws _ _ s = (e, s1)\<close> show ?thesis
    by (cases e) (simp_all add: reserve_service_ports_once_def Let_def)
qed

lemma fold_all_ws: "(\<And>x s. all_ws P s \<Longrightarrow> all_ws P (f x s)) \<Longrightarrow> all_ws P s \<Longrightarrow> all_ws P (fold f xs s)"
  by (induction xs arbitrary: s) auto

lemma rows_low_credit [ws_intro]: "rows_ok s \<Longrightarrow> rows_ok (low_credit_once cf now s)"
  by (auto simp: low_credit_once_def low_credit_user_def Let_def intro!: fold_all_ws ws_intro)

lemma rows_text_admins [ws_intro]: "rows_ok s \<Longrightarrow> rows_ok (text_admins now k dk s)"
  by (auto simp: text_admins_def intro!: ws_intro fold_all_ws)

lemma rows_alerts [ws_intro]: "rows_ok s \<Longrightarrow> rows_ok (alerts_once cf now r s)"
  by (auto simp: alerts_once_def Let_def intro!: ws_intro split: option.splits)

lemma rows_set_band [ws_intro]: "rows_ok s \<Longrightarrow> rows_ok (set_band i b s)"
  by (auto simp: set_band_def set_user_def intro!: all_ws_edit)

lemma rows_credit_step [ws_intro]: "rows_ok s \<Longrightarrow> rows_ok (credit_step_once now s)"
  by (auto simp: credit_step_once_def credit_step_user_def Let_def intro!: fold_all_ws ws_intro
      split: option.splits)

lemma rows_disk_warn [ws_intro]: "rows_ok s \<Longrightarrow> rows_ok (disk_warn cf now w n s)"
  by (auto simp: disk_warn_def Let_def intro!: ws_intro rows_update row_ok_disk)

lemma rows_disk_samples [ws_intro]: "rows_ok s \<Longrightarrow> rows_ok (disk_samples cf now xs s)"
  by (auto simp: disk_samples_def intro!: ws_intro fold_all_ws split: option.splits)

lemma rows_pool_guard [ws_intro]:
  "rows_ok s \<Longrightarrow> rows_ok (snd (pool_guard cf stop again now free ws s))"
proof (induction cf stop again now free ws s rule: pool_guard.induct)
  case (1 cf stop again now free s)
  then show ?case by simp
next
  case (2 cf stop again now free w ws s)
  show ?case
  proof (cases "free \<ge> cf_pool_floor_gib cf")
    case True
    with 2(3) show ?thesis by simp
  next
    case low: False
    show ?thesis
    proof (cases "stop w")
      case IncusOk
      show ?thesis
      proof (cases "close_run now w s")
        case (Inl e)
        with low IncusOk 2(3) show ?thesis by (simp add: ws_intro)
      next
        case (Inr s1)
        have "rows_ok s1" by (rule rows_close_run [OF Inr 2(3)])
        with 2(1) [OF low IncusOk Inr refl refl refl] low IncusOk Inr show ?thesis
          by (simp add: Let_def ws_intro)
      qed
    next
      case (IncusFails e)
      with 2(2) [OF low] 2(3) low show ?thesis by simp
    qed
  qed
qed

lemma rows_disk [ws_intro]: "rows_ok s \<Longrightarrow> rows_ok (snd (disk_once cf reply stop again now s))"
  by (auto simp: disk_once_def Let_def intro!: ws_intro all_ws_edit split: option.splits)

lemma rows_heartbeat [ws_intro]: "rows_ok s \<Longrightarrow> rows_ok (heartbeat_once now failed s)"
  by (auto simp: heartbeat_once_def Let_def intro!: ws_intro all_ws_edit)

section \<open>AI applications and keys\<close>

lemma has_tele_off [simp]: "\<not> h_telegram_enabled (telegram_off h)"
  by (simp add: telegram_off_def)

text \<open>What enabling Hermes does to the row that was checked.\<close>

lemma hermes_telegram_row:
  assumes "hermes_telegram b u w = Inr (fw, fu)"
  shows "row_ok w \<Longrightarrow> row_ok (fw w)" and "w_keys (fw v) = w_keys v"
  using assms
  by (auto simp: hermes_telegram_def Let_def telegram_off_def intro!: row_ok_hermes
      split: option.splits bool.splits if_splits)

lemma rows_ai_hermes [ws_intro]:
  assumes "rows_ok s" shows "rows_ok (snd (ai_hermes b u s))"
proof -
  have ed: "edit (\<lambda>d. set_user i fu (set_ws j g d)) s
      = edit (set_user i fu) (update_ws j g s)" for i j fu g
    by (simp add: edit_def update_ws_def)
  have u: "rows_ok t \<Longrightarrow> rows_ok (edit (set_user i fu) t)" for t i fu
    by (rule all_ws_edit) (simp_all add: set_user_def)
  have flag: "row_ok v \<Longrightarrow> row_ok (set_hermes (\<lambda>h. h\<lparr>h_enabled := e, h_error := None\<rparr>) v)" for v e
    by (rule row_ok_hermes) simp_all
  show ?thesis
  proof (cases "my_workspace (cur s) u")
    case None
    with assms show ?thesis by (simp add: ai_hermes_def)
  next
    case (Some w)
    let ?r = "if ha_action b = Enable then hermes_telegram b u w
              else return (set_hermes (\<lambda>h. (telegram_off h)\<lparr>h_vhost_ready := False\<rparr>), id)"
    note loaded = mine_is_get [OF assms Some]
    show ?thesis
    proof (cases ?r)
      case (Inl a)
      with Some assms show ?thesis by (auto simp: ai_hermes_def intro: ws_intro)
    next
      case (Inr p)
      obtain fw fu where p: "p = (fw, fu)" by fastforce
      have "row_ok w \<Longrightarrow> row_ok (fw w)" and keys: "w_keys (fw v) = w_keys v" for v
        using Inr p hermes_telegram_row [of b u w fw fu]
        by (auto split: if_splits intro!: row_ok_hermes)
      then have "rows_ok (update_ws (w_id w) (\<lambda>w. set_hermes
          (\<lambda>h. h\<lparr>h_enabled := (ha_action b = Enable), h_error := None\<rparr>) (fw w)) s)"
        using loaded by (intro all_ws_update_row [OF assms] flag) auto
      with Some Inr p assms show ?thesis
        by (auto simp: ai_hermes_def ed intro!: ws_intro u)
    qed
  qed
qed

lemma rows_ai_openclaw [ws_intro]: "rows_ok s \<Longrightarrow> rows_ok (snd (ai_openclaw act u s))"
  by (auto simp: ai_openclaw_def intro!: ws_intro rows_update row_ok_openclaw split: option.splits)

lemma rows_ai_openclaw_telegram [ws_intro]:
  assumes "rows_ok s" shows "rows_ok (snd (ai_openclaw_telegram act u s))"
proof (cases "my_workspace (cur s) u")
  case None
  with assms show ?thesis by (simp add: ai_openclaw_telegram_def)
next
  case (Some w)
  have "rows_ok (update_ws (w_id w) (set_openclaw (\<lambda>q. q\<lparr>oc_telegram_enabled := (act = Enable),
      oc_error := None, oc_telegram_error := None\<rparr>)) s)"
    if "act = Enable \<Longrightarrow> \<not> h_telegram_enabled (w_hermes w)"
    using mine_is_get [OF assms Some] that
    by (intro all_ws_update_row [OF assms] row_ok_openclaw) auto
  with Some assms show ?thesis
    by (auto simp: ai_openclaw_telegram_def intro!: ws_intro)
qed

lemma rows_ai_managed_web [ws_intro]: "rows_ok s \<Longrightarrow> rows_ok (snd (ai_managed_web app act u s))"
  by (auto simp: ai_managed_web_def intro!: ws_intro rows_update row_ok_web split: option.splits)

lemma row_ok_hermes_disabled: "row_ok w \<Longrightarrow> row_ok (set_hermes hermes_disabled w)"
  by (rule row_ok_hermes) (simp_all add: hermes_disabled_def)

lemma rows_hermes_install [ws_intro]: "rows_ok s \<Longrightarrow> rows_ok (snd (hermes_install r dr w s))"
  by (auto simp: hermes_install_def Let_def intro!: ws_intro rows_update row_ok_hermes_disabled
      row_ok_hermes split: app_reply.splits option.splits)

lemma rows_hermes_installs [ws_intro]: "rows_ok s \<Longrightarrow> rows_ok (snd (hermes_installs rs dr s))"
  unfolding hermes_installs_def by (rule each_ws_all) (simp_all add: rows_hermes_install)

lemma rows_openclaw_body: "rows_ok s \<Longrightarrow> rows_ok (snd (openclaw_body rs sec w s))"
  by (auto simp: openclaw_body_def Let_def intro!: ws_intro rows_update row_ok_openclaw
      split: app_reply.splits)

lemma rows_openclaw [ws_intro]: "rows_ok s \<Longrightarrow> rows_ok (snd (openclaw_once rs sec s))"
  unfolding openclaw_once_def by (rule each_ws_all) (simp_all add: rows_openclaw_body)

lemma rows_managed_web_app [ws_intro]:
  assumes "rows_ok s" shows "rows_ok (snd (managed_web_app rs sec app w s))"
proof -
  have put: "rows_ok t \<Longrightarrow> rows_ok (update_ws (w_id w) (set_web a f) t)" for t f a
    by (rule rows_update) (simp_all add: row_ok_web)
  show ?thesis
    by (simp add: managed_web_app_def Let_def put assms all_ws_commit split: app_reply.split)
qed

lemma rows_managed_web_body: "rows_ok s \<Longrightarrow> rows_ok (snd (managed_web_body rs sec w s))"
  using rows_managed_web_app [of s rs sec Opencode w]
  by (auto simp: managed_web_body_def intro!: rows_managed_web_app split: prod.splits option.splits)

lemma rows_managed_web [ws_intro]: "rows_ok s \<Longrightarrow> rows_ok (snd (managed_web_once rs sec s))"
proof -
  assume ok: "rows_ok s"
  have "rows_ok (snd (each_ws (managed_web_body rs sec) (ws_ids (\<lambda>_. True) (cur s)) s))"
    by (rule each_ws_all) (simp_all add: rows_managed_web_body ok)
  then show ?thesis by (auto simp: managed_web_once_def split: prod.splits intro: ws_intro)
qed

lemma rows_set_account [ws_intro]: "rows_ok s \<Longrightarrow> rows_ok (set_account i f s)"
  by (auto simp: set_account_def intro!: all_ws_edit)

lemma rows_hermes_meter [ws_intro]: "rows_ok s \<Longrightarrow> rows_ok (snd (hermes_meter now a c r d s))"
  by (auto simp: hermes_meter_def Let_def case_prod_beta intro!: ws_intro split: option.split)

lemma rows_revoke [ws_intro]: "rows_ok s \<Longrightarrow> rows_ok (fst (snd (revoke_key net strict a (s, sp))))"
  by (auto simp: revoke_key_def case_prod_beta Let_def intro!: ws_intro split: sum.split)

lemma rows_text_user [ws_intro]: "rows_ok s \<Longrightarrow> rows_ok (text_user now i k dk s)"
  by (auto simp: text_user_def intro!: ws_intro split: option.splits)

lemma rows_mint [ws_intro]:
  "rows_ok s \<Longrightarrow> rows_ok (fst (snd (mint_account now net i b cap (s, sp))))"
  by (auto simp: mint_account_def Let_def case_prod_beta intro!: ws_intro split: sum.split prod.split)

lemma rows_sync [ws_intro]:
  "rows_ok s \<Longrightarrow> rows_ok (fst (snd (sync_account now st net r d m a h (s, sp))))"
  by (auto simp: sync_account_def Let_def case_prod_beta intro!: ws_intro split: sum.split)

lemma rows_account [ws_intro]:
  assumes "rows_ok (fst x)" shows "rows_ok (fst (snd (account_pass now st net r d m a x)))"
proof -
  obtain s sp where "x = (s, sp)" by fastforce
  with assms show ?thesis
    by (auto simp: account_pass_def Let_def intro!: ws_intro split: option.split list.split)
qed

lemma rows_account_step: "rows_ok (fst x) \<Longrightarrow> rows_ok (fst (account_step now st nets r d m i x))"
  using rows_account [of x now st "nets i" r d m]
  by (auto simp: account_step_def split: option.splits prod.splits intro!: ws_intro) (metis fst_conv snd_conv)+

lemma rows_openrouter [ws_intro]:
  assumes "rows_ok s" shows "rows_ok (fst (openrouter_once cf now st nets m (s, sp)))"
proof -
  have "rows_ok (fst x) \<Longrightarrow> rows_ok (fst (fold (account_step now st nets r d m) is x))" for "is" r d x
    by (induction "is" arbitrary: x) (simp_all add: rows_account_step)
  moreover have "rows_ok (ensure_accounts s)"
    using assms by (auto simp: ensure_accounts_def intro!: ws_intro all_ws_edit)
  ultimately show ?thesis using assms
    by (simp add: openrouter_once_def Let_def case_prod_beta)
qed

section \<open>Durable operations\<close>

lemma os_session_on [simp]: "os_session (on_session f st) = f (os_session st)"
  by (simp add: on_session_def)

lemma os_session_sync [simp]: "os_session (snd (sync_ports r x st)) = os_session st"
  by (simp add: sync_ports_def case_prod_beta Let_def)

lemma workspaces_drop [simp]:
  "workspaces (drop_workspace i d) = filter (\<lambda>w. w_id w \<noteq> i) (workspaces d)"
  by (simp add: drop_workspace_def)

lemma workspaces_drop_rows [simp]: "workspaces (drop_machine_rows i d) = workspaces d"
  and workspaces_detach [simp]: "workspaces (detach_operations i d) = workspaces d"
  by (simp_all add: drop_machine_rows_def detach_operations_def)

lemma workspaces_erase:
  "workspaces (erase_account u wo d) = (case wo of None \<Rightarrow> workspaces d
     | Some w \<Rightarrow> filter (\<lambda>v. w_id v \<noteq> w_id w) (workspaces d))"
proof -
  have "workspaces (erase_threads i d) = workspaces d" "workspaces (erase_money i d) = workspaces d"
    "workspaces (erase_machine wo d) = workspaces d" "workspaces (erase_phone ph d) = workspaces d"
    "workspaces (erase_traces u wo d) = workspaces d" for i ph d
    by (simp_all add: erase_threads_def erase_money_def erase_machine_def erase_phone_def
        erase_traces_def Let_def split: option.split)
  then show ?thesis
    by (cases wo) (simp_all add: erase_account_def erase_rows_def Let_def)
qed

lemma rows_erase: "rows_ok s \<Longrightarrow> rows_ok (edit (erase_account u wo) s)"
proof (cases wo)
  case None
  assume "rows_ok s"
  then show ?thesis by (rule all_ws_edit) (simp add: None workspaces_erase)
next
  case (Some w)
  assume "rows_ok s"
  then show ?thesis
    by (rule all_ws_edit_filter [where q = "\<lambda>v. w_id v \<noteq> w_id w"]) (simp add: Some workspaces_erase)
qed

lemma rows_delete_op [ws_intro]: "rows_ok s \<Longrightarrow> rows_ok (delete_op p s)"
  by (auto simp: delete_op_def intro!: ws_intro all_ws_edit)

abbreviation state_ok :: "op_state \<Rightarrow> bool" where
  "state_ok st \<equiv> rows_ok (os_session st)"

lemma purge_key_ok:
  assumes "state_ok st" shows "state_ok (snd (purge_key cf ow p i st))"
proof (cases "get_account (cur (os_session st)) i")
  case None
  with assms show ?thesis by (simp add: purge_key_def)
next
  case (Some a)
  let ?s = "op_progress p ''revoking_ai'' (os_session st)"
  obtain e s2 sp2 where r: "revoke_key (ow_supplier ow) True a (?s, os_supplier st) = (e, s2, sp2)"
    by (metis prod_cases3)
  have "rows_ok ?s" using assms by (rule all_ws_progress)
  from rows_revoke [OF this, of "ow_supplier ow" True a "os_supplier st"] r have "rows_ok s2" by simp
  with Some r \<open>rows_ok ?s\<close> assms show ?thesis
    by (cases e) (simp_all add: purge_key_def on_session_def Let_def all_ws_commit)
qed

lemma destroy_machine_ok: "state_ok st \<Longrightarrow> state_ok (snd (destroy_machine ow p w st))"
proof -
  assume ok: "state_ok st"
  let ?st = "on_session (op_progress p ''removing_addresses'') st"
  obtain b st1 where s: "sync_ports (ow_firewall ow) (Some (w_id w)) ?st = (b, st1)" by fastforce
  have "os_session st1 = os_session ?st"
    using os_session_sync [of "ow_firewall ow" "Some (w_id w)" ?st] s by simp
  with ok have "state_ok st1" by (simp add: all_ws_progress)
  with s show ?thesis
    by (cases b) (simp_all add: destroy_machine_def Let_def all_ws_progress split: prov_reply.split)
qed

lemma purge_account_ok:
  assumes "state_ok st" shows "state_ok (snd (purge_account cf ow p st))"
proof (cases "case op_user_id p of None \<Rightarrow> None
    | Some i \<Rightarrow> if i = 0 then None else get_user (cur (os_session st)) i")
  case None
  with assms show ?thesis by (simp add: purge_account_def rows_delete_op)
next
  case (Some u)
  define wo where "wo = find (\<lambda>w. w_user_id w = u_id u) (workspaces (cur (os_session st)))"
  obtain r st1 where k: "purge_key cf ow p (u_id u) st = (r, st1)" by fastforce
  have ok1: "state_ok st1" using purge_key_ok [OF assms, of cf ow p "u_id u"] k by simp
  obtain q st2 where m: "(case wo of None \<Rightarrow> (Ended, st1) | Some w \<Rightarrow> destroy_machine ow p w st1) = (q, st2)"
    by fastforce
  have "state_ok st2"
    using m ok1 destroy_machine_ok [OF ok1, of ow p] by (cases wo) (auto, metis snd_conv)
  with k m ok1 Some show ?thesis
    by (cases r; cases q) (simp_all add: purge_account_def Let_def rows_erase all_ws_commit
        all_ws_progress flip: wo_def)
qed

lemma rows_factory_reset: "rows_ok s \<Longrightarrow> rows_ok (factory_reset ow now p w s)"
  by (auto simp: factory_reset_def Let_def intro!: ws_intro rows_update row_ok_reset_intent
      row_ok_reset row_ok_error split: prov_reply.split incus_reply.split)

lemma rows_dropped:
  "rows_ok s \<Longrightarrow> workspaces (g (cur s)) = workspaces (cur s) \<Longrightarrow>
     rows_ok (edit (\<lambda>d. drop_workspace i (g d)) s)"
  by (rule all_ws_edit_filter [where q = "\<lambda>v. w_id v \<noteq> i"]) simp_all

lemma workspace_create_ok:
  assumes "state_ok st" shows "state_ok (snd (workspace_create ow now p w st))"
proof -
  have fresh: "row_ok v \<Longrightarrow> row_ok (v\<lparr>w_state := OFF, w_desired_on := False, w_error := None\<rparr>)" for v
    by (auto simp: row_defs)
  define s2 where "s2 = op_progress p ''stopping_machine''
    (op_progress p ''creating_machine'' (os_session st))"
  define s3 where "s3 = update_ws (w_id w) (\<lambda>w. w\<lparr>w_state := OFF, w_desired_on := False,
    w_error := None\<rparr>) s2"
  have ok2: "rows_ok s2" using assms by (simp add: s2_def all_ws_progress)
  then have ok3: "rows_ok s3" unfolding s3_def by (rule rows_update) (simp_all add: fresh)
  obtain r s4 where r: "reserve_service_ports (w_id w) (ow_draws ow) s3 = (r, s4)" by fastforce
  have ok4: "rows_ok s4" using r ok3 by (rule all_ws_reserve)
  have dropped: "rows_ok (commit (edit (\<lambda>d. drop_workspace (w_id w) (detach_operations (w_id w) d))
      (op_fail p ''provision_failed'' now (op_progress p ''creating_machine'' (os_session st)))))"
    using assms by (intro ws_intro rows_dropped) simp_all
  have err: "rows_ok (op_fail p ''provision_stop_failed'' now
      (update_ws (w_id w) (error_row x) s2))" for x
    using ok2 by (intro ws_intro rows_update row_ok_error) simp_all
  show ?thesis
    using dropped err ok4 r
    by (cases r) (simp_all add: workspace_create_def Let_def case_prod_beta all_ws_commit all_ws_audit
        all_ws_finish flip: s2_def s3_def split: prov_reply.split incus_reply.split)
qed

lemma workspace_delete_ok:
  assumes "state_ok st" shows "state_ok (snd (workspace_delete ow now p w st))"
proof -
  obtain r st1 where m: "destroy_machine ow p w st = (r, st1)" by fastforce
  have "state_ok st1" using destroy_machine_ok [OF assms, of ow p w] m by simp
  with m show ?thesis
    by (cases r) (auto simp: workspace_delete_def Let_def intro!: ws_intro rows_dropped)
qed

lemma cleanup_failed_ok [ws_intro]: "rows_ok s \<Longrightarrow> rows_ok (cleanup_failed p now s)"
  by (auto simp: cleanup_failed_def Let_def intro!: ws_intro all_ws_edit)

lemma run_operation_ok:
  "state_ok st \<Longrightarrow> state_ok (snd (run_operation cf ow now p st))"
  by (simp add: run_operation_def purge_account_ok workspace_create_ok workspace_delete_ok
      rows_factory_reset all_ws_op_fail split: option.split)

lemma operations_once_ok: "state_ok st \<Longrightarrow> state_ok (operations_once cf ow now st)"
  using run_operation_ok [of st cf ow now]
  by (auto simp: operations_once_def split: option.split prod.split op_result.split intro!: ws_intro)
    (metis snd_conv)+

lemma rows_admin_delete_user [ws_intro]: "rows_ok s \<Longrightarrow> rows_ok (snd (admin_delete_user a i s))"
proof -
  assume ok: "rows_ok s"
  have u: "rows_ok (edit (set_user i f) s)" for f
    using ok by (rule all_ws_edit) (simp add: set_user_def)
  have d: "rows_ok (update_ws j (\<lambda>w. w\<lparr>w_desired_on := False\<rparr>) (edit (set_user i f) s))" for j f
    using u by (rule rows_update) (auto simp: row_defs)
  show ?thesis
    using ok u d
    by (auto simp: admin_delete_user_def Let_def case_prod_beta intro!: ws_intro split: option.split)
qed

end
