(* ===== verification/Machine.thy ===== *)
theory Machine
  imports Lifecycle
begin

text \<open>
  The step relation of the workspace state machine, its reachable states, and the properties
  that rest on their invariant.
\<close>

section \<open>Steps\<close>

text \<open>
  One handler or pass over the session. The rows handed to the halves of a power change and the
  users are arbitrary, so that they may be out of date.
\<close>

inductive handler :: "config \<Rightarrow> (session \<Rightarrow> session) \<Rightarrow> bool" for cf where
  create: "handler cf (\<lambda>s. snd (create_workspace now u c m s))"
| delete: "handler cf (\<lambda>s. snd (delete_workspace vp now u confirm pw s))"
| keep: "handler cf (\<lambda>s. snd (keep_running u s))"
| power: "handler cf (\<lambda>s. snd (workspace_power cf cpus kb ic now u on s))"
| on_begin: "handler cf (\<lambda>s. snd (power_on_begin cpus kb w s))"
| on_finish: "handler cf (\<lambda>s. snd (power_on_finish cf now patch start i w s))"
| off_begin: "handler cf (\<lambda>s. snd (power_off_begin w s))"
| off_finish: "handler cf (\<lambda>s. snd (power_off_finish now stop act i w s))"
| admin_off: "handler cf (\<lambda>s. snd (admin_power_off ic now a i s))"
| resize: "handler cf (\<lambda>s. snd (workspace_tier cpus kb ic now u co mo s))"
| reset: "handler cf (\<lambda>s. snd (workspace_reset vp now u confirm pw s))"
| erase: "handler cf (\<lambda>s. snd (admin_delete_user a i s))"
| hermes: "handler cf (\<lambda>s. snd (ai_hermes b u s))"
| openclaw: "handler cf (\<lambda>s. snd (ai_openclaw act u s))"
| telegram: "handler cf (\<lambda>s. snd (ai_openclaw_telegram act u s))"
| web: "handler cf (\<lambda>s. snd (ai_managed_web app act u s))"
| metering: "handler cf (meter_once now scrape)"
| settlement: "handler cf (\<lambda>s. snd (settle_once stopw now s))"
| auto_stop: "handler cf (\<lambda>s. snd (auto_stop_once stopw now s))"
| archival: "handler cf (\<lambda>s. snd (lifecycle_once cf ar ds now s))"
| reconciliation: "handler cf (\<lambda>s. snd (reconcile_once cf cpus kb st startw stopw now s))"
| pruning: "handler cf (prune_samples_once now)"
| low_credit: "handler cf (low_credit_once cf now)"
| alerts: "handler cf (alerts_once cf now rate)"
| bands: "handler cf (credit_step_once now)"
| disk: "handler cf (\<lambda>s. snd (disk_once cf reply stopw again now s))"
| heartbeat: "handler cf (heartbeat_once now failed)"
| hermes_pass: "handler cf (\<lambda>s. snd (hermes_installs rs dr s))"
| openclaw_pass: "handler cf (\<lambda>s. snd (openclaw_once rs sec s))"
| web_pass: "handler cf (\<lambda>s. snd (managed_web_once rw secw s))"

text \<open>
  A step: a handler, a durable operation, the pass over the supplier's keys, the service ports, or
  anything that leaves the workspace table alone (the ledger, threads, codes, messages).
\<close>

inductive step :: "config \<Rightarrow> op_state \<Rightarrow> op_state \<Rightarrow> bool" for cf where
  handled: "handler cf f \<Longrightarrow> step cf st (on_session f st)"
| operated: "step cf st (operations_once cf ow now st)"
| keyed: "openrouter_once cf now tag nets m (os_session st, os_supplier st) = (s', sp')
    \<Longrightarrow> step cf st (st\<lparr>os_session := s', os_supplier := sp'\<rparr>)"
| reserved: "reserve_service_ports_once draws reply (os_session st, os_rules st) = (e, s', rules')
    \<Longrightarrow> step cf st (st\<lparr>os_session := s', os_rules := rules'\<rparr>)"
| elsewhere: "workspaces (cur s') = workspaces (cur (os_session st))
    \<Longrightarrow> workspaces (saved s') = workspaces (saved (os_session st))
    \<Longrightarrow> seq (os_session st) \<le> seq s' \<Longrightarrow> step cf st (st\<lparr>os_session := s'\<rparr>)"

inductive_cases stepE: "step cf st st'"
inductive_cases handlerE: "handler cf f"

inductive reachable :: "config \<Rightarrow> op_state \<Rightarrow> bool" for cf where
  start: "workspaces (cur (os_session st)) = [] \<Longrightarrow> workspaces (saved (os_session st)) = []
    \<Longrightarrow> reachable cf st"
| next_step: "reachable cf st \<Longrightarrow> step cf st st' \<Longrightarrow> reachable cf st'"

lemma handler_ok: "handler cf f \<Longrightarrow> rows_ok s \<Longrightarrow> rows_ok (f s)"
  by (erule handlerE) (simp_all add: ws_intro)

lemma step_ok: "step cf st st' \<Longrightarrow> state_ok st \<Longrightarrow> state_ok st'"
proof (erule stepE)
  fix f assume "st' = on_session f st" "handler cf f" "state_ok st"
  then show "state_ok st'" by (simp add: handler_ok)
next
  fix ow now assume "st' = operations_once cf ow now st" "state_ok st"
  then show "state_ok st'" by (simp add: operations_once_ok)
next
  fix now tag nets m s' sp'
  assume a: "openrouter_once cf now tag nets m (os_session st, os_supplier st) = (s', sp')" "state_ok st"
    and b: "st' = st\<lparr>os_session := s', os_supplier := sp'\<rparr>"
  from rows_openrouter [OF a(2), of cf now tag nets m "os_supplier st"] a(1) b show "state_ok st'"
    by simp
next
  fix draws reply e s' rules'
  assume a: "reserve_service_ports_once draws reply (os_session st, os_rules st) = (e, s', rules')"
      "state_ok st"
    and b: "st' = st\<lparr>os_session := s', os_rules := rules'\<rparr>"
  from rows_reserve_ports [OF a(2), of draws reply "os_rules st"] a(1) b show "state_ok st'" by simp
next
  fix s' assume "st' = st\<lparr>os_session := s'\<rparr>" "state_ok st"
    "workspaces (cur s') = workspaces (cur (os_session st))"
    "workspaces (saved s') = workspaces (saved (os_session st))" "seq (os_session st) \<le> seq s'"
  then show "state_ok st'" by (auto simp: all_ws_def elim: table_ok_mono)
qed

lemma reachable_ok: "reachable cf st \<Longrightarrow> state_ok st"
proof (induction rule: reachable.induct)
  case (start st)
  then show ?case by (simp add: all_ws_def table_ok_def)
next
  case (next_step st st')
  from step_ok [OF next_step(2,3)] show ?case .
qed

section \<open>Loops that treat every row\<close>

text \<open>
  A body that touches its own row only: the rows outside the loop keep their value, and a row of
  the loop ends as the body leaves it when its turn comes.
\<close>

definition own_row :: "(session \<Rightarrow> bool) \<Rightarrow> (workspace \<Rightarrow> session \<Rightarrow> 'e option \<times> session) \<Rightarrow> bool" where
  "own_row Q body \<longleftrightarrow> (\<forall>w s. Q s \<and> get_ws (cur s) (w_id w) = Some w \<and> fst (body w s) = None \<longrightarrow>
     Q (snd (body w s)) \<and> (\<forall>j. j \<noteq> w_id w \<longrightarrow> get_ws (cur (snd (body w s))) j = get_ws (cur s) j))"

lemma own_rowD:
  assumes "own_row Q body" and "Q s" and "get_ws (cur s) i = Some w" and "body w s = (None, s1)"
  shows "Q s1" and "j \<noteq> i \<Longrightarrow> get_ws (cur s1) j = get_ws (cur s) j"
proof -
  have "w_id w = i" using assms(3) get_ws_SomeD by blast
  with assms show "Q s1" and "j \<noteq> i \<Longrightarrow> get_ws (cur s1) j = get_ws (cur s) j"
    unfolding own_row_def by (metis fst_conv snd_conv)+
qed

lemma each_ws_other:
  assumes "own_row Q body" and "Q s" and "fst (each_ws body ids s) = None" and "j \<notin> set ids"
  shows "get_ws (cur (snd (each_ws body ids s))) j = get_ws (cur s) j"
  using assms(2-4)
proof (induction ids arbitrary: s)
  case Nil
  then show ?case by simp
next
  case (Cons i ids)
  show ?case
  proof (cases "get_ws (cur s) i")
    case None
    with Cons show ?thesis by simp
  next
    case (Some w)
    obtain e s1 where b: "body w s = (e, s1)" by fastforce
    with Cons.prems Some have e: "e = None" by (cases e) auto
    note own = own_rowD [OF assms(1) Cons.prems(1) Some b [unfolded e]]
    from Cons.prems Some b e own(2) [of j] Cons.IH [OF own(1)] show ?thesis by simp
  qed
qed

lemma each_ws_turn:
  assumes "own_row Q body" and "Q s" and "distinct ids" and "fst (each_ws body ids s) = None"
    and "i \<in> set ids" and "get_ws (cur s) i = Some w"
  shows "\<exists>s1. Q s1 \<and> get_ws (cur s1) i = Some w \<and> fst (body w s1) = None
    \<and> get_ws (cur (snd (each_ws body ids s))) i = get_ws (cur (snd (body w s1))) i"
  using assms(2-6)
proof (induction ids arbitrary: s)
  case Nil
  then show ?case by simp
next
  case (Cons j ids)
  show ?case
  proof (cases "get_ws (cur s) j")
    case None
    with Cons show ?thesis by auto
  next
    case (Some v)
    obtain e s1 where b: "body v s = (e, s1)" by fastforce
    with Cons.prems Some have e: "e = None" by (cases e) auto
    note own = own_rowD [OF assms(1) Cons.prems(1) Some b [unfolded e]]
    show ?thesis
    proof (cases "i = j")
      case True
      have "get_ws (cur (snd (each_ws body ids s1))) i = get_ws (cur s1) i"
        using Cons.prems True Some b e own(1) by (intro each_ws_other [OF assms(1)]) auto
      with Cons.prems True Some b e show ?thesis by (intro exI [of _ s]) simp
    next
      case False
      have "\<exists>s2. Q s2 \<and> get_ws (cur s2) i = Some w \<and> fst (body w s2) = None
          \<and> get_ws (cur (snd (each_ws body ids s1))) i = get_ws (cur (snd (body w s2))) i"
        by (rule Cons.IH [OF own(1)]) (use Cons.prems False Some b e own(2) [OF False] in simp_all)
      with Some b e show ?thesis by simp
    qed
  qed
qed

text \<open>The rows of the table and the ids of a loop over some of them.\<close>

lemma ws_ids_distinct: "rows_ok s \<Longrightarrow> distinct (ws_ids p (cur s))"
  by (auto simp: all_ws_def table_ok_def ws_ids_def distinct_map_filter)

lemma get_ws_row: "rows_ok s \<Longrightarrow> w \<in> set (workspaces (cur s)) \<Longrightarrow> get_ws (cur s) (w_id w) = Some w"
  by (auto simp: all_ws_def table_ok_def get_ws_def intro: distinct_map_find)

lemma ws_ids_iff:
  "rows_ok s \<Longrightarrow> get_ws (cur s) i = Some w \<Longrightarrow> i \<in> set (ws_ids p (cur s)) \<longleftrightarrow> p w"
proof -
  assume ok: "rows_ok s" and g: "get_ws (cur s) i = Some w"
  then have "w \<in> set (workspaces (cur s))" "w_id w = i" using get_ws_SomeD by auto
  moreover have "v = w" if "v \<in> set (workspaces (cur s))" "w_id v = i" for v
    using get_ws_row [OF ok that(1)] that(2) g by simp
  moreover have "i \<in> set (ws_ids p (cur s)) \<longleftrightarrow> (\<exists>v \<in> set (workspaces (cur s)). p v \<and> w_id v = i)"
    unfolding ws_ids_def by fastforce
  ultimately show ?thesis by blast
qed

section \<open>Properties\<close>


definition a_user :: user where
  "a_user = \<lparr>u_id = 1, u_username = ''reza'', u_full_name = None, u_phone = Some ''09121234567'',
     u_sms_prefs = (\<lambda>_. None), u_sms_credit_step_toman = 50000, u_sms_credit_band = None,
     u_telegram_bot_token = None, u_telegram_user_id = None, u_password_hash = ''x'',
     u_session_version = 0, u_is_admin = False, u_status = UApproved, u_approved_at = None,
     u_approved_by = None\<rparr>"

definition start_state :: op_state where
  "start_state = \<lparr>os_session = open_session (empty_db\<lparr>users := [a_user]\<rparr>) 0, os_rules = [],
     os_supplier = (\<lambda>_. None)\<rparr>"

definition created_state :: op_state where
  "created_state = on_session (\<lambda>s. snd (create_workspace 0 a_user 1000 2048 s)) start_state"

lemma created_reachable: "reachable cf created_state"
proof -
  have "reachable cf start_state"
    by (rule reachable.start) (simp_all add: start_state_def empty_db_def)
  moreover have "step cf start_state created_state"
    unfolding created_state_def by (rule step.handled) (rule handler.create)
  ultimately show ?thesis by (rule reachable.next_step)
qed

lemma created_row:
  "workspaces (cur (os_session created_state)) = [requested_workspace 1 1 1 0 1000 2048]"
  unfolding created_state_def start_state_def by code_simp


lemma passes_quiet:
  assumes "reachable cf st"
  shows "fst (settle_once stop now (os_session st)) = None
    \<and> fst (auto_stop_once stop now (os_session st)) = None"
proof -
  have ok: "state_ok st" by (rule reachable_ok [OF assms])
  have tier: "\<exists>t. tier_of w = Inr t" if "rows_ok s" "get_ws (cur s) (w_id w) = Some w" for s w
    using all_ws_get [OF that] offered_size_tier by (auto simp: row_ok_def)
  have paid: "\<exists>r. settle_period w p on ch mh f None s = Inr r" if "tier_of w = Inr t" for w p on ch mh f s t
    using that by (auto simp: settle_period_def Let_def split: prod.splits)
  have gate: "\<exists>r. can_afford_next_hour d w = Inr r" if "tier_of w = Inr t" for d w t
    using that by (auto simp: can_afford_next_hour_def gate_micro_def Let_def)
  have run: "\<exists>r. close_run now w s = Inr r" if "tier_of w = Inr t" for w s t
  proof -
    have "\<exists>n s1. settle_elapsed now w True None s = Inr (n, s1)"
    proof (cases "w_period_start w")
      case None
      then show ?thesis by (simp add: settle_elapsed_def)
    next
      case (Some p)
      let ?h = "fdiv (total_seconds (now - p)) 3600"
      from paid [OF that, of p True 0 0 "min ?h 1" s] Some show ?thesis
        by (cases "?h \<le> fl64 (5 / 10000)") (auto simp: settle_elapsed_def Let_def)
    qed
    then show ?thesis by (auto simp: close_run_def)
  qed
  have settled: "fst (settle_body stop now w s) = None \<and> rows_ok (snd (settle_body stop now w s))"
    if "rows_ok s" "get_ws (cur s) (w_id w) = Some w" for s w
  proof -
    from tier [OF that] obtain t where t: "tier_of w = Inr t" by blast
    have "fst (settle_body stop now w s) = None"
    proof -
      have "settle_period w p on ch mh f None s \<noteq> Inl e" "can_afford_next_hour d w \<noteq> Inl e"
        for p on ch mh f s d e
        using paid [OF t, of p on ch mh f s] gate [OF t, of d] by auto
      then show ?thesis
        by (simp add: settle_body_def Let_def split: sum.split prod.split bool.split incus_reply.split)
    qed
    with rows_settle_body [OF that(1)] show ?thesis by simp
  qed
  have stopped: "fst (auto_stop_body stop now w s) = None \<and> rows_ok (snd (auto_stop_body stop now w s))"
    if "rows_ok s" "get_ws (cur s) (w_id w) = Some w" for s w
  proof -
    from tier [OF that] obtain t where "tier_of w = Inr t" by blast
    then obtain s1 where r: "close_run now w s = Inr s1" using run by blast
    have "rows_ok s1" by (rule rows_close_run [OF r that(1)])
    with r that(1) show ?thesis
      by (auto simp: auto_stop_body_def intro!: ws_intro split: incus_reply.split)
  qed
  show ?thesis
    unfolding settle_once_def auto_stop_once_def
  proof (rule conjI)
    show "fst (each_ws (settle_body stop now)
        (ws_ids (\<lambda>w. w_state w = ON \<or> w_state w = OFF \<or> w_state w = ARCHIVED) (cur (os_session st)))
        (os_session st)) = None"
      by (rule each_ws_quiet [where Q = rows_ok, OF _ ok]) (erule (1) settled)
    show "fst (each_ws (auto_stop_body stop now)
        (ws_ids (\<lambda>w. w_state w = ON \<and> w_auto_stop_at w \<noteq> None) (cur (os_session st)))
        (os_session st)) = None"
      by (rule each_ws_quiet [where Q = rows_ok, OF _ ok]) (erule (1) stopped)
  qed
qed



end
