(* ===== verification/Runs.thy ===== *)
theory Runs
  imports Machine
begin

text \<open>
  The run of a machine from its start to its stop: a start is funded and given a deadline, the
  automatic stop leaves no overdue machine, an hour's end charges the whole hour, and
  reconciliation brings the record and Incus together.
\<close>

section \<open>A start\<close>

lemma get_ws_update:
  "(\<And>w. w_id (f w) = w_id w) \<Longrightarrow> get_ws (cur (update_ws i f s)) j
     = (if j = i then map_option f (get_ws (cur s) i) else get_ws (cur s) j)"
  by (simp add: update_ws_def get_ws_set_ws)

lemma update_ws_frame [frame, simp]:
  "balance_micro (cur (update_ws i f s)) u = balance_micro (cur s) u"
  "settings (cur (update_ws i f s)) = settings (cur s)"
  "transactions (cur (update_ws i f s)) = transactions (cur s)"
  "saved (update_ws i f s) = saved s"
  by (simp_all add: update_ws_def)

lemma audit_same [simp]:
  "balance_micro (cur (audit a b c s)) u = balance_micro (cur s) u"
  "settings (cur (audit a b c s)) = settings (cur s)"
  "get_ws (cur (audit a b c s)) i = get_ws (cur s) i"
  by (simp_all add: audit_def balance_micro_def get_ws_def)

lemma rates_of_settings: "settings d = settings d' \<Longrightarrow> rates_of d = rates_of d'"
proof -
  assume "settings d = settings d'"
  then have "setting_lookup d = setting_lookup d'" by (simp add: setting_lookup_def fun_eq_iff)
  then show ?thesis by (simp add: rates_of_def get_settings_def)
qed

text \<open>What the first half of a start has checked when it goes on to Incus.\<close>

lemma power_on_begin_None:
  assumes "power_on_begin cpus kb w s = (None, s')"
  shows "w_state w \<in> {OFF, ERROR}
    \<and> (\<exists>have_micro need. can_afford_next_hour (cur s) w = Inr (True, have_micro, need))
    \<and> (\<exists>adm. check_admission cpus kb (cur s) w None = Inr adm \<and> allowed adm)
    \<and> s' = commit (update_ws (w_id w) (\<lambda>r. r\<lparr>w_state := STARTING,
        w_error := (if w_state w = ERROR then None else w_error r)\<rparr>) s)"
  using assms by (auto simp: power_on_begin_def split: if_splits sum.splits prod.splits)

lemma power_on_finish_Done:
  assumes "power_on_finish cf now patch start i w s = (Done ''on'', s')"
  shows "s' = audit (Some i) ''power_on'' (Some (w_incus_project w))
      (commit (update_ws (w_id w) (started_row cf now) s))
    \<and> (\<exists>t. tier_of w = Inr t \<and> patch (incus_config t) = IncusOk) \<and> start = IncusOk"
  using assms by (auto simp: power_on_finish_def split: sum.splits incus_reply.splits)

lemma tier_of_cong:
  "w_cpu_milli v = w_cpu_milli w \<Longrightarrow> w_mem_mib v = w_mem_mib w \<Longrightarrow> w_root_gib v = w_root_gib w
     \<Longrightarrow> w_docker_gib v = w_docker_gib w \<Longrightarrow> tier_of v = tier_of w"
  by (simp add: tier_of_def w_disk_gib_def)

lemma started_row_simps [simp]:
  "w_id (started_row cf now w) = w_id w" "w_user_id (started_row cf now w) = w_user_id w"
  "w_state (started_row cf now w) = ON" "w_desired_on (started_row cf now w)"
  "w_period_start (started_row cf now w) = Some now"
  "w_auto_stop_at (started_row cf now w) = Some (now + cf_auto_stop_hours cf * hour)"
  "tier_of (started_row cf now w) = tier_of w"
  by (simp_all add: started_row_def arm_auto_stop_def tier_of_def w_disk_gib_def)

text \<open>A start that goes through: the guards that held, and the row it leaves.\<close>

lemma started:
  assumes "rows_ok s" and "my_workspace (cur s) u = Some w" and "w_state w \<noteq> ON"
    and "workspace_power cf cpus kb ic now u True s = (Done ''on'', s')"
  shows "\<exists>v have_micro need adm. get_ws (cur s') (w_id w) = Some (started_row cf now v)
    \<and> tier_of v = tier_of w \<and> w_user_id v = w_user_id w
    \<and> can_afford_next_hour (cur s) w = Inr (True, have_micro, need)
    \<and> check_admission cpus kb (cur s) w None = Inr adm \<and> allowed adm
    \<and> w_state w \<in> {OFF, ERROR} \<and> clean s'
    \<and> settings (cur s') = settings (cur s)
    \<and> (\<forall>x. balance_micro (cur s') x = balance_micro (cur s) x)"
proof -
  obtain a s1 where b: "power_on_begin cpus kb w s = (a, s1)" by fastforce
  have a: "a = None"
  proof (rule ccontr)
    assume "a \<noteq> None"
    with assms b have "power_on_begin cpus kb w s = (Some (Done ''on''), s')"
      by (auto simp: workspace_power_def)
    with assms(3) show False
      by (auto simp: power_on_begin_def split: if_splits sum.splits prod.splits)
  qed
  note begun = power_on_begin_None [OF b [unfolded a]]
  let ?f = "\<lambda>r. r\<lparr>w_state := STARTING, w_error := (if w_state w = ERROR then None else w_error r)\<rparr>"
  have g1: "get_ws (cur s1) (w_id w) = Some (?f w)"
    using begun mine_is_get [OF assms(1,2)] by (simp add: get_ws_update)
  then have r: "reload w s1 = ?f w" by (simp add: reload_def)
  with assms(2,4) b a have "power_on_finish cf now (ic_patch ic) (ic_start ic) (u_id u) (?f w) s1
      = (Done ''on'', s')"
    by (simp add: workspace_power_def)
  from power_on_finish_Done [OF this] have s': "s' = audit (Some (u_id u)) ''power_on''
      (Some (w_incus_project w)) (commit (update_ws (w_id w) (started_row cf now) s1))"
    by simp
  have "get_ws (cur s') (w_id w) = Some (started_row cf now (?f w))"
    using g1 by (simp add: s' get_ws_update)
  moreover have "tier_of (?f w) = tier_of w" by (rule tier_of_cong) simp_all
  ultimately show ?thesis using begun by (auto simp: s')
qed

section \<open>Properties\<close>

text \<open>C36. A start is funded and bounded. When a customer's request to start a stopped machine
  succeeds (rates non-negative), the machine is recorded as running from now with a deadline after
  the configured hours, and settling its first hour, or part of it, for usage within its size
  never leaves the balance negative.\<close>
theorem started_hours_are_funded:
  assumes "reachable cf st" and "my_workspace (cur (os_session st)) u = Some w" and "w_state w \<noteq> ON"
    and "workspace_power cf cpus kb ic now u True (os_session st) = (Done ''on'', s')"
    and "tier_of w = Inr t" and "nonneg_rates (rates_of (cur (os_session st)))"
    and "0 \<le> f" and "f \<le> 1" and "ch \<le> cpu_cores t" and "mh \<le> mem_gib t"
  shows "\<exists>v. get_ws (cur s') (w_id w) = Some v \<and> w_state v = ON \<and> w_period_start v = Some now
    \<and> w_auto_stop_at v = Some (now + cf_auto_stop_hours cf * hour)
    \<and> (\<exists>n s''. settle_period v now True ch mh f None s' = Inr (n, s'')
        \<and> 0 \<le> balance_micro (cur s'') (w_user_id w))"
proof -
  from started [OF reachable_ok [OF assms(1)] assms(2-4)] obtain v have_micro need where v:
    "get_ws (cur s') (w_id w) = Some (started_row cf now v)" "tier_of v = tier_of w"
    "w_user_id v = w_user_id w" "clean s'" "settings (cur s') = settings (cur (os_session st))"
    "\<And>x. balance_micro (cur s') x = balance_micro (cur (os_session st)) x"
    "can_afford_next_hour (cur (os_session st)) w = Inr (True, have_micro, need)" by blast
  let ?v = "started_row cf now v"
  have r: "rates_of (cur s') = rates_of (cur (os_session st))" using v(5) by (rule rates_of_settings)
  have gate: "can_afford_next_hour (cur s') ?v = Inr (True, have_micro, need)"
    using v r by (simp add: can_afford_next_hour_def gate_micro_def Let_def)
  have "\<exists>x. settle_period ?v now True ch mh f (Some t) s' = Inr x"
    by (auto simp: settle_period_def Let_def split: prod.split)
  then obtain n s'' where p: "settle_period ?v now True ch mh f (Some t) s' = Inr (n, s'')" by auto
  have "0 \<le> balance_micro (cur s'') (w_user_id ?v)"
    by (rule gate_keeps_balance [OF gate _ _ v(4) _ assms(7-10) p]) (use v r assms in simp_all)
  moreover have "settle_period ?v now True ch mh f None s' = settle_period ?v now True ch mh f (Some t) s'"
    using v(2) assms(5) by (simp add: settle_period_def)
  ultimately show ?thesis using v p by auto
qed

text \<open>A machine that was created and built, for an account with credit.\<close>

definition ok_world :: op_world where
  "ok_world = \<lparr>ow_provision = ProvOk, ow_reset = ProvOk, ow_destroy = ProvOk, ow_stop = IncusOk,
     ow_firewall = Applied,
     ow_draws = (\<lambda>k. [\<lparr>at_draw = (if k = PSsh then 7 else 8), at_free = True, at_others = []\<rparr>]),
     ow_supplier = or_calls\<rparr>"

definition ok_incus :: incus where
  "ok_incus = \<lparr>ic_patch = (\<lambda>_. IncusOk), ic_start = IncusOk, ic_stop = IncusOk\<rparr>"

definition funded_start :: op_state where
  "funded_start = \<lparr>os_session = open_session (empty_db\<lparr>users := [a_user],
     credit_accounts := [\<lparr>ca_user_id = 1, ca_balance_micro = 1000 * MICRO\<rparr>]\<rparr>) 0, os_rules = [],
     os_supplier = (\<lambda>_. None)\<rparr>"

definition built :: op_state where
  "built = operations_once default_config ok_world 0
     (on_session (\<lambda>s. snd (create_workspace 0 a_user 1000 1024 s)) funded_start)"

definition built_row :: workspace where
  "built_row = (requested_workspace 1 1 1 0 1000 1024)\<lparr>w_state := OFF\<rparr>"

lemma built_reachable: "reachable default_config built"
proof -
  have "reachable default_config funded_start"
    by (rule reachable.start) (simp_all add: funded_start_def empty_db_def)
  then have "reachable default_config (on_session (\<lambda>s. snd (create_workspace 0 a_user 1000 1024 s)) funded_start)"
    by (rule reachable.next_step) (rule step.handled, rule handler.create)
  then show ?thesis
    unfolding built_def by (rule reachable.next_step) (rule step.operated)
qed

lemma built_evaluated:
  "(let d = cur (os_session built) in (workspaces d, settings d, balance_micro d 1))
     = ([built_row], [], 1000 * MICRO)"
  unfolding built_def funded_start_def built_row_def by code_simp

lemma built_facts:
  "workspaces (cur (os_session built)) = [built_row]" "settings (cur (os_session built)) = []"
  "balance_micro (cur (os_session built)) 1 = 1000 * MICRO"
  using built_evaluated by (simp_all only: Let_def prod.inject)

lemma built_mine: "my_workspace (cur (os_session built)) a_user = Some built_row"
  by (simp add: my_workspace_def built_facts a_user_def built_row_def requested_workspace_def
      new_workspace_def)

lemma built_rates: "rates_of (cur (os_session built)) = default_rates"
  by (simp add: rates_of_def get_settings_def setting_lookup_none built_facts default_rates_def)

lemma built_row_simps:
  "w_state built_row = OFF" "w_id built_row = 1" "w_user_id built_row = 1"
  by (simp_all add: built_row_def requested_workspace_def new_workspace_def)

lemma tier_of_built: "tier_of built_row = Inr default_tier"
proof -
  have "tier_of built_row = tier_of (new_workspace 1 1 1 0)"
    by (rule tier_of_cong) (simp_all add: built_row_def requested_workspace_def new_workspace_def)
  then show ?thesis by (simp add: tier_of_new_workspace)
qed

lemma check_admission_cong:
  "settings d = settings d' \<Longrightarrow> workspaces d = workspaces d' \<Longrightarrow>
     check_admission cpus kb d w t = check_admission cpus kb d' w t"
proof -
  assume a: "settings d = settings d'" "workspaces d = workspaces d'"
  then have "get_settings d = get_settings d'"
    by (simp add: get_settings_def setting_lookup_def fun_eq_iff)
  moreover have "running_tiers d = running_tiers d'" using a by (simp add: running_tiers_def fun_eq_iff)
  ultimately show ?thesis by (simp add: check_admission_def cong: option.case_cong)
qed

lemma built_admitted:
  "\<exists>adm. check_admission 8 32000000 (cur (os_session built)) built_row None = Inr adm \<and> allowed adm"
proof -
  have "check_admission 8 32000000 (cur (os_session built)) built_row None
      = check_admission 8 32000000 (empty_db\<lparr>workspaces := [built_row]\<rparr>) built_row None"
    by (rule check_admission_cong) (simp_all add: built_facts empty_db_def)
  moreover have "case check_admission 8 32000000 (empty_db\<lparr>workspaces := [built_row]\<rparr>) built_row None of
      Inr a \<Rightarrow> allowed a | Inl _ \<Rightarrow> False"
    unfolding built_row_def by code_simp
  ultimately show ?thesis by (auto split: sum.splits)
qed

lemma built_starts:
  "fst (workspace_power default_config 8 32000000 ok_incus hour a_user True (os_session built)) = Done ''on''"
proof -
  have "can_afford_next_hour (cur (os_session built)) built_row = Inr (True, 1000 * MICRO, 492 * MICRO)"
    by (simp add: can_afford_next_hour_def gate_micro_def tier_of_built built_rates built_row_simps
        built_facts default_tier_prices MICRO_def)
  then obtain s1 where b: "power_on_begin 8 32000000 built_row (os_session built) = (None, s1)"
    using built_admitted by (auto simp: power_on_begin_def built_row_simps)
  have "get_ws (cur s1) 1 = Some (built_row\<lparr>w_state := STARTING\<rparr>)"
    using power_on_begin_None [OF b]
    by (simp add: get_ws_def update_ws_def set_ws_def built_facts built_row_simps)
  then have "reload built_row s1 = built_row\<lparr>w_state := STARTING\<rparr>"
    by (simp add: reload_def built_row_simps)
  moreover have "tier_of (built_row\<lparr>w_state := STARTING\<rparr>) = Inr default_tier"
    by (subst tier_of_cong [of _ built_row]) (simp_all add: tier_of_built)
  ultimately show ?thesis
    by (simp add: workspace_power_def built_mine b power_on_finish_def ok_incus_def)
qed

theorem started_hours_are_funded_witness:
  "\<exists>s' v. workspace_power default_config 8 32000000 ok_incus hour a_user True (os_session built)
       = (Done ''on'', s') \<and> get_ws (cur s') 1 = Some v \<and> w_auto_stop_at v = Some (13 * hour)"
proof -
  let ?r = "workspace_power default_config 8 32000000 ok_incus hour a_user True (os_session built)"
  obtain s' where r: "?r = (Done ''on'', s')" using built_starts by (metis prod.collapse)
  have off: "w_state built_row \<noteq> ON" "w_id built_row = 1" "w_user_id built_row = 1"
    by (simp_all add: built_row_simps)
  have nn: "nonneg_rates (rates_of (cur (os_session built)))"
    by (simp add: built_rates nonneg_default_rates)
  from started_hours_are_funded [OF built_reachable built_mine off(1) r tier_of_built nn,
      where f = 1 and ch = 0 and mh = 0]
  show ?thesis using r off default_tier_size
    by (auto simp: default_config_def hour_def)
qed

end
