(* ===== verification/Convergence.thy ===== *)
theory Convergence
  imports Runs
begin

text \<open>
  What one full pass achieves: the automatic stop leaves no machine past its deadline, and
  reconciliation leaves every machine it looks at running as wanted or off, after which a
  second pass over an agreeing Incus changes nothing.
\<close>

section \<open>The automatic stop\<close>

lemma get_ws_text [simp]: "get_ws (cur (worker_text n u k dk s)) j = get_ws (cur s) j"
  by (auto simp: worker_text_def get_ws_def split: option.split)

lemma stopped_row_simps [simp]:
  "w_id (stopped_row w) = w_id w" "w_state (stopped_row w) = OFF" "w_auto_stop_at (stopped_row w) = None"
  "w_period_start (stopped_row w) = None" "\<not> w_desired_on (stopped_row w)"
  by (simp_all add: stopped_row_def disarm_auto_stop_def)

lemma settle_elapsed_rows:
  assumes "settle_elapsed now w on t s = Inr (n, s')" and "clean s"
  shows "workspaces (cur s') = workspaces (cur s)"
proof -
  have "workspaces (cur s1) = workspaces (cur s)"
    if "settle_period w p on ch mh f t s = Inr (m, s1)" for p ch mh f m s1
    using that by (rule settle_period_cases) (use assms(2) in \<open>simp_all add: clean_def\<close>)
  with assms(1) show ?thesis
    by (auto simp: settle_elapsed_def Let_def split: option.splits if_splits)
qed

lemma close_run_get:
  assumes "close_run now w s = Inr s'" and "clean s"
  shows "get_ws (cur s') j = (if j = w_id w then map_option stopped_row (get_ws (cur s) j) else get_ws (cur s) j)"
proof -
  from assms(1) obtain n s1 where "settle_elapsed now w True None s = Inr (n, s1)"
    and s': "s' = update_ws (w_id w) stopped_row s1"
    by (auto simp: close_run_def andthen_Inr_iff)
  then have "workspaces (cur s1) = workspaces (cur s)" using settle_elapsed_rows assms(2) by blast
  then have "get_ws (cur s1) j = get_ws (cur s) j" for j by (simp add: get_ws_def)
  then show ?thesis by (simp add: s' get_ws_update)
qed

lemma auto_stop_body_get:
  assumes "fst (auto_stop_body stop now w s) = None" and "clean s" and "get_ws (cur s) (w_id w) = Some w"
  shows "get_ws (cur (snd (auto_stop_body stop now w s))) j
      = (if j = w_id w \<and> due_for_auto_stop now w \<and> stop w = IncusOk then Some (stopped_row w)
         else get_ws (cur s) j)"
    and "clean (snd (auto_stop_body stop now w s))"
  using assms close_run_get [of now w s]
  by (auto simp: auto_stop_body_def split: incus_reply.splits sum.splits)

lemma auto_stop_own: "own_row clean (auto_stop_body stop now)"
  unfolding own_row_def using auto_stop_body_get by auto

lemma auto_stop_row:
  assumes "rows_ok s" and "clean s" and "\<And>w. stop w = IncusOk" and "fst (auto_stop_once stop now s) = None"
    and "get_ws (cur s) i = Some w"
  shows "get_ws (cur (snd (auto_stop_once stop now s))) i
    = Some (if due_for_auto_stop now w then stopped_row w else w)"
proof -
  let ?ids = "ws_ids (\<lambda>w. w_state w = ON \<and> w_auto_stop_at w \<noteq> None) (cur s)"
  have i: "w_id w = i" using assms(5) get_ws_SomeD by blast
  show ?thesis
  proof (cases "i \<in> set ?ids")
    case True
    from each_ws_turn [OF auto_stop_own assms(2) ws_ids_distinct [OF assms(1)] _ True assms(5)] assms(4)
    obtain s1 where s1: "clean s1" "get_ws (cur s1) i = Some w" "fst (auto_stop_body stop now w s1) = None"
      "get_ws (cur (snd (auto_stop_once stop now s))) i = get_ws (cur (snd (auto_stop_body stop now w s1))) i"
      by (auto simp: auto_stop_once_def)
    with auto_stop_body_get [OF s1(3,1)] i assms(3) show ?thesis by auto
  next
    case False
    with ws_ids_iff [OF assms(1,5)] have "\<not> due_for_auto_stop now w"
      by (auto simp: due_for_auto_stop_def)
    with each_ws_other [OF auto_stop_own assms(2) _ False] assms(4,5) show ?thesis
      by (simp add: auto_stop_once_def)
  qed
qed

section \<open>Reconciliation\<close>

lemma adopt_get:
  "get_ws (cur (adopt now on w s)) j = (if j = w_id w \<and> w_state w \<in> {ERROR, STARTING, STOPPING}
     then map_option (adopted_row now on) (get_ws (cur s) j) else get_ws (cur s) j)"
  by (auto simp: adopt_def get_ws_update adopted_row_def)

text \<open>What one round leaves of the row, when Incus answers and its calls succeed.\<close>

definition agreed :: "workspace \<Rightarrow> bool" where
  "agreed v \<longleftrightarrow> w_state v = OFF \<or> (w_state v = ON \<and> w_desired_on v)"

lemma reconcile_body_get:
  assumes "fst (reconcile_body cf cpus kb st start stop now w s) = None"
    and "get_ws (cur s) (w_id w) = Some w"
  shows "j \<noteq> w_id w \<Longrightarrow> get_ws (cur (snd (reconcile_body cf cpus kb st start stop now w s))) j = get_ws (cur s) j"
    and "st w \<noteq> None \<Longrightarrow> (\<And>v. start v = IncusOk) \<Longrightarrow> (\<And>v. stop v = IncusOk)
      \<Longrightarrow> w_state w \<in> {ON, OFF, ERROR, STARTING, STOPPING}
      \<Longrightarrow> \<exists>v. get_ws (cur (snd (reconcile_body cf cpus kb st start stop now w s))) (w_id w) = Some v \<and> agreed v"
proof -
  show "get_ws (cur (snd (reconcile_body cf cpus kb st start stop now w s))) j = get_ws (cur s) j"
    if "j \<noteq> w_id w"
    using assms(1) that
    by (auto simp: reconcile_body_def Let_def adopt_get get_ws_update disarm_auto_stop_def arm_auto_stop_def
        split: option.splits sum.splits prod.splits incus_reply.splits)
next
  assume st: "st w \<noteq> None" and start: "\<And>v. start v = IncusOk" and stop: "\<And>v. stop v = IncusOk"
    and sw: "w_state w \<in> {ON, OFF, ERROR, STARTING, STOPPING}"
  obtain on where on: "st w = Some on" using st by blast
  define s1 where "s1 = adopt now on w s"
  define r where "r = (if w_state w \<in> {ERROR, STARTING, STOPPING} then adopted_row now on w else w)"
  have g: "get_ws (cur s1) (w_id w) = Some r"
    using assms(2) by (simp add: s1_def r_def adopt_get)
  then have rl: "reload w s1 = r" by (simp add: reload_def)
  have rs: "w_state r = OFF \<or> w_state r = ON" using sw by (auto simp: r_def adopted_row_def)
  show "\<exists>v. get_ws (cur (snd (reconcile_body cf cpus kb st start stop now w s))) (w_id w) = Some v \<and> agreed v"
    using assms(1) g rs
    by (auto simp: reconcile_body_def on Let_def rl start stop get_ws_update disarm_auto_stop_def
        arm_auto_stop_def agreed_def simp flip: s1_def split: sum.splits prod.splits)
qed

lemma reconcile_own: "own_row rows_ok (reconcile_body cf cpus kb st start stop now)"
  unfolding own_row_def
proof (intro allI impI)
  fix w s
  assume a: "rows_ok s \<and> get_ws (cur s) (w_id w) = Some w
    \<and> fst (reconcile_body cf cpus kb st start stop now w s) = None"
  then have "rows_ok (snd (reconcile_body cf cpus kb st start stop now w s))"
    using all_ws_get by (intro rows_reconcile_body) auto
  with a show "rows_ok (snd (reconcile_body cf cpus kb st start stop now w s)) \<and> (\<forall>j. j \<noteq> w_id w
      \<longrightarrow> get_ws (cur (snd (reconcile_body cf cpus kb st start stop now w s))) j = get_ws (cur s) j)"
    using reconcile_body_get(1) by auto
qed

text \<open>A round on a row that agrees with Incus does nothing.\<close>

lemma reconcile_agreeing:
  assumes "st w = Some (w_state w = ON)" and "w_state w = OFF \<or> w_state w = ON \<and> w_desired_on w"
    and "get_ws (cur s) (w_id w) = Some w"
  shows "reconcile_body cf cpus kb st start stop now w s = (None, s)"
  using assms by (auto simp: reconcile_body_def adopt_def reload_def)

lemma each_ws_idle:
  assumes "\<And>w. get_ws (cur s) (w_id w) = Some w \<Longrightarrow> w_id w \<in> set ids \<Longrightarrow> body w s = (None, s)"
  shows "each_ws body ids s = (None, s)"
  using assms
proof (induction ids)
  case Nil
  then show ?case by simp
next
  case (Cons i ids)
  have i: "body w s = (None, s)" if "get_ws (cur s) i = Some w" for w
    using Cons.prems [of w] that get_ws_SomeD [OF that] by simp
  have ids: "each_ws body ids s = (None, s)"
    by (rule Cons.IH) (use Cons.prems in simp)
  show ?case by (cases "get_ws (cur s) i") (simp_all add: i ids)
qed

section \<open>Properties\<close>

lemma started_state:
  "\<exists>s' v. workspace_power default_config 8 32000000 ok_incus hour a_user True (os_session built)
      = (Done ''on'', s') \<and> clean s' \<and> get_ws (cur s') 1 = Some (started_row default_config hour v)
    \<and> reachable default_config (built\<lparr>os_session := s'\<rparr>)"
proof -
  let ?p = "workspace_power default_config 8 32000000 ok_incus hour a_user True"
  obtain s' where r: "?p (os_session built) = (Done ''on'', s')" using built_starts by (metis prod.collapse)
  have off: "w_state built_row \<noteq> ON" "w_id built_row = 1" by (simp_all add: built_row_simps)
  have "step default_config built (on_session (\<lambda>s. snd (?p s)) built)"
    by (rule step.handled) (rule handler.power)
  moreover have "on_session (\<lambda>s. snd (?p s)) built = built\<lparr>os_session := s'\<rparr>"
    using r by (simp add: on_session_def)
  ultimately have "reachable default_config (built\<lparr>os_session := s'\<rparr>)"
    using built_reachable reachable.next_step by metis
  with started [OF reachable_ok [OF built_reachable] built_mine off(1) r] r off show ?thesis by auto
qed

text \<open>C39. The automatic stop leaves no machine past its deadline. In every reachable state with
  nothing uncommitted, if Incus carries out the stops, one pass raises nothing, stops exactly the
  machines whose deadline has come (off, not wanted on, no deadline, no open period), leaves every
  other row as it was, and no machine is due afterwards.\<close>
theorem auto_stop_leaves_none_due:
  assumes "reachable cf st" and "clean (os_session st)" and "\<And>w. stop w = IncusOk"
    and "auto_stop_once stop now (os_session st) = (e, s')"
  shows "e = None
    \<and> get_ws (cur s') i = map_option (\<lambda>w. if due_for_auto_stop now w then stopped_row w else w)
        (get_ws (cur (os_session st)) i)
    \<and> (\<forall>w \<in> set (workspaces (cur s')). \<not> due_for_auto_stop now w)"
proof -
  let ?s = "os_session st"
  have ok: "rows_ok ?s" by (rule reachable_ok [OF assms(1)])
  have quiet: "fst (auto_stop_once stop now ?s) = None" using passes_quiet [OF assms(1)] by blast
  have s'_def: "s' = snd (auto_stop_once stop now ?s)" and e: "e = fst (auto_stop_once stop now ?s)"
    using assms(4) by simp_all
  have rows: "get_ws (cur s') i = map_option (\<lambda>w. if due_for_auto_stop now w then stopped_row w else w)
      (get_ws (cur ?s) i)" for i
  proof (cases "get_ws (cur ?s) i")
    case None
    then have "i \<notin> set (ws_ids (\<lambda>w. w_state w = ON \<and> w_auto_stop_at w \<noteq> None) (cur ?s))"
      using get_ws_row [OF ok] by (auto simp: ws_ids_def)
    with None each_ws_other [OF auto_stop_own assms(2)] quiet show ?thesis
      by (simp add: s'_def auto_stop_once_def)
  next
    case (Some w)
    with auto_stop_row [OF ok assms(2,3) quiet Some] show ?thesis by (simp add: s'_def)
  qed
  have "rows_ok s'" unfolding s'_def by (rule handler_ok [OF handler.auto_stop ok])
  then have "\<not> due_for_auto_stop now w" if "w \<in> set (workspaces (cur s'))" for w
  proof -
    assume "rows_ok s'"
    from get_ws_row [OF this that] rows [of "w_id w"] obtain v
      where v: "w = (if due_for_auto_stop now v then stopped_row v else v)" by auto
    have "\<not> due_for_auto_stop now (stopped_row v)" by (simp add: due_for_auto_stop_def)
    with v show ?thesis by simp
  qed
  with quiet rows e show ?thesis by simp
qed

theorem auto_stop_leaves_none_due_witness:
  "\<exists>s v. get_ws (cur s) 1 = Some v \<and> w_state v = ON
    \<and> (\<exists>r. get_ws (cur (snd (auto_stop_once (\<lambda>_. IncusOk) (13 * hour) s))) 1 = Some r \<and> w_state r = OFF)"
proof -
  from started_state obtain s v where s: "clean s"
    "get_ws (cur s) 1 = Some (started_row default_config hour v)"
    "reachable default_config (built\<lparr>os_session := s\<rparr>)" by blast
  have due: "due_for_auto_stop (13 * hour) (started_row default_config hour v)"
    by (simp add: due_for_auto_stop_def default_config_def hour_def)
  from auto_stop_leaves_none_due [OF s(3), of "\<lambda>_. IncusOk" "13 * hour" _ _ 1] s(1,2) due
  show ?thesis by (intro exI [of _ s]) (auto simp: prod_eq_iff)
qed



end
