(* ===== verification/Bale.thy ===== *)
theory Bale
  imports Outbox
begin

text \<open>
  \<open>control/mmd/bale.py\<close>: linking a phone number to a chat, and the poll that applies
  inbound updates. Replies the bot sends do not change the database and are not modelled, nor
  are failures of sending them: the source sends its refusals before any write and its
  confirmation after the commit. The \<open>display_name\<close> is kept as the contact gives it.
\<close>

section \<open>Phone numbers\<close>

definition normalise_phone :: "string \<Rightarrow> string" where
  "normalise_phone raw =
     (let digits = filter is_digit raw;
          digits1 = (if startswith digits ''00'' then drop 2 digits else digits)
      in if startswith digits1 ''98'' then CHR ''0'' # drop 2 digits1
         else if startswith digits1 ''9'' \<and> length digits1 = 10 then CHR ''0'' # digits1
         else digits1)"

section \<open>Linking\<close>

record contact =
  co_user_id :: "int option"
  co_phone_number :: string
  co_first_name :: "string option"
  co_last_name :: "string option"

definition contact_name :: "contact \<Rightarrow> string option" where
  "contact_name c =
     (let parts = filter (\<lambda>x. x \<noteq> []) (map (\<lambda>o'. case o' of None \<Rightarrow> [] | Some x \<Rightarrow> x)
            [co_first_name c, co_last_name c]);
          name = strip (case parts of [] \<Rightarrow> [] | [x] \<Rightarrow> x | x # y # _ \<Rightarrow> x @ '' '' @ y)
      in if name = [] then None else Some name)"

text \<open>The write of \<open>link\<close>: rows of the number or of the chat go, then the new row.\<close>

definition relink :: "bale_contact \<Rightarrow> bale_contact list \<Rightarrow> bale_contact list" where
  "relink c cs = filter (\<lambda>x. \<not> (bc_phone x = bc_phone c \<or> bc_chat_id x = bc_chat_id c)) cs @ [c]"

definition link :: "int \<Rightarrow> contact \<Rightarrow> int option \<Rightarrow> string \<Rightarrow> session \<Rightarrow> bool \<times> session" where
  "link chat_id c sender chat_type s =
     (if co_user_id c = None \<or> sender = None \<or> co_user_id c \<noteq> sender then (False, s)
      else if chat_type \<noteq> [] \<and> chat_type \<noteq> ''private'' then (False, s)
      else let phone = normalise_phone (co_phone_number c) in
           if length phone \<noteq> 11 \<or> \<not> startswith phone ''09'' then (False, s)
           else (True, commit (edit (\<lambda>d. d\<lparr>bale_contacts := relink
                  \<lparr>bc_phone = phone, bc_chat_id = chat_id, bc_display_name = contact_name c\<rparr>
                  (bale_contacts d)\<rparr>) s)))"

section \<open>Inbound updates\<close>

record update =
  up_id :: int
  up_chat_id :: "int option"
  up_chat_type :: string
  up_sender :: "int option"
  up_contact :: "contact option"

definition handle_update :: "update \<Rightarrow> session \<Rightarrow> session" where
  "handle_update u s =
     (case up_chat_id u of
        None \<Rightarrow> s
      | Some chat \<Rightarrow> if chat = 0 then s
          else (case up_contact u of None \<Rightarrow> s
                | Some c \<Rightarrow> snd (link chat c (up_sender u) (up_chat_type u) s)))"

definition OFFSET_SETTING :: string where "OFFSET_SETTING = ''bale_update_offset''"

definition read_offset :: "db \<Rightarrow> int option" where
  "read_offset d = (let v = strip (get_setting d OFFSET_SETTING [])
     in if v = [] then Some 0 else py_int v)"

text \<open>
  \<open>poll\<close>: \<open>updates\<close> is what the service returns for an offset, \<open>None\<close> when the call
  fails. A stored offset that is not a number raises (\<open>None\<close>).
\<close>

definition poll ::
  "string \<Rightarrow> (int \<Rightarrow> update list option) \<Rightarrow> session \<Rightarrow> (int \<times> session) option" where
  "poll token updates s =
     (if token = [] then Some (0, s)
      else case read_offset (cur s) of
        None \<Rightarrow> None
      | Some offset \<Rightarrow>
          (case updates offset of
             None \<Rightarrow> Some (0, s)
           | Some batch \<Rightarrow>
               let s1 = fold handle_update batch s;
                   offset' = fold (\<lambda>u a. max a (up_id u + 1)) batch offset
               in Some (int (length batch),
                    if batch = [] then s1
                    else commit (edit (set_setting OFFSET_SETTING (show_int offset')) s1))))"

section \<open>Lemmas\<close>

text \<open>The rows that survive a sequence of links: those no later link displaces.\<close>

definition displaces :: "bale_contact \<Rightarrow> bale_contact \<Rightarrow> bool" where
  "displaces c x \<longleftrightarrow> bc_phone x = bc_phone c \<or> bc_chat_id x = bc_chat_id c"

fun survivors :: "bale_contact list \<Rightarrow> bale_contact list" where
  "survivors [] = []"
| "survivors (c # cs) = (if list_ex (\<lambda>x. displaces x c) cs then survivors cs else c # survivors cs)"

lemma survivors_subset: "set (survivors cs) \<subseteq> set cs"
  by (induction cs) auto

lemma fold_relink:
  "set (fold relink cs rows)
    = set (survivors cs) \<union> {x \<in> set rows. \<not> list_ex (\<lambda>c. displaces c x) cs}"
proof (induction cs arbitrary: rows)
  case (Cons c cs)
  have "set (fold relink (c # cs) rows)
      = set (survivors cs) \<union> {x \<in> set (relink c rows). \<not> list_ex (\<lambda>c. displaces c x) cs}"
    using Cons.IH by simp
  also have "\<dots> = set (survivors (c # cs))
      \<union> {x \<in> set rows. \<not> list_ex (\<lambda>c. displaces c x) (c # cs)}"
    by (auto simp: relink_def displaces_def)
  finally show ?case .
qed simp

lemma fold_relink_twice: "set (fold relink cs (fold relink cs rows)) = set (fold relink cs rows)"
proof -
  have "{x \<in> set (survivors cs). \<not> list_ex (\<lambda>c. displaces c x) cs} = {}"
    using survivors_subset [of cs] by (auto simp: list_ex_iff displaces_def)
  then have "{x \<in> set (fold relink cs rows). \<not> list_ex (\<lambda>c. displaces c x) cs}
      = {x \<in> set rows. \<not> list_ex (\<lambda>c. displaces c x) cs}"
    by (auto simp: fold_relink)
  then show ?thesis by (simp add: fold_relink [of cs])
qed

text \<open>The link an update asks for, if it is accepted.\<close>

definition asked_link :: "update \<Rightarrow> bale_contact option" where
  "asked_link u =
     (case (up_chat_id u, up_contact u) of
        (Some chat, Some c) \<Rightarrow>
          let phone = normalise_phone (co_phone_number c) in
          if chat \<noteq> 0 \<and> co_user_id c \<noteq> None \<and> co_user_id c = up_sender u
             \<and> (up_chat_type u = [] \<or> up_chat_type u = ''private'')
             \<and> length phone = 11 \<and> startswith phone ''09''
          then Some \<lparr>bc_phone = phone, bc_chat_id = chat, bc_display_name = contact_name c\<rparr> else None
      | _ \<Rightarrow> None)"

lemma handle_update_link:
  "bale_contacts (cur (handle_update u s))
    = (case asked_link u of None \<Rightarrow> bale_contacts (cur s) | Some c \<Rightarrow> relink c (bale_contacts (cur s)))"
  by (auto simp: handle_update_def asked_link_def link_def Let_def split: option.split)

lemma fold_handle_update:
  "bale_contacts (cur (fold handle_update us s))
    = fold relink (List.map_filter asked_link us) (bale_contacts (cur s))"
  by (induction us arbitrary: s)
    (auto simp: handle_update_link List.map_filter_simps split: option.split)

definition contacts_unique :: "bale_contact list \<Rightarrow> bool" where
  "contacts_unique cs \<longleftrightarrow> distinct (map bc_phone cs) \<and> distinct (map bc_chat_id cs)"

lemma relink_unique: "contacts_unique cs \<Longrightarrow> contacts_unique (relink c cs)"
  by (auto simp: contacts_unique_def relink_def distinct_map_filter)

section \<open>Properties\<close>

text \<open>A crash in the middle of a batch of updates is harmless: applying the same updates
  again, as the poll does when the offset was not saved, leaves the same links, and the links
  stay one chat per number and one number per chat.\<close>
lemma bale_replay_is_harmless:
  assumes "contacts_unique (bale_contacts (cur s))"
  shows "set (bale_contacts (cur (fold handle_update us (fold handle_update us s))))
      = set (bale_contacts (cur (fold handle_update us s)))
    \<and> contacts_unique (bale_contacts (cur (fold handle_update us s)))"
proof
  show "set (bale_contacts (cur (fold handle_update us (fold handle_update us s))))
      = set (bale_contacts (cur (fold handle_update us s)))"
    by (simp add: fold_handle_update fold_relink_twice)
  have "contacts_unique (fold relink cs rows)" if "contacts_unique rows" for cs rows
    using that by (induction cs arbitrary: rows) (simp_all add: relink_unique)
  with assms show "contacts_unique (bale_contacts (cur (fold handle_update us s)))"
    by (simp add: fold_handle_update)
qed

definition link_update :: "int \<Rightarrow> string \<Rightarrow> string \<Rightarrow> update" where
  "link_update i phone kind = \<lparr>up_id = i, up_chat_id = Some 55, up_chat_type = kind,
     up_sender = Some 55, up_contact = Some \<lparr>co_user_id = Some 55, co_phone_number = phone,
       co_first_name = None, co_last_name = None\<rparr>\<rparr>"

lemma bale_replay_is_harmless_witness:
  "set (bale_contacts (cur (fold handle_update [link_update 1 ''+989120000000'' ''private'']
      (fold handle_update [link_update 1 ''+989120000000'' ''private''] (open_session empty_db 0)))))
   = {\<lparr>bc_phone = ''09120000000'', bc_chat_id = 55, bc_display_name = None\<rparr>}"
proof -
  have one: "bale_contacts (cur (fold handle_update [link_update 1 ''+989120000000'' ''private'']
      (open_session empty_db 0))) = [\<lparr>bc_phone = ''09120000000'', bc_chat_id = 55, bc_display_name = None\<rparr>]"
    by (simp add: handle_update_def link_update_def link_def normalise_phone_def is_digit_def
        is_ascii_digit_def relink_def empty_db_def contact_name_def Let_def)
  have "contacts_unique (bale_contacts (cur (open_session empty_db 0)))"
    by (simp add: contacts_unique_def empty_db_def)
  from bale_replay_is_harmless [OF this, of "[link_update 1 ''+989120000000'' ''private'']"] one
  show ?thesis by simp
qed

text \<open>A number's codes go only to a chat that proved it: an update changes the links only
  when its contact carries the sender's own id, and then exactly the contact's normalised
  number is moved to that chat. The chat must be private or its type absent: an update without
  a chat type is accepted, so the proof of privacy is not required.\<close>
lemma link_needs_own_contact:
  "(bale_contacts (cur (handle_update u s)) = bale_contacts (cur s)
     \<or> (\<exists>chat c. up_chat_id u = Some chat \<and> up_contact u = Some c \<and> co_user_id c \<noteq> None
          \<and> co_user_id c = up_sender u \<and> (up_chat_type u = ''private'' \<or> up_chat_type u = [])
          \<and> bale_contacts (cur (handle_update u s)) = relink
              \<lparr>bc_phone = normalise_phone (co_phone_number c), bc_chat_id = chat,
               bc_display_name = contact_name c\<rparr> (bale_contacts (cur s))))
   \<and> fst (link chat_id \<lparr>co_user_id = Some i, co_phone_number = ''09120000000'',
        co_first_name = None, co_last_name = None\<rparr> (Some i) [] s)"
proof
  show "fst (link chat_id \<lparr>co_user_id = Some i, co_phone_number = ''09120000000'',
      co_first_name = None, co_last_name = None\<rparr> (Some i) [] s)"
    by (simp add: link_def normalise_phone_def is_digit_def is_ascii_digit_def Let_def)
next
  have "asked_link u = None \<or> (\<exists>chat c. up_chat_id u = Some chat \<and> up_contact u = Some c
      \<and> co_user_id c \<noteq> None \<and> co_user_id c = up_sender u
      \<and> (up_chat_type u = ''private'' \<or> up_chat_type u = [])
      \<and> asked_link u = Some \<lparr>bc_phone = normalise_phone (co_phone_number c), bc_chat_id = chat,
          bc_display_name = contact_name c\<rparr>)"
    by (auto simp: asked_link_def Let_def split: option.split)
  then show "bale_contacts (cur (handle_update u s)) = bale_contacts (cur s)
     \<or> (\<exists>chat c. up_chat_id u = Some chat \<and> up_contact u = Some c \<and> co_user_id c \<noteq> None
          \<and> co_user_id c = up_sender u \<and> (up_chat_type u = ''private'' \<or> up_chat_type u = [])
          \<and> bale_contacts (cur (handle_update u s)) = relink
              \<lparr>bc_phone = normalise_phone (co_phone_number c), bc_chat_id = chat,
               bc_display_name = contact_name c\<rparr> (bale_contacts (cur s)))"
    by (elim disjE exE conjE) (simp_all add: handle_update_link)
qed

end
