(* ===== verification/PosixPath.thy ===== *)
theory PosixPath
  imports PyText
begin

text \<open>
  \<open>posixpath.normpath\<close> and its neighbours of the standard library, and the two path checks that
  rest on them: \<open>_clean_path\<close> of \<open>control/mmd/app.py\<close> and \<open>_safe_path\<close> of the provisioner. POSIX
  gives a path of exactly two leading slashes a meaning of its own, and \<open>normpath\<close> keeps them.
\<close>

section \<open>Splitting and joining\<close>

fun split_slash :: "string \<Rightarrow> string list" where
  "split_slash [] = [[]]"
| "split_slash (c # s) =
     (if c = CHR ''/'' then [] # split_slash s
      else case split_slash s of [] \<Rightarrow> [[c]] | x # xs \<Rightarrow> (c # x) # xs)"

fun join_slash :: "string list \<Rightarrow> string" where
  "join_slash [] = []"
| "join_slash [x] = x"
| "join_slash (x # y # xs) = x @ CHR ''/'' # join_slash (y # xs)"

text \<open>The components kept so far are on a stack, the last one first.\<close>

fun push_comp :: "bool \<Rightarrow> string list \<Rightarrow> string \<Rightarrow> string list" where
  "push_comp absolute st x =
     (if x = [] \<or> x = ''.'' then st
      else if x \<noteq> ''..'' \<or> (\<not> absolute \<and> st = []) \<or> (st \<noteq> [] \<and> hd st = ''..'')
      then x # st
      else tl st)"

definition norm_comps :: "bool \<Rightarrow> string \<Rightarrow> string list" where
  "norm_comps absolute p = rev (foldl (push_comp absolute) [] (split_slash p))"

definition leading_slashes :: "string \<Rightarrow> nat" where
  "leading_slashes p =
     (if startswith p ''//'' \<and> \<not> startswith p ''///'' then 2
      else if startswith p ''/'' then 1 else 0)"

definition normpath :: "string \<Rightarrow> string" where
  "normpath p =
     (if p = [] then ''.''
      else let n = leading_slashes p;
               q = replicate n (CHR ''/'') @ join_slash (norm_comps (n \<noteq> 0) p)
           in if q = [] then ''.'' else q)"

text \<open>\<open>posixpath.basename\<close>, \<open>posixpath.dirname\<close> and \<open>posixpath.join\<close> of two parts.\<close>

definition basename :: "string \<Rightarrow> string" where
  "basename p = last (split_slash p)"

definition dirname :: "string \<Rightarrow> string" where
  "dirname p =
     (let head = take (length p - length (basename p)) p
      in if head \<noteq> [] \<and> list_ex (\<lambda>c. c \<noteq> CHR ''/'') head
         then rev (dropWhile (\<lambda>c. c = CHR ''/'') (rev head)) else head)"

definition path_join :: "string \<Rightarrow> string \<Rightarrow> string" where
  "path_join a b =
     (if startswith b ''/'' then b
      else if a = [] \<or> last a = CHR ''/'' then a @ b else a @ CHR ''/'' # b)"

section \<open>The checks\<close>

definition control_free :: "string \<Rightarrow> bool" where
  "control_free p \<longleftrightarrow> list_all (\<lambda>c. code c \<noteq> 0 \<and> code c \<noteq> 10 \<and> code c \<noteq> 13) p"

text \<open>\<open>_safe_path\<close> of a string argument.\<close>

definition safe_path :: "string \<Rightarrow> string option" where
  "safe_path p =
     (if p = [] \<or> 4096 < length p \<or> \<not> control_free p \<or> \<not> startswith p ''/'' then None
      else if startswith (normpath p) ''/'' then Some (normpath p) else None)"

text \<open>\<open>_clean_path\<close>: \<open>None\<close> is the answer 400 \<open>bad_path\<close>.\<close>

definition clean_path :: "string \<Rightarrow> string option" where
  "clean_path p =
     (if p = [] \<or> \<not> control_free p \<or> \<not> startswith p ''/'' then None
      else if startswith (normpath p) ''/'' then Some (normpath p) else None)"

section \<open>Lemmas\<close>

definition no_slash :: "string \<Rightarrow> bool" where
  "no_slash s \<longleftrightarrow> CHR ''/'' \<notin> set s"

definition plain_comp :: "string \<Rightarrow> bool" where
  "plain_comp s \<longleftrightarrow> s \<noteq> [] \<and> s \<noteq> ''.'' \<and> s \<noteq> ''..'' \<and> no_slash s"

lemma split_slash_nonempty [simp]: "split_slash s \<noteq> []"
  by (cases s) (auto split: list.split)

lemma split_slash_no_slash: "x \<in> set (split_slash s) \<Longrightarrow> no_slash x"
proof (induction s arbitrary: x)
  case Nil
  then show ?case by (simp add: no_slash_def)
next
  case (Cons c s)
  then show ?case by (cases "split_slash s") (auto simp: no_slash_def split: if_splits)
qed

lemma set_split_slash: "x \<in> set (split_slash s) \<Longrightarrow> set x \<subseteq> set s"
proof (induction s arbitrary: x)
  case Nil
  then show ?case by simp
next
  case (Cons c s)
  then show ?case by (cases "split_slash s") (fastforce split: if_splits)+
qed

lemma split_slash_plain: "no_slash x \<Longrightarrow> split_slash x = [x]"
  by (induction x) (auto simp: no_slash_def)

lemma split_slash_append: "no_slash x \<Longrightarrow> split_slash (x @ CHR ''/'' # s) = x # split_slash s"
  by (induction x) (auto simp: no_slash_def)

lemma split_join: "xs \<noteq> [] \<Longrightarrow> list_all no_slash xs \<Longrightarrow> split_slash (join_slash xs) = xs"
  by (induction xs rule: join_slash.induct) (simp_all add: split_slash_plain split_slash_append)

lemma push_comps_absolute:
  "list_all plain_comp st \<Longrightarrow> list_all no_slash xs \<Longrightarrow> list_all plain_comp (foldl (push_comp True) st xs)"
proof (induction xs arbitrary: st)
  case Nil
  then show ?case by simp
next
  case (Cons x xs)
  have new: "\<forall>y \<in> set (push_comp True st x). y = x \<and> x \<noteq> [] \<and> x \<noteq> ''.'' \<and> x \<noteq> ''..'' \<or> y \<in> set st"
    using Cons.prems(1) by (cases st) (auto simp: plain_comp_def)
  have old: "\<forall>y \<in> set st. plain_comp y" and x: "no_slash x"
    using Cons.prems by (simp_all add: list_all_iff)
  have "plain_comp y" if "y \<in> set (push_comp True st x)" for y
    using bspec [OF new that]
  proof
    assume "y = x \<and> x \<noteq> [] \<and> x \<noteq> ''.'' \<and> x \<noteq> ''..''"
    with x show ?thesis by (simp add: plain_comp_def)
  next
    assume "y \<in> set st"
    with old show ?thesis by (rule bspec)
  qed
  then have "list_all plain_comp (push_comp True st x)" by (simp add: list_all_iff)
  with Cons show ?case by simp
qed

lemma norm_comps_absolute: "list_all plain_comp (norm_comps True p)"
  using push_comps_absolute [of "[]" "split_slash p"] split_slash_no_slash [of _ p]
  by (simp add: norm_comps_def list_all_iff)

lemma push_comps_plain:
  "list_all plain_comp xs \<Longrightarrow> foldl (push_comp True) st xs = rev xs @ st"
  by (induction xs arbitrary: st) (auto simp: plain_comp_def)

lemma push_comps_skip: "foldl (push_comp True) st (replicate n [] @ xs) = foldl (push_comp True) st xs"
  by (induction n) auto

lemma split_replicate: "split_slash (replicate n (CHR ''/'') @ s) = replicate n [] @ split_slash s"
  by (induction n) auto

lemma norm_comps_join:
  assumes "list_all plain_comp xs"
  shows "norm_comps True (replicate n (CHR ''/'') @ join_slash xs) = xs"
proof (cases "xs = []")
  case True
  have "foldl (push_comp True) [] (replicate n [] @ [[]]) = []"
    by (simp only: push_comps_skip) simp
  moreover have "split_slash (replicate n (CHR ''/'')) = replicate n [] @ [[]]"
    using split_replicate [of n "[]"] by simp
  ultimately show ?thesis using True by (simp add: norm_comps_def del: foldl_append)
next
  case False
  have "list_all no_slash xs" using assms by (auto simp: list_all_iff plain_comp_def)
  with False have "split_slash (join_slash xs) = xs" by (rule split_join)
  then show ?thesis
    by (simp add: norm_comps_def split_replicate push_comps_skip push_comps_plain assms
        del: foldl_append)
qed

lemma join_slash_hd: "xs \<noteq> [] \<Longrightarrow> list_all plain_comp xs \<Longrightarrow> join_slash xs \<noteq> [] \<and> hd (join_slash xs) \<noteq> CHR ''/''"
proof (cases xs rule: join_slash.cases)
  case (2 x)
  assume "list_all plain_comp xs"
  with 2 show ?thesis by (cases x) (auto simp: plain_comp_def no_slash_def)
next
  case (3 x y ys)
  assume "list_all plain_comp xs"
  with 3 show ?thesis by (cases x) (auto simp: plain_comp_def no_slash_def)
qed simp

lemma startswith_slash: "startswith p ''/'' \<longleftrightarrow> p \<noteq> [] \<and> hd p = CHR ''/''"
  by (cases p) auto

lemma leading_slashes_join:
  assumes "list_all plain_comp xs" and "n = 1 \<or> n = 2"
  shows "leading_slashes (replicate n (CHR ''/'') @ join_slash xs) = n"
proof (cases "xs = []")
  case True
  with assms(2) show ?thesis by (auto simp: leading_slashes_def numeral_2_eq_2)
next
  case False
  with join_slash_hd [OF this assms(1)] obtain c s where "join_slash xs = c # s" "c \<noteq> CHR ''/''"
    by (cases "join_slash xs") auto
  with assms(2) show ?thesis by (auto simp: leading_slashes_def numeral_2_eq_2)
qed

text \<open>The normal form of an absolute path: one or two slashes and plain components.\<close>

definition canonical :: "string \<Rightarrow> bool" where
  "canonical q \<longleftrightarrow> (\<exists>n xs. (n = 1 \<or> n = 2) \<and> list_all plain_comp xs
     \<and> q = replicate n (CHR ''/'') @ join_slash xs)"

lemma leading_slashes_cases: "startswith p ''/'' \<Longrightarrow> leading_slashes p = 1 \<or> leading_slashes p = 2"
  by (simp add: leading_slashes_def)

lemma normpath_canonical:
  assumes "startswith p ''/''" shows "canonical (normpath p)"
proof -
  let ?n = "leading_slashes p"
  have n: "?n = 1 \<or> ?n = 2" using assms by (rule leading_slashes_cases)
  then have "normpath p = replicate ?n (CHR ''/'') @ join_slash (norm_comps True p)"
    using assms by (cases p) (auto simp: normpath_def Let_def numeral_2_eq_2)
  then show ?thesis using n norm_comps_absolute [of p] unfolding canonical_def by blast
qed

lemma canonical_starts: "canonical q \<Longrightarrow> startswith q ''/''"
  by (auto simp: canonical_def numeral_2_eq_2)

lemma normpath_fixed:
  assumes "canonical q" shows "normpath q = q"
proof -
  obtain n xs where n: "n = 1 \<or> n = 2" and xs: "list_all plain_comp xs"
    and q: "q = replicate n (CHR ''/'') @ join_slash xs"
    using assms by (auto simp: canonical_def)
  have "q \<noteq> []" using n q by auto
  moreover have "leading_slashes q = n" using leading_slashes_join [OF xs n] q by simp
  moreover have "norm_comps True q = xs" using norm_comps_join [OF xs, of n] q by simp
  ultimately show ?thesis using n q by (auto simp: normpath_def Let_def)
qed

lemma safe_path_canonical: "safe_path p = Some q \<Longrightarrow> canonical q \<and> normpath q = q"
  using normpath_canonical normpath_fixed by (auto simp: safe_path_def split: if_splits)

end
