(* ===== verification/SshKeys.thy ===== *)
theory SshKeys
  imports PyText
begin

text \<open>
  \<open>control/mmd/sshkeys.py\<close>: parsing of the SSH public keys a customer pastes, their
  fingerprints, and the body of \<open>authorized_keys\<close>. Bytes are numbers below 256. Base64 is
  written out as CPython's strict decoder accepts it; SHA-256 is a parameter.
\<close>

section \<open>Lines and fields\<close>

text \<open>The line boundaries of \<open>str.splitlines\<close> below 256.\<close>

definition line_break :: "char \<Rightarrow> bool" where
  "line_break c \<longleftrightarrow> code c \<in> {10, 11, 12, 13, 28, 29, 30, 133}"

fun splitlines_from :: "string \<Rightarrow> string \<Rightarrow> string list" where
  "splitlines_from acc [] = (if acc = [] then [] else [rev acc])"
| "splitlines_from acc (c # s) =
     (if code c = 13
      then rev acc # (case s of [] \<Rightarrow> splitlines_from [] s
             | d # t \<Rightarrow> if code d = 10 then splitlines_from [] t else splitlines_from [] s)
      else if line_break c then rev acc # splitlines_from [] s
      else splitlines_from (c # acc) s)"

definition splitlines :: "string \<Rightarrow> string list" where
  "splitlines s = splitlines_from [] s"

text \<open>\<open>line.split(None, 2)\<close>.\<close>

definition non_space :: "char \<Rightarrow> bool" where
  "non_space c \<longleftrightarrow> \<not> is_space c"

definition split_fields :: "string \<Rightarrow> string list" where
  "split_fields s =
     (let s0 = lstrip s;
          r1 = lstrip (dropWhile non_space s0);
          r2 = lstrip (dropWhile non_space r1)
      in if s0 = [] then []
         else takeWhile non_space s0 #
           (if r1 = [] then []
            else takeWhile non_space r1 # (if r2 = [] then [] else [r2])))"

section \<open>Base64\<close>

definition b64_alphabet :: string where
  "b64_alphabet = ''ABCDEFGHIJKLMNOPQRSTUVWXYZabcdefghijklmnopqrstuvwxyz0123456789+/''"

definition b64_char :: "char \<Rightarrow> bool" where
  "b64_char c \<longleftrightarrow> is_alnum_ascii c \<or> c = CHR ''+'' \<or> c = CHR ''/''"

definition b64_val :: "char \<Rightarrow> nat" where
  "b64_val c = (if is_upper_az c then code c - 65
     else if is_lower_az c then code c - 71
     else if is_ascii_digit c then code c + 4
     else if c = CHR ''+'' then 62 else 63)"

fun decode_quads :: "nat list \<Rightarrow> nat list" where
  "decode_quads (a # b # c # d # vs) =
     [a * 4 + b div 16, (b mod 16) * 16 + c div 4, (c mod 4) * 64 + d] @ decode_quads vs"
| "decode_quads [a, b, c] = [a * 4 + b div 16, (b mod 16) * 16 + c div 4]"
| "decode_quads [a, b] = [a * 4 + b div 16]"
| "decode_quads _ = []"

text \<open>\<open>base64.b64decode(body, validate=True)\<close>: \<open>None\<close> is \<open>binascii.Error\<close>.\<close>

definition b64decode :: "string \<Rightarrow> nat list option" where
  "b64decode s =
     (let d = takeWhile b64_char s; pads = dropWhile b64_char s; n = length d
      in if list_all (\<lambda>c. c = CHR ''='') pads
           \<and> (n mod 4 = 0 \<and> (d \<noteq> [] \<or> pads = []) \<or> n mod 4 = 2 \<and> length pads = 2
              \<or> n mod 4 = 3 \<and> length pads = 1)
         then Some (decode_quads (map b64_val d)) else None)"

fun b64encode :: "nat list \<Rightarrow> string" where
  "b64encode (x # y # z # bs) =
     [b64_alphabet ! (x div 4), b64_alphabet ! ((x mod 4) * 16 + y div 16),
      b64_alphabet ! ((y mod 16) * 4 + z div 64), b64_alphabet ! (z mod 64)] @ b64encode bs"
| "b64encode [x, y] =
     [b64_alphabet ! (x div 4), b64_alphabet ! ((x mod 4) * 16 + y div 16),
      b64_alphabet ! ((y mod 16) * 4), CHR ''='']"
| "b64encode [x] = [b64_alphabet ! (x div 4), b64_alphabet ! ((x mod 4) * 16), CHR ''='', CHR ''='']"
| "b64encode [] = []"

section \<open>One key\<close>

definition ALLOWED_TYPES :: "string list" where
  "ALLOWED_TYPES = [''ssh-ed25519'', ''sk-ssh-ed25519@openssh.com'', ''ssh-rsa'', ''rsa-sha2-256'',
     ''rsa-sha2-512'', ''ecdsa-sha2-nistp256'', ''ecdsa-sha2-nistp384'', ''ecdsa-sha2-nistp521'',
     ''sk-ecdsa-sha2-nistp256@openssh.com'']"

definition MAX_KEYS :: nat where "MAX_KEYS = 10"
definition MAX_LINE :: nat where "MAX_LINE = 8192"

text \<open>\<open>_B64\<close>: base64 characters, then at most three signs of equality.\<close>

definition b64_shape :: "string \<Rightarrow> bool" where
  "b64_shape s \<longleftrightarrow> takeWhile b64_char s \<noteq> [] \<and> list_all (\<lambda>c. c = CHR ''='') (dropWhile b64_char s)
     \<and> length (dropWhile b64_char s) \<le> 3"

text \<open>\<open>\\w\<close> below 256.\<close>

definition word_char :: "char \<Rightarrow> bool" where
  "word_char c \<longleftrightarrow> is_alnum_ascii c \<or> c = CHR ''_''
     \<or> code c \<in> {170, 178, 179, 181, 185, 186, 188, 189, 190}
     \<or> (192 \<le> code c \<and> code c \<noteq> 215 \<and> code c \<noteq> 247)"

definition comment_char :: "char \<Rightarrow> bool" where
  "comment_char c \<longleftrightarrow> word_char c \<or> c \<in> set ''.@+/:- ''"

definition comment_ok :: "string \<Rightarrow> bool" where
  "comment_ok s \<longleftrightarrow> list_all comment_char s \<and> length s \<le> 200"

datatype key_error = BadSshKey | BadSshKeyType | NoSshKey | TooManySshKeys

definition be32 :: "nat list \<Rightarrow> nat" where
  "be32 bs = foldl (\<lambda>a b. a * 256 + b) 0 (take 4 bs)"

definition parse_key :: "string \<Rightarrow> (key_error, string \<times> string \<times> string) result" where
  "parse_key raw_line =
     (let line = strip raw_line in
      if line = [] \<or> hd line = CHR ''#'' then raise BadSshKey
      else if length line > MAX_LINE then raise BadSshKey
      else if list_ex (\<lambda>c. code c = 10 \<or> code c = 13) line then raise BadSshKey
      else case split_fields line of
        ktype # body # rest \<Rightarrow>
          let comment = (case rest of [] \<Rightarrow> [] | c # _ \<Rightarrow> c) in
          if ktype \<notin> set ALLOWED_TYPES then raise BadSshKeyType
          else if \<not> b64_shape body then raise BadSshKey
          else (case b64decode body of
              None \<Rightarrow> raise BadSshKey
            | Some raw \<Rightarrow>
                if length raw < 16 then raise BadSshKey
                else if be32 raw > length raw - 4
                     \<or> take (be32 raw) (drop 4 raw) \<noteq> map of_char ktype then raise BadSshKey
                else if comment \<noteq> [] \<and> \<not> comment_ok comment then raise BadSshKey
                else return (ktype, body, comment))
      | _ \<Rightarrow> raise BadSshKey)"

section \<open>A block of keys\<close>

definition fingerprint :: "(nat list \<Rightarrow> nat list) \<Rightarrow> string \<Rightarrow> string" where
  "fingerprint sha256 body =
     ''SHA256:'' @ rev (dropWhile (\<lambda>c. c = CHR ''='')
       (rev (b64encode (sha256 (case b64decode body of None \<Rightarrow> [] | Some raw \<Rightarrow> raw)))))"

record key_entry =
  ke_type :: string
  ke_body :: string
  ke_comment :: string
  ke_fingerprint :: string
  ke_line :: string

definition key_line :: "string \<Rightarrow> string \<Rightarrow> string \<Rightarrow> string" where
  "key_line ktype body comment =
     ktype @ '' '' @ body @ (if comment = [] then [] else '' '' @ comment)"

fun collect_keys ::
  "(nat list \<Rightarrow> nat list) \<Rightarrow> string list \<Rightarrow> string list \<Rightarrow> (key_error, key_entry list) result" where
  "collect_keys sha256 seen [] = return []"
| "collect_keys sha256 seen (l # ls) =
     andthen (parse_key l) (\<lambda>(ktype, body, comment).
       if body \<in> set seen then collect_keys sha256 seen ls
       else andthen (collect_keys sha256 (body # seen) ls) (\<lambda>ks.
         return (\<lparr>ke_type = ktype, ke_body = body, ke_comment = comment,
                  ke_fingerprint = fingerprint sha256 body,
                  ke_line = key_line ktype body comment\<rparr> # ks)))"

definition normalise_keys ::
  "(nat list \<Rightarrow> nat list) \<Rightarrow> string \<Rightarrow> (key_error, key_entry list) result" where
  "normalise_keys sha256 text =
     (let ls = filter (\<lambda>l. strip l \<noteq> [] \<and> hd (strip l) \<noteq> CHR ''#'') (splitlines text) in
      if ls = [] then raise NoSshKey
      else if length ls > MAX_KEYS then raise TooManySshKeys
      else collect_keys sha256 [] ls)"

definition keys_header :: string where
  "keys_header = ''# Managed by MMD-DEV. Edits here are replaced when keys change.''"

definition newline :: string where "newline = [char_of (10 :: nat)]"

fun join :: "string \<Rightarrow> string list \<Rightarrow> string" where
  "join sep [] = []"
| "join sep [x] = x"
| "join sep (x # y # ys) = x @ sep @ join sep (y # ys)"

definition authorized_keys_body :: "key_entry list \<Rightarrow> string" where
  "authorized_keys_body ks = keys_header @ newline @ join newline (map ke_line ks) @ newline"

section \<open>Lemmas\<close>

lemma fields_of_join:
  assumes "a \<noteq> []" "b \<noteq> []" "list_all non_space a" "list_all non_space b"
    and "c = [] \<or> \<not> is_space (hd c)"
  shows "split_fields (a @ '' '' @ b @ (if c = [] then [] else '' '' @ c))
    = (if c = [] then [a, b] else [a, b, c])"
proof -
  have sp: "is_space CHR '' ''" by (simp add: is_space_def)
  have ls: "lstrip (a @ x) = a @ x" "lstrip (b @ x) = b @ x" for x
    using assms by (cases a; cases b; simp add: lstrip_def non_space_def)+
  have lc: "lstrip c = c" using assms(5) by (cases c) (auto simp: lstrip_def)
  have tw: "takeWhile non_space (w @ CHR '' '' # x) = w" "dropWhile non_space (w @ CHR '' '' # x) = CHR '' '' # x"
    if "list_all non_space w" for w x
    using that sp by (induction w) (auto simp: non_space_def)
  have tn: "takeWhile non_space w = w" "dropWhile non_space w = []" if "list_all non_space w" for w
    using that by (auto simp: list_all_iff)
  have ls1: "lstrip (CHR '' '' # x) = lstrip x" for x using sp by (simp add: lstrip_def)
  show ?thesis
    using assms ls [of "[]"] ls(1) [of "'' '' @ b @ (if c = [] then [] else '' '' @ c)"]
      ls(2) [of "CHR '' '' # c"] lc
    by (cases "c = []") (simp_all add: split_fields_def Let_def tw tn ls1 ls lc lstrip_def [of "[]"])
qed

lemma fields_shape:
  assumes "split_fields s = a # b # rest"
  shows "a \<noteq> []" "b \<noteq> []" "list_all non_space a" "list_all non_space b"
    "rest = [] \<or> (\<exists>c. rest = [c] \<and> c \<noteq> [] \<and> \<not> is_space (hd c))"
proof -
  have hd: "lstrip x \<noteq> [] \<Longrightarrow> \<not> is_space (hd (lstrip x))" for x
    unfolding lstrip_def by (rule hd_dropWhile)
  have ne: "x \<noteq> [] \<Longrightarrow> \<not> is_space (hd x) \<Longrightarrow> takeWhile non_space x \<noteq> []" for x
    by (cases x) (auto simp: non_space_def)
  have la: "list_all non_space (takeWhile non_space x)" for x
    by (auto simp: list_all_iff dest: set_takeWhileD)
  from assms hd ne la show "a \<noteq> []" "b \<noteq> []" "list_all non_space a" "list_all non_space b"
    "rest = [] \<or> (\<exists>c. rest = [c] \<and> c \<noteq> [] \<and> \<not> is_space (hd c))"
    by (auto simp: split_fields_def Let_def split: if_splits)
qed

text \<open>The three fields and a blank between them are no longer than the line, and the comment
  ends where the line does.\<close>

lemma lstrip_length: "length (lstrip s) \<le> length s"
  by (simp add: lstrip_def length_dropWhile_le)

lemma fields_length:
  assumes "split_fields s = a # b # rest" "c = (case rest of [] \<Rightarrow> [] | c # _ \<Rightarrow> c)"
  shows "length (a @ '' '' @ b @ (if c = [] then [] else '' '' @ c)) \<le> length s"
proof -
  have cut: "length (takeWhile non_space x) + 1 + length (lstrip (dropWhile non_space x)) \<le> length x"
    if ne: "lstrip (dropWhile non_space x) \<noteq> []" for x
  proof -
    have len: "length x = length (takeWhile non_space x) + length (dropWhile non_space x)"
      by (metis length_append takeWhile_dropWhile_id)
    obtain d ds where d: "dropWhile non_space x = d # ds"
      using ne by (cases "dropWhile non_space x") (auto simp: lstrip_def)
    then have "is_space d" by (auto simp: non_space_def dest: dropWhile_not_hd)
    then have "length (lstrip (dropWhile non_space x)) \<le> length ds"
      using d lstrip_length [of ds] by (simp add: lstrip_def)
    with len d show ?thesis by simp
  qed
  let ?s0 = "lstrip s" let ?r1 = "lstrip (dropWhile non_space ?s0)"
  let ?r2 = "lstrip (dropWhile non_space ?r1)"
  have f: "a = takeWhile non_space ?s0" "b = takeWhile non_space ?r1" "?r1 \<noteq> []" "c = ?r2"
    using assms by (auto simp: split_fields_def Let_def split: if_splits)
  have "length a + 1 + length ?r1 \<le> length s"
    using cut [OF f(3)] lstrip_length [of s] f(1) by simp
  moreover have "length b \<le> length ?r1" using f(2) length_takeWhile_le by metis
  moreover have "?r2 \<noteq> [] \<Longrightarrow> length b + 1 + length ?r2 \<le> length ?r1" using cut f(2) by simp
  ultimately show ?thesis using f(4) by (cases "?r2 = []") simp_all
qed

lemma fields_last:
  assumes "split_fields s = [a, b, c]" "s \<noteq> []"
  shows "last c = last s"
proof -
  let ?s0 = "lstrip s" let ?r1 = "lstrip (dropWhile non_space ?s0)"
  have suf: "\<exists>p. x = p @ lstrip x" "\<exists>p. x = p @ dropWhile non_space x" for x
    unfolding lstrip_def by (metis takeWhile_dropWhile_id)+
  have "c = lstrip (dropWhile non_space ?r1)" "c \<noteq> []"
    using assms by (auto simp: split_fields_def Let_def split: if_splits)
  then obtain p where "s = p @ c"
    using suf(1) [of s] suf(2) [of ?s0] suf(1) [of "dropWhile non_space ?s0"] suf(2) [of ?r1]
      suf(1) [of "dropWhile non_space ?r1"] by (metis append.assoc)
  with \<open>c \<noteq> []\<close> show ?thesis by simp
qed

text \<open>An accepted key, stated on its fields.\<close>

definition plain_key :: "string \<Rightarrow> string \<Rightarrow> string \<Rightarrow> bool" where
  "plain_key ktype body comment \<longleftrightarrow> ktype \<in> set ALLOWED_TYPES \<and> b64_shape body
     \<and> (\<exists>raw. b64decode body = Some raw \<and> 16 \<le> length raw \<and> be32 raw \<le> length raw - 4
          \<and> take (be32 raw) (drop 4 raw) = map of_char ktype)
     \<and> comment_ok comment
     \<and> (comment = [] \<or> \<not> is_space (hd comment) \<and> \<not> is_space (last comment))
     \<and> length (key_line ktype body comment) \<le> MAX_LINE"

lemma comment_ok_Nil [simp]: "comment_ok []"
  by (simp add: comment_ok_def)

lemma parse_key_plain:
  assumes "parse_key l = Inr (ktype, body, comment)"
  shows "plain_key ktype body comment"
proof -
  let ?s = "strip l"
  from assms have s: "?s \<noteq> []" "length ?s \<le> MAX_LINE"
    by (auto simp: parse_key_def Let_def split: if_splits)
  from assms obtain rest where f: "split_fields ?s = ktype # body # rest"
      and c: "comment = (case rest of [] \<Rightarrow> [] | c # _ \<Rightarrow> c)"
      and k: "ktype \<in> set ALLOWED_TYPES" "b64_shape body" "comment = [] \<or> comment_ok comment"
      "\<exists>raw. b64decode body = Some raw \<and> 16 \<le> length raw \<and> be32 raw \<le> length raw - 4
          \<and> take (be32 raw) (drop 4 raw) = map of_char ktype"
    by (auto simp: parse_key_def Let_def not_less not_le split: if_splits list.splits option.splits)
  note sh = fields_shape [OF f]
  have len: "length (key_line ktype body comment) \<le> MAX_LINE"
    using fields_length [OF f c] s(2) by (simp add: key_line_def)
  have ends: "comment = [] \<or> \<not> is_space (hd comment) \<and> \<not> is_space (last comment)"
  proof (cases rest)
    case Nil
    then show ?thesis using c by simp
  next
    case (Cons d ds)
    then have d: "rest = [comment]" "\<not> is_space (hd comment)" using sh(5) c by auto
    then have "last comment = last ?s" using fields_last f s(1) by simp
    with d strip_last [OF s(1)] show ?thesis by simp
  qed
  from k len ends show ?thesis by (auto simp: plain_key_def)
qed

lemma allowed_plain:
  assumes "k \<in> set ALLOWED_TYPES"
  shows "k \<noteq> []" "list_all non_space k" "hd k \<noteq> CHR ''#''"
  using assms by (auto simp: ALLOWED_TYPES_def non_space_def is_space_def)

lemma b64_char_plain: "b64_char c \<or> c = CHR ''='' \<Longrightarrow> non_space c"
proof -
  have "33 \<le> code c \<and> code c \<le> 126" if "b64_char c"
    using that unfolding b64_char_def is_alnum_ascii_def is_lower_az_def is_upper_az_def is_ascii_digit_def
    by (elim disjE) simp_all
  moreover have "33 \<le> code c \<and> code c \<le> 126" if "c = CHR ''=''" using that by simp
  moreover assume "b64_char c \<or> c = CHR ''=''"
  ultimately show ?thesis by (auto simp: non_space_def is_space_def)
qed

lemma b64_shape_plain:
  assumes "b64_shape s"
  shows "s \<noteq> []" "list_all non_space s"
proof -
  show "s \<noteq> []" using assms by (auto simp: b64_shape_def)
  have "b64_char c \<or> c = CHR ''=''" if "c \<in> set s" for c
  proof -
    have "c \<in> set (takeWhile b64_char s @ dropWhile b64_char s)" using that by simp
    then consider "c \<in> set (takeWhile b64_char s)" | "c \<in> set (dropWhile b64_char s)"
      unfolding set_append by blast
    then show ?thesis
    proof cases
      case 1
      then show ?thesis using set_takeWhileD by fast
    next
      case 2
      then show ?thesis using assms by (simp add: b64_shape_def list_all_iff)
    qed
  qed
  then show "list_all non_space s" using b64_char_plain by (auto simp: list_all_iff)
qed

lemma comment_char_plain: "comment_char c \<Longrightarrow> code c \<noteq> 10 \<and> code c \<noteq> 13"
proof -
  assume "comment_char c"
  then consider "word_char c" | "c \<in> set ''.@+/:- ''" by (auto simp: comment_char_def)
  then have "32 \<le> code c"
  proof cases
    case 1
    then consider "is_alnum_ascii c" | "c = CHR ''_''" | "170 \<le> code c" by (auto simp: word_char_def)
    then show ?thesis
      by cases (auto simp: is_alnum_ascii_def is_lower_az_def is_upper_az_def is_ascii_digit_def)
  next
    case 2
    then show ?thesis by auto
  qed
  then show ?thesis by simp
qed

lemma non_space_plain: "non_space c \<Longrightarrow> code c \<noteq> 10 \<and> code c \<noteq> 13"
  by (auto simp: non_space_def is_space_def)

lemma key_line_one_line:
  assumes "plain_key k b c" and "x \<in> set (key_line k b c)"
  shows "code x \<noteq> 10 \<and> code x \<noteq> 13"
proof -
  have "k \<in> set ALLOWED_TYPES" "b64_shape b" "comment_ok c" using assms(1) by (simp_all add: plain_key_def)
  then have "list_all non_space k" "list_all non_space b" "list_all comment_char c"
    using allowed_plain b64_shape_plain by (simp_all add: comment_ok_def)
  then have "non_space x \<or> x = CHR '' '' \<or> comment_char x"
    using assms(2) by (auto simp: key_line_def list_all_iff split: if_splits)
  then show ?thesis using non_space_plain comment_char_plain by auto
qed

text \<open>The line that is written is stripped, no comment, and splits into its fields.\<close>

lemma key_line_fields:
  assumes "plain_key k b c"
  shows "strip (key_line k b c) = key_line k b c" and "key_line k b c \<noteq> []"
    and "hd (key_line k b c) \<noteq> CHR ''#''"
    and "split_fields (key_line k b c) = (if c = [] then [k, b] else [k, b, c])"
proof -
  have k: "k \<in> set ALLOWED_TYPES" and b: "b64_shape b" and c: "comment_ok c"
    "c = [] \<or> \<not> is_space (hd c) \<and> \<not> is_space (last c)"
    using assms by (simp_all add: plain_key_def)
  note ka = allowed_plain [OF k] and ba = b64_shape_plain [OF b]
  have hd: "hd (key_line k b c) = hd k" using ka(1) by (simp add: key_line_def)
  have "\<not> is_space (hd k)" using ka by (cases k) (auto simp: non_space_def)
  moreover have "\<not> is_space (last b)" using ba last_in_set by (auto simp: list_all_iff non_space_def)
  then have "\<not> is_space (last (key_line k b c))"
    using ba(1) c(2) by (auto simp: key_line_def)
  ultimately show "strip (key_line k b c) = key_line k b c"
    using hd by (intro strip_id) simp
  show "key_line k b c \<noteq> []" using ka(1) by (simp add: key_line_def)
  show "hd (key_line k b c) \<noteq> CHR ''#''" using hd ka(3) by simp
  show "split_fields (key_line k b c) = (if c = [] then [k, b] else [k, b, c])"
    unfolding key_line_def using fields_of_join [OF ka(1) ba(1) ka(2) ba(2)] c(2) by blast
qed

text \<open>Parsing the line that is written gives the key back.\<close>

lemma parse_key_line:
  assumes "plain_key k b c"
  shows "parse_key (key_line k b c) = Inr (k, b, c)"
proof -
  have k: "k \<in> set ALLOWED_TYPES" and b: "b64_shape b" and c: "comment_ok c"
    and len: "length (key_line k b c) \<le> MAX_LINE"
    using assms by (simp_all add: plain_key_def)
  obtain raw where raw: "b64decode b = Some raw" "16 \<le> length raw" "be32 raw \<le> length raw - 4"
    "take (be32 raw) (drop 4 raw) = map of_char k" using assms by (auto simp: plain_key_def)
  have nl: "\<not> list_ex (\<lambda>x. code x = 10 \<or> code x = 13) (key_line k b c)"
    using key_line_one_line [OF assms] by (auto simp: list_ex_iff)
  show ?thesis
    using key_line_fields [OF assms] nl len k b c raw
    by (auto simp: parse_key_def Let_def)
qed

lemma collect_keys_spec:
  "collect_keys sha seen ls = Inr ks \<Longrightarrow>
     (\<forall>e \<in> set ks. plain_key (ke_type e) (ke_body e) (ke_comment e)
        \<and> ke_line e = key_line (ke_type e) (ke_body e) (ke_comment e)
        \<and> ke_fingerprint e = fingerprint sha (ke_body e))
     \<and> distinct (map ke_body ks) \<and> ke_body ` set ks \<inter> set seen = {} \<and> length ks \<le> length ls"
proof (induction sha seen ls arbitrary: ks rule: collect_keys.induct)
  case (1 sha seen)
  then show ?case by simp
next
  case (2 sha seen l ls)
  from 2(3) obtain k b c where p: "parse_key l = Inr (k, b, c)"
    by (auto simp: andthen_Inr_iff)
  show ?case
  proof (cases "b \<in> set seen")
    case True
    with 2(3) p have "collect_keys sha seen ls = Inr ks" by simp
    from 2(1) [OF True this] show ?thesis by auto
  next
    case False
    with 2(3) p obtain ks' where ks': "collect_keys sha (b # seen) ls = Inr ks'"
      "ks = \<lparr>ke_type = k, ke_body = b, ke_comment = c, ke_fingerprint = fingerprint sha b,
              ke_line = key_line k b c\<rparr> # ks'"
      by (auto simp: andthen_Inr_iff)
    from 2(2) [OF False ks'(1)] ks'(2) parse_key_plain [OF p] False show ?thesis by auto
  qed
qed

text \<open>Reading a file back by its newlines.\<close>

fun split_nl :: "string \<Rightarrow> string list" where
  "split_nl [] = [[]]"
| "split_nl (c # s) = (if code c = 10 then [] # split_nl s
     else (case split_nl s of [] \<Rightarrow> [[c]] | l # ls \<Rightarrow> (c # l) # ls))"

lemma split_nl_nonempty [simp]: "split_nl s \<noteq> []"
  by (induction s) (auto split: list.splits)

lemma split_nl_line:
  "list_all (\<lambda>c. code c \<noteq> 10) l \<Longrightarrow> split_nl (l @ newline @ s) = l # split_nl s"
  by (induction l) (auto simp: newline_def split: list.splits)

lemma split_nl_join:
  "ls \<noteq> [] \<Longrightarrow> list_all (list_all (\<lambda>c. code c \<noteq> 10)) ls \<Longrightarrow>
     split_nl (join newline ls @ newline) = ls @ [[]]"
proof (induction ls rule: induct_list012)
  case (2 x)
  then show ?case using split_nl_line [of x "[]"] by simp
next
  case (3 x y ys)
  then show ?case using split_nl_line [of x] by simp
qed simp

section \<open>Properties\<close>

text \<open>Nothing but plain keys reaches \<open>authorized_keys\<close>: for every text a customer may
  paste that is accepted, the file written is the header and one line per key, at most ten
  keys with distinct bodies, and each line starts with an allowed key type (so it carries no
  options field) and parses back to exactly the key it was written for.\<close>
lemma authorized_keys_only_plain:
  assumes "normalise_keys sha256 text = Inr ks"
  shows "split_nl (authorized_keys_body ks) = keys_header # map ke_line ks @ [[]]
    \<and> ks \<noteq> [] \<and> length ks \<le> 10 \<and> distinct (map ke_body ks)
    \<and> list_all (\<lambda>e. parse_key (ke_line e) = Inr (ke_type e, ke_body e, ke_comment e)
        \<and> ke_type e \<in> set ALLOWED_TYPES \<and> startswith (ke_line e) (ke_type e @ '' ''))  ks"
proof -
  let ?ls = "filter (\<lambda>l. strip l \<noteq> [] \<and> hd (strip l) \<noteq> CHR ''#'') (splitlines text)"
  from assms have ls: "?ls \<noteq> []" "length ?ls \<le> 10" and col: "collect_keys sha256 [] ?ls = Inr ks"
    by (auto simp: normalise_keys_def Let_def MAX_KEYS_def not_less split: if_splits)
  note spec = collect_keys_spec [OF col]
  have ne: "ks \<noteq> []"
  proof (cases ?ls)
    case (Cons l ls)
    with col obtain k b c where "parse_key l = Inr (k, b, c)" by (auto simp: andthen_Inr_iff)
    with Cons col show ?thesis by (auto simp: andthen_Inr_iff)
  qed (use ls in simp)
  have "list_all (list_all (\<lambda>c. code c \<noteq> 10)) (map ke_line ks)"
    using spec key_line_one_line by (auto simp: list_all_iff)
  then have body: "split_nl (join newline (map ke_line ks) @ newline) = map ke_line ks @ [[]]"
    using ne by (intro split_nl_join) simp_all
  have "list_all (\<lambda>c. code c \<noteq> 10) keys_header" by (simp add: keys_header_def)
  then have "split_nl (authorized_keys_body ks) = keys_header # map ke_line ks @ [[]]"
    using split_nl_line body by (simp add: authorized_keys_body_def)
  moreover have "list_all (\<lambda>e. parse_key (ke_line e) = Inr (ke_type e, ke_body e, ke_comment e)
        \<and> ke_type e \<in> set ALLOWED_TYPES \<and> startswith (ke_line e) (ke_type e @ '' ''))  ks"
  proof -
    have "startswith (key_line k b c) (k @ '' '')" for k b c
      by (auto simp: key_line_def startswith_iff)
    then show ?thesis using spec parse_key_line by (auto simp: list_all_iff plain_key_def)
  qed
  ultimately show ?thesis using ne spec ls(2) by auto
qed

definition sample_keys :: string where
  "sample_keys = ''# mine'' @ newline @ ''  ssh-ed25519   AAAAC3NzaC1lZDI1NTE5AA==   ali@laptop '' @ newline"

lemma sample_keys_accepted:
  "normalise_keys (\<lambda>_. []) sample_keys = Inr [\<lparr>ke_type = ''ssh-ed25519'', ke_body = ''AAAAC3NzaC1lZDI1NTE5AA=='',
     ke_comment = ''ali@laptop'', ke_fingerprint = ''SHA256:'',
     ke_line = ''ssh-ed25519 AAAAC3NzaC1lZDI1NTE5AA== ali@laptop''\<rparr>]"
  by code_simp

lemma authorized_keys_only_plain_witness:
  "\<exists>ks. normalise_keys (\<lambda>_. []) sample_keys = Inr ks
    \<and> split_nl (authorized_keys_body ks)
      = [keys_header, ''ssh-ed25519 AAAAC3NzaC1lZDI1NTE5AA== ali@laptop'', []]"
  using authorized_keys_only_plain [OF sample_keys_accepted] sample_keys_accepted by auto

end
