(* ===== verification/Host.thy ===== *)
theory Host
  imports PosixPath SshKeys "HOL-Library.State_Monad"
begin

text \<open>
  The world of the privileged daemon \<open>control/provisioner/provisioner.py\<close>: requests as parsed
  JSON, the commands it runs and the files it writes as a trace of effects, and what the host
  answers as functions of the trace so far. The handlers are programs in the state monad over
  the trace. A shell or Python program handed to a machine is named, not interpreted, with the
  texts interpolated into it; what is fed on standard input is kept apart from the arguments.
\<close>

section \<open>JSON\<close>

text \<open>A parsed document: numbers with a fraction as rationals, objects with distinct keys.\<close>

datatype json = JNull | JBool bool | JInt int | JFloat rat | JStr string
  | JList "json list" | JObj "(string \<times> json) list"

type_synonym request = "(string \<times> json) list"

fun truthy :: "json \<Rightarrow> bool" where
  "truthy JNull = False"
| "truthy (JBool b) = b"
| "truthy (JInt n) = (n \<noteq> 0)"
| "truthy (JFloat x) = (x \<noteq> 0)"
| "truthy (JStr s) = (s \<noteq> [])"
| "truthy (JList xs) = (xs \<noteq> [])"
| "truthy (JObj xs) = (xs \<noteq> [])"

definition obj_get :: "string \<Rightarrow> request \<Rightarrow> json" where
  "obj_get k req = (case map_of req k of Some v \<Rightarrow> v | None \<Rightarrow> JNull)"

text \<open>\<open>int(v)\<close>; \<open>None\<close> stands for \<open>TypeError\<close> and \<open>ValueError\<close>.\<close>

fun to_int :: "json \<Rightarrow> int option" where
  "to_int (JBool b) = Some (if b then 1 else 0)"
| "to_int (JInt n) = Some n"
| "to_int (JFloat x) = Some (if x < 0 then - \<lfloor>- x\<rfloor> else \<lfloor>x\<rfloor>)"
| "to_int (JStr s) = py_int s"
| "to_int _ = None"

text \<open>\<open>v or ""\<close> used as a string: \<open>None\<close> stands for the \<open>AttributeError\<close> of another type.\<close>

definition text_or_empty :: "json \<Rightarrow> string option" where
  "text_or_empty v = (if \<not> truthy v then Some [] else case v of JStr s \<Rightarrow> Some s | _ \<Rightarrow> None)"

section \<open>Effects\<close>

datatype arg = Txt string | Script string "string list" | Doc json

record command =
  cm_argv :: "arg list"
  cm_stdin :: "arg option"

datatype effect = Ran command | Wrote string string | Replaced string string | Removed string | Zipped string string

type_synonym trace = "effect list"

text \<open>A command times out or exits with a code, its output and its error output.\<close>

datatype outcome = TimedOut | Exited int string string

datatype file_reply = Missing | Unreadable | Contents string

record world =
  wd_run :: "trace \<Rightarrow> command \<Rightarrow> outcome"
  wd_json :: "string \<Rightarrow> json option"
  wd_read :: "trace \<Rightarrow> string \<Rightarrow> file_reply"
  wd_write_ok :: "trace \<Rightarrow> string \<Rightarrow> bool"
  wd_size :: "trace \<Rightarrow> string \<Rightarrow> int option"
  wd_isfile :: "trace \<Rightarrow> string \<Rightarrow> bool"
  wd_walk :: "trace \<Rightarrow> string \<Rightarrow> int list"
  wd_token :: string
  wd_uplink_if :: string
  wd_uplink_addr :: string
  wd_zpool :: string

type_synonym 'a host = "(trace, 'a) state"

definition perform :: "effect \<Rightarrow> unit host" where
  "perform e = State (\<lambda>tr. ((), tr @ [e]))"

definition ask :: "(trace \<Rightarrow> 'a) \<Rightarrow> 'a host" where
  "ask f = State (\<lambda>tr. (f tr, tr))"

definition execute :: "world \<Rightarrow> command \<Rightarrow> outcome host" where
  "execute w c = State (\<lambda>tr. (wd_run w tr c, tr @ [Ran c]))"

definition last_part :: "nat \<Rightarrow> string \<Rightarrow> string" where
  "last_part n s = drop (length s - n) s"

text \<open>\<open>_run_split\<close> and \<open>_run\<close>.\<close>

definition run_split :: "world \<Rightarrow> arg list \<Rightarrow> arg option \<Rightarrow> (int \<times> string \<times> string) host" where
  "run_split w argv stdin = do {
     r \<leftarrow> execute w \<lparr>cm_argv = argv, cm_stdin = stdin\<rparr>;
     State_Monad.return (case r of TimedOut \<Rightarrow> (124, [], ''timed out'') | Exited rc out err \<Rightarrow> (rc, out, err))
   }"

definition run :: "world \<Rightarrow> arg list \<Rightarrow> arg option \<Rightarrow> (bool \<times> string) host" where
  "run w argv stdin = do {
     r \<leftarrow> execute w \<lparr>cm_argv = argv, cm_stdin = stdin\<rparr>;
     State_Monad.return (case r of TimedOut \<Rightarrow> (False, ''timed out'')
       | Exited rc out err \<Rightarrow> (rc = 0, last_part 4000 (strip (out @ err))))
   }"

section \<open>Answers\<close>

text \<open>A reply is the object sent back; \<open>spread\<close> is the display \<open>{..., **d}\<close>.\<close>

type_synonym reply = "(string \<times> json) list"

fun set_key :: "string \<times> json \<Rightarrow> reply \<Rightarrow> reply" where
  "set_key (k, v) [] = [(k, v)]"
| "set_key (k, v) ((k', v') # r) = (if k' = k then (k, v) # r else (k', v') # set_key (k, v) r)"

definition spread :: "reply \<Rightarrow> reply \<Rightarrow> reply" where
  "spread d r = fold set_key d r"

definition respond :: "bool \<Rightarrow> (string \<times> json) list \<Rightarrow> reply host" where
  "respond good fs = State_Monad.return ((''ok'', JBool good) # fs)"

definition refuse :: "string \<Rightarrow> reply host" where
  "refuse e = respond False [(''error'', JStr e)]"

definition succeeded :: "reply \<Rightarrow> bool" where
  "succeeded r \<longleftrightarrow> truthy (obj_get ''ok'' r)"

text \<open>A request whose field has a type the code does not expect leaves \<open>handle\<close> by an exception,
  which \<open>_serve_one\<close> answers as a failure.\<close>

definition raise_text :: "string \<Rightarrow> reply host" where
  "raise_text e = refuse e"

definition with_text :: "string \<Rightarrow> request \<Rightarrow> (string \<Rightarrow> reply host) \<Rightarrow> reply host" where
  "with_text k req f = (case text_or_empty (obj_get k req) of None \<Rightarrow> raise_text ''AttributeError'' | Some s \<Rightarrow> f s)"

text \<open>\<open>value or None\<close> of a string.\<close>

definition text_or_null :: "string \<Rightarrow> json" where
  "text_or_null s = (if s = [] then JNull else JStr s)"

definition int_or_null :: "int option \<Rightarrow> json" where
  "int_or_null n = (case n of None \<Rightarrow> JNull | Some i \<Rightarrow> JInt i)"

text \<open>\<open>isinstance(v, (int, float))\<close> followed by \<open>int(v)\<close>; a truth value is an \<open>int\<close>.\<close>

definition number_of :: "json \<Rightarrow> int option" where
  "number_of v = (case v of JStr s \<Rightarrow> None | _ \<Rightarrow> to_int v)"

text \<open>The lines \<open>key=value\<close> a probe prints; a later line wins.\<close>

definition has_char :: "char \<Rightarrow> string \<Rightarrow> bool" where
  "has_char c s \<longleftrightarrow> c \<in> set s"

definition split_once :: "char \<Rightarrow> string \<Rightarrow> string \<times> string" where
  "split_once c s = (takeWhile (\<lambda>d. d \<noteq> c) s, tl (dropWhile (\<lambda>d. d \<noteq> c) s))"

definition info_lines :: "string \<Rightarrow> (string \<times> string) list" where
  "info_lines out = map (split_once (CHR ''='')) (filter (has_char (CHR ''='')) (splitlines out))"

definition info :: "string \<Rightarrow> string \<Rightarrow> string \<Rightarrow> string" where
  "info k dflt out = (case map_of (rev (info_lines out)) k of Some v \<Rightarrow> v | None \<Rightarrow> dflt)"

fun occurs :: "string \<Rightarrow> string \<Rightarrow> bool" where
  "occurs p [] = (p = [])"
| "occurs p (c # s) = (startswith (c # s) p \<or> occurs p s)"

fun split_on :: "char \<Rightarrow> string \<Rightarrow> string list" where
  "split_on d [] = [[]]"
| "split_on d (c # s) =
     (if c = d then [] # split_on d s
      else case split_on d s of [] \<Rightarrow> [[c]] | x # xs \<Rightarrow> (c # x) # xs)"

section \<open>Commands inside a machine\<close>

definition inside :: "string \<Rightarrow> arg list \<Rightarrow> arg list" where
  "inside project args = map Txt [''incus'', ''exec'', ''ws'', ''--project'', project, ''--''] @ args"

definition inside_env :: "string \<Rightarrow> string \<Rightarrow> arg list \<Rightarrow> arg list" where
  "inside_env project env args =
     map Txt [''incus'', ''exec'', ''ws'', ''--project'', project, ''--env'', env, ''--''] @ args"

definition shell :: "string \<Rightarrow> string \<Rightarrow> arg list" where
  "shell project name = inside project [Txt ''bash'', Txt ''-lc'', Script name []]"

section \<open>Programs that only do what is allowed\<close>

text \<open>\<open>only P m\<close>: whatever the host answers, every effect of \<open>m\<close> satisfies \<open>P\<close>.\<close>

definition only :: "(effect \<Rightarrow> bool) \<Rightarrow> 'a host \<Rightarrow> bool" where
  "only P m \<longleftrightarrow> (\<forall>tr. \<exists>es. snd (run_state m tr) = tr @ es \<and> list_all P es)"

named_theorems only_intro

lemma only_return [only_intro]: "only P (State_Monad.return x)"
  by (simp add: only_def)

lemma only_ask [only_intro]: "only P (ask f)"
  by (simp add: only_def ask_def)

lemma only_perform [only_intro]: "P e \<Longrightarrow> only P (perform e)"
  by (simp add: only_def perform_def)

lemma only_bind [only_intro]:
  assumes "only P m" and "\<And>x. only P (f x)"
  shows "only P (Monad_Syntax.bind m f)"
  unfolding only_def
proof
  fix tr
  obtain x tr1 where m: "run_state m tr = (x, tr1)" by fastforce
  from assms(1) m obtain es where es: "tr1 = tr @ es" "list_all P es"
    unfolding only_def by (metis snd_conv)
  from assms(2) [of x] obtain fs where "snd (run_state (f x) tr1) = tr1 @ fs" "list_all P fs"
    unfolding only_def by blast
  with m es show "\<exists>es. snd (run_state (Monad_Syntax.bind m f) tr) = tr @ es \<and> list_all P es"
    by (intro exI [of _ "es @ fs"]) simp
qed

lemma only_run [only_intro]: "P (Ran \<lparr>cm_argv = a, cm_stdin = i\<rparr>) \<Longrightarrow> only P (run w a i)"
  unfolding run_def by (intro only_intro) (simp add: only_def execute_def)

lemma only_run_split [only_intro]:
  "P (Ran \<lparr>cm_argv = a, cm_stdin = i\<rparr>) \<Longrightarrow> only P (run_split w a i)"
  unfolding run_split_def by (intro only_intro) (simp add: only_def execute_def)

lemma only_respond [only_intro]: "only P (respond b fs)"
  and only_refuse [only_intro]: "only P (refuse e)"
  and only_raise [only_intro]: "only P (raise_text e)"
  by (simp_all add: respond_def refuse_def raise_text_def only_intro)

lemma only_if [only_intro]: "(b \<Longrightarrow> only P m) \<Longrightarrow> (\<not> b \<Longrightarrow> only P n) \<Longrightarrow> only P (if b then m else n)"
  and only_option [only_intro]:
    "(x = None \<Longrightarrow> only P m) \<Longrightarrow> (\<And>y. x = Some y \<Longrightarrow> only P (f y)) \<Longrightarrow>
      only P (case x of None \<Rightarrow> m | Some y \<Rightarrow> f y)"
  and only_pair [only_intro]: "(\<And>a b. p = (a, b) \<Longrightarrow> only P (g a b)) \<Longrightarrow> only P (case p of (a, b) \<Rightarrow> g a b)"
  and only_let [only_intro]: "only P (h z) \<Longrightarrow> only P (Let z h)"
  by (auto split: option.split prod.split)

lemma only_text [only_intro]: "(\<And>s. only P (f s)) \<Longrightarrow> only P (with_text k req f)"
  unfolding with_text_def by (intro only_intro)

lemma only_trace: "only P m \<Longrightarrow> run_state m [] = (r, tr) \<Longrightarrow> list_all P tr"
  unfolding only_def by (metis append_Nil snd_conv)

end
