(* ===== verification/HostChecks.thy ===== *)
theory HostChecks
  imports Host Ports "HOL-Library.List_Lexorder" "HOL-Library.Char_ord"
begin

text \<open>
  What the privileged daemon checks before it acts (\<open>control/provisioner/provisioner.py\<close>): who may
  call, the sizes of a machine, spool names, published ports, and authorised SSH keys; the scope of
  the control plane's certificate and the scripts applied to a fresh machine.
\<close>

section \<open>The caller\<close>

text \<open>The account databases of the host; \<open>None\<close> stands for \<open>KeyError\<close>.\<close>

record accounts =
  ac_gid_of :: "string \<Rightarrow> int option"
  ac_name_of :: "int \<Rightarrow> string option"
  ac_members :: "int \<Rightarrow> string list"

definition ALLOWED_GROUP :: string where "ALLOWED_GROUP = ''mmd''"

definition authorised :: "accounts \<Rightarrow> int \<Rightarrow> int \<Rightarrow> bool" where
  "authorised ac uid gid =
     (if uid = 0 then True
      else case ac_gid_of ac ALLOWED_GROUP of None \<Rightarrow> False
        | Some allowed_gid \<Rightarrow>
            if gid = allowed_gid then True
            else case ac_name_of ac uid of None \<Rightarrow> False
              | Some name \<Rightarrow> name \<in> set (ac_members ac allowed_gid))"

section \<open>Sizes\<close>

definition MAX_CORES :: int where "MAX_CORES = 4"
definition MAX_MEM_MIB :: int where "MAX_MEM_MIB = 8192"
definition MAX_ROOT_GIB :: int where "MAX_ROOT_GIB = 40"
definition MAX_DOCKER_GIB :: int where "MAX_DOCKER_GIB = 40"

definition iv :: "request \<Rightarrow> string \<Rightarrow> int \<Rightarrow> int \<Rightarrow> int" where
  "iv req key dflt hi =
     (let v = (case map_of req key of None \<Rightarrow> dflt
                | Some x \<Rightarrow> (case to_int x of Some n \<Rightarrow> n | None \<Rightarrow> dflt))
      in max 1 (min v hi))"

record sizes =
  ti_cores :: int
  ti_mem_mib :: int
  ti_root_gib :: int
  ti_docker_gib :: int

definition clamp :: "request \<Rightarrow> sizes" where
  "clamp req = \<lparr>ti_cores = iv req ''cores'' 1 MAX_CORES,
                ti_mem_mib = iv req ''mem_mib'' 1024 MAX_MEM_MIB,
                ti_root_gib = iv req ''root_gib'' 6 MAX_ROOT_GIB,
                ti_docker_gib = iv req ''docker_gib'' 4 MAX_DOCKER_GIB\<rparr>"

definition tier_json :: "sizes \<Rightarrow> json" where
  "tier_json t = JObj [(''cores'', JInt (ti_cores t)), (''mem_mib'', JInt (ti_mem_mib t)),
     (''root_gib'', JInt (ti_root_gib t)), (''docker_gib'', JInt (ti_docker_gib t))]"

definition tier_args :: "sizes \<Rightarrow> arg list" where
  "tier_args t = map (Txt \<circ> show_int) [ti_cores t, ti_mem_mib t, ti_root_gib t, ti_docker_gib t]"

section \<open>The spool\<close>

definition SPOOL :: string where "SPOOL = ''/var/lib/mmd/spool''"
definition MAX_TRANSFER_BYTES :: int where "MAX_TRANSFER_BYTES = 512 * 1024 * 1024"

definition token_char :: "char \<Rightarrow> bool" where
  "token_char c \<longleftrightarrow> is_alnum_ascii c \<or> c = CHR ''_'' \<or> c = CHR ''-''"

definition spool_path :: "string \<Rightarrow> string option" where
  "spool_path token =
     (if list_all token_char token \<and> 8 \<le> length token \<and> length token \<le> 64
      then Some (path_join SPOOL token) else None)"

section \<open>Published ports\<close>

definition PORT_RULES_FILE :: string where "PORT_RULES_FILE = ''/etc/nftables/mmd-ports.nft''"

text \<open>\<open>re.fullmatch(r"10\\.42\\.0\\.\\d{1,3}", ip)\<close>.\<close>

definition bridge_ip :: "string \<Rightarrow> bool" where
  "bridge_ip ip \<longleftrightarrow> startswith ip ''10.42.0.''
     \<and> (let d = drop 8 ip in list_all is_ascii_digit d \<and> 1 \<le> length d \<and> length d \<le> 3)"

text \<open>\<open>str()\<close> of a value; the texts of floats and containers are not modelled, and none of them
  passes a test on a string that follows.\<close>

definition str_of :: "json \<Rightarrow> string" where
  "str_of v = (case v of JStr s \<Rightarrow> s | JInt n \<Rightarrow> show_int n | JNull \<Rightarrow> ''None''
     | JBool b \<Rightarrow> (if b then ''True'' else ''False'') | _ \<Rightarrow> ''?'')"

definition read_mapping :: "json \<Rightarrow> mapping option" where
  "read_mapping m = (case m of
       JObj kv \<Rightarrow> (case (map_of kv ''external_port'', map_of kv ''internal_port'', map_of kv ''ip'') of
           (Some e, Some i, Some ip) \<Rightarrow>
             (case (to_int e, to_int i) of
                (Some ext, Some int_port) \<Rightarrow>
                  Some \<lparr>mg_external_port = ext, mg_internal_port = int_port,
                    mg_protocol = (case map_of kv ''protocol'' of None \<Rightarrow> ''tcp'' | Some p \<Rightarrow> str_of p),
                    mg_ip = str_of ip\<rparr>
              | _ \<Rightarrow> None)
         | _ \<Rightarrow> None)
     | _ \<Rightarrow> None)"

definition mapping_error :: "mapping \<Rightarrow> string option" where
  "mapping_error m =
     (if \<not> (PORT_RANGE_START \<le> mg_external_port m \<and> mg_external_port m \<le> PORT_RANGE_END)
      then Some (''external port '' @ show_int (mg_external_port m) @ '' outside the allowed range'')
      else if \<not> (1 \<le> mg_internal_port m \<and> mg_internal_port m \<le> 65535)
      then Some (''internal port '' @ show_int (mg_internal_port m) @ '' out of range'')
      else if mg_protocol m \<notin> {''tcp'', ''udp''} then Some ''protocol must be tcp or udp''
      else if \<not> bridge_ip (mg_ip m) then Some (''refusing to forward to '' @ mg_ip m)
      else None)"

fun check_mappings :: "json list \<Rightarrow> string + mapping list" where
  "check_mappings [] = Inr []"
| "check_mappings (m # ms) =
     (case read_mapping m of None \<Rightarrow> Inl ''malformed mapping''
      | Some mg \<Rightarrow> (case mapping_error mg of Some e \<Rightarrow> Inl e
          | None \<Rightarrow> (case check_mappings ms of Inl e \<Rightarrow> Inl e | Inr rest \<Rightarrow> Inr (mg # rest))))"

definition pre_rule :: "world \<Rightarrow> mapping \<Rightarrow> string" where
  "pre_rule w m = ''        iifname '' @ [CHR 0x22] @ wd_uplink_if w @ [CHR 0x22] @ '' '' @ mg_protocol m
     @ '' dport '' @ show_int (mg_external_port m) @ '' dnat to '' @ mg_ip m @ '':'' @ show_int (mg_internal_port m)"

definition out_rule :: "world \<Rightarrow> mapping \<Rightarrow> string" where
  "out_rule w m = ''        '' @ mg_protocol m @ '' dport '' @ show_int (mg_external_port m)
     @ '' ip daddr { '' @ wd_uplink_addr w @ '' } dnat to '' @ mg_ip m @ '':'' @ show_int (mg_internal_port m)"

definition ruleset :: "world \<Rightarrow> mapping list \<Rightarrow> string list" where
  "ruleset w ms =
     [''#!/usr/sbin/nft -f'',
      ''# Published workspace ports. Regenerated in full by mmd-provisioner.'',
      ''table ip mmd_ports'', ''delete table ip mmd_ports'', ''table ip mmd_ports {'',
      ''    chain prerouting {'',
      ''        type nat hook prerouting priority dstnat; policy accept;'']
     @ map (pre_rule w) ms
     @ [''    }'', ''    chain output {'',
        ''        type nat hook output priority dstnat; policy accept;'']
     @ map (out_rule w) ms
     @ [''    }'', ''}'']"

definition unlines :: "string list \<Rightarrow> string" where
  "unlines ls = concat (map (\<lambda>l. l @ newline) ls)"

definition sync_port_rules :: "world \<Rightarrow> json list \<Rightarrow> reply host" where
  "sync_port_rules w mappings = (case check_mappings mappings of
       Inl e \<Rightarrow> refuse e
     | Inr ms \<Rightarrow> do {
         fine \<leftarrow> ask (\<lambda>tr. wd_write_ok w tr PORT_RULES_FILE);
         if \<not> fine then refuse ''cannot write ruleset''
         else do {
           perform (Wrote PORT_RULES_FILE (unlines (ruleset w ms)));
           (good, msg) \<leftarrow> run w (map Txt [''nft'', ''-f'', PORT_RULES_FILE]) None;
           respond good [(''output'', JStr msg), (''count'', JInt (int (length ms)))]
         }
       })"

section \<open>Authorised keys\<close>

fun key_line_error :: "string \<Rightarrow> string option" where
  "key_line_error line = (case split_fields line of
       kind # body # rest \<Rightarrow>
         (if kind \<notin> set ALLOWED_TYPES then Some ''unsupported key type''
          else if \<not> b64_shape body then Some ''key body is not base64''
          else if \<not> list_all comment_ok rest then Some ''key comment contains unsupported characters''
          else None)
     | _ \<Rightarrow> Some ''malformed key line'')"

definition real_lines :: "string \<Rightarrow> string list" where
  "real_lines body = filter (\<lambda>l. l \<noteq> [] \<and> \<not> startswith l ''#'') (map strip (splitlines body))"

definition check_authorized_keys :: "string \<Rightarrow> string option" where
  "check_authorized_keys body =
     (let real = real_lines body
      in if real = [] then Some ''no keys supplied''
         else if 10 < length real then Some ''too many keys''
         else fold (\<lambda>l e. case e of Some _ \<Rightarrow> e | None \<Rightarrow> key_line_error l) real None)"

section \<open>The scope of the certificate\<close>

definition API_CERT_NAME :: string where "API_CERT_NAME = ''mmd-api''"

text \<open>\<open>_incus_json\<close>: an empty output is \<open>null\<close>.\<close>

definition incus_json :: "world \<Rightarrow> arg list \<Rightarrow> json option host" where
  "incus_json w args = do {
     r \<leftarrow> execute w \<lparr>cm_argv = Txt ''incus'' # args, cm_stdin = None\<rparr>;
     State_Monad.return (case r of TimedOut \<Rightarrow> None
       | Exited rc out err \<Rightarrow> if rc \<noteq> 0 then None
           else wd_json w (if out = [] then ''null'' else out))
   }"

text \<open>Entries of Incus's answers are objects; the fingerprint is a string.\<close>

definition field :: "string \<Rightarrow> json \<Rightarrow> json" where
  "field k v = (case v of JObj kv \<Rightarrow> obj_get k kv | _ \<Rightarrow> JNull)"

definition elements :: "json \<Rightarrow> json list" where
  "elements v = (case v of JList xs \<Rightarrow> xs | _ \<Rightarrow> [])"

definition strings :: "json \<Rightarrow> string list" where
  "strings v = map str_of (elements v)"

definition api_cert_fingerprint :: "world \<Rightarrow> json host" where
  "api_cert_fingerprint w = do {
     certs \<leftarrow> incus_json w (map Txt [''config'', ''trust'', ''list'', ''--format'', ''json'']);
     State_Monad.return
       (case filter (\<lambda>c. field ''name'' c = JStr API_CERT_NAME)
               (case certs of Some v \<Rightarrow> elements v | None \<Rightarrow> []) of
          c # _ \<Rightarrow> field ''fingerprint'' c | [] \<Rightarrow> JNull)
   }"

definition new_scope :: "string \<Rightarrow> bool \<Rightarrow> string list \<Rightarrow> string list" where
  "new_scope project grant projects =
     sort (remdups (if grant then project # projects else filter (\<lambda>p. p \<noteq> project) projects))"

definition set_project_access :: "world \<Rightarrow> string \<Rightarrow> bool \<Rightarrow> unit host" where
  "set_project_access w project grant = do {
     fp \<leftarrow> api_cert_fingerprint w;
     if \<not> truthy fp then State_Monad.return ()
     else do {
       let path = ''/1.0/certificates/'' @ str_of fp;
       cert \<leftarrow> incus_json w [Txt ''query'', Txt path];
       let projects = (case cert of Some v \<Rightarrow> strings (field ''projects'' v) | None \<Rightarrow> []);
       let payload = Doc (JObj [(''projects'', JList (map JStr (new_scope project grant projects)))]);
       _ \<leftarrow> run w (map Txt [''incus'', ''query'', ''--request'', ''PATCH'', path, ''--data''] @ [payload]) None;
       State_Monad.return ()
     }
   }"

section \<open>Scripts applied to a machine\<close>

definition apply_fixup_script :: "world \<Rightarrow> string \<Rightarrow> string \<Rightarrow> string \<Rightarrow> (bool \<times> string) host" where
  "apply_fixup_script w project path slug = do {
     script \<leftarrow> ask (\<lambda>tr. wd_read w tr path);
     case script of
       Contents s \<Rightarrow> do {
         let target = ''/usr/local/sbin/mmd-'' @ slug;
         (good, out) \<leftarrow> run w (inside project [Txt ''bash'', Txt ''-lc'', Script ''install script'' [target]])
                        (Some (Txt s));
         if \<not> good then State_Monad.return (False, ''could not install the fixup script: '' @ last_part 300 out)
         else do {
           (good2, out2) \<leftarrow> run w (inside_env project ''DEBIAN_FRONTEND=noninteractive''
                               [Txt ''bash'', Txt ''-lc'', Txt (target @ '' 2>&1'')]) None;
           State_Monad.return (good2, last_part 1000 out2)
         }
       }
     | _ \<Rightarrow> State_Monad.return (False, ''cannot read '' @ path)
   }"

definition APT_FIXUPS :: string where "APT_FIXUPS = ''image/apt-fixups.sh''"
definition NET_FIXUPS :: string where "NET_FIXUPS = ''image/net-fixups.sh''"

definition apply_apt_fixups :: "world \<Rightarrow> string \<Rightarrow> (bool \<times> string) host" where
  "apply_apt_fixups w project = apply_fixup_script w project APT_FIXUPS ''apt-fixups''"

definition apply_net_fixups :: "world \<Rightarrow> string \<Rightarrow> (bool \<times> string) host" where
  "apply_net_fixups w project = apply_fixup_script w project NET_FIXUPS ''net-fixups''"

text \<open>\<open>_measure\<close>: the first field of the output of \<open>du\<close>.\<close>

definition measure_path :: "world \<Rightarrow> string \<Rightarrow> string \<Rightarrow> (int option \<times> string) host" where
  "measure_path w project path = do {
     (rc, out, err) \<leftarrow> run_split w (inside project (map Txt [''du'', ''-sb'', ''--'', path])) None;
     let first = (if strip out = [] then []
                  else hd (split_fields (hd (split_on (CHR 0x09) (strip out)))));
     State_Monad.return
       (if first = [] \<or> \<not> list_all is_digit first
        then (None, last_part 200 (if err \<noteq> [] then err else if out \<noteq> [] then out else ''could not measure the path''))
        else (py_int first, []))
   }"

end
