(* ===== verification/HostAgents.thy ===== *)
theory HostAgents
  imports HostChecks
begin

text \<open>
  The verbs of \<open>control/provisioner/provisioner.py\<close> that sign coding agents in and publish the
  managed web applications: \<open>ai_claude\<close>, \<open>ai_codex\<close>, \<open>ai_managed_web\<close>, the usage scanners, the
  disk measurement and the rotation of the MCP key.
\<close>

section \<open>Credentials of the platform account\<close>

definition keep_keys :: "string list \<Rightarrow> request \<Rightarrow> request" where
  "keep_keys keys raw = concat (map (\<lambda>k. case map_of raw k of Some v \<Rightarrow> [(k, v)] | None \<Rightarrow> []) keys)"

definition CLAUDE_AUTH_PATH :: string where "CLAUDE_AUTH_PATH = ''/root/.claude/.credentials.json''"
definition CLAUDE_AUTH_KEYS :: "string list" where "CLAUDE_AUTH_KEYS = [''claudeAiOauth'']"
definition CODEX_AUTH_PATH :: string where "CODEX_AUTH_PATH = ''/root/.codex/auth.json''"
definition CODEX_AUTH_KEYS :: "string list" where
  "CODEX_AUTH_KEYS = [''auth_mode'', ''OPENAI_API_KEY'', ''tokens'', ''last_refresh'']"

definition NOT_SIGNED_IN :: string where
  "NOT_SIGNED_IN = ''the platform account is not signed in on this host''"

text \<open>The one file each account consists of, parsed; \<open>Inl\<close> is the reason it is unavailable.\<close>

definition auth_document :: "world \<Rightarrow> string \<Rightarrow> trace \<Rightarrow> string + request" where
  "auth_document w path tr = (case wd_read w tr path of
       Missing \<Rightarrow> Inl NOT_SIGNED_IN
     | Unreadable \<Rightarrow> Inl ''the platform credentials are unreadable''
     | Contents s \<Rightarrow> (case wd_json w s of
           None \<Rightarrow> Inl ''the platform credentials are unreadable''
         | Some (JObj raw) \<Rightarrow> Inr raw
         | Some _ \<Rightarrow> Inl ''the platform credentials are malformed''))"

definition claude_credentials :: "world \<Rightarrow> trace \<Rightarrow> string + request" where
  "claude_credentials w tr = (case auth_document w CLAUDE_AUTH_PATH tr of
       Inl e \<Rightarrow> Inl e
     | Inr raw \<Rightarrow>
         let out = keep_keys CLAUDE_AUTH_KEYS raw in
         (case obj_get ''claudeAiOauth'' out of
            JObj grant \<Rightarrow> if truthy (obj_get ''accessToken'' grant) then Inr out else Inl NOT_SIGNED_IN
          | _ \<Rightarrow> Inl NOT_SIGNED_IN))"

definition claude_expiry :: "world \<Rightarrow> trace \<Rightarrow> int option" where
  "claude_expiry w tr = (case claude_credentials w tr of
       Inl _ \<Rightarrow> None
     | Inr creds \<Rightarrow> number_of (field ''refreshTokenExpiresAt'' (obj_get ''claudeAiOauth'' creds)))"

text \<open>The OAuth grant of the Codex account, when it has one.\<close>

definition codex_token :: "request \<Rightarrow> json option" where
  "codex_token out = (case obj_get ''tokens'' out of
       JObj tokens \<Rightarrow> (if truthy (obj_get ''access_token'' tokens) then Some (obj_get ''access_token'' tokens) else None)
     | _ \<Rightarrow> None)"

definition codex_credentials :: "world \<Rightarrow> trace \<Rightarrow> string + request" where
  "codex_credentials w tr = (case auth_document w CODEX_AUTH_PATH tr of
       Inl e \<Rightarrow> Inl e
     | Inr raw \<Rightarrow>
         let out = keep_keys CODEX_AUTH_KEYS raw in
         if codex_token out = None \<and> \<not> truthy (obj_get ''OPENAI_API_KEY'' out)
         then Inl NOT_SIGNED_IN else Inr out)"

text \<open>\<open>base64.urlsafe_b64decode\<close>, which skips what is no base64 digit and stops at the padding
  that completes a group; \<open>None\<close> is \<open>binascii.Error\<close> or \<open>ValueError\<close>.\<close>

fun lenient_values :: "nat \<Rightarrow> nat \<Rightarrow> string \<Rightarrow> nat list option" where
  "lenient_values pos pads [] = (if pos = 0 then Some [] else None)"
| "lenient_values pos pads (c # s) =
     (if c = CHR ''='' then
        (if 2 \<le> pos \<and> 4 \<le> pos + pads + 1 then Some []
         else lenient_values pos (if 2 \<le> pos then pads + 1 else pads) s)
      else if b64_char c then
        map_option (\<lambda>vs. b64_val c # vs) (lenient_values ((pos + 1) mod 4) 0 s)
      else lenient_values pos pads s)"

definition urlsafe_b64decode :: "string \<Rightarrow> nat list option" where
  "urlsafe_b64decode s =
     (if list_all (\<lambda>c. code c < 128) s
      then map_option decode_quads (lenient_values 0 0
             (map (\<lambda>c. if c = CHR ''-'' then CHR ''+'' else if c = CHR ''_'' then CHR ''/'' else c) s))
      else None)"

definition jwt_exp :: "world \<Rightarrow> json \<Rightarrow> int option" where
  "jwt_exp w token = (case token of
       JStr t \<Rightarrow> (case split_on (CHR ''.'') t of
           _ # payload # _ \<Rightarrow>
             (case urlsafe_b64decode (payload @ replicate ((4 - length payload mod 4) mod 4) (CHR ''='')) of
                None \<Rightarrow> None
              | Some bytes \<Rightarrow> (case wd_json w (map char_of bytes) of
                    Some (JObj claims) \<Rightarrow> number_of (obj_get ''exp'' claims)
                  | _ \<Rightarrow> None))
         | _ \<Rightarrow> None)
     | _ \<Rightarrow> None)"

definition codex_expiry :: "world \<Rightarrow> trace \<Rightarrow> int option" where
  "codex_expiry w tr = (case codex_credentials w tr of
       Inl _ \<Rightarrow> None
     | Inr creds \<Rightarrow> (case codex_token creds of None \<Rightarrow> None | Some t \<Rightarrow> jwt_exp w t))"

section \<open>Claude Code and Codex\<close>

definition codex_status :: "world \<Rightarrow> string \<Rightarrow> reply host" where
  "codex_status w project = do {
     (rc, out, err) \<leftarrow> run_split w (shell project ''codex status'') None;
     let version = strip (info ''version'' [] out);
     State_Monad.return [(''installed'', JBool (version \<noteq> [])), (''version'', text_or_null version),
       (''linked'', JBool (strip (info ''linked'' ''no'' out) = ''yes''))]
   }"

definition claude_status :: "world \<Rightarrow> string \<Rightarrow> reply host" where
  "claude_status w project = do {
     (rc, out, err) \<leftarrow> run_split w (shell project ''claude status'') None;
     let version = strip (info ''version'' [] out);
     State_Monad.return [(''installed'', JBool (version \<noteq> [])), (''version'', text_or_null version),
       (''linked'', JBool (strip (info ''linked'' ''no'' out) = ''yes'')),
       (''onboarded'', JBool (strip (info ''onboarded'' ''False'' out) = ''True''))]
   }"

definition reason :: "string + request \<Rightarrow> json" where
  "reason c = (case c of Inl e \<Rightarrow> text_or_null e | Inr _ \<Rightarrow> JNull)"

definition available :: "string + request \<Rightarrow> bool" where
  "available c = (case c of Inl _ \<Rightarrow> False | Inr _ \<Rightarrow> True)"

text \<open>\<open>re.fullmatch(r"[A-Za-z0-9._:/-]{1,128}", model)\<close>.\<close>

definition model_name_ok :: "string \<Rightarrow> bool" where
  "model_name_ok m \<longleftrightarrow> list_all (\<lambda>c. is_alnum_ascii c \<or> c \<in> set ''._:/-'') m \<and> 1 \<le> length m \<and> length m \<le> 128"

definition failed_with :: "string \<Rightarrow> string \<Rightarrow> reply host" where
  "failed_with e out = respond False [(''error'', JStr e), (''output'', JStr out)]"

definition verb_ai_codex :: "world \<Rightarrow> string \<Rightarrow> request \<Rightarrow> reply host" where
  "verb_ai_codex w project req =
     (let action = obj_get ''action'' req in
      if action \<notin> {JStr ''status'', JStr ''install'', JStr ''unlink''}
      then refuse ''action must be status, install or unlink''
      else if action = JStr ''status'' then do {
        st \<leftarrow> codex_status w project;
        creds \<leftarrow> ask (codex_credentials w);
        e \<leftarrow> ask (codex_expiry w);
        respond True (st @ [(''available'', JBool (available creds)),
          (''unavailable_reason'', reason creds), (''expires_at'', int_or_null e)])
      }
      else if action = JStr ''unlink'' then do {
        (good, out) \<leftarrow> run w (shell project ''codex unlink'') None;
        st \<leftarrow> codex_status w project;
        respond good ((''output'', JStr (last_part 300 out)) # st)
      }
      else do {
        creds \<leftarrow> ask (codex_credentials w);
        case creds of Inl why \<Rightarrow> refuse why
        | Inr doc \<Rightarrow> do {
            st \<leftarrow> codex_status w project;
            (installed, iout) \<leftarrow>
              (if truthy (obj_get ''installed'' st) then State_Monad.return (True, [])
               else run w (shell project ''npm install codex'') None);
            if \<not> installed then failed_with ''install failed'' (last_part 800 iout)
            else do {
              (good, out) \<leftarrow> run w (shell project ''codex write credentials'') (Some (Doc (JObj doc)));
              if \<not> good then failed_with ''could not write credentials'' (last_part 300 out)
              else with_text ''model'' req (\<lambda>raw. let model = strip raw in do {
                _ \<leftarrow> (if model \<noteq> [] \<and> model_name_ok model
                      then run w (shell project ''codex write model if absent'')
                        (Some (Txt (''model = '' @ [CHR 0x22] @ model @ [CHR 0x22] @ newline)))
                      else State_Monad.return (True, []));
                st2 \<leftarrow> codex_status w project;
                e \<leftarrow> ask (codex_expiry w);
                respond True (st2 @ [(''expires_at'', int_or_null e)])
              })
            }
          }
      })"

definition verb_ai_claude :: "world \<Rightarrow> string \<Rightarrow> request \<Rightarrow> reply host" where
  "verb_ai_claude w project req =
     (let action = obj_get ''action'' req in
      if action \<notin> {JStr ''status'', JStr ''install'', JStr ''unlink''}
      then refuse ''action must be status, install or unlink''
      else if action = JStr ''status'' then do {
        st \<leftarrow> claude_status w project;
        creds \<leftarrow> ask (claude_credentials w);
        e \<leftarrow> ask (claude_expiry w);
        respond True (st @ [(''available'', JBool (available creds)),
          (''unavailable_reason'', reason creds), (''expires_at'', int_or_null e)])
      }
      else if action = JStr ''unlink'' then do {
        (good, out) \<leftarrow> run w (shell project ''claude unlink'') None;
        st \<leftarrow> claude_status w project;
        respond good ((''output'', JStr (last_part 300 out)) # st)
      }
      else do {
        creds \<leftarrow> ask (claude_credentials w);
        case creds of Inl why \<Rightarrow> refuse why
        | Inr doc \<Rightarrow> do {
            st \<leftarrow> claude_status w project;
            (installed, iout) \<leftarrow>
              (if truthy (obj_get ''installed'' st) then State_Monad.return (True, [])
               else run w (shell project ''npm install claude'') None);
            if \<not> installed then failed_with ''install failed'' (last_part 800 iout)
            else do {
              (good, out) \<leftarrow> run w (shell project ''claude write credentials'') (Some (Doc (JObj doc)));
              if \<not> good then failed_with ''could not write credentials'' (last_part 300 out)
              else do {
                (cfg_ok, cfg_out) \<leftarrow>
                  run w (inside project [Txt ''python3'', Txt ''-c'', Script ''CLAUDE_CONFIG_MERGE'' []])
                    (Some (Doc (JObj [(''hasCompletedOnboarding'', JBool True)])));
                if \<not> cfg_ok then failed_with ''could not write the Claude configuration'' (last_part 300 cfg_out)
                else with_text ''model'' req (\<lambda>raw. let model = strip raw in do {
                  _ \<leftarrow> (if model \<noteq> [] \<and> model_name_ok model
                        then run w (shell project ''claude write settings if absent'')
                          (Some (Doc (JObj [(''model'', JStr model)])))
                        else State_Monad.return (True, []));
                  st2 \<leftarrow> claude_status w project;
                  e \<leftarrow> ask (claude_expiry w);
                  respond (truthy (obj_get ''linked'' st2) \<and> truthy (obj_get ''onboarded'' st2))
                    (st2 @ [(''available'', JBool True), (''expires_at'', int_or_null e)])
                })
              }
            }
          }
      })"

end
