(* ===== verification/HostApps.thy ===== *)
theory HostApps
  imports HostAgents
begin

text \<open>
  The verbs of \<open>control/provisioner/provisioner.py\<close> for the applications in a machine:
  \<open>ai_managed_web\<close> (OpenCode and Open WebUI), \<open>ai_openclaw\<close>, the usage scanners, the disk
  measurement over all machines and the rotation of the MCP key.
\<close>

section \<open>Managed web applications\<close>

text \<open>\<open>MANAGED_WEB\<close>: the unit of a service and its install script.\<close>

definition managed_unit :: "string \<Rightarrow> string option" where
  "managed_unit service = (if service = ''opencode'' then Some ''mmd-opencode''
     else if service = ''openwebui'' then Some ''mmd-openwebui'' else None)"

definition removeprefix :: "string \<Rightarrow> string \<Rightarrow> string" where
  "removeprefix p s = (if startswith s p then drop (length p) s else s)"

text \<open>The shape of the model id each service wants.\<close>

definition managed_model :: "string \<Rightarrow> string \<Rightarrow> string" where
  "managed_model service raw =
     (let m = (if raw \<noteq> [] \<and> \<not> model_name_ok raw then [] else raw)
      in if service = ''openwebui'' then removeprefix ''openrouter/'' m
         else if m \<noteq> [] \<and> \<not> startswith m ''openrouter/'' then ''openrouter/'' @ m else m)"

definition write_opencode :: "world \<Rightarrow> string \<Rightarrow> string \<Rightarrow> string \<Rightarrow> (bool \<times> string) host" where
  "write_opencode w project key model = do {
     (good, out) \<leftarrow> run w (shell project ''opencode write auth'')
       (Some (Doc (JObj [(''openrouter'', JObj [(''type'', JStr ''api''), (''key'', JStr key)])])));
     if good \<and> model \<noteq> []
     then run w (shell project ''opencode write config'')
            (Some (Doc (JObj [(''$schema'', JStr ''https://opencode.ai/config.json''), (''model'', JStr model)])))
     else State_Monad.return (good, out)
   }"

definition managed_install ::
    "world \<Rightarrow> string \<Rightarrow> string \<Rightarrow> string \<Rightarrow> string \<Rightarrow> string \<Rightarrow> string \<Rightarrow> string \<Rightarrow> reply host" where
  "managed_install w project service unit key password admin_email model =
     (if key = [] \<or> password = [] \<or> (service = ''openwebui'' \<and> CHR ''@'' \<notin> set admin_email)
      then refuse ''credentials are required''
      else do {
        (installed, iout) \<leftarrow> run w (inside project [Txt ''bash'', Txt ''-lc'', Script ''managed web install'' [service]]) None;
        if \<not> installed then failed_with ''install failed'' (last_part 500 iout)
        else do {
          (good, out) \<leftarrow> (if service = ''opencode'' then write_opencode w project key model
                         else State_Monad.return (True, iout));
          let unit_text = (if service = ''opencode'' then Script ''OpenCode unit'' [password]
                           else Script ''Open WebUI unit'' [key, admin_email, password, model]);
          if \<not> good then failed_with ''credential write failed'' (last_part 500 out)
          else do {
            (up, uout) \<leftarrow> run w (inside project [Txt ''bash'', Txt ''-lc'', Script ''write and start unit'' [unit]])
                           (Some unit_text);
            respond up [(''output'', JStr (last_part 500 uout))]
          }
        }
      })"

definition verb_ai_managed_web :: "world \<Rightarrow> string \<Rightarrow> request \<Rightarrow> reply host" where
  "verb_ai_managed_web w project req = with_text ''service'' req (\<lambda>raw_service.
     let service = strip raw_service; action = obj_get ''action'' req in
     case managed_unit service of
       None \<Rightarrow> refuse ''invalid managed web request''
     | Some unit \<Rightarrow>
         if action \<notin> {JStr ''install'', JStr ''disable''} then refuse ''invalid managed web request''
         else if action = JStr ''disable'' then do {
           (good, out) \<leftarrow> run w (inside project [Txt ''bash'', Txt ''-lc'', Script ''managed web disable'' [unit]]) None;
           respond good [(''output'', JStr (last_part 300 out))]
         }
         else with_text ''openrouter_key'' req (\<lambda>key.
              with_text ''password'' req (\<lambda>password.
              with_text ''admin_email'' req (\<lambda>admin_email.
              with_text ''model'' req (\<lambda>model.
                managed_install w project service unit (strip key) (strip password) (strip admin_email)
                  (managed_model service (strip model)))))))"

section \<open>OpenClaw\<close>

definition OPENCLAW_PORT :: int where "OPENCLAW_PORT = 18789"
definition OPENCLAW_HOME :: string where "OPENCLAW_HOME = ''/home/dev/.openclaw''"
definition OPENCLAW_TG_TOKEN :: string where
  "OPENCLAW_TG_TOKEN = OPENCLAW_HOME @ ''/secrets/telegram-default.token''"

definition openclaw_status :: "world \<Rightarrow> string \<Rightarrow> reply host" where
  "openclaw_status w project = do {
     (rc, out, err) \<leftarrow> run_split w (shell project ''openclaw status'') None;
     let version = strip (info ''version'' [] out);
     let raw_http = info ''http'' [] out;
     let http = strip (if raw_http = [] then ''0'' else raw_http);
     State_Monad.return [(''installed'', JBool (version \<noteq> [])), (''version'', text_or_null version),
       (''configured'', JBool (strip (info ''configured'' ''no'' out) = ''yes'')),
       (''model'', text_or_null (strip (info ''model'' [] out))),
       (''telegram'', JBool (strip (info ''telegram'' ''no'' out) = ''yes'')),
       (''service_active'', JBool (strip (info ''active'' [] out) = ''active'')),
       (''responding'', JBool (http \<notin> {''0'', ''000'', []}))]
   }"

definition openclaw_approve_devices :: "world \<Rightarrow> string \<Rightarrow> string \<Rightarrow> reply host" where
  "openclaw_approve_devices w project password = do {
     (rc, out, err) \<leftarrow> run_split w (inside_env project (''OC_PW='' @ password)
        [Txt ''su'', Txt ''-'', Txt ''dev'', Txt ''-c'', Script ''approve pending devices'' []]) None;
     respond (rc = 0) [(''output'', JStr (last_part 500 out))]
   }"

text \<open>\<open>re.split(r"[,\\s]+", s)\<close>, of which only the numbers are kept.\<close>

fun split_when :: "(char \<Rightarrow> bool) \<Rightarrow> string \<Rightarrow> string list" where
  "split_when d [] = [[]]"
| "split_when d (c # s) =
     (if d c then [] # split_when d s
      else case split_when d s of [] \<Rightarrow> [[c]] | x # xs \<Rightarrow> (c # x) # xs)"

definition telegram_ids :: "string \<Rightarrow> string list" where
  "telegram_ids s = filter (\<lambda>u. u \<noteq> [] \<and> list_all is_digit u)
     (split_when (\<lambda>c. c = CHR '','' \<or> is_space c) (strip s))"

text \<open>The configuration of the gateway.\<close>

definition openclaw_config :: "string \<Rightarrow> string \<Rightarrow> string \<Rightarrow> string \<Rightarrow> string list option \<Rightarrow> json" where
  "openclaw_config key password origin model telegram = JObj ([
     (''gateway'', JObj [(''port'', JInt OPENCLAW_PORT), (''bind'', JStr ''lan''), (''mode'', JStr ''local''),
        (''auth'', JObj [(''password'', JStr password), (''mode'', JStr ''password'')]),
        (''controlUi'', JObj (if origin = [] then [] else [(''allowedOrigins'', JList [JStr origin])])),
        (''trustedProxies'', JList [JStr ''10.42.0.1''])]),
     (''models'', JObj [(''providers'', JObj [(''openrouter'',
        JObj [(''baseUrl'', JStr ''https://openrouter.ai/api/v1''), (''apiKey'', JStr key)])])]),
     (''auth'', JObj [(''profiles'', JObj [(''openrouter:default'',
        JObj [(''provider'', JStr ''openrouter''), (''mode'', JStr ''api_key'')])])]),
     (''agents'', JObj [(''defaults'', JObj [(''workspace'', JStr (OPENCLAW_HOME @ ''/workspace'')),
        (''model'', JObj [(''primary'', JStr model)])])]),
     (''plugins'', JObj [(''entries'', JObj [(''openrouter'', JObj [(''enabled'', JBool True)]),
        (''telegram'', JObj [(''enabled'', JBool True)])])])]
   @ (case telegram of None \<Rightarrow> []
      | Some ids \<Rightarrow>
         [(''channels'', JObj [(''telegram'', JObj [(''enabled'', JBool True),
            (''tokenFile'', JStr OPENCLAW_TG_TOKEN), (''dmPolicy'', JStr ''allowlist''),
            (''allowFrom'', JList (map JStr ids))])]),
          (''commands'', JObj [(''ownerAllowFrom'',
            JList (map (\<lambda>u. JStr (''telegram:'' @ u)) ids))])]))"

text \<open>Twenty probes; the gateway has to answer before success is reported.\<close>

fun openclaw_await :: "world \<Rightarrow> string \<Rightarrow> nat \<Rightarrow> reply host" where
  "openclaw_await w project 0 = do {
     (rc, out, err) \<leftarrow> run_split w (shell project ''openclaw journal'') None;
     st \<leftarrow> openclaw_status w project;
     respond False ([(''error'', JStr ''the gateway did not answer on its port''),
       (''output'', JStr (last_part 800 out))] @ st)
   }"
| "openclaw_await w project (Suc n) = do {
     st \<leftarrow> openclaw_status w project;
     if truthy (obj_get ''responding'' st) then respond True st else openclaw_await w project n
   }"

definition openclaw_install ::
    "world \<Rightarrow> string \<Rightarrow> string \<Rightarrow> string \<Rightarrow> string \<Rightarrow> string \<Rightarrow> string \<Rightarrow> string list option \<Rightarrow> reply host" where
  "openclaw_install w project key password origin model token telegram = do {
     st \<leftarrow> openclaw_status w project;
     (installed, iout) \<leftarrow>
       (if truthy (obj_get ''installed'' st) then State_Monad.return (True, [])
        else run w (shell project ''npm install openclaw'') None);
     if \<not> installed then failed_with ''install failed'' (last_part 800 iout)
     else do {
       (token_ok, tout) \<leftarrow>
         (if telegram \<noteq> None then run w (shell project ''openclaw write telegram token'') (Some (Txt token))
          else do {
            _ \<leftarrow> run w (shell project ''openclaw remove telegram token'') None;
            State_Monad.return (True, [])
          });
       if \<not> token_ok then failed_with ''could not write the Telegram token'' (last_part 300 tout)
       else do {
         (cfg_ok, cout) \<leftarrow> run w (shell project ''openclaw write config'')
           (Some (Doc (openclaw_config key password origin model telegram)));
         if \<not> cfg_ok then failed_with ''could not write configuration'' (last_part 300 cout)
         else do {
           (up, uout) \<leftarrow> run w (shell project ''openclaw write and start unit'') (Some (Script ''OPENCLAW_SERVICE'' []));
           if \<not> up then failed_with ''could not start the gateway'' (last_part 800 uout)
           else openclaw_await w project 20
         }
       }
     }
   }"

definition verb_ai_openclaw :: "world \<Rightarrow> string \<Rightarrow> request \<Rightarrow> reply host" where
  "verb_ai_openclaw w project req =
     (let action = obj_get ''action'' req in
      if action \<notin> {JStr ''status'', JStr ''install'', JStr ''disable'', JStr ''approve_devices''}
      then refuse ''action must be status, install, disable or approve_devices''
      else if action = JStr ''status'' then do {
        st \<leftarrow> openclaw_status w project;
        respond True st
      }
      else if action = JStr ''approve_devices'' then with_text ''password'' req (\<lambda>raw.
        if strip raw = [] then refuse ''password is required''
        else openclaw_approve_devices w project (strip raw))
      else if action = JStr ''disable'' then do {
        (good, out) \<leftarrow> run w (shell project ''openclaw disable'') None;
        st \<leftarrow> openclaw_status w project;
        respond good ((''output'', JStr (last_part 300 out)) # st)
      }
      else with_text ''openrouter_key'' req (\<lambda>key.
           with_text ''password'' req (\<lambda>password.
           with_text ''origin'' req (\<lambda>origin.
           with_text ''model'' req (\<lambda>model.
           with_text ''telegram_token'' req (\<lambda>token.
           with_text ''telegram_users'' req (\<lambda>users.
             let ids = telegram_ids users;
                 enabled = truthy (obj_get ''telegram_enabled'' req) \<and> strip token \<noteq> [] \<and> ids \<noteq> [] in
             if strip key = [] \<or> strip password = [] then refuse ''openrouter_key and password are required''
             else if strip model = [] then refuse ''model is required''
             else openclaw_install w project (strip key) (strip password) (strip origin) (strip model)
                    (strip token) (if enabled then Some ids else None))))))))"

section \<open>Usage and disk\<close>

text \<open>The counting script is piped to the interpreter inside the machine; what it prints is the reply.\<close>

definition verb_usage :: "world \<Rightarrow> string \<Rightarrow> bool \<Rightarrow> reply host" where
  "verb_usage w project codex = do {
     script \<leftarrow> ask (\<lambda>tr. wd_read w tr (if codex then ''scan_codex_usage.py'' else ''scan_ai_usage.py''));
     case script of
       Contents s \<Rightarrow> do {
         (rc, out, err) \<leftarrow> run_split w (inside project (map Txt [''su'', ''-'', ''dev'', ''-c'',
            ''python3 - '' @ (if codex then ''~/.codex/sessions'' else ''~/.claude/projects'')])) (Some (Txt s));
         if strip out = []
         then refuse (last_part 300 (if err = [] then ''scanner produced no output'' else err))
         else case wd_json w out of
             None \<Rightarrow> refuse (''unparseable scanner output: '' @ take 200 out)
           | Some (JObj data) \<Rightarrow> State_Monad.return (spread data [(''ok'', JBool True)])
           | Some _ \<Rightarrow> raise_text ''TypeError''
       }
     | _ \<Rightarrow> refuse ''cannot read the scanner''
   }"

definition endswith :: "string \<Rightarrow> string \<Rightarrow> bool" where
  "endswith s p \<longleftrightarrow> startswith (rev s) (rev p)"

definition put_field :: "string \<Rightarrow> string \<Rightarrow> int \<Rightarrow> reply \<Rightarrow> reply" where
  "put_field idx k n out =
     set_key (idx, JObj (set_key (k, JInt n) (case obj_get idx out of JObj f \<Rightarrow> f | _ \<Rightarrow> []))) out"

text \<open>One line of \<open>zfs list\<close>: the machine it is about, and two of its columns.\<close>

definition disk_line ::
    "nat \<Rightarrow> string \<Rightarrow> string \<Rightarrow> nat \<Rightarrow> string \<Rightarrow> nat \<Rightarrow> string \<Rightarrow> reply \<Rightarrow> reply" where
  "disk_line columns suffix k1 c1 k2 c2 line out =
     (let parts = split_on (CHR 0x09) line in
      if length parts < columns \<or> \<not> endswith (hd parts) suffix then out
      else let name = basename (hd parts);
               idx = drop 3 (take (length name - length suffix) name) in
        if idx = [] \<or> \<not> list_all is_digit idx then out
        else case py_int (parts ! c1) of None \<Rightarrow> out
          | Some a \<Rightarrow> (let out1 = put_field idx k1 a out in
              case py_int (parts ! c2) of None \<Rightarrow> out1 | Some b \<Rightarrow> put_field idx k2 b out1))"

definition root_line :: "string \<Rightarrow> reply \<Rightarrow> reply" where
  "root_line = disk_line 4 ''_ws'' ''root_used'' 1 ''root_free'' 3"

definition docker_line :: "string \<Rightarrow> reply \<Rightarrow> reply" where
  "docker_line = disk_line 3 ''_docker'' ''docker_used'' 1 ''docker_size'' 2"

definition pool_fields :: "string \<Rightarrow> reply" where
  "pool_fields text = (case split_fields text of
       a # b # _ \<Rightarrow> (case (py_int a, py_int b) of
           (Some used, Some avail) \<Rightarrow> [(''used'', JInt used), (''available'', JInt avail)] | _ \<Rightarrow> [])
     | _ \<Rightarrow> [])"

definition zfs :: "string \<Rightarrow> string list \<Rightarrow> arg list" where
  "zfs columns target = map Txt ([''zfs'', ''list'', ''-Hp'', ''-o'', columns] @ target)"

definition verb_disk_usage :: "world \<Rightarrow> reply host" where
  "verb_disk_usage w = do {
     (rc, text, err) \<leftarrow> run_split w (zfs ''name,usedds,used,available'' [''-r'', wd_zpool w @ ''/containers'']) None;
     if rc \<noteq> 0 then refuse (last_part 300 (if err = [] then ''zfs list failed'' else err))
     else do {
       let out1 = fold root_line (splitlines text) [];
       (rc2, text2, err2) \<leftarrow> run_split w (zfs ''name,used,volsize'' [''-r'', wd_zpool w @ ''/custom'']) None;
       let out2 = (if rc2 = 0 then fold docker_line (splitlines text2) out1 else out1);
       (rc3, text3, err3) \<leftarrow> run_split w (zfs ''used,available'' [wd_zpool w]) None;
       let pool = (if rc3 = 0 \<and> strip text3 \<noteq> [] then pool_fields text3 else []);
       respond True [(''workspaces'', JObj out2), (''pool'', JObj pool)]
     }
   }"

section \<open>The MCP key\<close>

definition MCP_KEY_PATH :: string where "MCP_KEY_PATH = ''/etc/mmd/mcp.key''"

text \<open>Python unpacks the pair of \<open>_run\<close> into \<open>rc, _\<close> and tests \<open>rc != 0\<close>: the first component is
  a truth value, and \<open>True != 0\<close>.\<close>

definition rotate_mcp_key :: "world \<Rightarrow> reply host" where
  "rotate_mcp_key w = do {
     fine \<leftarrow> ask (\<lambda>tr. wd_write_ok w tr MCP_KEY_PATH);
     if \<not> fine then refuse ''could not write the key''
     else do {
       perform (Wrote (MCP_KEY_PATH @ ''.new'') (wd_token w @ newline));
       perform (Replaced (MCP_KEY_PATH @ ''.new'') MCP_KEY_PATH);
       (rc, out) \<leftarrow> run w (map Txt [''systemd-run'', ''--on-active=3'', ''--unit=mmd-mcp-key-reload'',
          ''--collect'', ''systemctl'', ''restart'', ''mmd-api'']) None;
       if (if rc then 1 else 0) \<noteq> (0 :: int)
       then respond True [(''token'', JStr (wd_token w)), (''restart_scheduled'', JBool False),
              (''warning'', JStr ''key replaced, but the restart could not be scheduled - run: systemctl restart mmd-api'')]
       else respond True [(''token'', JStr (wd_token w)), (''restart_scheduled'', JBool True)]
     }
   }"

end
