(* ===== verification/HostServices.thy ===== *)
theory HostServices
  imports HostAgents
begin

text \<open>
  The services the privileged daemon configures inside a machine
  (\<open>control/provisioner/provisioner.py\<close>): the SSH server, the Hermes agent with its dashboard and
  gateway, and the remote desktop.
\<close>

section \<open>SSH\<close>

definition service_ssh :: "world \<Rightarrow> string \<Rightarrow> request \<Rightarrow> reply host" where
  "service_ssh w project req =
     (let action = obj_get ''action'' req in
      if action \<notin> {JStr ''enable'', JStr ''disable''} then refuse ''action must be enable or disable''
      else if action = JStr ''disable'' then do {
        (good, out) \<leftarrow> run w (shell project ''ssh disable'') None;
        (good2, listening) \<leftarrow> run w (shell project ''ssh count listeners'') None;
        let ls = splitlines (strip listening);
        let still = (if ls = [] then ''?'' else last ls);
        respond (still = ''0'') [(''listening'', JStr still), (''output'', JStr (last_part 500 out))]
      }
      else with_text ''authorized_keys'' req (\<lambda>keys.
        case check_authorized_keys keys of Some problem \<Rightarrow> refuse problem
        | None \<Rightarrow> do {
            (good, out) \<leftarrow> run w (shell project ''ssh write keys'') (Some (Txt keys));
            if \<not> good then refuse (''could not write keys: '' @ last_part 300 out)
            else do {
              (up, uout) \<leftarrow> run w (shell project ''ssh enable'') (Some (Script ''SSHD_DROPIN'' []));
              respond (up \<and> occurs ''LISTENING'' uout) [(''output'', JStr (last_part 600 uout))]
            }
          }))"

section \<open>Hermes\<close>

text \<open>\<open>shlex.quote\<close>.\<close>

definition shell_safe :: "char \<Rightarrow> bool" where
  "shell_safe c \<longleftrightarrow> is_alnum_ascii c \<or> c \<in> set ''_@%+=:,./-''"

definition quote_char :: char where "quote_char = CHR 0x27"

fun escape_quotes :: "string \<Rightarrow> string" where
  "escape_quotes [] = []"
| "escape_quotes (c # s) =
     (if c = quote_char then [quote_char, CHR 0x22, quote_char, CHR 0x22, quote_char] @ escape_quotes s
      else c # escape_quotes s)"

definition shell_quote :: "string \<Rightarrow> string" where
  "shell_quote s = (if s = [] then [quote_char, quote_char]
     else if list_all shell_safe s then s
     else quote_char # escape_quotes s @ [quote_char])"

text \<open>The two patterns of the Telegram settings.\<close>

definition tg_token_ok :: "string \<Rightarrow> bool" where
  "tg_token_ok t =
     (let d = takeWhile is_ascii_digit t; r = dropWhile is_ascii_digit t
      in 6 \<le> length d \<and> length d \<le> 15 \<and> r \<noteq> [] \<and> hd r = CHR '':'' \<and> list_all token_char (tl r)
         \<and> 20 \<le> length (tl r))"

definition tg_id_ok :: "string \<Rightarrow> bool" where
  "tg_id_ok u \<longleftrightarrow> list_all is_ascii_digit u \<and> 5 \<le> length u \<and> length u \<le> 15 \<and> hd u \<noteq> CHR ''0''"

definition tg_users_ok :: "string \<Rightarrow> bool" where
  "tg_users_ok s \<longleftrightarrow> list_all tg_id_ok (split_on (CHR '','') s)"

definition hermes_env :: "string \<Rightarrow> (string \<times> string) option \<Rightarrow> string" where
  "hermes_env key telegram = ''OPENROUTER_API_KEY='' @ key @ newline
     @ (case telegram of None \<Rightarrow> []
        | Some (token, ids) \<Rightarrow> ''TELEGRAM_BOT_TOKEN='' @ token @ newline
             @ ''TELEGRAM_ALLOWED_USERS='' @ ids @ newline)"

definition hermes_disable :: "world \<Rightarrow> string \<Rightarrow> reply host" where
  "hermes_disable w project = do {
     (good, out) \<leftarrow> run w (shell project ''hermes disable'') None;
     respond (occurs ''listeners=0'' out) [(''output'', JStr (last_part 300 out))]
   }"

definition hermes_set_command :: "string \<Rightarrow> string \<Rightarrow> string" where
  "hermes_set_command ckey cval =
     ''su - dev -c '' @ shell_quote (''hermes config set '' @ shell_quote ckey @ '' '' @ shell_quote cval)
       @ '' 2>&1 | tail -3''"

text \<open>The settings in their order; a failure names its setting.\<close>

fun hermes_set_all :: "world \<Rightarrow> string \<Rightarrow> (string \<times> json) list \<Rightarrow> reply host \<Rightarrow> reply host" where
  "hermes_set_all w project [] rest = rest"
| "hermes_set_all w project ((ckey, v) # sets) rest = (case v of
       JStr cval \<Rightarrow> do {
         (good, out) \<leftarrow> run w (inside project (map Txt [''bash'', ''-lc'', hermes_set_command ckey cval])) None;
         if \<not> good then failed_with (''could not set '' @ ckey) (last_part 300 out)
         else hermes_set_all w project sets rest
       }
     | _ \<Rightarrow> raise_text ''TypeError'')"

definition hermes_webhook_enabled :: "world \<Rightarrow> string \<Rightarrow> bool host" where
  "hermes_webhook_enabled w project = do {
     (good, out) \<leftarrow> run w (shell project ''hermes webhook enabled'') None;
     State_Monad.return (occurs ''True'' out)
   }"

definition hermes_gateway :: "world \<Rightarrow> string \<Rightarrow> bool \<Rightarrow> bool \<Rightarrow> bool \<Rightarrow> string \<Rightarrow> reply host" where
  "hermes_gateway w project installed telegram env_changed dash_out = do {
     webhook \<leftarrow> hermes_webhook_enabled w project;
     let done_reply = respond True [(''installed'', JBool installed), (''telegram_installed'', JBool telegram),
           (''output'', JStr (last_part 900 dash_out))];
     if telegram \<or> webhook then do {
       (rc, gout, gerr) \<leftarrow> run_split w (inside project [Txt ''bash'', Txt ''-lc'',
            Script ''hermes gateway up'' [if env_changed then ''changed=1; '' else [],
              if telegram then ''no messaging error'' else ''true'']])
          (Some (Script ''HERMES_GATEWAY_UNIT'' []));
       if rc \<noteq> 0 \<or> ''active'' \<notin> set (splitlines gout)
       then failed_with (if telegram then ''telegram gateway failed'' else ''webhook gateway failed'')
              (last_part 900 (gout @ gerr))
       else done_reply
     }
     else do {
       (good, gout) \<leftarrow> run w (shell project ''hermes gateway down'') None;
       if \<not> occurs ''gateway=0'' gout
       then failed_with ''telegram gateway did not stop'' (last_part 300 gout)
       else done_reply
     }
   }"

text \<open>The dashboard: its unit is rewritten, and it has to listen.\<close>

definition hermes_dashboard :: "world \<Rightarrow> string \<Rightarrow> bool \<Rightarrow> bool \<Rightarrow> bool \<Rightarrow> reply host" where
  "hermes_dashboard w project installed telegram env_changed = do {
     (rc, out, err) \<leftarrow> run_split w (shell project ''hermes dashboard up'') (Some (Script ''HERMES_UNIT'' []));
     let text = out @ err;
     if \<not> (occurs ''listeners='' text \<and> \<not> occurs ''listeners=0'' text)
     then respond False [(''installed'', JBool installed), (''output'', JStr (last_part 900 text))]
     else hermes_gateway w project installed telegram env_changed text
   }"

text \<open>The key, the password hash and the settings, each step only after the one before.\<close>

definition hermes_configure ::
    "world \<Rightarrow> string \<Rightarrow> bool \<Rightarrow> json \<Rightarrow> json \<Rightarrow> json \<Rightarrow> json \<Rightarrow> (string \<times> string) option \<Rightarrow> reply host" where
  "hermes_configure w project installed key model dash_user dash_password telegram = do {
     (rc, out, err) \<leftarrow> run_split w (shell project ''hermes merge env'') (Some (Txt (hermes_env (str_of key) telegram)));
     if rc \<noteq> 0 then failed_with ''could not write key'' (last_part 300 (out @ err))
     else case dash_password of
       JStr password \<Rightarrow> do {
         (hrc, hout, herr) \<leftarrow> run_split w (shell project ''hermes hash password'') (Some (Txt password));
         let pw_hash = (if strip hout = [] then [] else last (splitlines (strip hout)));
         if hrc \<noteq> 0 \<or> pw_hash = []
         then failed_with ''could not hash the dashboard password'' (last_part 300 (hout @ herr))
         else hermes_set_all w project
           ([(''dashboard.basic_auth.username'', dash_user),
             (''dashboard.basic_auth.password_hash'', JStr pw_hash)]
            @ (if truthy model then [(''model'', model)] else []))
           (hermes_dashboard w project installed (telegram \<noteq> None) (occurs ''env_changed=1'' (out @ err)))
       }
     | _ \<Rightarrow> raise_text ''AttributeError''
   }"

definition hermes_setup :: "world \<Rightarrow> string \<Rightarrow> bool \<Rightarrow> (bool \<Rightarrow> reply host) \<Rightarrow> reply host" where
  "hermes_setup w project wanted rest =
     (if \<not> wanted then rest False
      else do {
        (good, out) \<leftarrow> run w (shell project ''uv tool install hermes'') None;
        if \<not> good then failed_with ''install failed'' (last_part 600 out) else rest True
      })"

definition service_hermes :: "world \<Rightarrow> string \<Rightarrow> request \<Rightarrow> reply host" where
  "service_hermes w project req =
     (let action = obj_get ''action'' req in
      if action \<notin> {JStr ''enable'', JStr ''disable''} then refuse ''action must be enable or disable''
      else if action = JStr ''disable'' then hermes_disable w project
      else with_text ''telegram_users'' req (\<lambda>raw_users.
        let key = obj_get ''api_key'' req; model = obj_get ''model'' req; ip = obj_get ''ip'' req;
            dash_user = obj_get ''dash_user'' req; dash_password = obj_get ''dash_password'' req;
            enabled = truthy (obj_get ''telegram_enabled'' req);
            token = obj_get ''telegram_token'' req;
            ids = filter (\<lambda>c. c \<noteq> CHR '' '') raw_users;
            configure = (\<lambda>telegram. hermes_setup w project (truthy (obj_get ''install'' req))
              (\<lambda>installed. hermes_configure w project installed key model dash_user dash_password telegram))
        in if \<not> truthy key \<or> \<not> truthy ip then refuse ''api_key and ip are required''
           else if \<not> truthy dash_user \<or> \<not> truthy dash_password then refuse ''dashboard credentials are required''
           else if \<not> enabled then configure None
           else case text_or_empty token of None \<Rightarrow> raise_text ''TypeError''
             | Some t \<Rightarrow>
                 if \<not> tg_token_ok t then refuse ''invalid telegram token''
                 else if \<not> tg_users_ok ids then refuse ''invalid telegram allowlist''
                 else configure (Some (t, ids))))"

section \<open>Remote desktop\<close>

definition rdp_install :: "world \<Rightarrow> string \<Rightarrow> bool \<Rightarrow> (bool \<Rightarrow> reply host) \<Rightarrow> reply host" where
  "rdp_install w project wanted rest =
     (if \<not> wanted then rest False
      else do {
        (good, out) \<leftarrow> run w (inside_env project ''DEBIAN_FRONTEND=noninteractive''
            [Txt ''bash'', Txt ''-lc'', Script ''apt install desktop'' []]) None;
        if \<not> good then failed_with ''install failed'' (last_part 800 out)
        else do {
          _ \<leftarrow> run w (shell project ''desktop fixes'') None;
          _ \<leftarrow> run w (shell project ''write polkit rule'') (Some (Script ''polkit'' []));
          rest True
        }
      })"

definition rdp_start :: "world \<Rightarrow> string \<Rightarrow> bool \<Rightarrow> reply host" where
  "rdp_start w project installed = do {
     (good, out) \<leftarrow> run w (shell project ''xrdp enable'') None;
     respond (good \<and> occurs ''LISTENING'' out)
       [(''installed'', JBool installed), (''output'', JStr (last_part 400 out))]
   }"

definition service_rdp :: "world \<Rightarrow> string \<Rightarrow> request \<Rightarrow> reply host" where
  "service_rdp w project req =
     (let action = obj_get ''action'' req in
      if action \<notin> {JStr ''enable'', JStr ''disable''} then refuse ''action must be enable or disable''
      else if action = JStr ''disable'' then do {
        (good, out) \<leftarrow> run w (shell project ''xrdp disable'') None;
        respond (occurs ''listeners=0'' out) [(''output'', JStr (last_part 300 out))]
      }
      else rdp_install w project (truthy (obj_get ''install'' req)) (\<lambda>installed.
        let password = obj_get ''password'' req in
        if \<not> truthy password then rdp_start w project installed
        else case password of
          JStr s \<Rightarrow>
            (if \<not> (8 \<le> length s \<and> length s \<le> 128) then refuse ''password must be 8-128 characters''
             else if list_ex (\<lambda>c. code c = 10 \<or> c = CHR '':'') s
             then refuse ''password contains unsupported characters''
             else do {
               (good, out) \<leftarrow> run w (inside project (map Txt [''bash'', ''-lc'', ''chpasswd'']))
                 (Some (Txt (''dev:'' @ s @ newline)));
               if \<not> good then refuse (''could not set password: '' @ last_part 200 out)
               else rdp_start w project installed
             })
        | _ \<Rightarrow> refuse ''password must be 8-128 characters''))"

end
