(* ===== verification/HostFiles.thy ===== *)
theory HostFiles
  imports HostAgents
begin

text \<open>
  The file verbs of the privileged daemon (\<open>control/provisioner/provisioner.py\<close>): listing, making
  and deleting paths in a machine, and moving files between it and the host's spool. Creating the
  spool directory itself is left out. A zip archive is an effect that names its source.
\<close>

section \<open>Listing\<close>

definition tab :: char where "tab = CHR 0x09"

text \<open>One line of \<open>find -printf\<close>; \<open>None\<close> is the \<open>ValueError\<close> of a number that only looks like
  one, \<open>Some None\<close> a line that is skipped.\<close>

definition entry_type :: "string \<Rightarrow> string" where
  "entry_type kind = (if kind = ''d'' then ''dir'' else if kind = ''f'' then ''file''
     else if kind = ''l'' then ''link'' else ''other'')"

definition all_digits :: "string \<Rightarrow> bool" where
  "all_digits s \<longleftrightarrow> s \<noteq> [] \<and> list_all is_digit s"

definition parse_entry :: "string \<Rightarrow> json option option" where
  "parse_entry line = (case split_on tab line of
       [kind, bytes, mtime, perms, name] \<Rightarrow>
         (case (if all_digits bytes then py_int bytes else Some 0,
                if all_digits (filter (\<lambda>c. c \<noteq> CHR ''.'') mtime) then map_option JFloat (py_float mtime)
                else Some (JInt 0)) of
            (Some sz, Some mt) \<Rightarrow> Some (Some (JObj [(''name'', JStr name), (''type'', JStr (entry_type kind)),
               (''size'', JInt sz), (''mtime'', mt), (''mode'', JStr perms)]))
          | _ \<Rightarrow> None)
     | _ \<Rightarrow> Some None)"

fun parse_entries :: "string list \<Rightarrow> json list option" where
  "parse_entries [] = Some []"
| "parse_entries (l # ls) = (case parse_entry l of None \<Rightarrow> None
     | Some None \<Rightarrow> parse_entries ls
     | Some (Some e) \<Rightarrow> map_option (\<lambda>es. e # es) (parse_entries ls))"

text \<open>The format of \<open>find -printf\<close>: type, size, time, mode and name, each escape spelt out.\<close>

definition FIND_FORMAT :: string where
  "FIND_FORMAT = (let bs = CHR 0x5C in ''%y'' @ [bs] @ ''t%s'' @ [bs] @ ''t%T@'' @ [bs] @ ''t%m'' @ [bs] @ ''t%f'' @ [bs] @ ''n'')"

definition fs_list :: "world \<Rightarrow> string \<Rightarrow> string \<Rightarrow> reply host" where
  "fs_list w project path = do {
     (rc, out, err) \<leftarrow> run_split w (inside project (map Txt [''find'', path, ''-maxdepth'', ''1'',
        ''-mindepth'', ''1'', ''-printf'', FIND_FORMAT])) None;
     if out = [] \<and> (occurs ''No such file'' err \<or> occurs ''cannot access'' err) then refuse ''not found''
     else case parse_entries (splitlines out) of
       None \<Rightarrow> raise_text ''ValueError''
     | Some entries \<Rightarrow> respond True [(''path'', JStr path), (''entries'', JList entries),
         (''partial'', JBool (strip err \<noteq> []))]
   }"

section \<open>Making and deleting\<close>

definition fs_mkdir :: "world \<Rightarrow> string \<Rightarrow> string \<Rightarrow> reply host" where
  "fs_mkdir w project path = do {
     (good, out) \<leftarrow> run w (inside project (map Txt [''install'', ''-d'', ''-o'', ''dev'', ''-g'', ''dev'',
        ''-m'', ''0755'', path])) None;
     respond good [(''output'', JStr (last_part 200 out))]
   }"

definition SYSTEM_PATHS :: "string list" where
  "SYSTEM_PATHS = [''/'', ''/home'', ''/home/dev'', ''/etc'', ''/usr'', ''/var'', ''/bin'']"

definition fs_delete :: "world \<Rightarrow> string \<Rightarrow> string \<Rightarrow> reply host" where
  "fs_delete w project path =
     (if path \<in> set SYSTEM_PATHS then refuse ''refusing to delete a system path''
      else do {
        (good, out) \<leftarrow> run w (inside project (map Txt [''rm'', ''-rf'', ''--'', path])) None;
        respond good [(''output'', JStr (last_part 200 out))]
      })"

section \<open>Transfers\<close>

definition with_spool :: "request \<Rightarrow> (string \<Rightarrow> reply host) \<Rightarrow> reply host" where
  "with_spool req f = with_text ''token'' req (\<lambda>t.
     case spool_path t of None \<Rightarrow> refuse ''bad spool token'' | Some p \<Rightarrow> f p)"

definition too_large :: "string \<Rightarrow> int \<Rightarrow> reply host" where
  "too_large e n = respond False [(''error'', JStr e), (''code'', JStr ''too_large''), (''size'', JInt n),
     (''limit'', JInt MAX_TRANSFER_BYTES)]"

definition pull_args :: "string \<Rightarrow> string \<Rightarrow> string \<Rightarrow> arg list" where
  "pull_args project path dest = map Txt [''incus'', ''file'', ''pull'', ''--project'', project, ''ws'' @ path, dest]"

definition pull_tree_args :: "string \<Rightarrow> string \<Rightarrow> string \<Rightarrow> arg list" where
  "pull_tree_args project path dest =
     map Txt [''incus'', ''file'', ''pull'', ''-r'', ''--project'', project, ''ws'' @ path, dest]"

definition push_args :: "string \<Rightarrow> string \<Rightarrow> string \<Rightarrow> arg list" where
  "push_args project src path = map Txt [''incus'', ''file'', ''push'', ''--project'', project,
     ''--uid'', ''1000'', ''--gid'', ''1000'', ''--mode'', ''644'', src, ''ws'' @ path]"

definition fs_pull :: "world \<Rightarrow> string \<Rightarrow> string \<Rightarrow> string \<Rightarrow> reply host" where
  "fs_pull w project path dest = do {
     (measured, why) \<leftarrow> measure_path w project path;
     case measured of None \<Rightarrow> refuse why
     | Some n \<Rightarrow>
         if MAX_TRANSFER_BYTES < n then too_large ''file too large'' n
         else do {
           (good, out) \<leftarrow> run w (pull_args project path dest) None;
           if \<not> good then refuse (last_part 300 out)
           else do {
             landed \<leftarrow> ask (\<lambda>tr. wd_size w tr dest);
             case landed of None \<Rightarrow> refuse ''OSError''
             | Some m \<Rightarrow>
                 if MAX_TRANSFER_BYTES < m then do {
                   perform (Removed dest);
                   too_large ''file too large'' m
                 }
                 else respond True [(''size'', JInt m)]
           }
         }
   }"

definition fs_push :: "world \<Rightarrow> string \<Rightarrow> string \<Rightarrow> string \<Rightarrow> reply host" where
  "fs_push w project path src = do {
     present \<leftarrow> ask (\<lambda>tr. wd_isfile w tr src);
     if \<not> present then refuse ''spool file missing''
     else do {
       (good, out) \<leftarrow> run w (push_args project src path) None;
       respond good [(''output'', JStr (last_part 300 out))]
     }
   }"

text \<open>The sizes are added up while the files are written; the sum may not pass the limit.\<close>

fun archive_fits :: "int \<Rightarrow> int list \<Rightarrow> bool" where
  "archive_fits sum_so_far [] = True"
| "archive_fits sum_so_far (n # ns) =
     (sum_so_far + n \<le> MAX_TRANSFER_BYTES \<and> archive_fits (sum_so_far + n) ns)"

definition fs_archive :: "world \<Rightarrow> string \<Rightarrow> string \<Rightarrow> string \<Rightarrow> reply host" where
  "fs_archive w project path dest = do {
     (measured, why) \<leftarrow> measure_path w project path;
     case measured of None \<Rightarrow> refuse why
     | Some n \<Rightarrow>
         if MAX_TRANSFER_BYTES < n then too_large ''archive too large'' n
         else do {
           let staging = dest @ ''.d'';
           (good, out) \<leftarrow> run w (pull_tree_args project path staging) None;
           if \<not> good then refuse (last_part 300 out)
           else do {
             opened \<leftarrow> ask (\<lambda>tr. wd_write_ok w tr dest);
             sizes \<leftarrow> ask (\<lambda>tr. wd_walk w tr staging);
             if \<not> opened then do {
               perform (Removed staging);
               refuse ''OSError''
             }
             else do {
               perform (Zipped dest staging);
               perform (Removed staging);
               if \<not> archive_fits 0 sizes then do {
                 perform (Removed dest);
                 refuse ''archive too large''
               }
               else do {
                 landed \<leftarrow> ask (\<lambda>tr. wd_size w tr dest);
                 case landed of None \<Rightarrow> raise_text ''OSError''
                 | Some m \<Rightarrow> respond True [(''size'', JInt m)]
               }
             }
           }
         }
   }"

definition handle_fs :: "world \<Rightarrow> string \<Rightarrow> string \<Rightarrow> request \<Rightarrow> reply host" where
  "handle_fs w project verb req =
     (case (case obj_get ''path'' req of JStr p \<Rightarrow> safe_path p | _ \<Rightarrow> None) of
        None \<Rightarrow> refuse ''invalid path''
      | Some path \<Rightarrow>
          if verb = ''fs_list'' then fs_list w project path
          else if verb = ''fs_mkdir'' then fs_mkdir w project path
          else if verb = ''fs_delete'' then fs_delete w project path
          else if verb = ''fs_pull'' then with_spool req (fs_pull w project path)
          else if verb = ''fs_push'' then with_spool req (fs_push w project path)
          else if verb = ''fs_archive'' then with_spool req (fs_archive w project path)
          else refuse (''unknown fs verb '' @ verb))"

end
