(* ===== verification/Provisioner.thy ===== *)
theory Provisioner
  imports HostApps HostServices HostFiles
begin

text \<open>
  The dispatcher of the privileged daemon (\<open>handle\<close> and \<open>_serve_one\<close> of
  \<open>control/provisioner/provisioner.py\<close>) with the verbs that create, reset and destroy a machine.
\<close>

section \<open>Machines\<close>

definition machine_name :: "int \<Rightarrow> string" where
  "machine_name idx = ''ws-'' @ show_int idx"

definition create_args :: "string \<Rightarrow> int \<Rightarrow> sizes \<Rightarrow> arg list" where
  "create_args script idx t = map Txt [''bash'', script, show_int idx] @ tier_args t"

definition handle_provision :: "world \<Rightarrow> int \<Rightarrow> request \<Rightarrow> reply host" where
  "handle_provision w idx req =
     (let t = clamp req in do {
        (good, out) \<leftarrow> run w (create_args ''workspace/ws-create.sh'' idx t) None;
        if good then do {
          _ \<leftarrow> set_project_access w (machine_name idx) True;
          (fx_ok, fx_out) \<leftarrow> apply_apt_fixups w (machine_name idx);
          _ \<leftarrow> apply_net_fixups w (machine_name idx);
          respond True [(''output'', JStr out), (''tier'', tier_json t), (''apt_fixups'', JBool fx_ok)]
        }
        else respond good [(''output'', JStr out), (''tier'', tier_json t)]
      })"

definition handle_destroy :: "world \<Rightarrow> int \<Rightarrow> reply host" where
  "handle_destroy w idx = do {
     (good, out) \<leftarrow> run w (map Txt [''bash'', ''workspace/ws-destroy.sh'', show_int idx, ''--yes'']) None;
     _ \<leftarrow> (if good then set_project_access w (machine_name idx) False else State_Monad.return ());
     respond good [(''output'', JStr out)]
   }"

definition handle_reset :: "world \<Rightarrow> int \<Rightarrow> request \<Rightarrow> reply host" where
  "handle_reset w idx req =
     (let t = clamp req in do {
        (good, out) \<leftarrow> run w (create_args ''workspace/ws-reset.sh'' idx t) None;
        if \<not> good then respond False [(''output'', JStr (last_part 2000 out)), (''tier'', tier_json t)]
        else do {
          (fx_ok, fx_out) \<leftarrow> apply_apt_fixups w (machine_name idx);
          _ \<leftarrow> apply_net_fixups w (machine_name idx);
          respond True [(''output'', JStr (last_part 2000 out)), (''tier'', tier_json t), (''apt_fixups'', JBool fx_ok)]
        }
      })"

definition handle_apt_repair :: "world \<Rightarrow> string \<Rightarrow> reply host" where
  "handle_apt_repair w project = do {
     (net_ok, net_out) \<leftarrow> apply_net_fixups w project;
     (good, out) \<leftarrow> apply_apt_fixups w project;
     respond good [(''output'', JStr (if net_ok then out else net_out @ newline @ out))]
   }"

section \<open>Dispatch\<close>

definition VERBS :: "string list" where
  "VERBS = [''provision'', ''archive'', ''restore'', ''destroy'', ''expose_port'', ''unexpose_port'',
     ''service_ssh'', ''service_rdp'', ''service_hermes'', ''fs_list'', ''fs_pull'', ''fs_push'', ''fs_mkdir'',
     ''fs_delete'', ''fs_archive'', ''apt_repair'', ''ai_claude'', ''ai_codex'', ''ai_openclaw'',
     ''ai_managed_web'', ''ai_usage'', ''codex_usage'', ''disk_usage'', ''reset'', ''ping'', ''rotate_mcp_key'']"

text \<open>What iterating over the value of \<open>mappings\<close> yields; \<open>None\<close> is \<open>TypeError\<close>.\<close>

definition iterate :: "json \<Rightarrow> json list option" where
  "iterate v = (if \<not> truthy v then Some [] else case v of
       JList xs \<Rightarrow> Some xs | JObj kv \<Rightarrow> Some (map (JStr \<circ> fst) kv)
     | JStr s \<Rightarrow> Some (map (\<lambda>c. JStr [c]) s) | _ \<Rightarrow> None)"

text \<open>The verbs that act on one machine and know it by its project only.\<close>

definition handle_in_machine :: "world \<Rightarrow> string \<Rightarrow> string \<Rightarrow> request \<Rightarrow> reply host" where
  "handle_in_machine w project verb req =
     (if verb = ''ai_usage'' then verb_usage w project False
      else if verb = ''codex_usage'' then verb_usage w project True
      else if verb = ''ai_claude'' then verb_ai_claude w project req
      else if verb = ''ai_codex'' then verb_ai_codex w project req
      else if verb = ''ai_openclaw'' then verb_ai_openclaw w project req
      else if verb = ''ai_managed_web'' then verb_ai_managed_web w project req
      else if verb = ''apt_repair'' then handle_apt_repair w project
      else if verb = ''service_ssh'' then service_ssh w project req
      else if verb = ''service_hermes'' then service_hermes w project req
      else if verb = ''service_rdp'' then service_rdp w project req
      else if startswith verb ''fs_'' then handle_fs w project verb req
      else refuse (verb @ '' not implemented yet''))"

definition handle_numbered :: "world \<Rightarrow> string \<Rightarrow> int \<Rightarrow> request \<Rightarrow> reply host" where
  "handle_numbered w verb idx req =
     (if \<not> (1 \<le> idx \<and> idx \<le> 9999) then refuse ''idx out of range''
      else if verb = ''provision'' then handle_provision w idx req
      else if verb = ''destroy'' then handle_destroy w idx
      else if verb \<in> {''expose_port'', ''unexpose_port''}
      then (case iterate (obj_get ''mappings'' req) of None \<Rightarrow> raise_text ''TypeError''
            | Some ms \<Rightarrow> sync_port_rules w ms)
      else if verb = ''reset'' then handle_reset w idx req
      else if verb = ''disk_usage'' then verb_disk_usage w
      else handle_in_machine w (machine_name idx) verb req)"

definition handle :: "world \<Rightarrow> request \<Rightarrow> reply host" where
  "handle w req = (case obj_get ''verb'' req of
       JStr verb \<Rightarrow>
         (if verb \<notin> set VERBS then refuse (''unknown verb: '' @ verb)
          else if verb = ''ping'' then respond True [(''pong'', JBool True)]
          else if verb = ''rotate_mcp_key'' then rotate_mcp_key w
          else case to_int (obj_get ''idx'' req) of None \<Rightarrow> refuse ''idx required''
            | Some idx \<Rightarrow> handle_numbered w verb idx req)
     | _ \<Rightarrow> refuse ''unknown verb'')"

section \<open>One connection\<close>

datatype received = Bytes string | TooLarge

text \<open>The chunks the peer sends, until a newline, its end, or too much.\<close>

fun receive :: "string \<Rightarrow> string list \<Rightarrow> received" where
  "receive raw [] = Bytes raw"
| "receive raw (c # cs) =
     (if endswith raw newline then Bytes raw
      else if c = [] then Bytes raw
      else if 1000000 < int (length (raw @ c)) then TooLarge
      else receive (raw @ c) cs)"

definition serve_one :: "accounts \<Rightarrow> world \<Rightarrow> int \<Rightarrow> int \<Rightarrow> string list \<Rightarrow> reply host" where
  "serve_one ac w uid gid chunks =
     (if \<not> authorised ac uid gid then refuse ''unauthorised''
      else case receive [] chunks of
        TooLarge \<Rightarrow> refuse ''too large''
      | Bytes raw \<Rightarrow> (case wd_json w (if raw = [] then ''{}'' else raw) of
            Some (JObj req) \<Rightarrow> handle w req
          | Some _ \<Rightarrow> raise_text ''AttributeError''
          | None \<Rightarrow> raise_text ''JSONDecodeError''))"

end
