(* ===== verification/Confinement.thy ===== *)
theory Confinement
  imports Provisioner
begin

text \<open>
  What the privileged daemon can be made to do: every effect of a request lies in the machine the
  request names, except those of the verbs that manage machines, published ports, the MCP key and
  the disk measurement, which are enumerated.
\<close>

section \<open>Effects in one machine\<close>

definition spool_file :: "string \<Rightarrow> bool" where
  "spool_file p \<longleftrightarrow> (\<exists>t. p = SPOOL @ ''/'' @ t \<and> list_all token_char t \<and> 8 \<le> length t \<and> length t \<le> 64)"

definition machine_command :: "string \<Rightarrow> arg list \<Rightarrow> bool" where
  "machine_command project argv \<longleftrightarrow>
     (\<exists>args. argv = inside project args) \<or> (\<exists>env args. argv = inside_env project env args)
     \<or> (\<exists>path file. canonical path \<and> spool_file file \<and>
          argv \<in> {pull_args project path file, pull_tree_args project path (file @ ''.d''),
                   push_args project file path})"

definition machine_effect :: "string \<Rightarrow> effect \<Rightarrow> bool" where
  "machine_effect project e = (case e of
       Ran c \<Rightarrow> machine_command project (cm_argv c)
     | Wrote p s \<Rightarrow> False
     | Replaced p q \<Rightarrow> False
     | Removed p \<Rightarrow> spool_file p \<or> (\<exists>q. spool_file q \<and> p = q @ ''.d'')
     | Zipped p q \<Rightarrow> spool_file p \<and> q = p @ ''.d'')"

lemma machine_inside [only_intro]:
    "machine_effect project (Ran \<lparr>cm_argv = inside project args, cm_stdin = i\<rparr>)"
  and machine_inside_env [only_intro]:
    "machine_effect project (Ran \<lparr>cm_argv = inside_env project env args, cm_stdin = i\<rparr>)"
  and machine_shell [only_intro]:
    "machine_effect project (Ran \<lparr>cm_argv = shell project name, cm_stdin = i\<rparr>)"
  by (auto simp: machine_effect_def machine_command_def shell_def)

lemma machine_transfer:
  assumes "canonical path" and "spool_file file"
  shows "machine_effect project (Ran \<lparr>cm_argv = pull_args project path file, cm_stdin = i\<rparr>)"
    and "machine_effect project (Ran \<lparr>cm_argv = pull_tree_args project path (file @ ''.d''), cm_stdin = i\<rparr>)"
    and "machine_effect project (Ran \<lparr>cm_argv = push_args project file path, cm_stdin = i\<rparr>)"
    and "machine_effect project (Removed file)" and "machine_effect project (Removed (file @ ''.d''))"
    and "machine_effect project (Zipped file (file @ ''.d''))"
  using assms by (auto simp: machine_effect_def machine_command_def)

lemma spool_path_file:
  assumes "spool_path t = Some p" shows "spool_file p"
proof -
  have t: "list_all token_char t" "8 \<le> length t" "length t \<le> 64" and p: "p = path_join SPOOL t"
    using assms by (auto simp: spool_path_def split: if_splits)
  then have "t \<noteq> [] \<and> hd t \<noteq> CHR ''/''"
    by (cases t) (auto simp: token_char_def is_alnum_ascii_def is_ascii_digit_def is_lower_az_def is_upper_az_def)
  then have "\<not> startswith t ''/''" by (simp add: startswith_slash)
  then have "p = SPOOL @ ''/'' @ t" using p by (simp add: path_join_def SPOOL_def)
  with t show ?thesis unfolding spool_file_def by blast
qed

section \<open>The verbs of one machine\<close>

lemma only_sum [only_intro]:
    "(\<And>a. x = Inl a \<Longrightarrow> only P (f a)) \<Longrightarrow> (\<And>b. x = Inr b \<Longrightarrow> only P (g b)) \<Longrightarrow>
      only P (case x of Inl a \<Rightarrow> f a | Inr b \<Rightarrow> g b)"
  by (auto split: sum.split)

lemma only_file [only_intro]:
    "only P m \<Longrightarrow> only P n \<Longrightarrow> (\<And>s. only P (h s)) \<Longrightarrow>
      only P (case r of Missing \<Rightarrow> m | Unreadable \<Rightarrow> n | Contents s \<Rightarrow> h s)"
  by (auto split: file_reply.split)

lemma only_json [only_intro]:
    "only P a \<Longrightarrow> (\<And>x. only P (b x)) \<Longrightarrow> (\<And>x. only P (c x)) \<Longrightarrow> (\<And>x. only P (d x)) \<Longrightarrow>
     (\<And>x. only P (e x)) \<Longrightarrow> (\<And>x. only P (f x)) \<Longrightarrow> (\<And>x. only P (g x)) \<Longrightarrow>
      only P (case v of JNull \<Rightarrow> a | JBool x \<Rightarrow> b x | JInt x \<Rightarrow> c x | JFloat x \<Rightarrow> d x
        | JStr x \<Rightarrow> e x | JList x \<Rightarrow> f x | JObj x \<Rightarrow> g x)"
  by (auto split: json.split)

text \<open>
  The contract of the verbs that act in a machine, and what it gives for any conversation: whatever
  requests arrive for a machine, and whatever the host answers, nothing outside it is touched.
\<close>

locale tenant_verb =
  fixes verb :: "world \<Rightarrow> string \<Rightarrow> request \<Rightarrow> reply host"
  assumes only_machine: "only (machine_effect project) (verb w project req)"
begin

lemma trace_in_machine:
  assumes "run_state (verb w project req) [] = (r, tr)"
  shows "list_all (machine_effect project) tr"
  using only_trace [OF only_machine assms] .

primrec conversation :: "world \<Rightarrow> string \<Rightarrow> request list \<Rightarrow> reply list host" where
  "conversation w project [] = State_Monad.return []"
| "conversation w project (q # qs) = do {
     r \<leftarrow> verb w project q;
     rs \<leftarrow> conversation w project qs;
     State_Monad.return (r # rs)
   }"

lemma conversation_in_machine: "only (machine_effect project) (conversation w project qs)"
  by (induction qs) (auto intro!: only_intro only_machine)

end

lemma only_claude_status [only_intro]: "only (machine_effect project) (claude_status w project)"
  and only_codex_status [only_intro]: "only (machine_effect project) (codex_status w project)"
  and only_openclaw_status [only_intro]: "only (machine_effect project) (openclaw_status w project)"
  and only_failed_with [only_intro]: "only P (failed_with e out)"
  unfolding claude_status_def codex_status_def openclaw_status_def failed_with_def
  by (intro only_intro)+

interpretation claude: tenant_verb verb_ai_claude
  by unfold_locales (unfold verb_ai_claude_def, intro only_intro)

interpretation codex: tenant_verb verb_ai_codex
  by unfold_locales (unfold verb_ai_codex_def, intro only_intro)

lemma only_openclaw_await [only_intro]: "only (machine_effect project) (openclaw_await w project n)"
proof (induction n)
  case 0
  show ?case by (simp only: openclaw_await.simps) (intro only_intro)
next
  case (Suc n)
  show ?case by (simp only: openclaw_await.simps) (intro only_intro Suc)
qed

lemma only_openclaw_install [only_intro]:
  "only (machine_effect project) (openclaw_install w project key pw origin model token tg)"
  unfolding openclaw_install_def by (intro only_intro)

lemma only_approve [only_intro]:
  "only (machine_effect project) (openclaw_approve_devices w project pw)"
  unfolding openclaw_approve_devices_def by (intro only_intro)

interpretation openclaw: tenant_verb verb_ai_openclaw
  by unfold_locales (unfold verb_ai_openclaw_def, intro only_intro)

lemma only_managed_install [only_intro]:
  "only (machine_effect project) (managed_install w project service unit key pw mail model)"
  unfolding managed_install_def write_opencode_def by (intro only_intro)

interpretation managed_web: tenant_verb verb_ai_managed_web
  by unfold_locales (unfold verb_ai_managed_web_def, intro only_intro)

interpretation ssh: tenant_verb service_ssh
  by unfold_locales (unfold service_ssh_def, intro only_intro)

lemma only_hermes_set_all:
  "only (machine_effect project) rest \<Longrightarrow> only (machine_effect project) (hermes_set_all w project sets rest)"
proof (induction sets)
  case Nil
  then show ?case by simp
next
  case (Cons kv sets)
  then show ?case by (cases kv) (auto simp only: hermes_set_all.simps intro!: only_intro)
qed

lemma only_hermes_gateway [only_intro]:
  "only (machine_effect project) (hermes_gateway w project a b c out)"
  unfolding hermes_gateway_def hermes_webhook_enabled_def by (intro only_intro)

lemma only_hermes_dashboard [only_intro]:
  "only (machine_effect project) (hermes_dashboard w project a b c)"
  unfolding hermes_dashboard_def by (intro only_intro)

lemma only_hermes_configure [only_intro]:
  "only (machine_effect project) (hermes_configure w project a key model u p tg)"
  unfolding hermes_configure_def by (intro only_intro only_hermes_set_all)

lemma only_hermes_setup:
  "(\<And>b. only (machine_effect project) (rest b)) \<Longrightarrow>
    only (machine_effect project) (hermes_setup w project wanted rest)"
  unfolding hermes_setup_def by (intro only_intro) simp_all

interpretation hermes: tenant_verb service_hermes
  by unfold_locales (unfold service_hermes_def hermes_disable_def Let_def, intro only_intro only_hermes_setup)

lemma only_rdp_start [only_intro]: "only (machine_effect project) (rdp_start w project b)"
  unfolding rdp_start_def by (intro only_intro)

lemma only_rdp_install:
  "(\<And>b. only (machine_effect project) (rest b)) \<Longrightarrow>
    only (machine_effect project) (rdp_install w project wanted rest)"
  unfolding rdp_install_def by (intro only_intro) simp_all

interpretation rdp: tenant_verb service_rdp
  by unfold_locales (unfold service_rdp_def, intro only_intro only_rdp_install)

lemma only_with_spool:
  "(\<And>p. spool_file p \<Longrightarrow> only P (f p)) \<Longrightarrow> only P (with_spool req f)"
  unfolding with_spool_def by (intro only_intro) (auto dest: spool_path_file)

lemma only_measure [only_intro]: "only (machine_effect project) (measure_path w project path)"
  unfolding measure_path_def by (intro only_intro)

lemma only_transfers:
  assumes "canonical path" and "spool_file p"
  shows "only (machine_effect project) (fs_pull w project path p)"
    and "only (machine_effect project) (fs_push w project path p)"
    and "only (machine_effect project) (fs_archive w project path p)"
  unfolding fs_pull_def fs_push_def fs_archive_def too_large_def
  by (intro only_intro machine_transfer [OF assms])+

lemma only_list_make_delete [only_intro]:
  "only (machine_effect project) (fs_list w project path)"
  "only (machine_effect project) (fs_mkdir w project path)"
  "only (machine_effect project) (fs_delete w project path)"
  unfolding fs_list_def fs_mkdir_def fs_delete_def by (intro only_intro)+

lemma only_handle_fs [only_intro]: "only (machine_effect project) (handle_fs w project verb req)"
proof -
  have "canonical path" if "(case obj_get ''path'' req of JStr p \<Rightarrow> safe_path p | _ \<Rightarrow> None) = Some path" for path
    using that safe_path_canonical by (auto split: json.splits)
  then show ?thesis
    unfolding handle_fs_def by (intro only_intro only_with_spool only_transfers) auto
qed

interpretation files: tenant_verb "\<lambda>w project req. handle_fs w project verb req" for verb
  by unfold_locales (rule only_handle_fs)

lemma only_usage [only_intro]: "only (machine_effect project) (verb_usage w project b)"
  unfolding verb_usage_def by (intro only_intro)

lemma only_fixups [only_intro]:
  "only (machine_effect project) (apply_apt_fixups w project)"
  "only (machine_effect project) (apply_net_fixups w project)"
  unfolding apply_apt_fixups_def apply_net_fixups_def apply_fixup_script_def by (intro only_intro)+

lemma only_apt_repair [only_intro]: "only (machine_effect project) (handle_apt_repair w project)"
  unfolding handle_apt_repair_def by (intro only_intro)

lemma handle_in_machine_only: "only (machine_effect project) (handle_in_machine w project verb req)"
  unfolding handle_in_machine_def
  by (intro only_intro claude.only_machine codex.only_machine openclaw.only_machine
      managed_web.only_machine ssh.only_machine hermes.only_machine rdp.only_machine)

section \<open>A command belongs to one machine\<close>

lemma machine_command_unique:
  "machine_command p argv \<Longrightarrow> machine_command q argv \<Longrightarrow> p = q"
  by (auto simp: machine_command_def inside_def inside_env_def pull_args_def pull_tree_args_def push_args_def)

lemma machine_name_inj: "machine_name i = machine_name j \<Longrightarrow> i = j"
  by (simp add: machine_name_def show_int_inj)

definition ADMIN_VERBS :: "string list" where
  "ADMIN_VERBS = [''provision'', ''destroy'', ''reset'', ''expose_port'', ''unexpose_port'', ''disk_usage'',
     ''rotate_mcp_key'']"

lemma run_refuse [simp]: "run_state (refuse e) tr = ([(''ok'', JBool False), (''error'', JStr e)], tr)"
  and run_answer [simp]: "run_state (respond b fs) tr = ((''ok'', JBool b) # fs, tr)"
  and run_raise [simp]: "run_state (raise_text e) tr = ([(''ok'', JBool False), (''error'', JStr e)], tr)"
  by (simp_all add: refuse_def respond_def raise_text_def)

lemma handle_tenant:
  assumes "obj_get ''verb'' req = JStr verb" and "verb \<notin> set ADMIN_VERBS"
    and "run_state (handle w req) [] = (r, tr)" and "tr \<noteq> []"
  obtains idx where "to_int (obj_get ''idx'' req) = Some idx" "1 \<le> idx" "idx \<le> 9999"
    "run_state (handle_in_machine w (machine_name idx) verb req) [] = (r, tr)"
proof -
  from assms have v: "verb \<in> set VERBS" "verb \<noteq> ''ping''" "verb \<noteq> ''rotate_mcp_key''"
    by (auto simp: handle_def ADMIN_VERBS_def split: if_splits)
  with assms obtain idx where idx: "to_int (obj_get ''idx'' req) = Some idx"
    by (cases "to_int (obj_get ''idx'' req)") (auto simp: handle_def)
  have h: "run_state (handle_numbered w verb idx req) [] = (r, tr)"
    using assms(1,3) v idx by (simp add: handle_def)
  have range: "1 \<le> idx \<and> idx \<le> 9999"
    using h assms(4) by (auto simp: handle_numbered_def split: if_splits)
  have "run_state (handle_in_machine w (machine_name idx) verb req) [] = (r, tr)"
    using h range assms(2) by (simp add: handle_numbered_def ADMIN_VERBS_def)
  with idx range that show ?thesis by blast
qed

text \<open>C6. A request that is not one of the seven administrative verbs has effects only in the machine
  it names: every command is one inside that machine or a transfer between it and the spool, whatever
  the request says and whatever the host and the machine respond; no command is one of another machine.\<close>
theorem requests_stay_in_their_machine:
  assumes "obj_get ''verb'' req = JStr verb" and "verb \<notin> set ADMIN_VERBS"
    and "run_state (handle w req) [] = (r, tr)"
  shows "tr = [] \<or> (\<exists>idx. to_int (obj_get ''idx'' req) = Some idx \<and> 1 \<le> idx \<and> idx \<le> 9999
     \<and> list_all (machine_effect (machine_name idx)) tr
     \<and> (\<forall>c j. Ran c \<in> set tr \<longrightarrow> machine_command (machine_name j) (cm_argv c) \<longrightarrow> j = idx))"
proof (cases "tr = []")
  case False
  with assms obtain idx where idx: "to_int (obj_get ''idx'' req) = Some idx" "1 \<le> idx" "idx \<le> 9999"
    and h: "run_state (handle_in_machine w (machine_name idx) verb req) [] = (r, tr)"
    by (rule handle_tenant)
  have tr: "list_all (machine_effect (machine_name idx)) tr"
    using only_trace [OF handle_in_machine_only h] .
  then have "machine_command (machine_name idx) (cm_argv c)" if "Ran c \<in> set tr" for c
    using that by (auto simp: list_all_iff machine_effect_def)
  with idx tr machine_command_unique machine_name_inj show ?thesis by blast
qed simp

text \<open>A world in which every command succeeds and prints a number, and nothing can be read.\<close>

definition quiet_world :: world where
  "quiet_world = \<lparr>wd_run = (\<lambda>_ _. Exited 0 ''7'' []),
     wd_json = (\<lambda>s. if s = ''{delete}'' @ newline then Some (JObj [(''verb'', JStr ''fs_delete''), (''idx'', JInt 3),
                   (''path'', JStr ''/tmp/x'')]) else None),
     wd_read = (\<lambda>_ _. Missing), wd_write_ok = (\<lambda>_ _. True), wd_size = (\<lambda>_ _. Some 7),
     wd_isfile = (\<lambda>_ _. True), wd_walk = (\<lambda>_ _. []), wd_token = ''t'', wd_uplink_if = ''eth0'',
     wd_uplink_addr = ''192.0.2.1'', wd_zpool = ''mmdpool''\<rparr>"

definition delete_request :: "string \<Rightarrow> request" where
  "delete_request p = [(''verb'', JStr ''fs_delete''), (''idx'', JInt 3), (''path'', JStr p)]"

lemma delete_runs:
  "run_state (handle quiet_world (delete_request ''/tmp/x'')) [] =
     ([(''ok'', JBool True), (''output'', JStr ''7'')],
      [Ran \<lparr>cm_argv = inside ''ws-3'' (map Txt [''rm'', ''-rf'', ''--'', ''/tmp/x'']), cm_stdin = None\<rparr>])"
  by code_simp

theorem requests_stay_in_their_machine_witness:
  "\<exists>tr. run_state (handle quiet_world (delete_request ''/tmp/x'')) [] =
      ([(''ok'', JBool True), (''output'', JStr ''7'')], tr)
    \<and> tr \<noteq> [] \<and> list_all (machine_effect ''ws-3'') tr"
proof -
  have "obj_get ''verb'' (delete_request ''/tmp/x'') = JStr ''fs_delete''" "''fs_delete'' \<notin> set ADMIN_VERBS"
    "to_int (obj_get ''idx'' (delete_request ''/tmp/x'')) = Some 3" "machine_name 3 = ''ws-3''"
    by code_simp+
  with requests_stay_in_their_machine [OF this(1,2) delete_runs] delete_runs show ?thesis by auto
qed

section \<open>The guard of the delete verb\<close>

text \<open>\<open>normpath\<close> keeps two leading slashes, which the comparison with the system paths does not
  foresee: the customer's home directory is refused in one spelling and removed in the other.\<close>

theorem delete_guard_misses_double_slash:
  "run_state (handle quiet_world (delete_request ''/home/dev'')) [] =
     ([(''ok'', JBool False), (''error'', JStr ''refusing to delete a system path'')], [])
   \<and> clean_path ''//home/dev'' = Some ''//home/dev''
   \<and> run_state (handle quiet_world (delete_request ''//home/dev'')) [] =
     ([(''ok'', JBool True), (''output'', JStr ''7'')],
      [Ran \<lparr>cm_argv = inside ''ws-3'' (map Txt [''rm'', ''-rf'', ''--'', ''//home/dev'']), cm_stdin = None\<rparr>])"
  by (intro conjI; code_simp)

section \<open>Everything the daemon does\<close>

definition tier_in_bounds :: "sizes \<Rightarrow> bool" where
  "tier_in_bounds t \<longleftrightarrow> 1 \<le> ti_cores t \<and> ti_cores t \<le> 4 \<and> 1 \<le> ti_mem_mib t \<and> ti_mem_mib t \<le> 8192
     \<and> 1 \<le> ti_root_gib t \<and> ti_root_gib t \<le> 40 \<and> 1 \<le> ti_docker_gib t \<and> ti_docker_gib t \<le> 40"

lemma clamp_in_bounds: "tier_in_bounds (clamp req)"
  by (simp add: tier_in_bounds_def clamp_def iv_def Let_def MAX_CORES_def MAX_MEM_MIB_def
      MAX_ROOT_GIB_def MAX_DOCKER_GIB_def)

definition lifecycle_command :: "arg list \<Rightarrow> bool" where
  "lifecycle_command argv \<longleftrightarrow> (\<exists>idx. 1 \<le> idx \<and> idx \<le> 9999 \<and>
     ((\<exists>t script. tier_in_bounds t \<and> script \<in> {''workspace/ws-create.sh'', ''workspace/ws-reset.sh''}
          \<and> argv = create_args script idx t)
      \<or> argv = map Txt [''bash'', ''workspace/ws-destroy.sh'', show_int idx, ''--yes'']))"

definition scope_command :: "arg list \<Rightarrow> bool" where
  "scope_command argv \<longleftrightarrow>
     argv = map Txt [''incus'', ''config'', ''trust'', ''list'', ''--format'', ''json'']
     \<or> (\<exists>fp. argv = map Txt [''incus'', ''query'', ''/1.0/certificates/'' @ fp])
     \<or> (\<exists>fp projects. argv = map Txt [''incus'', ''query'', ''--request'', ''PATCH'', ''/1.0/certificates/'' @ fp,
          ''--data''] @ [Doc (JObj [(''projects'', JList projects)])])"

definition admin_effect :: "effect \<Rightarrow> bool" where
  "admin_effect e = (case e of
       Ran c \<Rightarrow> lifecycle_command (cm_argv c) \<or> scope_command (cm_argv c)
          \<or> cm_argv c = map Txt [''nft'', ''-f'', PORT_RULES_FILE]
          \<or> take 4 (cm_argv c) = map Txt [''zfs'', ''list'', ''-Hp'', ''-o'']
          \<or> cm_argv c = map Txt [''systemd-run'', ''--on-active=3'', ''--unit=mmd-mcp-key-reload'',
              ''--collect'', ''systemctl'', ''restart'', ''mmd-api'']
     | Wrote p s \<Rightarrow> p \<in> {PORT_RULES_FILE, MCP_KEY_PATH @ ''.new''}
     | Replaced p q \<Rightarrow> q = MCP_KEY_PATH
     | _ \<Rightarrow> False)"

definition daemon_effect :: "effect \<Rightarrow> bool" where
  "daemon_effect e \<longleftrightarrow> admin_effect e
     \<or> (\<exists>idx. 1 \<le> idx \<and> idx \<le> 9999 \<and> machine_effect (machine_name idx) e)"

lemma only_mono: "only P m \<Longrightarrow> (\<And>e. P e \<Longrightarrow> Q e) \<Longrightarrow> only Q m"
  unfolding only_def by (meson list.pred_mono_strong)

lemma only_in_machine:
  "1 \<le> idx \<Longrightarrow> idx \<le> 9999 \<Longrightarrow> only (machine_effect (machine_name idx)) m \<Longrightarrow> only daemon_effect m"
  by (erule only_mono) (auto simp: daemon_effect_def)

lemma only_incus_json [only_intro]:
  "P (Ran \<lparr>cm_argv = Txt ''incus'' # args, cm_stdin = None\<rparr>) \<Longrightarrow> only P (incus_json w args)"
  unfolding incus_json_def by (intro only_intro) (simp add: only_def execute_def)

lemma only_set_project_access [only_intro]: "only daemon_effect (set_project_access w project grant)"
  unfolding set_project_access_def api_cert_fingerprint_def
  by (intro only_intro) (auto simp: daemon_effect_def admin_effect_def scope_command_def)

lemma only_lifecycle [only_intro]:
  assumes "1 \<le> idx" and "idx \<le> 9999"
  shows "only daemon_effect (handle_provision w idx req)"
    and "only daemon_effect (handle_destroy w idx)"
    and "only daemon_effect (handle_reset w idx req)"
proof -
  have c: "daemon_effect (Ran \<lparr>cm_argv = create_args s idx (clamp req), cm_stdin = None\<rparr>)"
    if "s \<in> {''workspace/ws-create.sh'', ''workspace/ws-reset.sh''}" for s
    using that assms clamp_in_bounds [of req]
    by (auto simp: daemon_effect_def admin_effect_def lifecycle_command_def)
  have d: "daemon_effect (Ran \<lparr>cm_argv = map Txt [''bash'', ''workspace/ws-destroy.sh'', show_int idx, ''--yes''],
      cm_stdin = None\<rparr>)"
    using assms by (auto simp: daemon_effect_def admin_effect_def lifecycle_command_def)
  note fixups = only_in_machine [OF assms only_fixups(1)] only_in_machine [OF assms only_fixups(2)]
  show "only daemon_effect (handle_provision w idx req)" "only daemon_effect (handle_reset w idx req)"
    unfolding handle_provision_def handle_reset_def by (intro only_intro fixups c; simp)+
  show "only daemon_effect (handle_destroy w idx)"
    unfolding handle_destroy_def by (intro only_intro d)
qed

lemma only_sync [only_intro]: "only daemon_effect (sync_port_rules w ms)"
  unfolding sync_port_rules_def
  by (intro only_intro) (auto simp: daemon_effect_def admin_effect_def)

lemma only_disk [only_intro]: "only daemon_effect (verb_disk_usage w)"
  unfolding verb_disk_usage_def zfs_def
  by (intro only_intro) (auto simp: daemon_effect_def admin_effect_def)

lemma only_rotate [only_intro]: "only daemon_effect (rotate_mcp_key w)"
  unfolding rotate_mcp_key_def
  by (intro only_intro) (auto simp: daemon_effect_def admin_effect_def)

lemma handle_numbered_only [only_intro]: "only daemon_effect (handle_numbered w verb idx req)"
  unfolding handle_numbered_def
  by (intro only_intro only_in_machine [OF _ _ handle_in_machine_only]) auto

lemma handle_only [only_intro]: "only daemon_effect (handle w req)"
  unfolding handle_def by (intro only_intro)

lemma only_received [only_intro]:
  "(\<And>s. only P (f s)) \<Longrightarrow> only P m \<Longrightarrow> only P (case x of Bytes s \<Rightarrow> f s | TooLarge \<Rightarrow> m)"
  by (simp split: received.split)

text \<open>C7. Whatever bytes a peer sends and whatever the host answers, the daemon runs nothing but the
  enumerated commands: the lifecycle scripts with a number from 1 to 9999 and sizes within the hard
  ceilings, the certificate queries, \<open>nft -f\<close>, \<open>zfs list\<close>, the deferred restart, and commands inside
  one numbered machine; and a peer that is neither root nor in the group causes nothing at all.\<close>
theorem daemon_effects_enumerated:
  "(\<forall>e \<in> set (snd (run_state (serve_one ac w uid gid chunks) [])). daemon_effect e)
   \<and> (\<not> authorised ac uid gid \<longrightarrow> run_state (serve_one ac w uid gid chunks) [] =
        ([(''ok'', JBool False), (''error'', JStr ''unauthorised'')], []))"
proof -
  have "only daemon_effect (serve_one ac w uid gid chunks)"
    unfolding serve_one_def by (intro only_intro)
  then have "list_all daemon_effect (snd (run_state (serve_one ac w uid gid chunks) []))"
    unfolding only_def by (metis append_Nil)
  then show ?thesis by (simp add: list_all_iff serve_one_def)
qed

definition group_of_api :: accounts where
  "group_of_api = \<lparr>ac_gid_of = (\<lambda>_. Some 990), ac_name_of = (\<lambda>_. None), ac_members = (\<lambda>_. [])\<rparr>"

lemma member_runs:
  "snd (run_state (serve_one group_of_api quiet_world 1001 990 [''{del'', ''ete}'' @ newline]) []) =
      [Ran \<lparr>cm_argv = inside ''ws-3'' (map Txt [''rm'', ''-rf'', ''--'', ''/tmp/x'']), cm_stdin = None\<rparr>]"
  by code_simp

theorem daemon_effects_enumerated_witness:
  "\<exists>c. snd (run_state (serve_one group_of_api quiet_world 1001 990 [''{del'', ''ete}'' @ newline]) []) = [Ran c]
      \<and> daemon_effect (Ran c)
    \<and> run_state (serve_one group_of_api quiet_world 1001 991 [''{del'', ''ete}'' @ newline]) [] =
        ([(''ok'', JBool False), (''error'', JStr ''unauthorised'')], [])"
proof -
  have "\<not> authorised group_of_api 1001 991" by code_simp
  with daemon_effects_enumerated [of group_of_api quiet_world 1001 990 "[''{del'', ''ete}'' @ newline]"]
    daemon_effects_enumerated [of group_of_api quiet_world 1001 991 "[''{del'', ''ete}'' @ newline]"]
    member_runs
  show ?thesis by simp
qed

end
