(* ===== verification/DaemonContracts.thy ===== *)
theory DaemonContracts
  imports Confinement
begin

text \<open>
  The contracts between the control plane and the privileged daemon: what the one sends the other
  accepts (forwarding rules, authorised keys), what is written is exactly what was checked, texts
  pass through two shells unchanged, and only named parts of the operator's credentials leave the
  host.
\<close>

section \<open>Forwarding rules\<close>

definition mapping_json :: "mapping \<Rightarrow> json" where
  "mapping_json m = JObj [(''external_port'', JInt (mg_external_port m)),
     (''internal_port'', JInt (mg_internal_port m)), (''protocol'', JStr (mg_protocol m)), (''ip'', JStr (mg_ip m))]"

definition mapping_allowed :: "mapping \<Rightarrow> bool" where
  "mapping_allowed m \<longleftrightarrow> 20000 \<le> mg_external_port m \<and> mg_external_port m \<le> 29999
     \<and> 1 \<le> mg_internal_port m \<and> mg_internal_port m \<le> 65535
     \<and> mg_protocol m \<in> {''tcp'', ''udp''} \<and> bridge_ip (mg_ip m)"

lemma mapping_error_None: "mapping_error m = None \<longleftrightarrow> mapping_allowed m"
  by (auto simp: mapping_error_def mapping_allowed_def PORT_RANGE_START_def PORT_RANGE_END_def)

lemma check_mappings_Inr:
  "check_mappings js = Inr ms \<longleftrightarrow> map read_mapping js = map Some ms \<and> list_all mapping_allowed ms"
proof (induction js arbitrary: ms)
  case Nil
  then show ?case by auto
next
  case (Cons j js)
  show ?case
  proof (cases "\<exists>m. read_mapping j = Some m \<and> mapping_error m = None")
    case True
    then obtain m where m: "read_mapping j = Some m" "mapping_error m = None" by blast
    then have "mapping_allowed m" by (simp add: mapping_error_None)
    with m Cons show ?thesis by (cases ms) (auto split: sum.splits)
  next
    case False
    then show ?thesis
      by (cases ms) (auto simp: mapping_error_None split: option.splits)
  qed
qed


text \<open>What the control plane publishes is what is written.\<close>

lemma show_nat_short: "n \<le> 999 \<Longrightarrow> length (show_nat n) \<le> 3"
proof -
  assume "n \<le> 999"
  then have "n div 10 div 10 < 10" by simp
  then show ?thesis
    by (subst show_nat.simps, subst show_nat.simps, subst show_nat.simps) simp
qed

lemma bridge_ip_slot: "0 \<le> n \<Longrightarrow> n \<le> 999 \<Longrightarrow> bridge_ip (''10.42.0.'' @ show_int n)"
proof -
  assume n: "0 \<le> n" "n \<le> 999"
  have "length (show_nat (nat n)) \<le> 3" using n by (intro show_nat_short) simp
  moreover have "1 \<le> length (show_nat (nat n))"
    using show_nat_nonempty [of "nat n"] by (cases "show_nat (nat n)") simp_all
  ultimately show ?thesis
    using n show_nat_digits [of "nat n"] by (simp add: bridge_ip_def show_int_def list_all_iff Let_def)
qed

lemma read_mapping_json: "read_mapping (mapping_json m) = Some m"
  by (simp add: mapping_json_def read_mapping_def str_of_def)

definition publishable :: "db \<Rightarrow> bool" where
  "publishable d \<longleftrightarrow>
     (\<forall>p \<in> set (exposed_ports d). PORT_RANGE_START \<le> ep_external_port p \<and> ep_external_port p \<le> PORT_RANGE_END
        \<and> 1 \<le> ep_internal_port p \<and> ep_internal_port p \<le> 65535 \<and> ep_protocol p \<in> set PROTOCOLS)
     \<and> (\<forall>w \<in> set (workspaces d). 1 \<le> w_idx w \<and> w_idx w \<le> 989)"

lemma published_allowed:
  assumes "publishable d" shows "list_all mapping_allowed (published x y d)"
  using assms bridge_ip_slot
  by (auto simp: published_def list_all_iff mapping_allowed_def publishable_def expand_def PROTOCOLS_def
      PROTO_BOTH_def PORT_RANGE_START_def PORT_RANGE_END_def workspace_ip_def split: if_splits)

text \<open>C9. The daemon accepts every set the control plane publishes: when the reserved ports are in the
  range, forward to real ports and the slots fit the bridge, the rules written are those of exactly the
  published set.\<close>
theorem published_rules_accepted:
  assumes "publishable d" and "wd_write_ok w [] PORT_RULES_FILE"
  shows "snd (run_state (sync_port_rules w (map mapping_json (published x y d))) []) =
     [Wrote PORT_RULES_FILE (unlines (ruleset w (published x y d))),
      Ran \<lparr>cm_argv = map Txt [''nft'', ''-f'', PORT_RULES_FILE], cm_stdin = None\<rparr>]"
proof -
  have "check_mappings (map mapping_json (published x y d)) = Inr (published x y d)"
    using published_allowed [OF assms(1)] by (simp add: check_mappings_Inr read_mapping_json)
  with assms(2) show ?thesis
    by (auto simp: sync_port_rules_def ask_def perform_def run_def execute_def split: outcome.splits)
qed

text \<open>A workspace with one reserved port, published for both protocols.\<close>

definition publishing_db :: db where
  "publishing_db = port_db\<lparr>exposed_ports := [new_port 5 1 8080 24815 ''both'' None PUser]\<rparr>"

lemma publishing_db_ok: "publishable publishing_db" "length (published None None publishing_db) = 2"
  by (simp_all add: publishable_def publishing_db_def port_db_def new_port_def new_workspace_def published_def
      expand_def PROTOCOLS_def PROTO_BOTH_def PORT_RANGE_START_def PORT_RANGE_END_def)

theorem published_rules_accepted_witness:
  "\<exists>ms. length ms = 2 \<and> hd (snd (run_state (sync_port_rules quiet_world (map mapping_json ms)) []))
     = Wrote PORT_RULES_FILE (unlines (ruleset quiet_world ms))"
proof -
  have "wd_write_ok quiet_world [] PORT_RULES_FILE" by (simp add: quiet_world_def)
  from published_rules_accepted [OF publishing_db_ok(1) this, of None None] publishing_db_ok(2)
  show ?thesis by (intro exI [of _ "published None None publishing_db"]) simp
qed

section \<open>Authorised keys\<close>

definition unbroken :: "string \<Rightarrow> bool" where
  "unbroken s \<longleftrightarrow> list_all (\<lambda>c. \<not> line_break c) s"

lemma splitlines_from_line:
  "unbroken l \<Longrightarrow> splitlines_from acc (l @ newline @ s) = (rev acc @ l) # splitlines s"
  by (induction l arbitrary: acc) (auto simp: unbroken_def newline_def splitlines_def line_break_def)

lemma splitlines_line: "unbroken l \<Longrightarrow> splitlines (l @ newline @ s) = l # splitlines s"
  using splitlines_from_line [of l "[]"] by (simp add: splitlines_def)

lemma splitlines_join:
  "ls \<noteq> [] \<Longrightarrow> list_all unbroken ls \<Longrightarrow> splitlines (join newline ls @ newline) = ls"
proof (induction ls rule: induct_list012)
  case (2 x)
  then show ?case using splitlines_line [of x "[]"] by (simp add: splitlines_def)
next
  case (3 x y ys)
  then show ?case using splitlines_line [of x] by simp
qed simp

lemma comment_char_unbroken: "comment_char c \<Longrightarrow> \<not> line_break c"
proof -
  assume "comment_char c"
  then consider "is_alnum_ascii c" | "c \<in> set ''_.@+/:- ''" | "170 \<le> code c"
    by (auto simp: comment_char_def word_char_def)
  then show ?thesis
    by cases (auto simp: is_alnum_ascii_def is_lower_az_def is_upper_az_def is_ascii_digit_def line_break_def)
qed

lemma non_space_unbroken: "non_space c \<Longrightarrow> \<not> line_break c"
  by (auto simp: non_space_def is_space_def line_break_def)

lemma key_line_unbroken:
  assumes "plain_key k b c" shows "unbroken (key_line k b c)"
proof -
  have "k \<in> set ALLOWED_TYPES" "b64_shape b" "comment_ok c" using assms by (simp_all add: plain_key_def)
  then have "list_all non_space k" "list_all non_space b" "list_all comment_char c"
    using allowed_plain b64_shape_plain by (simp_all add: comment_ok_def)
  moreover have "\<not> line_break (CHR '' '')" by (simp add: line_break_def)
  ultimately show ?thesis
    using comment_char_unbroken non_space_unbroken
    by (auto simp: key_line_def unbroken_def list_all_iff)
qed

lemma key_line_accepted:
  assumes "plain_key k b c" shows "key_line_error (key_line k b c) = None"
  using key_line_fields (4) [OF assms] assms by (simp add: plain_key_def)

lemma no_errors: "(\<And>l. l \<in> set ls \<Longrightarrow> f l = None) \<Longrightarrow>
  fold (\<lambda>l e. case e of Some _ \<Rightarrow> e | None \<Rightarrow> f l) ls None = None"
  by (induction ls) simp_all

lemma startswith_hd: "startswith s [c] \<Longrightarrow> hd s = c"
  by (cases s) auto

text \<open>C10. The daemon's own check accepts every \<open>authorized_keys\<close> file the control plane renders from
  keys it has validated; the two lists of allowed types agree.\<close>
theorem rendered_keys_accepted:
  assumes "normalise_keys sha256 text = Inr ks"
  shows "check_authorized_keys (authorized_keys_body ks) = None"
proof -
  obtain ls where col: "collect_keys sha256 [] ls = Inr ks" and len: "length ls \<le> 10" and "ls \<noteq> []"
    using assms by (auto simp: normalise_keys_def Let_def MAX_KEYS_def not_less split: if_splits)
  note spec = collect_keys_spec [OF col]
  have ne: "ks \<noteq> []"
  proof (cases ls)
    case (Cons l ls')
    with col obtain k b c where "parse_key l = Inr (k, b, c)" by (auto simp: andthen_Inr_iff)
    with Cons col show ?thesis by (auto simp: andthen_Inr_iff)
  qed (use \<open>ls \<noteq> []\<close> in simp)
  have plain: "plain_key (ke_type e) (ke_body e) (ke_comment e)"
    "ke_line e = key_line (ke_type e) (ke_body e) (ke_comment e)" if "e \<in> set ks" for e
    using spec that by auto
  have "unbroken keys_header" by (simp add: keys_header_def unbroken_def line_break_def)
  moreover have "list_all unbroken (map ke_line ks)"
    using plain key_line_unbroken by (auto simp: list_all_iff)
  ultimately have "splitlines (authorized_keys_body ks) = keys_header # map ke_line ks"
    using ne splitlines_line splitlines_join [of "map ke_line ks"] by (simp add: authorized_keys_body_def)
  moreover have "startswith (strip keys_header) ''#''" by code_simp
  moreover have "filter (\<lambda>l. l \<noteq> [] \<and> \<not> startswith l ''#'') (map (strip \<circ> ke_line) ks) = map ke_line ks"
  proof -
    have "strip (ke_line e) = ke_line e \<and> ke_line e \<noteq> [] \<and> \<not> startswith (ke_line e) ''#''" if "e \<in> set ks" for e
      using key_line_fields [OF plain(1) [OF that]] plain(2) [OF that] startswith_hd by metis
    then have m: "map (strip \<circ> ke_line) ks = map ke_line ks"
      and f: "filter (\<lambda>l. l \<noteq> [] \<and> \<not> startswith l ''#'') (map ke_line ks) = map ke_line ks"
      by (simp_all add: filter_id_conv)
    show ?thesis unfolding m by (rule f)
  qed
  ultimately have real: "real_lines (authorized_keys_body ks) = map ke_line ks"
    by (simp add: real_lines_def comp_def)
  have "key_line_error l = None" if "l \<in> set (map ke_line ks)" for l
    using that plain key_line_accepted by auto
  then show ?thesis
    using ne spec len real no_errors [of "map ke_line ks" key_line_error]
    by (simp add: check_authorized_keys_def Let_def)
qed

theorem rendered_keys_accepted_witness:
  "\<exists>ks. normalise_keys (\<lambda>_. []) sample_keys = Inr ks \<and> check_authorized_keys (authorized_keys_body ks) = None"
  using rendered_keys_accepted [OF sample_keys_accepted] sample_keys_accepted by blast

section \<open>Texts through two shells\<close>

text \<open>How a POSIX shell reads the words of a simple command without expansions: single quotes keep
  everything, double quotes everything but the four characters that expand or escape, and outside
  quotes only plain characters and blanks are read. It is the reference the quoting is checked against.\<close>

datatype shell_mode = Bare | Single | Double

definition grow :: "string option \<Rightarrow> string \<Rightarrow> string option" where
  "grow wd s = Some (case wd of None \<Rightarrow> s | Some w \<Rightarrow> w @ s)"

fun shell_read :: "shell_mode \<Rightarrow> string option \<Rightarrow> string \<Rightarrow> string list option" where
  "shell_read Bare wd [] = Some (case wd of None \<Rightarrow> [] | Some w \<Rightarrow> [w])"
| "shell_read m wd [] = None"
| "shell_read Bare wd (c # s) =
     (if c = CHR '' '' then (case wd of None \<Rightarrow> shell_read Bare None s
        | Some w \<Rightarrow> map_option (\<lambda>ws. w # ws) (shell_read Bare None s))
      else if c = quote_char then shell_read Single (grow wd []) s
      else if c = CHR 0x22 then shell_read Double (grow wd []) s
      else if shell_safe c then shell_read Bare (grow wd [c]) s
      else None)"
| "shell_read Single wd (c # s) =
     (if c = quote_char then shell_read Bare wd s else shell_read Single (grow wd [c]) s)"
| "shell_read Double wd (c # s) =
     (if c = CHR 0x22 then shell_read Bare wd s
      else if c \<in> {CHR ''$'', CHR 0x60, CHR 0x5C, CHR ''!''} then None
      else shell_read Double (grow wd [c]) s)"

definition shell_words :: "string \<Rightarrow> string list option" where
  "shell_words s = shell_read Bare None s"

lemma grow_grow [simp]: "grow (grow wd s) t = grow wd (s @ t)"
  and grow_Some: "grow wd [] = Some w \<Longrightarrow> grow wd s = Some (w @ s)"
  by (simp_all add: grow_def split: option.splits)

lemma shell_safe_plain: "shell_safe c \<Longrightarrow> c \<noteq> CHR '' '' \<and> c \<noteq> quote_char \<and> c \<noteq> CHR 0x22"
  by (auto simp: shell_safe_def quote_char_def is_alnum_ascii_def is_lower_az_def is_upper_az_def is_ascii_digit_def)

lemma read_safe:
  "list_all shell_safe s \<Longrightarrow> s \<noteq> [] \<Longrightarrow> shell_read Bare wd (s @ t) = shell_read Bare (grow wd s) t"
proof (induction s arbitrary: wd)
  case (Cons c s)
  then show ?case using shell_safe_plain [of c] by (cases "s = []") simp_all
qed simp

lemma read_escaped:
  "shell_read Single (grow wd w) (escape_quotes s @ quote_char # t) = shell_read Bare (grow wd (w @ s)) t"
proof (induction s arbitrary: w)
  case Nil
  then show ?case by simp
next
  case (Cons c s)
  show ?case
  proof (cases "c = quote_char")
    case True
    have "shell_read Single (grow wd w) (escape_quotes (c # s) @ quote_char # t)
      = shell_read Single (grow wd (w @ [quote_char])) (escape_quotes s @ quote_char # t)"
      using True by (simp add: quote_char_def)
    with Cons True show ?thesis by simp
  next
    case False
    with Cons show ?thesis by simp
  qed
qed

lemma read_quoted: "shell_read Bare wd (shell_quote s @ t) = shell_read Bare (grow wd s) t"
proof -
  have "quote_char \<noteq> CHR '' ''" by (simp add: quote_char_def)
  then show ?thesis
    using read_safe [of s wd t] read_escaped [of wd "[]" s t]
    by (simp add: shell_quote_def)
qed

lemma read_word:
  "list_all shell_safe s \<Longrightarrow> s \<noteq> [] \<Longrightarrow>
     shell_read Bare None (s @ CHR '' '' # t) = map_option (\<lambda>ws. s # ws) (shell_read Bare None t)"
  using read_safe [of s None "CHR '' '' # t"] by (simp add: grow_def)

lemma read_quoted_word:
  "shell_read Bare None (shell_quote s @ CHR '' '' # t) = map_option (\<lambda>ws. s # ws) (shell_read Bare None t)"
  "shell_read Bare None (shell_quote s) = Some [s]"
  using read_quoted [of None s "CHR '' '' # t"] read_quoted [of None s "[]"] by (simp_all add: grow_def)

text \<open>C11. A setting passes through both shells unchanged: the outer one reads the login command with
  one argument, the inner one reads from it exactly the setting's name and its value, whatever quotes,
  blanks or other characters the value has.\<close>
theorem settings_survive_both_shells:
  "\<exists>outer inner. hermes_set_command ckey cval = outer @ '' 2>&1 | tail -3''
     \<and> shell_words outer = Some [''su'', ''-'', ''dev'', ''-c'', inner]
     \<and> shell_words inner = Some [''hermes'', ''config'', ''set'', ckey, cval]"
proof (intro exI conjI)
  let ?inner = "''hermes config set '' @ shell_quote ckey @ '' '' @ shell_quote cval"
  show "hermes_set_command ckey cval = (''su - dev -c '' @ shell_quote ?inner) @ '' 2>&1 | tail -3''"
    by (simp add: hermes_set_command_def)
  show "shell_words (''su - dev -c '' @ shell_quote ?inner) = Some [''su'', ''-'', ''dev'', ''-c'', ?inner]"
    using read_word [of "''su''"] read_word [of "''-''"] read_word [of "''dev''"] read_word [of "''-c''"]
      read_quoted_word(2) [of ?inner]
    by (simp add: shell_words_def shell_safe_def is_alnum_ascii_def is_lower_az_def is_upper_az_def is_ascii_digit_def)
  show "shell_words ?inner = Some [''hermes'', ''config'', ''set'', ckey, cval]"
    using read_word [of "''hermes''"] read_word [of "''config''"] read_word [of "''set''"]
      read_quoted_word(1) [of ckey "shell_quote cval"] read_quoted_word(2) [of cval]
    by (simp add: shell_words_def shell_safe_def is_alnum_ascii_def is_lower_az_def is_upper_az_def is_ascii_digit_def)
qed

section \<open>The operator's credentials\<close>

definition plain_argv :: "arg list \<Rightarrow> bool" where
  "plain_argv argv \<longleftrightarrow> list_all (\<lambda>a. case a of Doc d \<Rightarrow> False | _ \<Rightarrow> True) argv"

definition agent_input :: "string list \<Rightarrow> effect \<Rightarrow> bool" where
  "agent_input keys e = (case e of
       Ran c \<Rightarrow> plain_argv (cm_argv c) \<and>
         (case cm_stdin c of None \<Rightarrow> True
          | Some (Doc (JObj kv)) \<Rightarrow> fst ` set kv \<subseteq> set keys
          | Some (Txt s) \<Rightarrow> (\<exists>m. model_name_ok m
               \<and> s = ''model = '' @ [CHR 0x22] @ m @ [CHR 0x22] @ newline)
          | _ \<Rightarrow> False)
     | _ \<Rightarrow> False)"

lemma keep_keys_subset: "fst ` set (keep_keys keys raw) \<subseteq> set keys"
  by (auto simp: keep_keys_def split: option.splits)

lemma claude_credentials_keys: "claude_credentials w tr = Inr doc \<Longrightarrow> fst ` set doc \<subseteq> set CLAUDE_AUTH_KEYS"
  using keep_keys_subset by (fastforce simp: claude_credentials_def Let_def split: sum.splits json.splits if_splits)

lemma codex_credentials_keys: "codex_credentials w tr = Inr doc \<Longrightarrow> fst ` set doc \<subseteq> set CODEX_AUTH_KEYS"
  using keep_keys_subset by (fastforce simp: codex_credentials_def Let_def split: sum.splits if_splits)

lemma only_ask_bind: "(\<And>tr. only P (g (f tr))) \<Longrightarrow> only P (Monad_Syntax.bind (ask f) g)"
  unfolding only_def by (simp add: ask_def)

lemma plain_shell [simp]: "plain_argv (shell project name)"
  and plain_inside [simp]: "plain_argv (inside project args) = plain_argv args"
  and plain_cons [simp]: "plain_argv []" "plain_argv (Txt s # args) = plain_argv args"
    "plain_argv (Script n ss # args) = plain_argv args"
  by (simp_all add: plain_argv_def shell_def inside_def)

lemma agent_no_input: "plain_argv argv \<Longrightarrow> agent_input keys (Ran \<lparr>cm_argv = argv, cm_stdin = None\<rparr>)"
  by (simp add: agent_input_def)

lemma agent_status:
  "only (agent_input keys) (claude_status w project)" "only (agent_input keys) (codex_status w project)"
  unfolding claude_status_def codex_status_def by (intro only_intro agent_no_input plain_shell)+

definition CLAUDE_INPUT_KEYS :: "string list" where
  "CLAUDE_INPUT_KEYS = [''claudeAiOauth'', ''hasCompletedOnboarding'', ''model'']"


section \<open>The MCP key\<close>

definition reload_command :: command where
  "reload_command = \<lparr>cm_argv = map Txt [''systemd-run'', ''--on-active=3'', ''--unit=mmd-mcp-key-reload'',
     ''--collect'', ''systemctl'', ''restart'', ''mmd-api''], cm_stdin = None\<rparr>"

definition key_written :: "world \<Rightarrow> trace" where
  "key_written w = [Wrote (MCP_KEY_PATH @ ''.new'') (wd_token w @ newline),
     Replaced (MCP_KEY_PATH @ ''.new'') MCP_KEY_PATH]"

text \<open>The answer about the restart is the wrong way round: it is reported as scheduled exactly when
  the command that schedules it failed.\<close>

theorem restart_report_inverted:
  assumes "wd_write_ok w [] MCP_KEY_PATH"
  shows "obj_get ''restart_scheduled'' (fst (run_state (rotate_mcp_key w) []))
     = JBool (case wd_run w (key_written w) reload_command of TimedOut \<Rightarrow> True | Exited rc out err \<Rightarrow> rc \<noteq> 0)"
  using assms
  by (auto simp: rotate_mcp_key_def ask_def perform_def run_def execute_def key_written_def reload_command_def
      obj_get_def split: outcome.splits)

end
