(* ===== verification/Passwords.thy ===== *)
theory Passwords
  imports SshKeys
begin

text \<open>
  \<open>control/mmd/security.py\<close>: the stored form of a password and its check. Bytes are numbers below
  256; scrypt is a parameter, \<open>None\<close> standing for the \<open>ValueError\<close> of bad parameters.
\<close>

type_synonym scrypt = "nat list \<Rightarrow> nat list \<Rightarrow> int \<Rightarrow> int \<Rightarrow> int \<Rightarrow> nat \<Rightarrow> nat list option"

definition SCRYPT_N :: int where "SCRYPT_N = 2 ^ 15"
definition SCRYPT_R :: int where "SCRYPT_R = 8"
definition SCRYPT_P :: int where "SCRYPT_P = 1"
definition SCRYPT_DKLEN :: nat where "SCRYPT_DKLEN = 32"

text \<open>\<open>str.encode()\<close> below 256.\<close>

definition utf8_char :: "char \<Rightarrow> nat list" where
  "utf8_char c = (if code c < 128 then [code c] else [192 + code c div 64, 128 + code c mod 64])"

definition utf8 :: "string \<Rightarrow> nat list" where
  "utf8 s = concat (map utf8_char s)"

text \<open>\<open>bytes.hex\<close> and \<open>bytes.fromhex\<close>, which skips ASCII white space between bytes.\<close>

definition hex_digit :: "nat \<Rightarrow> char" where
  "hex_digit n = ''0123456789abcdef'' ! n"

definition hex :: "nat list \<Rightarrow> string" where
  "hex bs = concat (map (\<lambda>b. [hex_digit (b div 16), hex_digit (b mod 16)]) bs)"

definition hex_val :: "char \<Rightarrow> nat option" where
  "hex_val c = (if is_ascii_digit c then Some (code c - 48)
     else if 97 \<le> code c \<and> code c \<le> 102 then Some (code c - 87)
     else if 65 \<le> code c \<and> code c \<le> 70 then Some (code c - 55) else None)"

definition ascii_space :: "char \<Rightarrow> bool" where
  "ascii_space c \<longleftrightarrow> code c \<in> {9, 10, 11, 12, 13, 32}"

fun fromhex :: "string \<Rightarrow> nat list option" where
  "fromhex [] = Some []"
| "fromhex [c] = (if ascii_space c then Some [] else None)"
| "fromhex (c # d # s) =
     (if ascii_space c then fromhex (d # s)
      else case (hex_val c, hex_val d) of
        (Some a, Some b) \<Rightarrow> map_option (\<lambda>bs. (16 * a + b) # bs) (fromhex s)
      | _ \<Rightarrow> None)"

fun split_dollar :: "string \<Rightarrow> string list" where
  "split_dollar [] = [[]]"
| "split_dollar (c # s) =
     (if c = CHR ''$'' then [] # split_dollar s
      else case split_dollar s of [] \<Rightarrow> [[c]] | x # xs \<Rightarrow> (c # x) # xs)"

text \<open>\<open>None\<close> is the exception of scrypt itself.\<close>

definition hash_password :: "scrypt \<Rightarrow> nat list \<Rightarrow> string \<Rightarrow> string option" where
  "hash_password kdf salt password =
     map_option (\<lambda>dk. ''scrypt$'' @ show_int SCRYPT_N @ ''$'' @ show_int SCRYPT_R @ ''$'' @ show_int SCRYPT_P
         @ ''$'' @ hex salt @ ''$'' @ hex dk)
       (kdf (utf8 password) salt SCRYPT_N SCRYPT_R SCRYPT_P SCRYPT_DKLEN)"

definition verify_password :: "scrypt \<Rightarrow> string \<Rightarrow> string \<Rightarrow> bool" where
  "verify_password kdf password stored = (case split_dollar stored of
       [scheme, n, r, p, salt_hex, dk_hex] \<Rightarrow>
         (if scheme \<noteq> ''scrypt'' then False
          else case (fromhex salt_hex, py_int n, py_int r, py_int p, fromhex dk_hex) of
            (Some salt, Some n', Some r', Some p', Some want) \<Rightarrow>
              (case kdf (utf8 password) salt n' r' p' (length want) of
                 None \<Rightarrow> False | Some dk \<Rightarrow> hex dk = dk_hex)
          | _ \<Rightarrow> False)
     | _ \<Rightarrow> False)"

section \<open>Lemmas\<close>

definition bytes_ok :: "nat list \<Rightarrow> bool" where
  "bytes_ok bs \<longleftrightarrow> list_all (\<lambda>b. b < 256) bs"

lemma hex_digit_cases:
  assumes "n < 16"
  shows "hex_val (hex_digit n) = Some n" and "\<not> ascii_space (hex_digit n)" and "hex_digit n \<noteq> CHR ''$''"
proof -
  have "list_all (\<lambda>n. hex_val (hex_digit n) = Some n \<and> \<not> ascii_space (hex_digit n)
      \<and> hex_digit n \<noteq> CHR ''$'') [0..<16]"
    by code_simp
  then show "hex_val (hex_digit n) = Some n" "\<not> ascii_space (hex_digit n)" "hex_digit n \<noteq> CHR ''$''"
    using assms by (simp_all add: list_all_iff)
qed

lemma hex_Cons: "hex (b # bs) = hex_digit (b div 16) # hex_digit (b mod 16) # hex bs"
  by (simp add: hex_def)

lemma fromhex_hex: "bytes_ok bs \<Longrightarrow> fromhex (hex bs) = Some bs"
proof (induction bs)
  case Nil
  then show ?case by (simp add: hex_def)
next
  case (Cons b bs)
  then have b: "b div 16 < 16" "b mod 16 < 16" and bs: "bytes_ok bs"
    by (auto simp: bytes_ok_def)
  show ?case
    using Cons.IH [OF bs] hex_digit_cases [OF b(1)] hex_digit_cases [OF b(2)]
    by (simp add: hex_Cons)
qed

lemma hex_inj: "bytes_ok xs \<Longrightarrow> bytes_ok ys \<Longrightarrow> hex xs = hex ys \<Longrightarrow> xs = ys"
  using fromhex_hex by (metis option.inject)

definition no_dollar :: "string \<Rightarrow> bool" where
  "no_dollar s \<longleftrightarrow> CHR ''$'' \<notin> set s"

lemma hex_no_dollar: "bytes_ok bs \<Longrightarrow> no_dollar (hex bs)"
proof (induction bs)
  case Nil
  then show ?case by (simp add: hex_def no_dollar_def)
next
  case (Cons b bs)
  then have "b div 16 < 16" "b mod 16 < 16" "bytes_ok bs" by (auto simp: bytes_ok_def)
  then show ?case
    using Cons.IH hex_digit_cases(3) [of "b div 16"] hex_digit_cases(3) [of "b mod 16"]
    by (auto simp: hex_Cons no_dollar_def)
qed

lemma split_dollar_append: "no_dollar x \<Longrightarrow> split_dollar (x @ CHR ''$'' # s) = x # split_dollar s"
  by (induction x) (auto simp: no_dollar_def)

lemma split_dollar_plain: "no_dollar x \<Longrightarrow> split_dollar x = [x]"
  by (induction x) (auto simp: no_dollar_def)

lemma scrypt_params: "show_int SCRYPT_N = ''32768''" "show_int SCRYPT_R = ''8''" "show_int SCRYPT_P = ''1''"
    "py_int ''32768'' = Some SCRYPT_N" "py_int ''8'' = Some SCRYPT_R" "py_int ''1'' = Some SCRYPT_P"
proof -
  have d: "char_of (49 :: nat) = CHR ''1''" "char_of (50 :: nat) = CHR ''2''" "char_of (51 :: nat) = CHR ''3''"
    "char_of (54 :: nat) = CHR ''6''" "char_of (55 :: nat) = CHR ''7''" "char_of (56 :: nat) = CHR ''8''"
    by code_simp+
  show a: "show_int SCRYPT_N = ''32768''" "show_int SCRYPT_R = ''8''" "show_int SCRYPT_P = ''1''"
    by (simp_all add: SCRYPT_N_def SCRYPT_R_def SCRYPT_P_def show_int_def show_nat.simps digit_char_def d)
  show "py_int ''32768'' = Some SCRYPT_N" "py_int ''8'' = Some SCRYPT_R" "py_int ''1'' = Some SCRYPT_P"
    using py_int_show [of SCRYPT_N] py_int_show [of SCRYPT_R] py_int_show [of SCRYPT_P]
    by (simp_all only: a)
qed

text \<open>A stored password accepts exactly the passwords that scrypt maps to the same key: the fields
  written are read back unchanged, so the right password is always accepted, and another one only if
  scrypt collides.\<close>
lemma password_round_trip:
  assumes "hash_password kdf salt p = Some stored" and "bytes_ok salt"
    and "\<And>pw s. case kdf pw s SCRYPT_N SCRYPT_R SCRYPT_P SCRYPT_DKLEN of None \<Rightarrow> True
           | Some dk \<Rightarrow> bytes_ok dk \<and> length dk = SCRYPT_DKLEN"
  shows "verify_password kdf q stored \<longleftrightarrow>
     kdf (utf8 q) salt SCRYPT_N SCRYPT_R SCRYPT_P SCRYPT_DKLEN
       = kdf (utf8 p) salt SCRYPT_N SCRYPT_R SCRYPT_P SCRYPT_DKLEN"
proof -
  obtain dk where dk: "kdf (utf8 p) salt SCRYPT_N SCRYPT_R SCRYPT_P SCRYPT_DKLEN = Some dk"
    and st: "stored = ''scrypt$'' @ ''32768$8$1$'' @ hex salt @ ''$'' @ hex dk"
    using assms(1) by (auto simp: hash_password_def scrypt_params)
  have ok: "bytes_ok dk" "length dk = SCRYPT_DKLEN" using assms(3) [of "utf8 p" salt] dk by simp_all
  have split: "split_dollar stored = [''scrypt'', ''32768'', ''8'', ''1'', hex salt, hex dk]"
    using split_dollar_append [OF hex_no_dollar [OF assms(2)]] split_dollar_plain [OF hex_no_dollar [OF ok(1)]]
    by (simp add: st)
  have inj: "hex dk' = hex dk \<longleftrightarrow> dk' = dk"
    if "kdf (utf8 q) salt SCRYPT_N SCRYPT_R SCRYPT_P SCRYPT_DKLEN = Some dk'" for dk'
    using that assms(3) [of "utf8 q" salt] hex_inj ok(1) by auto
  show ?thesis
    using split inj dk fromhex_hex [OF assms(2)] fromhex_hex [OF ok(1)] ok(2)
    by (auto simp: verify_password_def scrypt_params split: option.splits)
qed

definition toy_kdf :: scrypt where
  "toy_kdf pw salt n r p len = Some (replicate len (fold (\<lambda>b a. (a * 31 + b) mod 256) (salt @ pw) 7))"

lemma password_round_trip_witness:
  "\<exists>stored. hash_password toy_kdf [1, 200] ''secret'' = Some stored
     \<and> verify_password toy_kdf ''secret'' stored"
proof -
  have lt: "fold (\<lambda>b a. (a * 31 + b) mod 256) bs a < 256" if "a < 256" for bs and a :: nat
    using that by (induction bs arbitrary: a) simp_all
  obtain stored where h: "hash_password toy_kdf [1, 200] ''secret'' = Some stored"
    by (simp add: hash_password_def toy_kdf_def)
  have k: "case toy_kdf pw s SCRYPT_N SCRYPT_R SCRYPT_P SCRYPT_DKLEN of None \<Rightarrow> True
           | Some dk \<Rightarrow> bytes_ok dk \<and> length dk = SCRYPT_DKLEN" for pw s
    using lt by (simp add: toy_kdf_def bytes_ok_def list_all_iff)
  have "bytes_ok [1, 200]" by (simp add: bytes_ok_def)
  from password_round_trip [OF h this k, of "''secret''"] h show ?thesis by blast
qed

end
