(* ===== verification/SmsCodes.thy ===== *)
theory SmsCodes
  imports Models
begin

text \<open>
  \<open>control/mmd/smscode.py\<close>: one-time codes by phone and purpose. The keyed hash is a
  parameter \<open>mac\<close> (HMAC-SHA256 under the session secret), the random draw of a code an
  argument, and the database's clock is the caller's \<open>now\<close>.
\<close>

section \<open>The operations\<close>

definition CODE_DIGITS :: nat where "CODE_DIGITS = 5"
definition TTL_SECONDS :: int where "TTL_SECONDS = 180"
definition MAX_CODE_ATTEMPTS :: int where "MAX_CODE_ATTEMPTS = 5"
definition MAX_PER_HOUR :: nat where "MAX_PER_HOUR = 5"
definition RESEND_SECONDS :: int where "RESEND_SECONDS = 60"

datatype code_error = CodeRate | CodeWait | CodeMissing | CodeExpired | CodeAttempts | CodeWrong

definition code_hash :: "(string \<Rightarrow> string) \<Rightarrow> string \<Rightarrow> string \<Rightarrow> string \<Rightarrow> string" where
  "code_hash mac phone purpose cd = mac (purpose @ '':'' @ phone @ '':'' @ cd)"

text \<open>\<open>generate\<close>: a draw below ten thousand times ten, padded with zeros to five digits.\<close>

definition generate_code :: "nat \<Rightarrow> string" where
  "generate_code draw = (let s = show_nat (draw mod 10 ^ CODE_DIGITS)
     in replicate (CODE_DIGITS - length s) CHR ''0'' @ s)"

definition codes_of :: "db \<Rightarrow> string \<Rightarrow> string \<Rightarrow> sms_code list" where
  "codes_of d phone purpose =
     filter (\<lambda>r. sc_phone r = phone \<and> sc_purpose r = purpose) (sms_codes d)"

text \<open>The first row by \<open>created_at\<close> descending.\<close>

fun newest_from :: "sms_code \<Rightarrow> sms_code list \<Rightarrow> sms_code" where
  "newest_from r [] = r"
| "newest_from r (x # xs) = newest_from (if sc_created_at x > sc_created_at r then x else r) xs"

definition newest :: "sms_code list \<Rightarrow> sms_code option" where
  "newest rs = (case rs of [] \<Rightarrow> None | r # xs \<Rightarrow> Some (newest_from r xs))"

definition throttle :: "db \<Rightarrow> string \<Rightarrow> string \<Rightarrow> time \<Rightarrow> (code_error, unit) result" where
  "throttle d phone purpose now =
     (let recent = filter (\<lambda>r. sc_created_at r \<ge> now - hour) (codes_of d phone purpose) in
      if length recent \<ge> MAX_PER_HOUR then raise CodeRate
      else case newest recent of
        None \<Rightarrow> return ()
      | Some r \<Rightarrow> if now - sc_created_at r < RESEND_SECONDS * second then raise CodeWait
                  else return ())"

definition set_code :: "int \<Rightarrow> (sms_code \<Rightarrow> sms_code) \<Rightarrow> db \<Rightarrow> db" where
  "set_code i f d = d\<lparr>sms_codes := map_rows (\<lambda>r. sc_id r = i) f (sms_codes d)\<rparr>"

definition issue ::
  "(string \<Rightarrow> string) \<Rightarrow> string \<Rightarrow> string \<Rightarrow> time \<Rightarrow> nat \<Rightarrow> session \<Rightarrow>
   (code_error, string) result \<times> session" where
  "issue mac phone purpose now draw s =
     (case throttle (cur s) phone purpose now of
        Inl e \<Rightarrow> (raise e, s)
      | Inr _ \<Rightarrow>
          let s1 = edit (\<lambda>d. d\<lparr>sms_codes := map_rows
                (\<lambda>r. sc_phone r = phone \<and> sc_purpose r = purpose \<and> sc_consumed_at r = None)
                (\<lambda>r. r\<lparr>sc_consumed_at := Some now\<rparr>) (sms_codes d)\<rparr>) (next_id s);
              cd = generate_code draw;
              row = \<lparr>sc_id = seq s1, sc_phone = phone, sc_purpose = purpose,
                     sc_code_hash = code_hash mac phone purpose cd,
                     sc_expires_at = now + TTL_SECONDS * second, sc_attempts = 0,
                     sc_consumed_at = None, sc_created_at = now\<rparr>
          in (return cd, edit (\<lambda>d. d\<lparr>sms_codes := sms_codes d @ [row]\<rparr>) s1))"

definition verify ::
  "(string \<Rightarrow> string) \<Rightarrow> string \<Rightarrow> string \<Rightarrow> string \<Rightarrow> time \<Rightarrow> session \<Rightarrow>
   (code_error, unit) result \<times> session" where
  "verify mac phone purpose cd now s =
     (case newest (filter (\<lambda>r. sc_consumed_at r = None) (codes_of (cur s) phone purpose)) of
        None \<Rightarrow> (raise CodeMissing, s)
      | Some row \<Rightarrow>
          if sc_expires_at row \<le> now then (raise CodeExpired, s)
          else if sc_attempts row \<ge> MAX_CODE_ATTEMPTS then (raise CodeAttempts, s)
          else if sc_code_hash row \<noteq> code_hash mac phone purpose cd
          then (raise CodeWrong,
                commit (edit (set_code (sc_id row) (\<lambda>r. r\<lparr>sc_attempts := sc_attempts r + 1\<rparr>)) s))
          else (return (),
                commit (edit (set_code (sc_id row) (\<lambda>r. r\<lparr>sc_consumed_at := Some now\<rparr>)) s)))"

section \<open>The integrity of the table\<close>

text \<open>Row identities are unique and already drawn; a phone and purpose have one live code.\<close>

definition codes_ok :: "session \<Rightarrow> bool" where
  "codes_ok s \<longleftrightarrow> distinct (map sc_id (sms_codes (cur s)))
     \<and> list_all (\<lambda>r. sc_id r \<le> seq s) (sms_codes (cur s))
     \<and> (\<forall>phone purpose. length (filter (\<lambda>r. sc_consumed_at r = None)
          (codes_of (cur s) phone purpose)) \<le> 1)"

lemma newest_single: "length rs \<le> 1 \<Longrightarrow> newest rs = Some r \<longleftrightarrow> rs = [r]"
  by (cases rs) (auto simp: newest_def)

lemma newest_in: "newest rs = Some r \<Longrightarrow> r \<in> set rs"
proof -
  have "newest_from a xs \<in> insert a (set xs)" for a xs
    by (induction xs arbitrary: a) auto
  then show "newest rs = Some r \<Longrightarrow> r \<in> set rs"
    by (auto simp: newest_def split: list.splits)
qed

lemma newest_None [simp]: "newest rs = None \<longleftrightarrow> rs = []"
  by (simp add: newest_def split: list.splits)

text \<open>Updating one row by its identity, seen through the selection of a phone's codes.\<close>

lemma codes_of_set_code:
  assumes "\<And>r. sc_phone (f r) = sc_phone r" "\<And>r. sc_purpose (f r) = sc_purpose r"
  shows "codes_of (set_code i f d) phone purpose
    = map_rows (\<lambda>r. sc_id r = i) f (codes_of d phone purpose)"
proof -
  have "filter (\<lambda>r. sc_phone r = phone \<and> sc_purpose r = purpose) (map_rows (\<lambda>r. sc_id r = i) f rs)
      = map_rows (\<lambda>r. sc_id r = i) f (filter (\<lambda>r. sc_phone r = phone \<and> sc_purpose r = purpose) rs)"
    for rs by (induction rs) (auto simp: assms)
  then show ?thesis by (simp add: codes_of_def set_code_def)
qed

lemma live_map_rows:
  assumes "\<And>r. p r \<Longrightarrow> sc_consumed_at (f r) = None \<Longrightarrow> sc_consumed_at r = None"
  shows "length (filter (\<lambda>r. sc_consumed_at r = None) (map_rows p f rs))
    \<le> length (filter (\<lambda>r. sc_consumed_at r = None) rs)"
  by (induction rs) (auto dest: assms)

lemma codes_ok_set_code:
  assumes "codes_ok s" "\<And>r. sc_id (f r) = sc_id r" "\<And>r. sc_phone (f r) = sc_phone r"
    "\<And>r. sc_purpose (f r) = sc_purpose r" "\<And>r. sc_consumed_at (f r) = None \<Longrightarrow> sc_consumed_at r = None"
  shows "codes_ok (commit (edit (set_code i f) s))"
proof -
  have ids: "map sc_id (map_rows (\<lambda>r. sc_id r = i) f rs) = map sc_id rs" for rs
    by (rule map_map_rows) (rule assms(2))
  have le: "list_all (\<lambda>r. sc_id r \<le> n) rs = list_all (\<lambda>x. x \<le> n) (map sc_id rs)" for n and rs
    by (simp add: list.pred_map comp_def)
  have "length (filter (\<lambda>r. sc_consumed_at r = None) (codes_of (set_code i f (cur s)) ph pu)) \<le> 1"
    for ph pu
  proof -
    have "length (filter (\<lambda>r. sc_consumed_at r = None) (codes_of (set_code i f (cur s)) ph pu))
      \<le> length (filter (\<lambda>r. sc_consumed_at r = None) (codes_of (cur s) ph pu))"
      unfolding codes_of_set_code [OF assms(3,4)] by (rule live_map_rows) (rule assms(5))
    also have "\<dots> \<le> 1" using assms(1) by (simp add: codes_ok_def)
    finally show ?thesis .
  qed
  moreover have "distinct (map sc_id (sms_codes (set_code i f (cur s))))"
    using assms(1) by (simp add: codes_ok_def set_code_def ids)
  moreover have "list_all (\<lambda>r. sc_id r \<le> seq s) (sms_codes (set_code i f (cur s)))"
    using assms(1) unfolding codes_ok_def le by (simp add: set_code_def ids)
  ultimately show ?thesis by (simp add: codes_ok_def)
qed

lemma codes_ok_verify:
  "codes_ok s \<Longrightarrow> codes_ok (snd (verify mac phone purpose cd now s))"
  by (auto simp: verify_def Let_def intro!: codes_ok_set_code split: option.splits)

lemma issue_row:
  assumes "throttle (cur s) phone purpose now = Inr u"
  shows "\<exists>row. sc_id row = seq s + 1 \<and> sc_phone row = phone \<and> sc_purpose row = purpose
    \<and> sc_attempts row = 0 \<and> sc_created_at row = now
    \<and> seq (snd (issue mac phone purpose now draw s)) = seq s + 1
    \<and> sms_codes (cur (snd (issue mac phone purpose now draw s)))
      = map_rows (\<lambda>r. sc_phone r = phone \<and> sc_purpose r = purpose \<and> sc_consumed_at r = None)
          (\<lambda>r. r\<lparr>sc_consumed_at := Some now\<rparr>) (sms_codes (cur s)) @ [row]"
  using assms by (simp add: issue_def Let_def)

lemma codes_ok_issue:
  assumes "codes_ok s"
  shows "codes_ok (snd (issue mac phone purpose now draw s))"
proof (cases "throttle (cur s) phone purpose now")
  case (Inl e)
  with assms show ?thesis by (simp add: issue_def)
next
  case (Inr u)
  let ?p = "\<lambda>r. sc_phone r = phone \<and> sc_purpose r = purpose \<and> sc_consumed_at r = None"
  let ?f = "\<lambda>r. r\<lparr>sc_consumed_at := Some now\<rparr>"
  obtain row where row: "sc_id row = seq s + 1" "sc_phone row = phone" "sc_purpose row = purpose"
    "sms_codes (cur (snd (issue mac phone purpose now draw s)))
      = map_rows ?p ?f (sms_codes (cur s)) @ [row]"
    "seq (snd (issue mac phone purpose now draw s)) = seq s + 1"
    using issue_row [OF Inr] by blast
  have ids: "map sc_id (map_rows ?p ?f rs) = map sc_id rs" for rs by (rule map_map_rows) simp
  have le: "list_all (\<lambda>r. sc_id r \<le> n) rs = list_all (\<lambda>x. x \<le> n) (map sc_id rs)" for n and rs
    by (simp add: list.pred_map comp_def)
  have live: "length (filter (\<lambda>r. sc_consumed_at r = None)
      (filter (\<lambda>r. sc_phone r = ph \<and> sc_purpose r = pu) (map_rows ?p ?f rs)))
    \<le> (if ph = phone \<and> pu = purpose then 0 else length (filter (\<lambda>r. sc_consumed_at r = None)
      (filter (\<lambda>r. sc_phone r = ph \<and> sc_purpose r = pu) rs)))" for ph pu rs
    by (induction rs) auto
  have nid: "seq s + 1 \<notin> sc_id ` set (sms_codes (cur s))"
    using assms by (force simp: codes_ok_def list_all_iff)
  have "distinct (map sc_id (sms_codes (cur (snd (issue mac phone purpose now draw s)))))"
    using assms nid row by (simp add: ids codes_ok_def)
  moreover have "list_all (\<lambda>r. sc_id r \<le> seq s + 1)
      (sms_codes (cur (snd (issue mac phone purpose now draw s))))"
    using assms row(1,4) unfolding codes_ok_def le by (auto simp: ids list_all_iff)
  moreover have "length (filter (\<lambda>r. sc_consumed_at r = None)
      (codes_of (cur (snd (issue mac phone purpose now draw s))) ph pu)) \<le> 1" for ph pu
  proof -
    have old: "length (filter (\<lambda>r. sc_consumed_at r = None) (codes_of (cur s) ph pu)) \<le> 1"
      using assms by (simp add: codes_ok_def)
    have split: "codes_of (cur (snd (issue mac phone purpose now draw s))) ph pu
      = filter (\<lambda>r. sc_phone r = ph \<and> sc_purpose r = pu) (map_rows ?p ?f (sms_codes (cur s)))
        @ (if ph = phone \<and> pu = purpose then [row] else [])"
      using row(2,3) by (auto simp: codes_of_def row(4))
    show ?thesis
    proof (cases "ph = phone \<and> pu = purpose")
      case True
      then show ?thesis using live [of ph pu "sms_codes (cur s)"] unfolding split by simp
    next
      case False
      then have "codes_of (cur (snd (issue mac phone purpose now draw s))) ph pu
        = filter (\<lambda>r. sc_phone r = ph \<and> sc_purpose r = pu) (map_rows ?p ?f (sms_codes (cur s)))"
        unfolding split by auto
      with False show ?thesis
        using live [of ph pu "sms_codes (cur s)"] old [unfolded codes_of_def] by auto
    qed
  qed
  ultimately show ?thesis using row(5) by (simp add: codes_ok_def)
qed

section \<open>Counting guesses\<close>

text \<open>
  A phone and purpose under attack: requests for a code and guesses, with the number of
  guesses that were compared with a stored hash and refused.
\<close>

datatype code_event = Ask time nat | Guess time string

fun event_time :: "code_event \<Rightarrow> time" where
  "event_time (Ask t _) = t"
| "event_time (Guess t _) = t"

fun run_codes ::
  "(string \<Rightarrow> string) \<Rightarrow> string \<Rightarrow> string \<Rightarrow> code_event list \<Rightarrow> nat \<times> session \<Rightarrow> nat \<times> session" where
  "run_codes mac phone purpose [] st = st"
| "run_codes mac phone purpose (Ask t draw # es) (n, s) =
     run_codes mac phone purpose es (n, snd (issue mac phone purpose t draw s))"
| "run_codes mac phone purpose (Guess t cd # es) (n, s) =
     (case verify mac phone purpose cd t s of
        (r, s') \<Rightarrow> run_codes mac phone purpose es (if r = Inl CodeWrong then n + 1 else n, s'))"

definition guess_inv :: "string \<Rightarrow> string \<Rightarrow> time \<Rightarrow> nat \<times> session \<Rightarrow> bool" where
  "guess_inv phone purpose t0 st \<longleftrightarrow>
     (let rs = codes_of (cur (snd st)) phone purpose in
      codes_ok (snd st) \<and> int (fst st) \<le> sum_list (map sc_attempts rs)
      \<and> list_all (\<lambda>r. sc_attempts r \<le> MAX_CODE_ATTEMPTS \<and> t0 \<le> sc_created_at r) rs
      \<and> length rs \<le> MAX_PER_HOUR)"

lemma guess_inv_ask:
  assumes inv: "guess_inv phone purpose t0 (n, s)" and t: "t0 \<le> t" "t \<le> t0 + hour"
  shows "guess_inv phone purpose t0 (n, snd (issue mac phone purpose t draw s))"
proof (cases "throttle (cur s) phone purpose t")
  case (Inl e)
  with inv show ?thesis by (simp add: issue_def)
next
  case (Inr u)
  let ?rs = "codes_of (cur s) phone purpose"
  have "list_all (\<lambda>r. t0 \<le> sc_created_at r) ?rs"
    using inv by (auto simp: guess_inv_def Let_def list_all_iff)
  then have "filter (\<lambda>r. t - hour \<le> sc_created_at r) ?rs = ?rs"
    using t(2) by (auto simp: filter_id_conv list_all_iff)
  then have room: "length ?rs < MAX_PER_HOUR"
    using Inr by (auto simp: throttle_def Let_def split: if_splits)
  let ?p = "\<lambda>r. sc_phone r = phone \<and> sc_purpose r = purpose \<and> sc_consumed_at r = None"
  let ?f = "\<lambda>r. r\<lparr>sc_consumed_at := Some t\<rparr>"
  obtain row where row: "sc_phone row = phone" "sc_purpose row = purpose" "sc_attempts row = 0"
    "sc_created_at row = t" "sms_codes (cur (snd (issue mac phone purpose t draw s)))
      = map_rows ?p ?f (sms_codes (cur s)) @ [row]"
    using issue_row [OF Inr] by blast
  have sel: "filter (\<lambda>r. sc_phone r = phone \<and> sc_purpose r = purpose) (map_rows ?p ?f rs)
      = map_rows ?p ?f (filter (\<lambda>r. sc_phone r = phone \<and> sc_purpose r = purpose) rs)" for rs
    by (induction rs) auto
  have rs: "codes_of (cur (snd (issue mac phone purpose t draw s))) phone purpose
      = map_rows ?p ?f ?rs @ [row]"
    by (simp add: codes_of_def row sel)
  have att: "map sc_attempts (map_rows ?p ?f ?rs) = map sc_attempts ?rs"
    "map sc_created_at (map_rows ?p ?f ?rs) = map sc_created_at ?rs"
    by (rule map_map_rows; simp)+
  have "list_all (\<lambda>r. sc_attempts r \<le> MAX_CODE_ATTEMPTS \<and> t0 \<le> sc_created_at r) (map_rows ?p ?f ?rs)"
    using inv by (auto simp: guess_inv_def Let_def list_all_iff set_map_rows)
  with inv room row t(1) codes_ok_issue [of s mac phone purpose t draw] show ?thesis
    by (simp add: guess_inv_def Let_def rs att MAX_CODE_ATTEMPTS_def)
qed

lemma guess_inv_guess:
  assumes inv: "guess_inv phone purpose t0 (n, s)" and v: "verify mac phone purpose cd t s = (r, s')"
  shows "guess_inv phone purpose t0 (if r = Inl CodeWrong then n + 1 else n, s')"
proof -
  let ?rs = "codes_of (cur s) phone purpose"
  have ok: "codes_ok s" "codes_ok s'"
    using inv codes_ok_verify [of s mac phone purpose cd t] v by (simp_all add: guess_inv_def Let_def)
  show ?thesis
  proof (cases "newest (filter (\<lambda>r. sc_consumed_at r = None) ?rs)")
    case None
    with v inv show ?thesis by (auto simp: verify_def)
  next
    case (Some row)
    from newest_in [OF this] have in_rs: "row \<in> set ?rs" by simp
    have dist: "distinct (map sc_id ?rs)"
      using ok(1) by (simp add: codes_ok_def codes_of_def distinct_map_filter)
    let ?up = "\<lambda>f. map_rows (\<lambda>x. sc_id x = sc_id row) f ?rs"
    let ?wrong = "\<lambda>x. x\<lparr>sc_attempts := sc_attempts x + 1\<rparr>"
    let ?used = "\<lambda>x. x\<lparr>sc_consumed_at := Some t\<rparr>"
    have sums: "sum_list (map sc_attempts (?up ?wrong)) = sum_list (map sc_attempts ?rs) + 1"
      "sum_list (map sc_attempts (?up ?used)) = sum_list (map sc_attempts ?rs)"
      using sum_list_map_rows_unique [OF dist in_rs refl, of sc_attempts ?wrong]
        sum_list_map_rows_unique [OF dist in_rs refl, of sc_attempts ?used] by simp_all
    have same: "x = row" if "x \<in> set ?rs" "sc_id x = sc_id row" for x
      using dist in_rs that by (auto simp: distinct_map inj_on_def)
    consider "s' = s" "r \<noteq> Inl CodeWrong"
      | "sc_attempts row < MAX_CODE_ATTEMPTS" "r = Inl CodeWrong"
        "cur s' = set_code (sc_id row) ?wrong (cur s)"
      | "r \<noteq> Inl CodeWrong" "cur s' = set_code (sc_id row) ?used (cur s)"
      using v Some by (auto simp: verify_def not_le split: if_splits)
    then show ?thesis
    proof cases
      case 1
      with inv show ?thesis by simp
    next
      case 2
      then have rs': "codes_of (cur s') phone purpose = ?up ?wrong"
        by (simp add: codes_of_set_code)
      have "list_all (\<lambda>r. sc_attempts r \<le> MAX_CODE_ATTEMPTS \<and> t0 \<le> sc_created_at r) (?up ?wrong)"
        using inv 2(1) same by (fastforce simp: guess_inv_def Let_def list_all_iff set_map_rows)
      with inv ok sums(1) 2(2) show ?thesis by (simp add: guess_inv_def Let_def rs')
    next
      case 3
      then have rs': "codes_of (cur s') phone purpose = ?up ?used"
        by (simp add: codes_of_set_code)
      have "list_all (\<lambda>r. sc_attempts r \<le> MAX_CODE_ATTEMPTS \<and> t0 \<le> sc_created_at r) (?up ?used)"
        using inv by (fastforce simp: guess_inv_def Let_def list_all_iff set_map_rows)
      with inv ok sums(2) 3(1) show ?thesis by (simp add: guess_inv_def Let_def rs')
    qed
  qed
qed

lemma guess_inv_run:
  assumes "guess_inv phone purpose t0 (n, s)"
    and "\<forall>e \<in> set es. t0 \<le> event_time e \<and> event_time e \<le> t0 + hour"
  shows "guess_inv phone purpose t0 (run_codes mac phone purpose es (n, s))"
  using assms
proof (induction es arbitrary: n s)
  case Nil
  then show ?case by simp
next
  case (Cons e es)
  show ?case
  proof (cases e)
    case (Ask t draw)
    with Cons guess_inv_ask [of phone purpose t0 n s t mac draw] show ?thesis by simp
  next
    case (Guess t cd)
    obtain r s' where v: "verify mac phone purpose cd t s = (r, s')" by fastforce
    from Cons.IH [OF guess_inv_guess [OF Cons.prems(1) v]] Cons.prems(2) Guess v show ?thesis by simp
  qed
qed

lemma sum_list_bound: "list_all (\<lambda>r. f r \<le> (b :: int)) rs \<Longrightarrow> sum_list (map f rs) \<le> b * int (length rs)"
  by (induction rs) (auto simp: algebra_simps)

section \<open>Properties\<close>



text \<open>C21. A code is used once: after it has been accepted, every later attempt for that phone
  and purpose is refused until a new code is issued, whatever text is sent and whenever.\<close>
theorem code_used_once:
  assumes "codes_ok s" and "verify mac phone purpose cd now s = (Inr u, s')"
  shows "verify mac phone purpose cd' later s' = (Inl CodeMissing, s')"
proof -
  let ?live = "\<lambda>r. sc_consumed_at r = None"
  obtain row where row: "newest (filter ?live (codes_of (cur s) phone purpose)) = Some row"
    and s': "cur s' = set_code (sc_id row) (\<lambda>r. r\<lparr>sc_consumed_at := Some now\<rparr>) (cur s)"
    using assms(2) by (auto simp: verify_def split: option.splits if_splits)
  have "length (filter ?live (codes_of (cur s) phone purpose)) \<le> 1"
    using assms(1) by (simp add: codes_ok_def)
  with row have one: "filter ?live (codes_of (cur s) phone purpose) = [row]"
    by (simp add: newest_single)
  have "filter ?live (map_rows (\<lambda>r. sc_id r = sc_id row) (\<lambda>r. r\<lparr>sc_consumed_at := Some now\<rparr>) rs) = []"
    if "set (filter ?live rs) \<subseteq> {row}" for rs
    using that by (induction rs) (auto split: if_splits)
  from this [of "codes_of (cur s) phone purpose"] one
  have "filter ?live (codes_of (cur s') phone purpose) = []"
    unfolding s' by (subst codes_of_set_code) simp_all
  then show ?thesis by (simp add: verify_def newest_def)
qed

definition issued :: session where
  "issued = snd (issue (\<lambda>m. m) ''09120000000'' ''login'' 0 12345 (open_session empty_db 0))"

lemma issued_accepts:
  "fst (verify (\<lambda>m. m) ''09120000000'' ''login'' (generate_code 12345) second issued) = Inr ()"
proof -
  have "throttle empty_db ''09120000000'' ''login'' 0 = Inr ()"
    by (simp add: throttle_def codes_of_def empty_db_def newest_def MAX_PER_HOUR_def)
  then have "sms_codes (cur issued) = [\<lparr>sc_id = 1, sc_phone = ''09120000000'', sc_purpose = ''login'',
      sc_code_hash = code_hash (\<lambda>m. m) ''09120000000'' ''login'' (generate_code 12345),
      sc_expires_at = TTL_SECONDS * second, sc_attempts = 0, sc_consumed_at = None,
      sc_created_at = 0\<rparr>]"
    by (simp add: issued_def issue_def Let_def empty_db_def)
  then show ?thesis
    by (simp add: verify_def codes_of_def newest_def TTL_SECONDS_def second_def MAX_CODE_ATTEMPTS_def)
qed

theorem code_used_once_witness:
  "\<exists>s'. verify (\<lambda>m. m) ''09120000000'' ''login'' (generate_code 12345) second issued = (Inr (), s')
    \<and> verify (\<lambda>m. m) ''09120000000'' ''login'' (generate_code 12345) (2 * second) s'
      = (Inl CodeMissing, s')"
proof -
  have ok: "codes_ok issued"
    unfolding issued_def by (rule codes_ok_issue) (simp add: codes_ok_def codes_of_def empty_db_def)
  obtain s' where v: "verify (\<lambda>m. m) ''09120000000'' ''login'' (generate_code 12345) second issued
      = (Inr (), s')" using issued_accepts by (metis prod.collapse)
  from code_used_once [OF ok v] v show ?thesis by blast
qed

end
