(* ===== verification/Accounts.thy ===== *)
theory Accounts
  imports Host Passwords WorkspaceOps SmsCodes
begin

text \<open>
  The account handlers of \<open>control/mmd/app.py\<close>: sessions, registration, sign-in by password and by
  SMS, recovery, profiles, message preferences and the administrator's decisions. The signed cookie is
  a parameter (itsdangerous); request bodies have passed their declared field constraints. A handler
  returns its answer, the cookie payload it sets, if any, and the session.
\<close>

section \<open>Environment\<close>

text \<open>\<open>en_loads raw now max_age\<close>: the payload and signing time of a cookie that verifies, \<open>None\<close>
  for \<open>BadSignature\<close> and \<open>SignatureExpired\<close>.\<close>

record env =
  en_config :: config
  en_mac :: "string \<Rightarrow> string"
  en_kdf :: scrypt
  en_salt :: "nat list"
  en_endpoint_host :: string
  en_loads :: "string \<Rightarrow> time \<Rightarrow> time \<Rightarrow> (json \<times> time) option"

type_synonym handled = "answer \<times> json option \<times> session"

definition session_payload :: "user \<Rightarrow> json" where
  "session_payload u = JObj [(''user_id'', JInt (u_id u)), (''version'', JInt (u_session_version u))]"

text \<open>The user id and version of a payload; \<open>None\<close> stands for \<open>KeyError\<close>, \<open>TypeError\<close> and \<open>ValueError\<close>.\<close>

definition read_payload :: "json \<Rightarrow> (int \<times> int) option" where
  "read_payload p = (case p of
       JObj kv \<Rightarrow>
         (case map_of kv ''user_id'' of None \<Rightarrow> None
          | Some v \<Rightarrow> (case (to_int v, case map_of kv ''version'' of None \<Rightarrow> Some 0 | Some n \<Rightarrow> to_int n) of
                (Some uid, Some ver) \<Rightarrow> Some (uid, ver) | _ \<Rightarrow> None))
     | v \<Rightarrow> (case to_int v of None \<Rightarrow> None | Some uid \<Rightarrow> Some (uid, 0)))"

definition current_user :: "env \<Rightarrow> string option \<Rightarrow> time \<Rightarrow> session \<Rightarrow> (answer, user) result" where
  "current_user E cookie now s = (case cookie of
       None \<Rightarrow> raise (Failed 401 ''not_signed_in'')
     | Some raw \<Rightarrow>
         if raw = [] then raise (Failed 401 ''not_signed_in'')
         else case en_loads E raw now (cf_session_hours (en_config E) * hour) of
           None \<Rightarrow> raise (Failed 401 ''session_expired'')
         | Some (p, signed_at) \<Rightarrow> (case read_payload p of
               None \<Rightarrow> raise (Failed 401 ''session_expired'')
             | Some (uid, ver) \<Rightarrow> (case get_user (cur s) uid of
                   None \<Rightarrow> raise (Failed 401 ''not_signed_in'')
                 | Some u \<Rightarrow>
                     if u_status u \<in> {URejected, UDeleting} then raise (Failed 401 ''not_signed_in'')
                     else if u_status u = USuspended then raise (Failed 403 ''suspended'')
                     else if ver \<noteq> u_session_version u then raise (Failed 401 ''session_expired'')
                     else return u)))"

definition require_admin :: "user \<Rightarrow> (answer, user) result" where
  "require_admin u = (if u_is_admin u then return u else raise (Failed 403 ''admin_required''))"

fun code_name :: "code_error \<Rightarrow> string" where
  "code_name CodeRate = ''sms_code_rate''"
| "code_name CodeWait = ''sms_code_wait''"
| "code_name CodeMissing = ''sms_code_missing''"
| "code_name CodeExpired = ''sms_code_expired''"
| "code_name CodeAttempts = ''sms_code_attempts''"
| "code_name CodeWrong = ''sms_code_wrong''"

fun username_code :: "username_error \<Rightarrow> string" where
  "username_code UsernameRequired = ''username_required''"
| "username_code UsernameShort = ''username_short''"
| "username_code UsernameLong = ''username_long''"
| "username_code UsernameCharset = ''username_charset''"
| "username_code UsernameReserved = ''username_reserved''"
| "username_code UsernameNumeric = ''username_numeric''"

definition by_username :: "db \<Rightarrow> string \<Rightarrow> user option" where
  "by_username d name = find (\<lambda>u. u_username u = name) (users d)"

definition by_phone :: "db \<Rightarrow> string \<Rightarrow> user option" where
  "by_phone d phone = find (\<lambda>u. u_phone u = Some phone) (users d)"

section \<open>Helpers of the handlers\<close>

definition signup_username :: "env \<Rightarrow> string \<Rightarrow> (username_error, string) result" where
  "signup_username E raw = (case validate raw of
       Inl e \<Rightarrow> raise e
     | Inr name \<Rightarrow>
         let label = lower (hd (split_on (CHR ''.'') (en_endpoint_host E))) in
         if label \<noteq> [] \<and> name = label then raise UsernameReserved else return name)"

text \<open>A message that cannot be queued is skipped: \<open>queue\<close> leaves the session as it was.\<close>

definition notify_admins :: "time \<Rightarrow> string \<Rightarrow> string option \<Rightarrow> session \<Rightarrow> session" where
  "notify_admins now kind key s = commit (fold
     (\<lambda>a t. snd (queue now (Some (u_id a)) (u_phone a) kind
        (map_option (\<lambda>k. k @ '':'' @ show_int (u_id a)) key) (Some a) t))
     (filter (\<lambda>u. u_is_admin u \<and> u_status u = UApproved) (users (cur s))) s)"

definition attempts_since :: "db \<Rightarrow> string \<Rightarrow> time \<Rightarrow> nat" where
  "attempts_since d ident since =
     length (filter (\<lambda>a. la_identifier a = ident \<and> since \<le> la_created_at a) (login_attempts d))"

definition login_throttled :: "env \<Rightarrow> string \<Rightarrow> time \<Rightarrow> session \<Rightarrow> bool" where
  "login_throttled E ident now s \<longleftrightarrow>
     0 < cf_login_max_attempts (en_config E)
     \<and> cf_login_max_attempts (en_config E) \<le>
         int (attempts_since (cur s) ident (now - cf_login_window_minutes (en_config E) * 60 * second))"

definition record_login_failure :: "string \<Rightarrow> time \<Rightarrow> session \<Rightarrow> session" where
  "record_login_failure ident now s = commit (edit (\<lambda>d. d\<lparr>login_attempts := login_attempts d @
     [\<lparr>la_identifier = take 64 ident, la_created_at = now\<rparr>]\<rparr>) s)"

definition clear_login_failures :: "string \<Rightarrow> session \<Rightarrow> session" where
  "clear_login_failures ident s = commit (edit (\<lambda>d. d\<lparr>login_attempts :=
     filter (\<lambda>a. la_identifier a \<noteq> ident) (login_attempts d)\<rparr>) s)"

definition login_refusal :: "user \<Rightarrow> answer option" where
  "login_refusal u =
     (if u_status u \<in> {URejected, UDeleting} then Some (Failed 401 ''bad_credentials'')
      else if u_status u = USuspended then Some (Failed 403 ''suspended'') else None)"

definition notify_new_login :: "user \<Rightarrow> time \<Rightarrow> session \<Rightarrow> session" where
  "notify_new_login u now s =
     (case queue now (Some (u_id u)) (u_phone u) ''new_login''
            (Some (''login:'' @ show_int (u_id u) @ '':'' @ stamp_day now)) None s of
        (Inl _, _) \<Rightarrow> s | (Inr _, s1) \<Rightarrow> commit s1)"

fun status_value :: "user_status \<Rightarrow> string" where
  "status_value UPending = ''pending''"
| "status_value UApproved = ''approved''"
| "status_value URejected = ''rejected''"
| "status_value USuspended = ''suspended''"
| "status_value UDeleting = ''deleting''"

section \<open>Signing up and signing in\<close>

record signup =
  su_password :: string
  su_username :: string
  su_full_name :: string
  su_phone :: string
  su_code :: string

definition new_user :: "int \<Rightarrow> string \<Rightarrow> string \<Rightarrow> signup \<Rightarrow> bool \<Rightarrow> user" where
  "new_user i name hashed b first =
     \<lparr>u_id = i, u_username = name, u_full_name = Some (strip (su_full_name b)), u_phone = Some (su_phone b),
      u_sms_prefs = (\<lambda>_. None), u_sms_credit_step_toman = DEFAULT_CREDIT_STEP_TOMAN, u_sms_credit_band = None,
      u_telegram_bot_token = None, u_telegram_user_id = None, u_password_hash = hashed,
      u_session_version = 0, u_is_admin = first, u_status = (if first then UApproved else UPending),
      u_approved_at = None, u_approved_by = None\<rparr>"

definition store_user :: "user \<Rightarrow> session \<Rightarrow> session" where
  "store_user u s =
     (let s1 = commit (edit (\<lambda>d. d\<lparr>users := users d @ [u]\<rparr>) s) in
      commit (edit (\<lambda>d. d\<lparr>credit_accounts := credit_accounts d @
            [\<lparr>ca_user_id = u_id u, ca_balance_micro = 0\<rparr>],
          or_accounts := (if u_status u = UApproved then or_accounts d @ [fresh_account (u_id u)]
                          else or_accounts d)\<rparr>) s1))"

definition register :: "env \<Rightarrow> signup \<Rightarrow> time \<Rightarrow> session \<Rightarrow> handled" where
  "register E b now s =
     (case signup_username E (su_username b) of
        Inl e \<Rightarrow> (Failed 400 (username_code e), None, s)
      | Inr name \<Rightarrow>
          if by_username (cur s) name \<noteq> None then (Failed 409 ''username_taken'', None, s)
          else if by_phone (cur s) (su_phone b) \<noteq> None then (Failed 409 ''phone_taken'', None, s)
          else case verify (en_mac E) (su_phone b) ''signup'' (su_code b) now s of
            (Inl e, s1) \<Rightarrow> (Failed 400 (code_name e), None, s1)
          | (Inr _, s1) \<Rightarrow>
              let first = (users (cur s1) = []) in
              case hash_password (en_kdf E) (en_salt E) (su_password b) of
                None \<Rightarrow> (Failed 500 ''exception'', None, s1)
              | Some hashed \<Rightarrow>
                  let s2 = next_id s1;
                      u = new_user (seq s2) name hashed b first;
                      s3 = audit (Some (u_id u)) ''register'' (Some name) (store_user u s2);
                      s4 = (if first then s3
                            else notify_admins now ''admin_signup_pending''
                                   (Some (''signup:'' @ show_int (u_id u))) s3)
                  in (Done (if first then ''admin_created'' else ''pending_approval''), None, s4))"

definition code_kind :: "string \<Rightarrow> string" where
  "code_kind purpose = (if purpose = ''login'' then ''login_code''
     else if purpose = ''recovery'' then ''password_reset_code'' else ''verification_code'')"

text \<open>The number \<open>n\<close> is the random draw of the code.\<close>

definition request_code :: "env \<Rightarrow> string \<Rightarrow> string \<Rightarrow> time \<Rightarrow> nat \<Rightarrow> session \<Rightarrow> handled" where
  "request_code E phone purpose now n s =
     (let exists = by_phone (cur s) phone \<noteq> None in
      if purpose \<in> {''signup'', ''profile''} \<and> exists then
        (case throttle (cur s) phone purpose now of
           Inl e \<Rightarrow> (Failed 429 (code_name e), None, s)
         | Inr _ \<Rightarrow> (case queue now None (Some phone) ''already_registered'' None None s of
               (Inl _, _) \<Rightarrow> (Failed 500 ''exception'', None, s)
             | (Inr _, s1) \<Rightarrow> (Done ''ok'', None, commit s1)))
      else case issue (en_mac E) phone purpose now n s of
          (Inl e, _) \<Rightarrow> (Failed 429 (code_name e), None, s)
        | (Inr _, s1) \<Rightarrow>
            if purpose \<in> {''login'', ''recovery''} \<and> \<not> exists then (Done ''ok'', None, commit s1)
            else (case queue now None (Some phone) (code_kind purpose) None None s1 of
                    (Inl _, _) \<Rightarrow> (Failed 500 ''exception'', None, rollback s1)
                  | (Inr _, s2) \<Rightarrow> (Done ''ok'', None, commit s2)))"

definition signed_in :: "string \<Rightarrow> user \<Rightarrow> time \<Rightarrow> session \<Rightarrow> handled" where
  "signed_in action u now s =
     (Done (status_value (u_status u)), Some (session_payload u),
      notify_new_login u now (audit (Some (u_id u)) action (Some (u_username u)) s))"

definition login_sms :: "env \<Rightarrow> string \<Rightarrow> string \<Rightarrow> time \<Rightarrow> session \<Rightarrow> handled" where
  "login_sms E phone cd now s =
     (case verify (en_mac E) phone ''login'' cd now s of
        (Inl e, s1) \<Rightarrow> (Failed 401 (code_name e), None, s1)
      | (Inr _, s1) \<Rightarrow> (case by_phone (cur s1) phone of
            None \<Rightarrow> (Failed 401 ''bad_credentials'', None, s1)
          | Some u \<Rightarrow> (case login_refusal u of Some a \<Rightarrow> (a, None, s1)
              | None \<Rightarrow> signed_in ''sign_in_sms'' u now s1)))"

text \<open>The identifier counts as typed, whether or not it belongs to an account.\<close>

definition identified :: "db \<Rightarrow> string \<Rightarrow> user option" where
  "identified d ident = find (\<lambda>u. u_username u = ident \<or> u_phone u = Some ident) (users d)"

definition login :: "env \<Rightarrow> string \<Rightarrow> string \<Rightarrow> time \<Rightarrow> session \<Rightarrow> handled" where
  "login E raw password now s =
     (let ident = lower (strip raw) in
      if login_throttled E ident now s then (Failed 429 ''too_many_attempts'', None, s)
      else case identified (cur s) ident of
        None \<Rightarrow> (Failed 401 ''bad_credentials'', None, record_login_failure ident now s)
      | Some u \<Rightarrow>
          if \<not> verify_password (en_kdf E) password (u_password_hash u)
          then (Failed 401 ''bad_credentials'', None, record_login_failure ident now s)
          else (case login_refusal u of Some a \<Rightarrow> (a, None, s)
                | None \<Rightarrow> signed_in ''sign_in'' u now (clear_login_failures ident s)))"

section \<open>Passwords and profiles\<close>

text \<open>A new hash and a new session version in one commit, with a message when it can be queued.\<close>

definition replace_password :: "string \<Rightarrow> user \<Rightarrow> time \<Rightarrow> session \<Rightarrow> session" where
  "replace_password hashed u now s =
     (let s1 = edit (set_user (u_id u) (\<lambda>r. r\<lparr>u_password_hash := hashed,
                 u_session_version := u_session_version r + 1\<rparr>)) s
      in commit (case queue now (Some (u_id u)) (u_phone u) ''password_changed'' None None s1 of
                   (Inl _, _) \<Rightarrow> s1 | (Inr _, s2) \<Rightarrow> s2))"

definition reset_password :: "env \<Rightarrow> string \<Rightarrow> string \<Rightarrow> string \<Rightarrow> time \<Rightarrow> session \<Rightarrow> handled" where
  "reset_password E phone cd new_password now s =
     (case verify (en_mac E) phone ''recovery'' cd now s of
        (Inl e, s1) \<Rightarrow> (Failed 401 (code_name e), None, s1)
      | (Inr _, s1) \<Rightarrow> (case by_phone (cur s1) phone of
            None \<Rightarrow> (Failed 401 ''bad_credentials'', None, s1)
          | Some u \<Rightarrow> (case hash_password (en_kdf E) (en_salt E) new_password of
                None \<Rightarrow> (Failed 500 ''exception'', None, s1)
              | Some hashed \<Rightarrow> (Done ''ok'', None,
                  audit (Some (u_id u)) ''password_reset'' (Some (u_username u))
                    (replace_password hashed u now s1)))))"

text \<open>The new cookie carries the version after the change.\<close>

definition payload_of :: "session \<Rightarrow> int \<Rightarrow> json option" where
  "payload_of s i = map_option session_payload (get_user (cur s) i)"

definition change_password :: "env \<Rightarrow> user \<Rightarrow> string \<Rightarrow> string \<Rightarrow> time \<Rightarrow> session \<Rightarrow> handled" where
  "change_password E u current_password new_password now s =
     (if \<not> verify_password (en_kdf E) current_password (u_password_hash u)
      then (Failed 401 ''wrong_password'', None, s)
      else case hash_password (en_kdf E) (en_salt E) new_password of
        None \<Rightarrow> (Failed 500 ''exception'', None, s)
      | Some hashed \<Rightarrow>
          let s1 = replace_password hashed u now s in
          (Done ''ok'', payload_of s1 (u_id u),
           audit (Some (u_id u)) ''password_change'' (Some (u_username u)) s1))"

datatype availability = Available string | Taken string | NotAName username_error

definition username_available :: "env \<Rightarrow> string \<Rightarrow> session \<Rightarrow> availability" where
  "username_available E name s = (case signup_username E name of
       Inl e \<Rightarrow> NotAName e
     | Inr free \<Rightarrow>
         if by_username (cur s) free = None then Available free else Taken free)"

definition phone_in_use :: "db \<Rightarrow> int \<Rightarrow> string \<Rightarrow> bool" where
  "phone_in_use d i phone \<longleftrightarrow> list_ex (\<lambda>u. u_phone u = Some phone \<and> u_id u \<noteq> i) (users d)"

text \<open>\<open>_apply_identity\<close>, with the version raised when the phone changes.\<close>

definition identity_row :: "string \<Rightarrow> string \<Rightarrow> user \<Rightarrow> user" where
  "identity_row full_name phone r =
     r\<lparr>u_full_name := Some (strip full_name), u_phone := Some phone,
       u_session_version := (if u_phone r \<noteq> Some phone then u_session_version r + 1 else u_session_version r)\<rparr>"

definition store_identity :: "string \<Rightarrow> string \<Rightarrow> user \<Rightarrow> session \<Rightarrow> session" where
  "store_identity full_name phone u s = commit (edit (set_user (u_id u) (identity_row full_name phone)) s)"

definition update_profile ::
    "env \<Rightarrow> user \<Rightarrow> string \<Rightarrow> string \<Rightarrow> string \<Rightarrow> string option \<Rightarrow> time \<Rightarrow> session \<Rightarrow> handled" where
  "update_profile E u full_name phone current_password cd now s =
     (if \<not> verify_password (en_kdf E) current_password (u_password_hash u)
      then (Failed 401 ''wrong_password'', None, s)
      else if phone_in_use (cur s) (u_id u) phone then (Failed 409 ''phone_taken'', None, s)
      else
        let changed = (u_phone u \<noteq> Some phone);
            finish = (\<lambda>t. if length (strip full_name) < 2 then (Failed 400 ''full_name_invalid'', None, t)
               else let t1 = store_identity full_name phone u t in
                 (Done ''ok'', if changed then payload_of t1 (u_id u) else None,
                  audit (Some (u_id u)) ''profile_change'' (Some (u_username u)) t1))
        in if \<not> changed then finish s
           else case cd of None \<Rightarrow> (Failed 400 ''phone_verification_required'', None, s)
             | Some c \<Rightarrow> (case verify (en_mac E) phone ''profile'' c now s of
                   (Inl e, s1) \<Rightarrow> (Failed 400 (code_name e), None, s1)
                 | (Inr _, s1) \<Rightarrow> finish s1))"

definition update_telegram_profile ::
    "user \<Rightarrow> bool \<Rightarrow> string option \<Rightarrow> string option \<Rightarrow> session \<Rightarrow> handled" where
  "update_telegram_profile u clear bot_token user_id s =
     (let stored = (\<lambda>tok tid. (Done ''ok'', None,
            audit (Some (u_id u)) ''telegram_profile_change'' (Some (u_username u))
              (commit (edit (set_user (u_id u) (\<lambda>r. r\<lparr>u_telegram_bot_token := tok,
                 u_telegram_user_id := tid\<rparr>)) s))));
          pick = (\<lambda>o1 o2. case o1 of Some (c # t) \<Rightarrow> c # t | _ \<Rightarrow> (case o2 of Some t \<Rightarrow> t | None \<Rightarrow> []));
          token = strip (pick bot_token (u_telegram_bot_token u));
          tid = strip (pick user_id None)
      in if clear then stored None None
         else if \<not> telegram_token_ok token then (Failed 400 ''telegram_bad_token'', None, s)
         else if \<not> telegram_id_ok tid then (Failed 400 ''telegram_bad_users'', None, s)
         else stored (Some token) (Some tid))"

text \<open>The preferences are checked in the order of the request; one that may not be switched off
  refuses them all.\<close>

definition sms_preferences_put ::
    "user \<Rightarrow> (string \<times> bool) list \<Rightarrow> int option \<Rightarrow> session \<Rightarrow> handled" where
  "sms_preferences_put u prefs step s =
     (if list_ex (\<lambda>(k, _). k \<notin> set OPTIONAL_KINDS) prefs then (Failed 400 ''sms_kind_locked'', None, s)
      else
        let s1 = edit (set_user (u_id u) (\<lambda>r. r\<lparr>u_sms_prefs :=
                   fold (\<lambda>(k, v) m. m(k \<mapsto> v)) prefs (u_sms_prefs r)\<rparr>)) s;
            s2 = (case step of None \<Rightarrow> s1
                  | Some n \<Rightarrow> edit (\<lambda>d. set_user (u_id u) (\<lambda>r. r\<lparr>u_sms_credit_step_toman := n,
                        u_sms_credit_band := Some (balance_micro d (u_id u) div (n * MICRO))\<rparr>) d) s1)
        in (Done ''ok'', None, audit (Some (u_id u)) ''sms_preferences'' (Some (u_username u)) (commit s2)))"

section \<open>The administrator\<close>

definition admin_update_profile :: "int \<Rightarrow> int \<Rightarrow> string \<Rightarrow> string \<Rightarrow> session \<Rightarrow> handled" where
  "admin_update_profile admin i full_name phone s = (case get_user (cur s) i of
       None \<Rightarrow> (Failed 404 ''no_such_user'', None, s)
     | Some u \<Rightarrow>
         if phone_in_use (cur s) i phone then (Failed 409 ''phone_taken'', None, s)
         else if length (strip full_name) < 2 then (Failed 400 ''full_name_invalid'', None, s)
         else (Done ''ok'', None, audit (Some admin) ''admin_profile_change'' (Some (u_username u))
                (store_identity full_name phone u s)))"

text \<open>The account at OpenRouter is created when it is missing.\<close>

definition ensure_account :: "int \<Rightarrow> db \<Rightarrow> db" where
  "ensure_account i d = (if list_ex (\<lambda>a. oa_user_id a = i) (or_accounts d) then d
     else d\<lparr>or_accounts := or_accounts d @ [fresh_account i]\<rparr>)"

definition approved_row :: "int \<Rightarrow> time \<Rightarrow> user \<Rightarrow> user" where
  "approved_row admin now r = r\<lparr>u_status := UApproved, u_approved_at := Some now, u_approved_by := Some admin\<rparr>"

definition queue_or_skip :: "time \<Rightarrow> user \<Rightarrow> string \<Rightarrow> string \<Rightarrow> session \<Rightarrow> session" where
  "queue_or_skip now u kind key s =
     (case queue now (Some (u_id u)) (u_phone u) kind (Some key) None s of (Inl _, _) \<Rightarrow> s | (Inr _, s1) \<Rightarrow> s1)"

definition admin_approve :: "int \<Rightarrow> int \<Rightarrow> time \<Rightarrow> session \<Rightarrow> handled" where
  "admin_approve admin i now s = (case get_user (cur s) i of
       None \<Rightarrow> (Failed 404 ''no_such_user'', None, s)
     | Some u \<Rightarrow>
         if u_status u = UApproved then (Done ''approved'', None, commit (edit (ensure_account i) s))
         else
           let s1 = edit (\<lambda>d. ensure_account i (set_user i (approved_row admin now) d)) s;
               s2 = commit (queue_or_skip now u ''approved'' (''approved:'' @ show_int i) s1)
           in (Done ''approved'', None, audit (Some admin) ''approve'' (Some (u_username u)) s2))"

definition admin_reject :: "int \<Rightarrow> int \<Rightarrow> time \<Rightarrow> session \<Rightarrow> handled" where
  "admin_reject admin i now s = (case get_user (cur s) i of
       None \<Rightarrow> (Failed 404 ''no_such_user'', None, s)
     | Some u \<Rightarrow>
         let s1 = edit (set_user i (\<lambda>r. r\<lparr>u_status := URejected,
                    u_session_version := u_session_version r + 1\<rparr>)) s;
             s2 = commit (queue_or_skip now u ''rejected'' (''rejected:'' @ show_int i) s1)
         in (Done ''ok'', None, audit (Some admin) ''reject'' (Some (u_username u)) s2))"

definition admin_set_admin :: "int \<Rightarrow> int \<Rightarrow> bool \<Rightarrow> time \<Rightarrow> session \<Rightarrow> handled" where
  "admin_set_admin admin i flag now s = (case get_user (cur s) i of
       None \<Rightarrow> (Failed 404 ''no_such_user'', None, s)
     | Some u \<Rightarrow>
         if \<not> flag \<and> \<not> list_ex (\<lambda>r. u_is_admin r \<and> u_id r \<noteq> i) (users (cur s))
         then (Failed 409 ''last_admin'', None, s)
         else
           let s1 = edit (set_user i (\<lambda>r. r\<lparr>u_is_admin := flag\<rparr>)) s;
               s2 = (if flag \<and> u_status u \<noteq> UApproved
                     then edit (\<lambda>d. ensure_account i (set_user i (approved_row admin now) d)) s1 else s1)
           in (Done ''ok'', None, audit (Some admin) ''set_admin'' (Some (u_username u)) (commit s2)))"

end
