(* ===== verification/Sessions.thy ===== *)
theory Sessions
  imports Accounts
begin

text \<open>
  What the account handlers guarantee over any history: a cookie that a password change, a recovery, a
  new phone number, a rejection or an erasure has revoked never signs in again, and within the window
  of the throttle only so many wrong passwords are examined for an identifier.
\<close>

section \<open>Frames\<close>

definition same_users :: "session \<Rightarrow> session \<Rightarrow> bool" where
  "same_users s s' \<longleftrightarrow> users (cur s') = users (cur s) \<and> seq s \<le> seq s'"

lemma same_users_refl [simp]: "same_users s s"
  and same_users_trans: "same_users s t \<Longrightarrow> same_users t s' \<Longrightarrow> same_users s s'"
  and same_users_commit [simp]: "same_users s (commit t) = same_users s t"
  and same_users_commit_left [simp]: "same_users (commit s) t = same_users s t"
  and same_users_audit [simp]: "same_users s (audit a b c t) = same_users s t"
  by (simp_all add: same_users_def audit_def)

lemma same_users_edit: "users (f (cur s)) = users (cur s) \<Longrightarrow> same_users s (edit f s)"
  by (simp add: same_users_def)

lemma same_users_queue: "queue now i p k key u s = (r, s') \<Longrightarrow> same_users s s'"
  by (auto simp: queue_def same_users_def Let_def split: if_splits option.splits sum.splits)

lemma same_users_queue_snd: "same_users s (snd (queue now i p k key u s))"
  using same_users_queue by (metis prod.collapse)

lemma same_users_verify: "verify mac p k c now s = (r, s') \<Longrightarrow> same_users s s'"
  by (auto simp: verify_def same_users_def set_code_def split: if_splits option.splits)

lemma same_users_issue: "issue mac p k now n s = (r, s') \<Longrightarrow> same_users s s'"
  by (auto simp: issue_def same_users_def Let_def split: sum.splits)

lemma same_users_fold:
  "(\<And>x t. same_users t (f x t)) \<Longrightarrow> same_users s (fold f xs s)"
  by (induction xs arbitrary: s) (auto intro: same_users_trans)

lemma same_users_notify [simp]: "same_users s (notify_admins now k key s)"
  unfolding notify_admins_def by (simp add: same_users_fold same_users_queue_snd)

lemma same_users_new_login [simp]: "same_users s (notify_new_login u now s)"
  by (auto simp: notify_new_login_def dest: same_users_queue split: prod.splits sum.splits)

lemma same_users_failures [simp]:
  "same_users s (record_login_failure i now s)" "same_users s (clear_login_failures i s)"
  by (simp_all add: record_login_failure_def clear_login_failures_def same_users_def)

lemma same_users_signed_in: "same_users s (snd (snd (signed_in a u now s)))"
  using same_users_trans [OF _ same_users_new_login] by (fastforce simp: signed_in_def)

lemma same_users_skip [simp]: "same_users s (queue_or_skip now u k key s)"
  by (auto simp: queue_or_skip_def dest: same_users_queue split: prod.splits sum.splits)

section \<open>Versions only grow\<close>

definition versions_grow :: "session \<Rightarrow> session \<Rightarrow> bool" where
  "versions_grow s s' \<longleftrightarrow> seq s \<le> seq s' \<and> (\<forall>u' \<in> set (users (cur s')). seq s < u_id u'
     \<or> (\<exists>u \<in> set (users (cur s)). u_id u = u_id u' \<and> u_session_version u \<le> u_session_version u'))"

lemma same_users_grow: "same_users s s' \<Longrightarrow> versions_grow s s'"
  by (auto simp: same_users_def versions_grow_def)

lemma versions_grow_refl [simp]: "versions_grow s s"
  by (auto simp: versions_grow_def)

lemma versions_grow_trans: "versions_grow s t \<Longrightarrow> versions_grow t s' \<Longrightarrow> versions_grow s s'"
proof -
  assume a: "versions_grow s t" and b: "versions_grow t s'"
  have "seq s < u_id u' \<or> (\<exists>u \<in> set (users (cur s)). u_id u = u_id u' \<and> u_session_version u \<le> u_session_version u')"
    if u': "u' \<in> set (users (cur s'))" for u'
  proof (cases "seq t < u_id u'")
    case True
    then show ?thesis using a by (auto simp: versions_grow_def)
  next
    case False
    with b u' obtain v where v: "v \<in> set (users (cur t))" "u_id v = u_id u'" "u_session_version v \<le> u_session_version u'"
      unfolding versions_grow_def by blast
    then have "seq s < u_id v \<or> (\<exists>u \<in> set (users (cur s)). u_id u = u_id v \<and> u_session_version u \<le> u_session_version v)"
      using a unfolding versions_grow_def by blast
    with v show ?thesis using order_trans by fastforce
  qed
  moreover have "seq s \<le> seq s'" using a b by (auto simp: versions_grow_def)
  ultimately show ?thesis unfolding versions_grow_def by blast
qed

lemma versions_grow_commit [simp]: "versions_grow s (commit t) = versions_grow s t"
  and versions_grow_audit [simp]: "versions_grow s (audit a b c t) = versions_grow s t"
  by (simp_all add: versions_grow_def audit_def)

lemma grow_then_same: "versions_grow s t \<Longrightarrow> same_users t s' \<Longrightarrow> versions_grow s s'"
  using versions_grow_trans same_users_grow by blast

lemma same_then_grow: "same_users s t \<Longrightarrow> versions_grow t s' \<Longrightarrow> versions_grow s s'"
  using versions_grow_trans same_users_grow by blast

lemma grow_rows:
  assumes "\<And>r. u_id (f r) = u_id r" and "\<And>r. u_session_version r \<le> u_session_version (f r)"
    and "users (g (cur s)) = map_rows (\<lambda>u. u_id u = i) f (users (cur s))"
  shows "versions_grow s (edit g s)"
  using assms by (auto simp: versions_grow_def map_rows_def)

lemma users_set_user: "users (set_user i f d) = map_rows (\<lambda>u. u_id u = i) f (users d)"
  by (simp add: set_user_def)

lemma users_ensure [simp]: "users (ensure_account i d) = users d"
  by (simp add: ensure_account_def)

lemma grow_replace: "versions_grow s (replace_password h u now s)"
proof -
  have "versions_grow s (edit (set_user (u_id u) (\<lambda>r. r\<lparr>u_password_hash := h,
      u_session_version := u_session_version r + 1\<rparr>)) s)"
    by (rule grow_rows) (simp_all add: users_set_user)
  then show ?thesis
    by (auto simp: replace_password_def Let_def dest: same_users_queue intro: grow_then_same
        split: prod.splits sum.splits)
qed

lemma grow_identity: "versions_grow s (store_identity n p u s)"
  unfolding store_identity_def
  by (simp, rule grow_rows) (simp_all add: users_set_user identity_row_def)

lemma grow_store_user: "versions_grow s (store_user u (next_id s))" if "u_id u = seq s + 1"
  using that by (auto simp: store_user_def versions_grow_def Let_def)

text \<open>What happens to the user rows of the platform; \<open>elsewhere\<close> stands for everything that leaves
  identities and versions alone.\<close>

inductive user_step :: "session \<Rightarrow> session \<Rightarrow> bool" where
  registers: "user_step s (snd (snd (register E b now s)))"
| requests: "clean s \<Longrightarrow> user_step s (snd (snd (request_code E phone purpose now n s)))"
| signs_in_sms: "user_step s (snd (snd (login_sms E phone cd now s)))"
| signs_in: "user_step s (snd (snd (login E raw pw now s)))"
| resets: "user_step s (snd (snd (reset_password E phone cd pw now s)))"
| changes: "user_step s (snd (snd (change_password E u old pw now s)))"
| renames: "user_step s (snd (snd (update_profile E u name phone pw cd now s)))"
| telegram: "user_step s (snd (snd (update_telegram_profile u clear a b s)))"
| prefers: "user_step s (snd (snd (sms_preferences_put u prefs step s)))"
| admin_renames: "user_step s (snd (snd (admin_update_profile admin i name phone s)))"
| approves: "user_step s (snd (snd (admin_approve admin i now s)))"
| rejects: "user_step s (snd (snd (admin_reject admin i now s)))"
| promotes: "user_step s (snd (snd (admin_set_admin admin i flag now s)))"
| deletes: "user_step s (snd (admin_delete_user admin i s))"
| erases: "user_step s (commit (edit (erase_account u wo) s))"
| elsewhere: "map (\<lambda>u. (u_id u, u_session_version u)) (users (cur s'))
      = map (\<lambda>u. (u_id u, u_session_version u)) (users (cur s)) \<Longrightarrow> seq s \<le> seq s' \<Longrightarrow> user_step s s'"

lemma grow_register: "versions_grow s (snd (snd (register E b now s)))"
proof -
  have store: "versions_grow t (store_user (new_user (seq (next_id t)) name h b f) (next_id t))" for t name h f
    by (rule grow_store_user) (simp add: new_user_def)
  have "versions_grow t (audit a1 a2 a3 (store_user (new_user (seq (next_id t)) name h b f) (next_id t)))"
      "versions_grow t (notify_admins now k key
        (audit a1 a2 a3 (store_user (new_user (seq (next_id t)) name h b f) (next_id t))))"
    for t name h f a1 a2 a3 k key
    using store grow_then_same [OF _ same_users_notify] by simp_all
  then show ?thesis
    by (auto simp: register_def Let_def dest!: same_users_verify intro: same_then_grow same_users_grow
        split: sum.splits prod.splits option.splits)
qed

lemma grow_request: "clean s \<Longrightarrow> versions_grow s (snd (snd (request_code E phone purpose now n s)))"
proof -
  assume "clean s"
  have roll: "versions_grow s (rollback t)" if "issue mac p k now n s = (r, t)" for mac p k r t
    using that \<open>clean s\<close>
    by (auto simp: issue_def versions_grow_def clean_def Let_def split: sum.splits)
  obtain r t where i: "issue (en_mac E) phone purpose now n s = (r, t)" by fastforce
  obtain r1 t1 where q1: "queue now None (Some phone) ''already_registered'' None None s = (r1, t1)" by fastforce
  obtain r2 t2 where q2: "queue now None (Some phone) (code_kind purpose) None None t = (r2, t2)" by fastforce
  note g = same_users_grow [OF same_users_issue [OF i]] same_users_grow [OF same_users_queue [OF q1]]
    grow_then_same [OF same_users_grow [OF same_users_issue [OF i]] same_users_queue [OF q2]] roll [OF i]
  show ?thesis
    unfolding request_code_def Let_def i q1
    using g q2 by (simp split: sum.split)
qed

lemma grow_login:
  "versions_grow s (snd (snd (login_sms E phone cd now s)))"
  "versions_grow s (snd (snd (login E raw pw now s)))"
  by (auto simp: login_sms_def login_def Let_def dest!: same_users_verify
      intro: same_users_grow same_then_grow same_users_trans [OF _ same_users_signed_in]
        same_users_trans [OF same_users_failures(2) same_users_signed_in]
      split: sum.splits prod.splits option.splits)

lemma grow_reset: "versions_grow s (snd (snd (reset_password E phone cd pw now s)))"
  by (auto simp: reset_password_def dest!: same_users_verify intro: same_users_grow same_then_grow grow_replace
      split: sum.splits prod.splits option.splits)

lemma grow_change: "versions_grow s (snd (snd (change_password E u old pw now s)))"
  by (auto simp: change_password_def Let_def intro: grow_replace split: option.splits)

lemma grow_update: "versions_grow s (snd (snd (update_profile E u name phone pw cd now s)))"
  by (auto simp: update_profile_def Let_def dest!: same_users_verify intro: same_users_grow same_then_grow
      grow_identity split: sum.splits prod.splits option.splits)

lemma grow_telegram: "versions_grow s (snd (snd (update_telegram_profile u clear a b s)))"
proof -
  have "versions_grow s (edit (set_user (u_id u) (\<lambda>r. r\<lparr>u_telegram_bot_token := x, u_telegram_user_id := y\<rparr>)) s)"
    for x y by (rule grow_rows) (simp_all add: users_set_user)
  then show ?thesis by (simp add: update_telegram_profile_def Let_def)
qed

lemma grow_prefs: "versions_grow s (snd (snd (sms_preferences_put u prefs step s)))"
proof -
  have a: "versions_grow t (edit (set_user i (\<lambda>r. r\<lparr>u_sms_prefs := g r\<rparr>)) t)" for t i g
    by (rule grow_rows) (simp_all add: users_set_user)
  have b: "versions_grow t (edit (\<lambda>d. set_user i (\<lambda>r. r\<lparr>u_sms_credit_step_toman := n,
      u_sms_credit_band := Some (h d)\<rparr>) d) t)" for t i n h
    by (rule grow_rows) (simp_all add: users_set_user)
  show ?thesis
    by (auto simp: sms_preferences_put_def Let_def intro: a versions_grow_trans [OF a b] split: option.splits)
qed

lemma grow_approved:
  "versions_grow s (edit (\<lambda>d. ensure_account i (set_user i (approved_row a now) d)) s)"
  by (rule grow_rows) (simp_all add: users_set_user approved_row_def)

lemma grow_admin:
  "versions_grow s (snd (snd (admin_update_profile admin i name phone s)))"
  "versions_grow s (snd (snd (admin_approve admin i now s)))"
  "versions_grow s (snd (snd (admin_reject admin i now s)))"
  "versions_grow s (snd (snd (admin_set_admin admin i flag now s)))"
proof -
  show "versions_grow s (snd (snd (admin_update_profile admin i name phone s)))"
    by (auto simp: admin_update_profile_def intro: grow_identity split: option.splits)
  have "versions_grow s (edit (ensure_account i) s)"
    by (intro same_users_grow same_users_edit) simp
  then show "versions_grow s (snd (snd (admin_approve admin i now s)))"
    using grow_then_same [OF grow_approved same_users_skip]
    by (auto simp: admin_approve_def Let_def split: option.splits)
  have "versions_grow s (edit (set_user i (\<lambda>r. r\<lparr>u_status := URejected,
      u_session_version := u_session_version r + 1\<rparr>)) s)"
    by (rule grow_rows) (simp_all add: users_set_user)
  from grow_then_same [OF this same_users_skip]
  show "versions_grow s (snd (snd (admin_reject admin i now s)))"
    by (auto simp: admin_reject_def Let_def split: option.splits)
  have a: "versions_grow s (edit (set_user i (\<lambda>r. r\<lparr>u_is_admin := flag\<rparr>)) s)"
    by (rule grow_rows) (simp_all add: users_set_user)
  show "versions_grow s (snd (snd (admin_set_admin admin i flag now s)))"
    using a versions_grow_trans [OF a grow_approved]
    by (auto simp: admin_set_admin_def Let_def split: option.splits)
qed

lemma same_users_create: "create_operation k i w a s = (p, s') \<Longrightarrow> same_users s s'"
  by (auto simp: create_operation_def same_users_def Let_def split: option.splits)

lemma users_update_ws: "same_users s (update_ws i f s)"
  by (simp add: update_ws_def same_users_def set_ws_def)

lemma grow_deleting:
  "versions_grow s (edit (set_user i (\<lambda>u. u\<lparr>u_status := UDeleting, u_session_version := u_session_version u + 1\<rparr>)) s)"
  by (rule grow_rows) (simp_all add: users_set_user)

lemma grow_delete: "versions_grow s (snd (admin_delete_user admin i s))"
  using grow_then_same [OF grow_deleting users_update_ws]
  by (auto simp: admin_delete_user_def Let_def dest!: same_users_create
      intro: grow_then_same [OF grow_deleting] grow_then_same [OF grow_then_same [OF grow_deleting users_update_ws]]
      split: option.splits prod.splits)

lemma users_kept:
  "users (erase_threads i d) = users d" "users (erase_machine wo d) = users d" "users (erase_money i d) = users d"
  "users (erase_phone p d) = users d" "users (drop_workspace j d) = users d"
  unfolding erase_phone_def erase_money_def erase_machine_def erase_threads_def drop_workspace_def
    drop_machine_rows_def Let_def
  by (simp_all split: option.split)

lemma users_erased:
  "users (erase_account u wo d) = filter (\<lambda>v. u_id v \<noteq> u_id u)
     (map_rows (\<lambda>v. u_approved_by v = Some (u_id u)) (\<lambda>v. v\<lparr>u_approved_by := None\<rparr>) (users d))"
  unfolding erase_account_def erase_rows_def Let_def
  by (cases wo) (simp_all add: users_kept erase_traces_def Let_def)

lemma grow_erase: "versions_grow s (edit (erase_account u wo) s)"
  by (auto simp: versions_grow_def users_erased map_rows_def)

lemma grow_elsewhere:
  assumes "map (\<lambda>u. (u_id u, u_session_version u)) (users (cur s'))
      = map (\<lambda>u. (u_id u, u_session_version u)) (users (cur s))" and "seq s \<le> seq s'"
  shows "versions_grow s s'"
proof -
  have "(\<lambda>u. (u_id u, u_session_version u)) ` set (users (cur s')) = (\<lambda>u. (u_id u, u_session_version u)) ` set (users (cur s))"
    using assms(1) by (metis set_map)
  then have "\<exists>u \<in> set (users (cur s)). u_id u = u_id u' \<and> u_session_version u = u_session_version u'"
    if "u' \<in> set (users (cur s'))" for u'
    using that by (metis (mono_tags, lifting) image_eqI image_iff prod.inject)
  with assms(2) show ?thesis unfolding versions_grow_def by fastforce
qed

lemma user_step_grow: "user_step s s' \<Longrightarrow> versions_grow s s'"
proof (induction rule: user_step.induct)
  case (elsewhere s' s)
  then show ?case by (rule grow_elsewhere)
qed (auto intro: grow_register grow_request grow_login grow_reset grow_change grow_update grow_telegram
    grow_prefs grow_admin grow_delete grow_erase)

lemma user_steps_grow: "user_step\<^sup>*\<^sup>* s s' \<Longrightarrow> versions_grow s s'"
  by (induction rule: rtranclp_induct) (auto intro: versions_grow_trans user_step_grow)

section \<open>Revocation\<close>

text \<open>Everyone recorded under the identity has a newer version than before.\<close>

definition outdated :: "int \<Rightarrow> int \<Rightarrow> session \<Rightarrow> bool" where
  "outdated i v s \<longleftrightarrow> (\<forall>u \<in> set (users (cur s)). u_id u = i \<longrightarrow> v < u_session_version u)"

lemma outdated_stays:
  assumes "outdated i v s" and "i \<le> seq s" and "versions_grow s s'"
  shows "outdated i v s'"
  using assms unfolding outdated_def versions_grow_def by (metis leD order_less_le_trans)

lemma outdated_same: "same_users s t \<Longrightarrow> outdated i v t = outdated i v s"
  by (simp add: outdated_def same_users_def)

lemma outdated_commit [simp]: "outdated i v (commit t) = outdated i v t"
  and outdated_audit [simp]: "outdated i v (audit a b c t) = outdated i v t"
  by (simp_all add: outdated_def audit_def)

lemma outdated_raise:
  assumes "\<forall>u \<in> set (users (cur s)). u_id u = i \<longrightarrow> u_session_version u = v"
    and "\<And>r. u_id (f r) = u_id r" and "\<And>r. r \<in> set (users (cur s)) \<Longrightarrow> u_id r = i \<Longrightarrow> u_session_version r < u_session_version (f r)"
  shows "outdated i v (edit (set_user i f) s)"
  using assms by (auto simp: outdated_def users_set_user map_rows_def)

text \<open>The changes that revoke: they end with the answer of success.\<close>

inductive revokes :: "int \<Rightarrow> session \<Rightarrow> session \<Rightarrow> bool" where
  password: "change_password E u old pw now s = (Done a, c, s') \<Longrightarrow> revokes (u_id u) s s'"
| recovery: "reset_password E phone cd pw now s = (Done a, c, s') \<Longrightarrow> by_phone (cur s) phone = Some u
    \<Longrightarrow> revokes (u_id u) s s'"
| phone: "update_profile E u name phone pw cd now s = (Done a, c, s') \<Longrightarrow> get_user (cur s) (u_id u) = Some u
    \<Longrightarrow> u_phone u \<noteq> Some phone \<Longrightarrow> revokes (u_id u) s s'"
| admin_phone: "admin_update_profile admin i name phone s = (Done a, c, s') \<Longrightarrow> get_user (cur s) i = Some u
    \<Longrightarrow> u_phone u \<noteq> Some phone \<Longrightarrow> revokes i s s'"
| rejection: "admin_reject admin i now s = (Done a, c, s') \<Longrightarrow> revokes i s s'"
| erasure: "admin_delete_user admin i s = (Done a, s') \<Longrightarrow> get_user (cur s) i = Some u
    \<Longrightarrow> u_status u \<noteq> UDeleting \<Longrightarrow> revokes i s s'"

lemma one_row: "distinct (map f xs) \<Longrightarrow> a \<in> set xs \<Longrightarrow> b \<in> set xs \<Longrightarrow> f a = f b \<Longrightarrow> a = b"
  by (auto simp: distinct_map inj_on_def)

text \<open>A table with one row per identity, all at the version \<open>v\<close> of the account.\<close>

definition at_version :: "int \<Rightarrow> int \<Rightarrow> session \<Rightarrow> bool" where
  "at_version i v s \<longleftrightarrow> distinct (map u_id (users (cur s)))
     \<and> (\<forall>u \<in> set (users (cur s)). u_id u = i \<longrightarrow> u_session_version u = v)"

lemma at_version_same: "same_users s t \<Longrightarrow> at_version i v t = at_version i v s"
  by (simp add: at_version_def same_users_def)

lemma outdated_replace: "at_version (u_id u) v s \<Longrightarrow> outdated (u_id u) v (replace_password h u now s)"
proof -
  assume a: "at_version (u_id u) v s"
  have "outdated (u_id u) v (edit (set_user (u_id u) (\<lambda>r. r\<lparr>u_password_hash := h,
      u_session_version := u_session_version r + 1\<rparr>)) s)"
    using a by (intro outdated_raise) (auto simp: at_version_def)
  then show ?thesis
    by (auto simp: replace_password_def Let_def outdated_same dest!: same_users_queue split: prod.splits sum.splits)
qed

lemma get_user_row: "get_user d i = Some u \<Longrightarrow> u \<in> set (users d) \<and> u_id u = i"
  by (auto simp: get_user_def find_Some_iff)

lemma outdated_identity:
  assumes "at_version i v s" and "get_user (cur s) i = Some u" and "u_phone u \<noteq> Some phone"
  shows "outdated i v (store_identity name phone u s)"
proof -
  have u: "u \<in> set (users (cur s))" "u_id u = i" using get_user_row [OF assms(2)] by auto
  have "r = u" if "r \<in> set (users (cur s))" "u_id r = i" for r
    using one_row [of u_id "users (cur s)" r u] that u assms(1) unfolding at_version_def by metis
  then have "u_phone r \<noteq> Some phone" if "r \<in> set (users (cur s))" "u_id r = i" for r
    using that assms(3) by blast
  then have "outdated i v (edit (set_user i (identity_row name phone)) s)"
    using assms(1) by (intro outdated_raise) (simp_all add: at_version_def identity_row_def)
  with u show ?thesis by (simp add: store_identity_def)
qed

lemma revokes_outdated: "revokes i s s' \<Longrightarrow> at_version i v s \<Longrightarrow> outdated i v s' \<and> seq s \<le> seq s'"
proof (induction rule: revokes.induct)
  case (password E u old pw now s a c s')
  then show ?case
    using outdated_replace grow_change [of s E u old pw now]
    by (auto simp: change_password_def Let_def versions_grow_def split: if_splits option.splits)
next
  case (recovery E phone cd pw now s a c s' u)
  obtain r t where v: "verify (en_mac E) phone ''recovery'' cd now s = (r, t)" by fastforce
  note t = same_users_verify [OF v]
  then have "by_phone (cur t) phone = Some u" using recovery(2) by (simp add: by_phone_def same_users_def)
  with recovery v have "\<exists>h. s' = audit (Some (u_id u)) ''password_reset'' (Some (u_username u)) (replace_password h u now t)"
    by (auto simp: reset_password_def split: sum.splits option.splits)
  then show ?case
    using outdated_replace recovery at_version_same [OF t] grow_reset [of s E phone cd pw now]
    by (auto simp: versions_grow_def)
next
  case (phone E u name phone pw cd now s a c s')
  obtain cd' where cd: "cd = Some cd'"
    using phone(1,3) by (cases cd) (auto simp: update_profile_def Let_def split: if_splits)
  obtain r t where v: "cd = Some cd'" "verify (en_mac E) phone ''profile'' cd' now s = (r, t)"
    using cd by fastforce
  note t = same_users_verify [OF v(2)]
  then have "get_user (cur t) (u_id u) = Some u" using phone(2) by (simp add: get_user_def same_users_def)
  from outdated_identity [OF _ this phone(3)] phone v at_version_same [OF t] grow_update [of s E u name phone pw cd now]
  show ?case by (auto simp: update_profile_def Let_def versions_grow_def split: if_splits sum.splits)
next
  case (admin_phone admin i name phone s a c s' u)
  then show ?case
    using outdated_identity [OF admin_phone(4,2,3)] grow_admin(1) [of s admin i name phone]
    by (auto simp: admin_update_profile_def versions_grow_def split: if_splits)
next
  case (rejection admin i now s a c s')
  have "outdated i v (edit (set_user i (\<lambda>r. r\<lparr>u_status := URejected,
      u_session_version := u_session_version r + 1\<rparr>)) s)"
    using rejection(2) by (intro outdated_raise) (auto simp: at_version_def)
  then show ?case
    using rejection(1) grow_admin(3) [of s admin i now] outdated_same [OF same_users_skip]
    by (auto simp: admin_reject_def Let_def versions_grow_def split: option.splits)
next
  case (erasure admin i s a s' u)
  have o: "outdated i v (edit (set_user i (\<lambda>u. u\<lparr>u_status := UDeleting,
      u_session_version := u_session_version u + 1\<rparr>)) s)"
    using erasure(4) by (intro outdated_raise) (auto simp: at_version_def)
  then show ?case
    using erasure(1-3) grow_delete [of s admin i] outdated_same [OF users_update_ws] outdated_same [OF same_users_create]
    by (auto simp: admin_delete_user_def Let_def versions_grow_def split: if_splits option.splits prod.splits)
qed

text \<open>The cookie box gives one payload for one cookie, whenever it is asked.\<close>

definition payload_fixed :: "(string \<Rightarrow> time \<Rightarrow> time \<Rightarrow> (json \<times> time) option) \<Rightarrow> bool" where
  "payload_fixed loads \<longleftrightarrow> (\<forall>raw t age p u t' age' p' u'.
     loads raw t age = Some (p, u) \<longrightarrow> loads raw t' age' = Some (p', u') \<longrightarrow> p = p')"

lemma accepted_payload:
  "current_user E (Some raw) now s = Inr u \<Longrightarrow>
     \<exists>p t. en_loads E raw now (cf_session_hours (en_config E) * hour) = Some (p, t)
       \<and> read_payload p = Some (u_id u, u_session_version u) \<and> u \<in> set (users (cur s))"
  by (auto simp: current_user_def dest!: get_user_row split: if_splits option.splits)

text \<open>C15. A revoked session stays out: a cookie that was accepted before a password change, a recovery, a
  new phone number, a rejection or an order to erase is refused after it, through every later sequence
  of registrations, sign-ins, recoveries, profile changes, decisions and erasures.\<close>
theorem revoked_sessions_stay_out:
  assumes "payload_fixed (en_loads E)" and "distinct (map u_id (users (cur s)))"
    and "current_user E (Some raw) t0 s = Inr u" and "u_id u \<le> seq s"
    and "revokes (u_id u) s s1" and "user_step\<^sup>*\<^sup>* s1 s2"
  shows "\<exists>a. current_user E (Some raw) t1 s2 = Inl a"
proof (rule ccontr)
  assume "\<not> ?thesis"
  then obtain u2 where u2: "current_user E (Some raw) t1 s2 = Inr u2"
    by (cases "current_user E (Some raw) t1 s2") auto
  obtain p t p2 t2 where p: "en_loads E raw t0 (cf_session_hours (en_config E) * hour) = Some (p, t)"
      "read_payload p = Some (u_id u, u_session_version u)" "u \<in> set (users (cur s))"
    and p2: "en_loads E raw t1 (cf_session_hours (en_config E) * hour) = Some (p2, t2)"
      "read_payload p2 = Some (u_id u2, u_session_version u2)" "u2 \<in> set (users (cur s2))"
    using accepted_payload [OF assms(3)] accepted_payload [OF u2] by blast
  have same: "u_id u2 = u_id u" "u_session_version u2 = u_session_version u"
    using assms(1) p p2 unfolding payload_fixed_def by (metis option.inject prod.inject)+
  have "at_version (u_id u) (u_session_version u) s"
    using assms(2) p(3) one_row [of u_id "users (cur s)"] by (auto simp: at_version_def)
  from revokes_outdated [OF assms(5) this]
  have "outdated (u_id u) (u_session_version u) s1" "u_id u \<le> seq s1" using assms(4) by auto
  then have "outdated (u_id u) (u_session_version u) s2"
    using user_steps_grow [OF assms(6)] outdated_stays by blast
  with p2(3) same show False by (auto simp: outdated_def)
qed

definition a_member :: user where
  "a_member = new_user 1 ''reza'' ''x'' \<lparr>su_password = ''p'', su_username = ''reza'', su_full_name = ''Reza'',
     su_phone = ''09121234567'', su_code = ''1''\<rparr> True"

definition plain_env :: env where
  "plain_env = \<lparr>en_config = default_config, en_mac = (\<lambda>x. x), en_kdf = toy_kdf, en_salt = [1],
     en_endpoint_host = ''mmd.example'',
     en_loads = (\<lambda>raw now age. if raw = ''c'' then Some (session_payload a_member, 0) else None)\<rparr>"

definition signed_up :: session where
  "signed_up = open_session (empty_db\<lparr>users := [a_member]\<rparr>) 1"

theorem revoked_sessions_stay_out_witness:
  "current_user plain_env (Some ''c'') 0 signed_up = Inr a_member
   \<and> (\<exists>a. current_user plain_env (Some ''c'') 5 (snd (snd (admin_reject 9 1 5 signed_up))) = Inl a)"
proof -
  have pf: "payload_fixed (en_loads plain_env)" by (auto simp: payload_fixed_def plain_env_def split: if_splits)
  have d: "distinct (map u_id (users (cur signed_up)))" "u_id a_member \<le> seq signed_up"
    by (simp_all add: signed_up_def a_member_def new_user_def)
  have ok: "current_user plain_env (Some ''c'') 0 signed_up = Inr a_member"
    by (simp add: current_user_def plain_env_def signed_up_def read_payload_def session_payload_def get_user_def
        a_member_def new_user_def empty_db_def)
  have "get_user (cur signed_up) 1 \<noteq> None" by (simp add: signed_up_def get_user_def a_member_def new_user_def empty_db_def)
  then have "\<exists>a c. admin_reject 9 1 5 signed_up = (Done a, c, snd (snd (admin_reject 9 1 5 signed_up)))"
    by (auto simp: admin_reject_def Let_def split: option.splits)
  then have r: "revokes (u_id a_member) signed_up (snd (snd (admin_reject 9 1 5 signed_up)))"
    using revokes.rejection by (fastforce simp: a_member_def new_user_def)
  from revoked_sessions_stay_out [OF pf d(1) ok d(2) r rtranclp.rtrancl_refl] ok show ?thesis by blast
qed

section \<open>Guessing a password\<close>

text \<open>The times of the failures recorded for an identifier.\<close>

definition failures :: "string \<Rightarrow> session \<Rightarrow> time list" where
  "failures ident s = map la_created_at (filter (\<lambda>a. la_identifier a = ident) (login_attempts (cur s)))"

definition in_window :: "time \<Rightarrow> time \<Rightarrow> time list \<Rightarrow> nat" where
  "in_window lo hi ts = length (filter (\<lambda>t. lo \<le> t \<and> t \<le> hi) ts)"

definition login_window :: "env \<Rightarrow> time" where
  "login_window E = cf_login_window_minutes (en_config E) * 60 * second"

definition wrong_guess :: "env \<Rightarrow> string \<Rightarrow> string \<Rightarrow> time \<Rightarrow> session \<Rightarrow> bool" where
  "wrong_guess E raw pw now s \<longleftrightarrow> \<not> login_throttled E (lower (strip raw)) now s
     \<and> (case identified (cur s) (lower (strip raw)) of None \<Rightarrow> True
        | Some u \<Rightarrow> \<not> verify_password (en_kdf E) pw (u_password_hash u))"

text \<open>A sequence of attempts: the times at which a wrong password was examined for \<open>ident\<close>, and whether
  one of the attempts on it succeeded.\<close>

fun guesses :: "env \<Rightarrow> string \<Rightarrow> (time \<times> string \<times> string) list \<Rightarrow> session \<Rightarrow> time list \<times> bool" where
  "guesses E ident [] s = ([], False)"
| "guesses E ident ((now, raw, pw) # rest) s =
     (let (a, c, s') = login E raw pw now s; (ts, won) = guesses E ident rest s' in
      if lower (strip raw) = ident
      then (if wrong_guess E raw pw now s then now # ts else ts, won \<or> c \<noteq> None)
      else (ts, won))"

lemma failures_simps [simp]:
  "failures ident (commit s) = failures ident s" "failures ident (audit a b c s) = failures ident s"
  by (simp_all add: failures_def audit_def)

lemma failures_queue: "queue now i p k key u s = (r, s') \<Longrightarrow> failures ident s' = failures ident s"
  by (auto simp: queue_def failures_def Let_def split: if_splits option.splits sum.splits)

lemma failures_new_login [simp]: "failures ident (notify_new_login u now s) = failures ident s"
  by (auto simp: notify_new_login_def dest: failures_queue split: prod.splits sum.splits)

lemma failures_record:
  "length i \<le> 64 \<Longrightarrow> failures ident (record_login_failure i now s) =
     (if i = ident then failures ident s @ [now] else failures ident s)"
  by (auto simp: failures_def record_login_failure_def)

lemma failures_clear: "i \<noteq> ident \<Longrightarrow> failures ident (clear_login_failures i s) = failures ident s"
proof -
  assume "i \<noteq> ident"
  then have "filter (\<lambda>a. la_identifier a \<noteq> i \<and> la_identifier a = ident) xs = filter (\<lambda>a. la_identifier a = ident) xs"
    for xs :: "login_attempt list" by (intro filter_cong) auto
  then show ?thesis by (simp add: failures_def clear_login_failures_def)
qed

lemma attempts_failures: "attempts_since (cur s) ident since = length (filter (\<lambda>t. since \<le> t) (failures ident s))"
  by (simp add: attempts_since_def failures_def filter_map comp_def conj_commute)

lemma login_failures:
  assumes "length raw \<le> 64" and "login E raw pw now s = (a, c, s')"
    and "lower (strip raw) = ident \<longrightarrow> c = None"
  shows "failures ident s' = (if lower (strip raw) = ident \<and> wrong_guess E raw pw now s
           then failures ident s @ [now] else failures ident s)"
proof -
  have "length (strip raw) \<le> length raw"
    by (metis lstrip_length strip_def length_rev rstrip_def order_trans length_dropWhile_le)
  then have len: "length (lower (strip raw)) \<le> 64" using assms(1) by (simp add: lower_def)
  show ?thesis
    using assms(2,3) failures_record [OF len] failures_clear
    by (auto simp: login_def wrong_guess_def Let_def signed_in_def split: if_splits option.splits)
qed

lemma window_snoc:
  assumes "0 < n" and "\<forall>t0. int (in_window t0 (t0 + w) ts) \<le> n"
    and "\<not> n \<le> int (length (filter (\<lambda>t. now - w \<le> t) ts))"
  shows "int (in_window t0 (t0 + w) (ts @ [now])) \<le> n"
proof (cases "t0 \<le> now \<and> now \<le> t0 + w")
  case True
  have "in_window t0 (t0 + w) ts \<le> length (filter (\<lambda>t. now - w \<le> t) ts)"
    unfolding in_window_def using True by (induction ts) auto
  with True assms(3) show ?thesis by (simp add: in_window_def)
next
  case False
  then show ?thesis using assms(2) by (auto simp: in_window_def)
qed

lemma guesses_in_window:
  assumes "0 < cf_login_max_attempts (en_config E)" and "\<forall>(t, raw, pw) \<in> set xs. length raw \<le> 64"
    and "guesses E ident xs s = (ts, False)"
    and "\<forall>t0. int (in_window t0 (t0 + login_window E) (failures ident s)) \<le> cf_login_max_attempts (en_config E)"
  shows "int (in_window t0 (t0 + login_window E) (failures ident s @ ts)) \<le> cf_login_max_attempts (en_config E)"
  using assms(2-)
proof (induction xs arbitrary: s ts)
  case Nil
  then show ?case by simp
next
  case (Cons x xs)
  obtain now raw pw where x: "x = (now, raw, pw)" by (cases x)
  obtain a c s' where l: "login E raw pw now s = (a, c, s')" by (cases "login E raw pw now s")
  obtain ts' won where g: "guesses E ident xs s' = (ts', won)" by fastforce
  let ?hit = "lower (strip raw) = ident \<and> wrong_guess E raw pw now s"
  have won: "\<not> won" and c: "lower (strip raw) = ident \<longrightarrow> c = None"
    and ts: "ts = (if ?hit then now # ts' else ts')"
    using Cons.prems(2) x l g by (auto split: if_splits)
  have f: "failures ident s' = (if ?hit then failures ident s @ [now] else failures ident s)"
    using login_failures [OF _ l c] Cons.prems(1) x by simp
  have inv: "\<forall>t0. int (in_window t0 (t0 + login_window E) (failures ident s')) \<le> cf_login_max_attempts (en_config E)"
  proof (cases ?hit)
    case True
    then have "\<not> cf_login_max_attempts (en_config E) \<le> int (length (filter (\<lambda>t. now - login_window E \<le> t) (failures ident s)))"
      using assms(1) by (auto simp: wrong_guess_def login_throttled_def attempts_failures login_window_def)
    from window_snoc [OF assms(1) Cons.prems(3) this] f True show ?thesis by auto
  next
    case False
    with f Cons.prems(3) show ?thesis by simp
  qed
  have "guesses E ident xs s' = (ts', False)" using g won by simp
  from Cons.IH [OF _ this inv] Cons.prems(1) x f ts show ?case by (cases ?hit) auto
qed

text \<open>C16. Guessing is bounded: whatever attempts are made, at whatever times and on whatever identifiers,
  as long as none on an identifier succeeds, every window of the throttle's length holds at most the
  configured number of wrong passwords examined for it.\<close>
theorem guesses_bounded:
  assumes "0 < cf_login_max_attempts (en_config E)" and "\<forall>(t, raw, pw) \<in> set xs. length raw \<le> 64"
    and "guesses E ident xs s = (ts, False)" and "failures ident s = []"
  shows "int (in_window t0 (t0 + login_window E) ts) \<le> cf_login_max_attempts (en_config E)"
  using guesses_in_window [OF assms(1-3)] assms(1,4) by (simp add: in_window_def)

theorem guesses_bounded_witness:
  "guesses plain_env ''reza'' (replicate 9 (0, ''Reza '', ''guess'')) signed_up = (replicate 8 0, False)
   \<and> int (in_window 0 (login_window plain_env) (replicate 8 0)) \<le> 8"
proof -
  have g: "guesses plain_env ''reza'' (replicate 9 (0, ''Reza '', ''guess'')) signed_up = (replicate 8 0, False)"
    by code_simp
  have "failures ''reza'' signed_up = []" by (simp add: failures_def signed_up_def empty_db_def)
  from guesses_bounded [OF _ _ g this, of 0] g show ?thesis by (simp add: plain_env_def default_config_def)
qed

end
