(* ===== verification/Vhosts.thy ===== *)
theory Vhosts
  imports Usernames HostApps OpenRouterKeys "HOL-Library.AList"
begin

text \<open>
  \<open>host/mmd-vhosts.py\<close>: the root reconciler that publishes customers' names through nginx. A
  pass reads the database for the hosts that should exist, obtains certificates under a weekly
  budget and a growing delay, writes one file per customer, removes the stale ones, tests and
  reloads nginx, and marks in the database which addresses answer. What certbot, nginx, \<open>ss\<close> and
  the clock say are arguments, the clock and certbot by the number of the call. The state keeps,
  beside the files, the configuration nginx has loaded. Messages and certbot's command line are
  not modelled; a failure file that does not hold two numbers keeps the count it starts with.
\<close>

section \<open>Constants\<close>

definition HERMES_PORT :: int where "HERMES_PORT = 9119"
definition VH_OPENCLAW_PORT :: int where "VH_OPENCLAW_PORT = 18789"
definition OPENCODE_PORT :: int where "OPENCODE_PORT = 4096"
definition OPENWEBUI_PORT :: int where "OPENWEBUI_PORT = 3001"
definition VHOST_BACKOFF :: "int list" where "VHOST_BACKOFF = [5 * 60, 30 * 60, 2 * 3600, 12 * 3600]"
definition ISSUE_BUDGET :: int where "ISSUE_BUDGET = 40"
definition PREFIX :: string where "PREFIX = ''mmd-vhost-''"
definition OLD_PREFIX :: string where "OLD_PREFIX = ''mmd-hermes-''"
definition WEBROOT :: string where "WEBROOT = ''/var/www/acme''"
definition PLATFORM_PORTS :: "int list" where
  "PLATFORM_PORTS = [22, 53, 80, 443, 5432, 8000, 8443, 9101]"
definition week :: time where "week = 7 * 86400 * second"

text \<open>\<open>SAFE.match\<close>, whose \<open>$\<close> also matches before a newline at the end.\<close>

definition safe_name :: "string \<Rightarrow> bool" where
  "safe_name u \<longleftrightarrow> valid_chars u \<or> (u \<noteq> [] \<and> code (last u) = 10 \<and> valid_chars (butlast u))"

section \<open>Listeners of other programs\<close>

definition words :: "string \<Rightarrow> string list" where
  "words s = filter (\<lambda>x. x \<noteq> []) (split_when is_space s)"

text \<open>\<open>local.rsplit(":", 1)[1]\<close>; without a colon it is an \<open>IndexError\<close>.\<close>

definition after_colon :: "string \<Rightarrow> string option" where
  "after_colon s = (if CHR '':'' \<in> set s then Some (last (split_on (CHR '':'') s)) else None)"

definition listener :: "string \<Rightarrow> int option" where
  "listener line =
     (if length (words line) < 4 then None
      else case after_colon (words line ! 3) of None \<Rightarrow> None | Some t \<Rightarrow>
        (case py_int t of None \<Rightarrow> None
         | Some port \<Rightarrow> if occurs ''nginx'' line then None else Some port))"

definition foreign_listeners :: "int \<times> string \<Rightarrow> int list" where
  "foreign_listeners r = (if fst r \<noteq> 0 then [] else List.map_filter listener (splitlines (snd r)))"

section \<open>The state of the host\<close>

datatype fail_note = Tally nat time | Broken nat

record edge =
  e_sites :: "(string \<times> string) list"
  e_certs :: "string list"
  e_fails :: "string \<rightharpoonup> fail_note"
  e_log :: "time list option"
  e_reads :: nat
  e_calls :: nat
  e_loaded :: "(string \<times> string) list"

record edge_world =
  ew_domain :: string
  ew_plugin :: bool
  ew_listeners :: "int \<times> string"
  ew_time :: "nat \<Rightarrow> time"
  ew_certbot :: "nat \<Rightarrow> int \<times> bool"
  ew_test :: int
  ew_reload :: int

definition read_clock :: "edge_world \<Rightarrow> edge \<Rightarrow> time \<times> edge" where
  "read_clock ew e = (ew_time ew (e_reads e), e\<lparr>e_reads := e_reads e + 1\<rparr>)"

section \<open>Issuance\<close>

text \<open>\<open>_issue_log\<close>: the last five hundred entries, none when the file cannot be read.\<close>

definition issue_log :: "edge \<Rightarrow> time list" where
  "issue_log e = (case e_log e of None \<Rightarrow> [] | Some ts \<Rightarrow> drop (length ts - 500) ts)"

definition budget_left :: "edge_world \<Rightarrow> edge \<Rightarrow> int \<times> edge" where
  "budget_left ew e = (let (now, e1) = read_clock ew e
     in (ISSUE_BUDGET - int (length (filter (\<lambda>t. now - week \<le> t) (issue_log e1))), e1))"

definition note_issue :: "edge_world \<Rightarrow> edge \<Rightarrow> edge" where
  "note_issue ew e =
     (let (now, e1) = read_clock ew e; (stamp, e2) = read_clock ew e1
      in e2\<lparr>e_log := Some (filter (\<lambda>t. now - week \<le> t) (issue_log e1) @ [stamp])\<rparr>)"

definition backoff_ok :: "edge_world \<Rightarrow> string \<Rightarrow> edge \<Rightarrow> bool \<times> edge" where
  "backoff_ok ew key e =
     (case e_fails e key of
        Some (Tally n since) \<Rightarrow>
          (let (now, e1) = read_clock ew e in (VHOST_BACKOFF ! min n 3 * second \<le> now - since, e1))
      | _ \<Rightarrow> (True, e))"

definition note_failure :: "edge_world \<Rightarrow> string \<Rightarrow> edge \<Rightarrow> edge" where
  "note_failure ew key e =
     (let n = (case e_fails e key of None \<Rightarrow> 0 | Some (Tally n _) \<Rightarrow> n | Some (Broken n) \<Rightarrow> n);
          (now, e1) = read_clock ew e
      in e1\<lparr>e_fails := (e_fails e1)(key \<mapsto> Tally (n + 1) now)\<rparr>)"

definition clear_failure :: "string \<Rightarrow> edge \<Rightarrow> edge" where
  "clear_failure key e = e\<lparr>e_fails := (e_fails e)(key := None)\<rparr>"

text \<open>The next call of certbot: its exit code, and whether the certificate is there afterwards.\<close>

definition run_certbot :: "edge_world \<Rightarrow> string \<Rightarrow> edge \<Rightarrow> int \<times> edge" where
  "run_certbot ew name e =
     (let (rc, made) = ew_certbot ew (e_calls e)
      in (rc, e\<lparr>e_calls := e_calls e + 1, e_certs := (if made then name # e_certs e else e_certs e)\<rparr>))"

text \<open>What follows a check that allows the order: both kinds of certificate end the same way.\<close>

definition order_cert :: "edge_world \<Rightarrow> string \<Rightarrow> edge \<Rightarrow> string option \<times> edge" where
  "order_cert ew name e =
     (let (rc, e1) = run_certbot ew name e; e2 = note_issue ew e1
      in if rc \<noteq> 0 \<or> name \<notin> set (e_certs e2) then (None, note_failure ew name e2)
         else (Some name, clear_failure name e2))"

definition obtain_wildcard :: "edge_world \<Rightarrow> string \<Rightarrow> edge \<Rightarrow> string option \<times> edge" where
  "obtain_wildcard ew username e =
     (let name = ''wildcard-'' @ username in
      if \<not> ew_plugin ew then (None, e)
      else if name \<in> set (e_certs e) then (Some name, e)
      else case backoff_ok ew name e of
        (False, e1) \<Rightarrow> (None, e1)
      | (True, e1) \<Rightarrow> order_cert ew name e1)"

definition obtain_single :: "edge_world \<Rightarrow> string \<Rightarrow> edge \<Rightarrow> string option \<times> edge" where
  "obtain_single ew host e =
     (if host \<in> set (e_certs e) then (Some host, e)
      else case backoff_ok ew host e of
        (False, e1) \<Rightarrow> (None, e1)
      | (True, e1) \<Rightarrow>
          (case budget_left ew e1 of
             (left, e2) \<Rightarrow> if left \<le> 0 then (None, e2) else order_cert ew host e2))"

section \<open>nginx\<close>

definition text_lines :: "string list \<Rightarrow> string" where
  "text_lines ls = concat (map (\<lambda>l. l @ newline) ls)"

definition dquote :: string where "dquote = [CHR 0x22]"

definition proxy_location :: "string \<Rightarrow> int \<Rightarrow> string" where
  "proxy_location ip port = text_lines [
     [],
     ''    location / {'',
     ''        proxy_pass http://'' @ ip @ '':'' @ show_int port @ '';'',
     ''        proxy_http_version 1.1;'',
     ''        proxy_set_header Host $host;'',
     ''        proxy_set_header X-Real-IP $remote_addr;'',
     ''        proxy_set_header X-Forwarded-For $proxy_add_x_forwarded_for;'',
     ''        proxy_set_header X-Forwarded-Proto $scheme;'',
     ''        proxy_set_header Upgrade $http_upgrade;'',
     ''        proxy_set_header Connection '' @ dquote @ ''upgrade'' @ dquote @ '';'',
     ''        proxy_read_timeout 3600s;'',
     ''        proxy_send_timeout 3600s;'',
     ''        proxy_buffering off;'',
     ''        client_max_body_size 0;'',
     ''    }'']"

definition live :: "string \<Rightarrow> string \<times> string" where
  "live name = (''/etc/letsencrypt/live/'' @ name @ ''/fullchain.pem'',
     ''/etc/letsencrypt/live/'' @ name @ ''/privkey.pem'')"

definition server_block :: "string \<Rightarrow> string \<Rightarrow> string \<Rightarrow> int \<Rightarrow> string" where
  "server_block host cert ip port = text_lines [
     [],
     ''server {'',
     ''    listen 80;'',
     ''    server_name '' @ host @ '';'',
     ''    location ^~ /.well-known/acme-challenge/ { root '' @ WEBROOT @ ''; }'',
     ''    location / { return 301 https://'' @ host @ ''$request_uri; }'',
     ''}'',
     [],
     ''server {'',
     ''    listen 443 ssl;'',
     ''    http2 on;'',
     ''    server_name '' @ host @ '';'',
     [],
     ''    ssl_certificate     '' @ fst (live cert) @ '';'',
     ''    ssl_certificate_key '' @ snd (live cert) @ '';'',
     [],
     ''    # Deliberately NO Strict-Transport-Security here. The dashboard's own policy'',
     ''    # is sent without includeSubDomains so that customers' plain-HTTP services on'',
     ''    # published ports keep working; adding one here would re-introduce exactly'',
     ''    # that problem for this name.'',
     [],
     ''    add_header X-Content-Type-Options nosniff always;'',
     ''    add_header Referrer-Policy no-referrer always;'',
     [],
     ''    # The workspace is reachable only from this host: nothing DNATs to it on'',
     ''    # this port and the isolation table drops bridge-to-bridge traffic, so this'',
     ''    # proxy is the only route in.'']
     @ proxy_location ip port @ text_lines [[], ''}'']"

definition application_server_block :: "string \<Rightarrow> string \<Rightarrow> int \<Rightarrow> string" where
  "application_server_block host ip port = text_lines [
     [],
     ''server {'',
     ''    listen '' @ show_int port @ '';'',
     ''    server_name '' @ host @ '';'',
     ''    add_header X-Content-Type-Options nosniff always;'',
     ''    add_header Referrer-Policy no-referrer always;'']
     @ proxy_location ip port @ text_lines [[], ''}'']"

section \<open>The hosts that should exist\<close>

text \<open>A host of a customer: its name, the machine's address and port, and the port nginx listens
  on when it is a published one.\<close>

type_synonym target = "string \<times> string \<times> int \<times> int option"

definition user_name :: "user option \<Rightarrow> string option" where
  "user_name uo = (case uo of None \<Rightarrow> None | Some u \<Rightarrow> if u_username u = [] then None else Some (u_username u))"

definition service_targets :: "string \<Rightarrow> string \<Rightarrow> workspace \<Rightarrow> target list" where
  "service_targets domain u w =
     (let ip = workspace_ip w; h = w_hermes w; oc = w_openclaw w in
      (if h_enabled h \<and> h_installed h \<and> has_text (h_dash_user h) \<and> has_text (h_dash_password h)
       then [(hermes_host u domain, ip, HERMES_PORT, None)] else [])
      @ (if oc_enabled oc \<and> oc_installed oc \<and> has_text (oc_password oc)
         then [(''openclaw.'' @ u @ ''.'' @ domain, ip, VH_OPENCLAW_PORT, None)] else [])
      @ (if wb_enabled (w_opencode w) \<and> wb_installed (w_opencode w)
         then [(opencode_host u domain, ip, OPENCODE_PORT, None)] else [])
      @ (if wb_enabled (w_openwebui w) \<and> wb_installed (w_openwebui w)
         then [(openwebui_host u domain, ip, OPENWEBUI_PORT, None)] else []))"

definition port_targets :: "db \<Rightarrow> string \<Rightarrow> int list \<Rightarrow> string \<Rightarrow> workspace \<Rightarrow> target list" where
  "port_targets d domain busy u w =
     map (\<lambda>p. (application_host u (ep_internal_port p) domain, workspace_ip w, ep_internal_port p,
            Some (ep_internal_port p)))
       (filter (\<lambda>p. ep_workspace_id p = w_id w \<and> ep_kind p = PUser \<and> ep_internal_port p \<notin> set busy)
         (exposed_ports d))"

definition machine_targets :: "db \<Rightarrow> string \<Rightarrow> int list \<Rightarrow> workspace \<Rightarrow> (string \<times> target) list" where
  "machine_targets d domain busy w =
     (case user_name (get_user d (w_user_id w)) of
        None \<Rightarrow> []
      | Some u \<Rightarrow> if \<not> safe_name u then []
                  else map (Pair u) (service_targets domain u w @ port_targets d domain busy u w))"

definition desired :: "db \<Rightarrow> string \<Rightarrow> int list \<Rightarrow> (string \<times> target) list" where
  "desired d domain busy = concat (map (machine_targets d domain busy) (workspaces d))"

section \<open>What the files should hold\<close>

datatype block = Secure string string string int | Application string string int

fun render :: "block \<Rightarrow> string" where
  "render (Secure host cert ip port) = server_block host cert ip port"
| "render (Application host ip port) = application_server_block host ip port"

definition published_name :: "string \<Rightarrow> int \<Rightarrow> string" where
  "published_name host port = host @ '':'' @ show_int port"

text \<open>The blocks of one customer: a certificate for all the names is tried before one per name; a
  name without either is left for a later pass. A public port 0 counts as none.\<close>

fun user_blocks :: "edge_world \<Rightarrow> string \<Rightarrow> target list \<Rightarrow> string option \<Rightarrow> edge
    \<Rightarrow> block list \<times> string list \<times> edge" where
  "user_blocks ew u [] wild e = ([], [], e)"
| "user_blocks ew u ((host, ip, port, pub) # ts) wild e =
     (if pub \<noteq> None \<and> pub \<noteq> Some 0
      then let (bs, ns, e1) = user_blocks ew u ts wild e
           in (Application host ip port # bs, published_name host (the pub) # ns, e1)
      else let (wild1, e1) = (if wild \<noteq> None then (wild, e) else obtain_wildcard ew u e);
               (cert, e2) = (if wild1 \<noteq> None then (wild1, e1) else obtain_single ew host e1)
           in case cert of
                None \<Rightarrow> user_blocks ew u ts wild1 e2
              | Some c \<Rightarrow> let (bs, ns, e3) = user_blocks ew u ts wild1 e2
                          in (Secure host c ip port # bs, host # ns, e3))"

text \<open>\<open>sorted(hosts, key=lambda h: (h[0], h[2]))\<close>, as two stable sorts.\<close>

definition sort_targets :: "target list \<Rightarrow> target list" where
  "sort_targets ts = sort_key fst (sort_key (\<lambda>t. fst (snd (snd t))) ts)"

definition file_header :: string where
  "file_header = ''# Managed by mmd-vhosts. Edits are overwritten.'' @ newline"

definition file_name :: "string \<Rightarrow> string" where
  "file_name u = PREFIX @ u @ ''.conf''"

definition file_text :: "block list \<Rightarrow> string" where
  "file_text bs = file_header @ concat (map render bs)"

fun all_blocks :: "edge_world \<Rightarrow> (string \<times> target) list \<Rightarrow> string list \<Rightarrow> edge
    \<Rightarrow> (string \<times> block list) list \<times> string list \<times> edge" where
  "all_blocks ew wanted [] e = ([], [], e)"
| "all_blocks ew wanted (u # us) e =
     (let (bs, ns, e1) = user_blocks ew u
            (sort_targets (map snd (filter (\<lambda>t. fst t = u) wanted))) None e;
          (rest, ns1, e2) = all_blocks ew wanted us e1
      in ((if bs = [] then rest else (u, bs) # rest), ns @ ns1, e2))"

definition bodies_of :: "(string \<times> block list) list \<Rightarrow> (string \<times> string) list" where
  "bodies_of bs = map (\<lambda>(u, b). (file_name u, file_text b)) bs"

section \<open>Applying and undoing\<close>

type_synonym snapshot = "(string \<times> string option) list"

fun write_all :: "(string \<times> string) list \<Rightarrow> (string \<times> string) list \<times> snapshot
    \<Rightarrow> (string \<times> string) list \<times> snapshot" where
  "write_all [] x = x"
| "write_all ((n, t) # bs) (fs, snap) =
     (if map_of fs n = Some t then write_all bs (fs, snap)
      else write_all bs (AList.update n t fs, snap @ [(n, map_of fs n)]))"

definition remove_file :: "string \<Rightarrow> (string \<times> string) list \<Rightarrow> (string \<times> string) list" where
  "remove_file n fs = filter (\<lambda>f. fst f \<noteq> n) fs"

fun unlink_all :: "string list \<Rightarrow> (string \<times> string) list \<times> snapshot
    \<Rightarrow> (string \<times> string) list \<times> snapshot" where
  "unlink_all [] x = x"
| "unlink_all (n # ns) (fs, snap) = unlink_all ns (remove_file n fs, snap @ [(n, map_of fs n)])"

definition stale_files :: "(string \<times> string) list \<Rightarrow> (string \<times> string) list \<Rightarrow> string list" where
  "stale_files bodies fs =
     filter (\<lambda>n. startswith n PREFIX \<and> n \<notin> set (map fst bodies)) (map fst fs)
     @ filter (\<lambda>n. startswith n OLD_PREFIX) (map fst fs)"

definition apply_bodies :: "(string \<times> string) list \<Rightarrow> (string \<times> string) list
    \<Rightarrow> (string \<times> string) list \<times> snapshot" where
  "apply_bodies bodies fs = unlink_all (stale_files bodies fs) (write_all bodies (fs, []))"

fun undo :: "snapshot \<Rightarrow> (string \<times> string) list \<Rightarrow> (string \<times> string) list" where
  "undo [] fs = fs"
| "undo ((n, None) # snap) fs = undo snap (remove_file n fs)"
| "undo ((n, Some t) # snap) fs = undo snap (AList.update n t fs)"

section \<open>Readiness\<close>

definition named_host :: "(string \<Rightarrow> string \<Rightarrow> string) \<Rightarrow> user option \<Rightarrow> string \<Rightarrow> string" where
  "named_host f uo domain = (case user_name uo of None \<Rightarrow> [] | Some u \<Rightarrow> f u domain)"

definition ready_row :: "db \<Rightarrow> string list \<Rightarrow> string \<Rightarrow> workspace \<Rightarrow> workspace" where
  "ready_row d names domain w =
     (let uo = get_user d (w_user_id w) in
      w\<lparr>w_hermes := (w_hermes w)\<lparr>h_vhost_ready := named_host hermes_host uo domain \<in> set names\<rparr>,
        w_opencode := (w_opencode w)\<lparr>wb_vhost_ready := named_host opencode_host uo domain \<in> set names\<rparr>,
        w_openwebui := (w_openwebui w)\<lparr>wb_vhost_ready := named_host openwebui_host uo domain \<in> set names\<rparr>\<rparr>)"

text \<open>The owner of a port's machine, when it has a name.\<close>

definition port_owner :: "db \<Rightarrow> exposed_port \<Rightarrow> string option" where
  "port_owner d p = (case get_ws d (ep_workspace_id p) of None \<Rightarrow> None
     | Some w \<Rightarrow> user_name (get_user d (w_user_id w)))"

definition ready_port :: "db \<Rightarrow> string list \<Rightarrow> string \<Rightarrow> exposed_port \<Rightarrow> exposed_port" where
  "ready_port d names domain p =
     (case (ep_kind p, port_owner d p) of
        (PUser, Some u) \<Rightarrow> p\<lparr>ep_web_ready := published_name
             (application_host u (ep_internal_port p) domain) (ep_internal_port p) \<in> set names\<rparr>
      | _ \<Rightarrow> p)"

definition mark_readiness :: "string list \<Rightarrow> string \<Rightarrow> session \<Rightarrow> session" where
  "mark_readiness names domain s = commit (edit (\<lambda>d. d\<lparr>
     workspaces := map (ready_row d names domain) (workspaces d),
     exposed_ports := map (ready_port d names domain) (exposed_ports d)\<rparr>) s)"

section \<open>One pass\<close>

text \<open>The hosts are read from the database \<open>d\<close> at the start; the marks are made in the session \<open>s\<close>
  at the end.\<close>

definition planned :: "edge_world \<Rightarrow> db \<Rightarrow> edge \<Rightarrow> (string \<times> block list) list \<times> string list \<times> edge" where
  "planned ew d e =
     (let wanted = desired d (ew_domain ew) (PLATFORM_PORTS @ foreign_listeners (ew_listeners ew))
      in all_blocks ew wanted (sort (remdups (map fst wanted))) e)"

definition vhosts_pass :: "edge_world \<Rightarrow> db \<Rightarrow> edge \<Rightarrow> session \<Rightarrow> int \<times> edge \<times> session" where
  "vhosts_pass ew d e s =
     (let (blocks, names, e1) = planned ew d e;
          (fs, snap) = apply_bodies (bodies_of blocks) (e_sites e1);
          marked = mark_readiness names (ew_domain ew) s
      in if snap = [] then (0, e1, marked)
         else if ew_test ew \<noteq> 0 then (1, e1\<lparr>e_sites := undo snap fs\<rparr>, s)
         else if ew_reload ew \<noteq> 0 then (1, e1\<lparr>e_sites := fs\<rparr>, s)
         else (0, e1\<lparr>e_sites := fs, e_loaded := fs\<rparr>, marked))"

section \<open>Where a block leads\<close>

fun block_host :: "block \<Rightarrow> string" where
  "block_host (Secure h c ip p) = h" | "block_host (Application h ip p) = h"

fun block_ip :: "block \<Rightarrow> string" where
  "block_ip (Secure h c ip p) = ip" | "block_ip (Application h ip p) = ip"

fun block_port :: "block \<Rightarrow> int" where
  "block_port (Secure h c ip p) = p" | "block_port (Application h ip p) = p"

fun block_listen :: "block \<Rightarrow> int" where
  "block_listen (Secure h c ip p) = 443" | "block_listen (Application h ip p) = p"

fun service_port :: "host_kind \<Rightarrow> int" where
  "service_port AppHost = 0"
| "service_port HermesHost = HERMES_PORT"
| "service_port OpenclawHost = VH_OPENCLAW_PORT"
| "service_port OpencodeHost = OPENCODE_PORT"
| "service_port OpenwebuiHost = OPENWEBUI_PORT"

text \<open>A target of a customer leads to a machine of the customer: a service on its fixed port, or a
  port the customer published that the host does not need itself.\<close>

definition owned_target :: "db \<Rightarrow> string \<Rightarrow> int list \<Rightarrow> string \<Rightarrow> target \<Rightarrow> bool" where
  "owned_target d domain busy u t \<longleftrightarrow> (case t of (host, ip, port, pub) \<Rightarrow>
     \<exists>w \<in> set (workspaces d). \<exists>usr. get_user d (w_user_id w) = Some usr \<and> u_username usr = u
       \<and> ip = workspace_ip w
       \<and> (\<exists>k. (dns_label u \<longrightarrow> host = host_of k u domain)
            \<and> (if k = AppHost then pub = Some port \<and> port \<notin> set busy
                 \<and> (\<exists>p \<in> set (exposed_ports d). ep_workspace_id p = w_id w \<and> ep_kind p = PUser
                      \<and> ep_internal_port p = port)
               else pub = None \<and> port = service_port k)))"

lemma owned_targetE:
  assumes "owned_target d domain busy u (host, ip, port, pub)"
  obtains w usr k where "w \<in> set (workspaces d)" "get_user d (w_user_id w) = Some usr"
    "u_username usr = u" "ip = workspace_ip w" "dns_label u \<longrightarrow> host = host_of k u domain"
    "if k = AppHost then pub = Some port \<and> port \<notin> set busy else pub = None \<and> port = service_port k"
proof -
  from assms obtain w usr k where a: "w \<in> set (workspaces d)" "get_user d (w_user_id w) = Some usr"
    "u_username usr = u" "ip = workspace_ip w" "dns_label u \<longrightarrow> host = host_of k u domain"
    and k: "if k = AppHost then pub = Some port \<and> port \<notin> set busy
        \<and> (\<exists>p \<in> set (exposed_ports d). ep_workspace_id p = w_id w \<and> ep_kind p = PUser
             \<and> ep_internal_port p = port)
      else pub = None \<and> port = service_port k"
    unfolding owned_target_def prod.case by blast
  show thesis by (rule that [OF a]) (use k in \<open>auto split: if_splits\<close>)
qed

lemma user_name_Some: "user_name uo = Some u \<longleftrightarrow> (\<exists>usr. uo = Some usr \<and> u_username usr = u \<and> u \<noteq> [])"
  by (auto simp: user_name_def split: option.splits)

lemma openclaw_written_out: "dns_label u \<Longrightarrow> ''openclaw.'' @ u @ ''.'' @ domain = host_of OpenclawHost u domain"
  using host_of_label [of u OpenclawHost domain] by simp

lemma service_targets_owned:
  assumes "t \<in> set (service_targets domain u w)"
  shows "\<exists>k h. t = (h, workspace_ip w, service_port k, None) \<and> k \<noteq> AppHost
    \<and> (dns_label u \<longrightarrow> h = host_of k u domain)"
proof -
  from assms consider
    (hermes) "t = (hermes_host u domain, workspace_ip w, HERMES_PORT, None)"
  | (openclaw) "t = (''openclaw.'' @ u @ ''.'' @ domain, workspace_ip w, VH_OPENCLAW_PORT, None)"
  | (opencode) "t = (opencode_host u domain, workspace_ip w, OPENCODE_PORT, None)"
  | (openwebui) "t = (openwebui_host u domain, workspace_ip w, OPENWEBUI_PORT, None)"
    by (auto simp: service_targets_def Let_def split: if_splits)
  then show ?thesis
  proof cases
    case hermes
    then show ?thesis by (intro exI [of _ HermesHost]) simp
  next
    case openclaw
    then show ?thesis using openclaw_written_out [of u domain]
      by (intro exI [of _ OpenclawHost]) (simp del: host_of.simps)
  next
    case opencode
    then show ?thesis by (intro exI [of _ OpencodeHost]) simp
  next
    case openwebui
    then show ?thesis by (intro exI [of _ OpenwebuiHost]) simp
  qed
qed

lemma desired_owned:
  assumes "(u, t) \<in> set (desired d domain busy)"
  shows "owned_target d domain busy u t"
proof -
  from assms obtain w where w: "w \<in> set (workspaces d)" "(u, t) \<in> set (machine_targets d domain busy w)"
    by (auto simp: desired_def)
  then have named: "user_name (get_user d (w_user_id w)) = Some u"
    and t: "t \<in> set (service_targets domain u w) \<or> t \<in> set (port_targets d domain busy u w)"
    by (auto simp: machine_targets_def split: option.splits if_splits)
  from named obtain usr where usr: "get_user d (w_user_id w) = Some usr" "u_username usr = u"
    by (auto simp: user_name_Some)
  show ?thesis
    using t
  proof
    assume "t \<in> set (service_targets domain u w)"
    then obtain k h where k: "t = (h, workspace_ip w, service_port k, None)" "k \<noteq> AppHost"
      "dns_label u \<longrightarrow> h = host_of k u domain" using service_targets_owned by blast
    then show ?thesis
      using w usr by (auto simp: owned_target_def intro!: bexI [of _ w] exI [of _ k])
  next
    assume "t \<in> set (port_targets d domain busy u w)"
    then obtain p where p: "p \<in> set (exposed_ports d)" "ep_workspace_id p = w_id w" "ep_kind p = PUser"
      "ep_internal_port p \<notin> set busy"
      "t = (application_host u (ep_internal_port p) domain, workspace_ip w, ep_internal_port p,
            Some (ep_internal_port p))"
      by (auto simp: port_targets_def)
    then show ?thesis
      using w usr by (auto simp: owned_target_def application_host_def
          intro!: bexI [of _ w] exI [of _ AppHost] bexI [of _ p])
  qed
qed

text \<open>A block comes from a target of its customer.\<close>

definition made_from :: "block \<Rightarrow> target \<Rightarrow> bool" where
  "made_from b t \<longleftrightarrow> (case t of (host, ip, port, pub) \<Rightarrow>
     block_host b = host \<and> block_ip b = ip \<and> block_port b = port
     \<and> block_listen b = (if pub \<noteq> None \<and> pub \<noteq> Some 0 then port else 443))"

lemma user_blocks_from:
  "user_blocks ew u ts wild e = (bs, ns, e') \<Longrightarrow> b \<in> set bs \<Longrightarrow> \<exists>t \<in> set ts. made_from b t"
proof (induction ew u ts wild e arbitrary: b bs ns e' rule: user_blocks.induct)
  case (2 ew u host ip port pub ts wild e)
  show ?case
  proof (cases "pub \<noteq> None \<and> pub \<noteq> Some 0")
    case True
    obtain bs1 ns1 e1 where r: "user_blocks ew u ts wild e = (bs1, ns1, e1)" by (metis prod_cases3)
    have tail: "\<exists>t \<in> set ts. made_from x t" if "x \<in> set bs1" for x
      using "2.IH"(1) [OF True r that] .
    have "bs = Application host ip port # bs1" using "2.prems"(1) True r by auto
    moreover have "made_from (Application host ip port) (host, ip, port, pub)"
      using True by (simp add: made_from_def)
    ultimately show ?thesis using "2.prems"(2) tail by auto
  next
    case False
    obtain wild1 e1 where w: "(if wild \<noteq> None then (wild, e) else obtain_wildcard ew u e) = (wild1, e1)"
      by fastforce
    obtain cert e2 where c: "(if wild1 \<noteq> None then (wild1, e1) else obtain_single ew host e1) = (cert, e2)"
      by fastforce
    obtain bs1 ns1 e3 where r: "user_blocks ew u ts wild1 e2 = (bs1, ns1, e3)" by (metis prod_cases3)
    have tail: "\<exists>t \<in> set ts. made_from x t" if "x \<in> set bs1" for x
    proof (cases cert)
      case None
      with "2.IH"(2) [OF False w [symmetric] refl c [symmetric] refl None r that] show ?thesis by simp
    next
      case (Some cc)
      with "2.IH"(3) [OF False w [symmetric] refl c [symmetric] refl Some r that] show ?thesis by simp
    qed
    have "bs = bs1 \<or> (\<exists>cc. bs = Secure host cc ip port # bs1)"
      using "2.prems"(1) False w c r by (auto simp: Let_def split: option.splits prod.splits if_splits)
    moreover have "made_from (Secure host cc ip port) (host, ip, port, pub)" for cc
      using False by (auto simp: made_from_def)
    ultimately show ?thesis using "2.prems"(2) tail by (elim disjE exE) (simp_all, blast)
  qed
qed simp

lemma set_sort_targets [simp]: "set (sort_targets ts) = set ts"
  by (simp add: sort_targets_def)

lemma all_blocks_from:
  "all_blocks ew wanted us e = (blocks, ns, e') \<Longrightarrow> (u, bs) \<in> set blocks \<Longrightarrow> b \<in> set bs
     \<Longrightarrow> \<exists>t. (u, t) \<in> set wanted \<and> made_from b t"
proof (induction us arbitrary: e blocks ns e')
  case (Cons v us)
  obtain bs1 ns1 e1 where one: "user_blocks ew v
      (sort_targets (map snd (filter (\<lambda>t. fst t = v) wanted))) None e = (bs1, ns1, e1)"
    by (metis prod_cases3)
  obtain rest ns2 e2 where r: "all_blocks ew wanted us e1 = (rest, ns2, e2)" by (metis prod_cases3)
  have "blocks = (if bs1 = [] then rest else (v, bs1) # rest)"
    using Cons.prems(1) one r by (simp add: Let_def)
  then consider "(u, bs) \<in> set rest" | "u = v" "bs = bs1" using Cons.prems(2) by (auto split: if_splits)
  then show ?case
  proof cases
    case 1
    with Cons.IH [OF r] Cons.prems(3) show ?thesis by blast
  next
    case 2
    with user_blocks_from [OF one] Cons.prems(3) show ?thesis by auto
  qed
qed simp

lemma all_blocks_names:
  "all_blocks ew wanted us e = (blocks, ns, e') \<Longrightarrow> distinct us \<Longrightarrow>
     distinct (map fst blocks) \<and> set (map fst blocks) \<subseteq> set us"
proof (induction us arbitrary: e blocks ns e')
  case (Cons v us)
  obtain bs1 ns1 e1 where one: "user_blocks ew v
      (sort_targets (map snd (filter (\<lambda>t. fst t = v) wanted))) None e = (bs1, ns1, e1)"
    by (metis prod_cases3)
  obtain rest ns2 e2 where r: "all_blocks ew wanted us e1 = (rest, ns2, e2)" by (metis prod_cases3)
  have "blocks = (if bs1 = [] then rest else (v, bs1) # rest)"
    using Cons.prems(1) one r by (simp add: Let_def)
  with Cons.IH [OF r] Cons.prems(2) show ?case by auto
qed simp

lemma planned_owned:
  assumes "planned ew d e = (blocks, ns, e')" and "(u, bs) \<in> set blocks" and "b \<in> set bs"
  shows "\<exists>t. owned_target d (ew_domain ew) (PLATFORM_PORTS @ foreign_listeners (ew_listeners ew)) u t
    \<and> made_from b t"
  using all_blocks_from [OF assms(1) [unfolded planned_def Let_def] assms(2,3)] desired_owned by blast

lemma file_name_eq [simp]: "file_name u = file_name v \<longleftrightarrow> u = v"
  by (simp add: file_name_def)

lemma distinct_bodies:
  assumes "planned ew d e = (blocks, ns, e')"
  shows "distinct (map fst (bodies_of blocks))"
proof -
  have "map fst (bodies_of blocks) = map file_name (map fst blocks)"
    by (simp add: bodies_of_def case_prod_beta comp_def)
  then show ?thesis
    using all_blocks_names [OF assms [unfolded planned_def Let_def]]
    by (simp add: distinct_map inj_on_def)
qed

text \<open>What the certificate of an address decides: the customer and the service.\<close>

lemma owned_machine:
  assumes "owned_target d domain busy u (host, ip, port, pub)"
    and "distinct (map w_user_id (workspaces d))" and "distinct (map u_id (users d))"
    and "distinct (map u_username (users d))"
    and "w \<in> set (workspaces d)" and "get_user d (w_user_id w) = Some usr" and "u_username usr = u"
  shows "ip = workspace_ip w"
proof -
  from assms(1) obtain x v where x: "x \<in> set (workspaces d)" "get_user d (w_user_id x) = Some v"
    "u_username v = u" "ip = workspace_ip x" by (auto simp: owned_target_def)
  have "v \<in> set (users d)" "usr \<in> set (users d)" "u_id v = w_user_id x" "u_id usr = w_user_id w"
    using x(2) assms(6) by (auto simp: get_user_def dest: find_SomeD)
  with x(3) assms(4,7) have "w_user_id x = w_user_id w"
    by (metis distinct_map inj_onD)
  with x(1) assms(2,5) have "x = w" by (metis distinct_map inj_onD)
  with x(4) show ?thesis by simp
qed

text \<open>C23. Names never lead to another customer's machine. When user names are accepted labels and
  unique and a user has one machine, every block the reconciler writes proxies to a machine of the
  customer whose file it is in, never listens on a port of the platform or of another program, and
  two blocks that answer for the same name on the same port lead to the same address and port, in
  whichever files they are.\<close>
theorem names_stay_with_owner:
  assumes "\<forall>v \<in> set (users d). dns_label (u_username v)"
    and "distinct (map u_username (users d))" and "distinct (map u_id (users d))"
    and "distinct (map w_user_id (workspaces d))"
    and "planned ew d e = (blocks, ns, e')"
    and "(u, bs) \<in> set blocks" and "b \<in> set bs" and "(v, cs) \<in> set blocks" and "c \<in> set cs"
  shows "(\<exists>w \<in> set (workspaces d). \<exists>usr. get_user d (w_user_id w) = Some usr \<and> u_username usr = u
      \<and> block_ip b = workspace_ip w)
    \<and> (block_listen b = 443 \<or> block_listen b
         \<notin> set (PLATFORM_PORTS @ foreign_listeners (ew_listeners ew)))
    \<and> (block_host b = block_host c \<and> block_listen b = block_listen c \<longrightarrow>
         u = v \<and> block_ip b = block_ip c \<and> block_port b = block_port c)"
proof -
  let ?busy = "PLATFORM_PORTS @ foreign_listeners (ew_listeners ew)" and ?dom = "ew_domain ew"
  from planned_owned [OF assms(5-7)] obtain hb ib pb qb where
    b: "owned_target d ?dom ?busy u (hb, ib, pb, qb)" "made_from b (hb, ib, pb, qb)"
    by (metis prod_cases4)
  from planned_owned [OF assms(5,8,9)] obtain hc ic pc qc where
    c: "owned_target d ?dom ?busy v (hc, ic, pc, qc)" "made_from c (hc, ic, pc, qc)"
    by (metis prod_cases4)
  from b(1) obtain w usr k where w: "w \<in> set (workspaces d)" "get_user d (w_user_id w) = Some usr"
    "u_username usr = u" "ib = workspace_ip w" and hb: "dns_label u \<longrightarrow> hb = host_of k u ?dom"
    and kb: "if k = AppHost then qb = Some pb \<and> pb \<notin> set ?busy else qb = None \<and> pb = service_port k"
    by (rule owned_targetE)
  from c(1) obtain x vsr j where x: "x \<in> set (workspaces d)" "get_user d (w_user_id x) = Some vsr"
    "u_username vsr = v" and hc: "dns_label v \<longrightarrow> hc = host_of j v ?dom"
    and jc: "if j = AppHost then qc = Some pc \<and> pc \<notin> set ?busy else qc = None \<and> pc = service_port j"
    by (rule owned_targetE)
  have lu: "dns_label u" and lv: "dns_label v"
    using assms(1) w(2,3) x(2,3) by (auto simp: get_user_def dest!: find_SomeD)
  have same: "u = v \<and> block_ip b = block_ip c \<and> block_port b = block_port c"
    if eq: "block_host b = block_host c" "block_listen b = block_listen c"
  proof -
    have "host_of k u ?dom = host_of j v ?dom"
      using eq(1) b(2) c(2) hb hc lu lv by (simp add: made_from_def)
    from hosts_same [OF lu lv this] have uv: "u = v" and kj: "k = j" by auto
    have "ic = workspace_ip w"
      using owned_machine [OF c(1) assms(4,3,2) w(1,2)] w(3) uv by simp
    moreover have "443 \<in> set ?busy" by (simp add: PLATFORM_PORTS_def)
    then have "pb = pc"
      using eq(2) b(2) c(2) kb jc kj by (auto simp: made_from_def split: if_splits)
    ultimately show ?thesis using uv w(4) b(2) c(2) by (simp add: made_from_def)
  qed
  show ?thesis
    using same w b(2) kb by (auto simp: made_from_def split: if_splits)
qed

section \<open>A customer with one published port\<close>

definition host_user :: user where
  "host_user = \<lparr>u_id = 1, u_username = ''ali'', u_full_name = None, u_phone = None,
     u_sms_prefs = (\<lambda>_. None), u_sms_credit_step_toman = 0, u_sms_credit_band = None,
     u_telegram_bot_token = None, u_telegram_user_id = None, u_password_hash = [],
     u_session_version = 0, u_is_admin = False, u_status = UApproved, u_approved_at = None,
     u_approved_by = None\<rparr>"

definition host_port :: exposed_port where
  "host_port = \<lparr>ep_id = 5, ep_workspace_id = 2, ep_internal_port = 3000, ep_external_port = 20001,
     ep_protocol = ''tcp'', ep_kind = PUser, ep_device = [], ep_note = None, ep_web_ready = False\<rparr>"

definition host_db :: db where
  "host_db = empty_db\<lparr>users := [host_user], workspaces := [new_workspace 2 1 3 0],
     exposed_ports := [host_port]\<rparr>"

definition quiet_edge :: edge where
  "quiet_edge = \<lparr>e_sites = [(''default'', ''# site'')], e_certs = [], e_fails = (\<lambda>_. None),
     e_log = None, e_reads = 0, e_calls = 0, e_loaded = [(''default'', ''# site'')]\<rparr>"

definition edge_answers :: "int \<Rightarrow> edge_world" where
  "edge_answers tested = \<lparr>ew_domain = ''mmd.ir'', ew_plugin = False,
     ew_listeners = (0, ''LISTEN 0 128 127.0.0.1:9000 0.0.0.0:* users''), ew_time = (\<lambda>n. int n * hour),
     ew_certbot = (\<lambda>_. (0, True)), ew_test = tested, ew_reload = 0\<rparr>"

definition ali_block :: block where
  "ali_block = Application ''ali.mmd.ir'' ''10.42.0.13'' 3000"

lemma planned_ali:
  "planned (edge_answers c) host_db quiet_edge
     = ([(''ali'', [ali_block])], [''ali.mmd.ir:3000''], quiet_edge)"
proof -
  have "desired host_db ''mmd.ir'' (PLATFORM_PORTS @ foreign_listeners
      (0, ''LISTEN 0 128 127.0.0.1:9000 0.0.0.0:* users''))
    = [(''ali'', ''ali.mmd.ir'', ''10.42.0.13'', 3000, Some 3000)]"
    by code_simp
  moreover have "published_name ''ali.mmd.ir'' 3000 = ''ali.mmd.ir:3000''" by code_simp
  ultimately show ?thesis by (simp add: planned_def edge_answers_def sort_targets_def ali_block_def)
qed

lemma ali_label: "dns_label ''ali''"
  by (simp add: dns_label_def valid_chars_def name_end_def is_lower_az_def RESERVED_def
      is_digit_def is_ascii_digit_def)

theorem names_stay_with_owner_witness:
  "\<exists>w \<in> set (workspaces host_db). block_ip ali_block = workspace_ip w"
proof -
  have u: "\<forall>v \<in> set (users host_db). dns_label (u_username v)"
    "distinct (map u_username (users host_db))" "distinct (map u_id (users host_db))"
    "distinct (map w_user_id (workspaces host_db))"
    by (simp_all add: host_db_def host_user_def ali_label)
  have b: "(''ali'', [ali_block]) \<in> set [(''ali'', [ali_block])]" "ali_block \<in> set [ali_block]" by simp_all
  from names_stay_with_owner [OF u planned_ali [of 0] b b] show ?thesis by blast
qed

end
