(* ===== verification/VhostPasses.thy ===== *)
theory VhostPasses
  imports Vhosts
begin

text \<open>
  What a pass of the virtual-host reconciler leaves behind: the files on disk and the undoing of a
  failed test, the marks in the database against the configuration nginx runs, and the weekly
  budget of certificate orders.
\<close>

section \<open>Files written and restored\<close>

text \<open>A snapshot of \<open>orig\<close> taken on the way to \<open>fs\<close>.\<close>

definition snapshot_of ::
  "(string \<times> string) list \<Rightarrow> (string \<times> string) list \<times> snapshot \<Rightarrow> bool" where
  "snapshot_of orig x \<longleftrightarrow> (case x of (fs, snap) \<Rightarrow> distinct (map fst snap)
     \<and> (\<forall>n. (case map_of snap n of None \<Rightarrow> map_of fs n | Some prev \<Rightarrow> prev) = map_of orig n))"

lemma map_of_update: "map_of (AList.update n t fs) = (map_of fs)(n \<mapsto> t)"
  by (simp add: fun_eq_iff update_conv')

lemma map_of_remove: "map_of (remove_file n fs) = (map_of fs)(n := None)"
  by (induction fs) (auto simp: remove_file_def fun_eq_iff)

lemma map_of_snoc: "n \<notin> set (map fst snap) \<Longrightarrow> map_of (snap @ [(n, v)]) = (map_of snap)(n \<mapsto> v)"
  by (induction snap) (auto simp: fun_eq_iff)

lemma map_of_unsaved: "n \<notin> set (map fst snap) \<Longrightarrow> map_of snap n = None"
  by (simp add: map_of_eq_None_iff)

lemma snapshot_of_add:
  assumes "snapshot_of orig (fs, snap)" and "n \<notin> set (map fst snap)"
    and "\<And>m. m \<noteq> n \<Longrightarrow> map_of fs' m = map_of fs m"
  shows "snapshot_of orig (fs', snap @ [(n, map_of fs n)])"
proof -
  let ?at = "\<lambda>fs snap m. case map_of snap m of None \<Rightarrow> map_of fs m | Some prev \<Rightarrow> prev"
  have old: "?at fs snap m = map_of orig m" for m using assms(1) by (simp add: snapshot_of_def)
  have "?at fs' (snap @ [(n, map_of fs n)]) m = map_of orig m" for m
  proof (cases "m = n")
    case True
    have "map_of fs n = map_of orig n" using old [of n] unfolding map_of_unsaved [OF assms(2)] by simp
    with True show ?thesis unfolding map_of_snoc [OF assms(2)] by simp
  next
    case False
    then have "map_of fs' m = map_of fs m" by (rule assms(3))
    with False old [of m] show ?thesis
      unfolding map_of_snoc [OF assms(2)] by (simp cong: option.case_cong)
  qed
  moreover have "distinct (map fst (snap @ [(n, map_of fs n)]))"
    using assms(1,2) by (simp add: snapshot_of_def)
  ultimately show ?thesis unfolding snapshot_of_def by blast
qed

lemma write_all_spec:
  assumes "write_all bs (fs, snap) = (fs', snap')" and "snapshot_of orig (fs, snap)"
    and "distinct (map fst bs)" and "set (map fst bs) \<inter> set (map fst snap) = {}"
  shows "snapshot_of orig (fs', snap') \<and> set (map fst snap') \<subseteq> set (map fst snap) \<union> set (map fst bs)
    \<and> map_of fs' = map_of fs ++ map_of bs \<and> (\<exists>added. snap' = snap @ added)"
  using assms
proof (induction bs arbitrary: fs snap)
  case (Cons b bs)
  obtain n t where b: "b = (n, t)" by fastforce
  have fresh: "n \<notin> set (map fst snap)" "n \<notin> set (map fst bs)" using Cons.prems b by auto
  then have later: "(m ++ map_of bs)(n \<mapsto> t) = m(n \<mapsto> t) ++ map_of bs" for m
    by (simp add: map_add_upd_left dom_map_of_conv_image_fst)
  show ?case
  proof (cases "map_of fs n = Some t")
    case True
    then have "(map_of fs)(n \<mapsto> t) = map_of fs" by (simp add: fun_eq_iff)
    then have eq: "map_of fs ++ map_of (b # bs) = map_of fs ++ map_of bs"
      using later [of "map_of fs"] b by simp
    from True Cons.IH [of fs snap] Cons.prems b have
      "snapshot_of orig (fs', snap') \<and> set (map fst snap') \<subseteq> set (map fst snap) \<union> set (map fst bs)
       \<and> map_of fs' = map_of fs ++ map_of bs \<and> (\<exists>added. snap' = snap @ added)" by auto
    then show ?thesis unfolding eq by auto
  next
    case False
    let ?fs = "AList.update n t fs" and ?snap = "snap @ [(n, map_of fs n)]"
    have "snapshot_of orig (?fs, ?snap)"
      by (rule snapshot_of_add [OF Cons.prems(2) fresh(1)]) (simp add: map_of_update)
    with False Cons.IH [of ?fs ?snap] Cons.prems b fresh have
      "snapshot_of orig (fs', snap') \<and> set (map fst snap') \<subseteq> set (map fst ?snap) \<union> set (map fst bs)
       \<and> map_of fs' = map_of ?fs ++ map_of bs \<and> (\<exists>added. snap' = ?snap @ added)" by auto
    moreover have eq: "map_of fs ++ map_of (b # bs) = map_of ?fs ++ map_of bs"
      using later [of "map_of fs"] b by (simp add: map_of_update)
    ultimately show ?thesis unfolding eq using b by auto
  qed
qed (auto simp: snapshot_of_def)

lemma unlink_all_spec:
  assumes "unlink_all ns (fs, snap) = (fs', snap')" and "snapshot_of orig (fs, snap)"
    and "distinct ns" and "set ns \<inter> set (map fst snap) = {}"
  shows "snapshot_of orig (fs', snap') \<and> map_of fs' = (\<lambda>n. if n \<in> set ns then None else map_of fs n)
    \<and> (\<exists>added. snap' = snap @ added \<and> map fst added = ns)"
  using assms
proof (induction ns arbitrary: fs snap)
  case (Cons n ns)
  let ?fs = "remove_file n fs" and ?snap = "snap @ [(n, map_of fs n)]"
  have "n \<notin> set (map fst snap)" using Cons.prems by auto
  then have "snapshot_of orig (?fs, ?snap)"
    by (rule snapshot_of_add [OF Cons.prems(2)]) (simp add: map_of_remove)
  with Cons.IH [of ?fs ?snap] Cons.prems have
    "snapshot_of orig (fs', snap') \<and> map_of fs' = (\<lambda>m. if m \<in> set ns then None else map_of ?fs m)
     \<and> (\<exists>added. snap' = ?snap @ added \<and> map fst added = ns)" by auto
  then show ?case by (auto simp: map_of_remove fun_eq_iff)
qed (auto simp: snapshot_of_def fun_eq_iff)

lemma undo_spec:
  "distinct (map fst snap) \<Longrightarrow> map_of (undo snap fs) n
     = (case map_of snap n of None \<Rightarrow> map_of fs n | Some prev \<Rightarrow> prev)"
proof (induction snap fs rule: undo.induct)
  case (1 fs)
  then show ?case by simp
next
  case (2 m snap fs)
  then show ?case using map_of_unsaved [of m snap] by (auto simp: map_of_remove split: option.splits)
next
  case (3 m t snap fs)
  then show ?case using map_of_unsaved [of m snap] by (auto simp: map_of_update split: option.splits)
qed

text \<open>Undoing gives the files back.\<close>

lemma undo_restores: "snapshot_of orig (fs, snap) \<Longrightarrow> map_of (undo snap fs) = map_of orig"
  by (rule ext) (simp only: snapshot_of_def prod.case undo_spec)

text \<open>The names of the reconciler's files.\<close>

definition managed :: "string \<Rightarrow> bool" where
  "managed n \<longleftrightarrow> startswith n PREFIX \<or> startswith n OLD_PREFIX"

lemma prefixes_differ: "startswith n PREFIX \<Longrightarrow> \<not> startswith n OLD_PREFIX"
  by (auto simp: startswith_iff PREFIX_def OLD_PREFIX_def)

lemma bodies_prefix: "n \<in> set (map fst (bodies_of blocks)) \<Longrightarrow> startswith n PREFIX"
  by (auto simp: bodies_of_def file_name_def)

lemma apply_bodies_spec:
  assumes "apply_bodies bodies orig = (fs, snap)" and "distinct (map fst bodies)"
    and "\<And>n. n \<in> set (map fst bodies) \<Longrightarrow> startswith n PREFIX" and "distinct (map fst orig)"
  shows "snapshot_of orig (fs, snap)
    \<and> map_of fs = (\<lambda>n. if managed n then map_of bodies n else map_of orig n)
    \<and> (snap = [] \<longrightarrow> map_of fs = map_of orig)"
proof -
  obtain fs1 snap1 where w: "write_all bodies (orig, []) = (fs1, snap1)" by fastforce
  have s0: "snapshot_of orig (orig, [])" by (simp add: snapshot_of_def)
  from write_all_spec [OF w s0 assms(2)] have
    s1: "snapshot_of orig (fs1, snap1)" "set (map fst snap1) \<subseteq> set (map fst bodies)"
    and m1: "map_of fs1 = map_of orig ++ map_of bodies" by auto
  have u: "unlink_all (stale_files bodies orig) (fs1, snap1) = (fs, snap)"
    using assms(1) w by (simp add: apply_bodies_def)
  have d: "distinct (stale_files bodies orig)"
    using assms(4) prefixes_differ by (auto simp: stale_files_def)
  have "set (stale_files bodies orig) \<inter> set (map fst snap1) = {}"
  proof -
    have "n \<notin> set (map fst bodies)" if "n \<in> set (stale_files bodies orig)" for n
      using that assms(3) [of n] prefixes_differ [of n] by (auto simp: stale_files_def)
    with s1(2) show ?thesis by blast
  qed
  from unlink_all_spec [OF u s1(1) d this] have s2: "snapshot_of orig (fs, snap)"
    and m2: "map_of fs = (\<lambda>n. if n \<in> set (stale_files bodies orig) then None else map_of fs1 n)"
    by auto
  have in_orig: "n \<in> set (map fst orig) \<longleftrightarrow> map_of orig n \<noteq> None"
    and in_bodies: "n \<in> set (map fst bodies) \<longleftrightarrow> map_of bodies n \<noteq> None" for n
    by (simp_all add: map_of_eq_None_iff)
  have "map_of fs n = (if managed n then map_of bodies n else map_of orig n)" for n
  proof (cases "n \<in> set (map fst bodies)")
    case True
    then have p: "startswith n PREFIX" "\<not> startswith n OLD_PREFIX" using assms(3) prefixes_differ by auto
    then have "n \<notin> set (stale_files bodies orig)" using True by (auto simp: stale_files_def)
    moreover obtain t where "map_of bodies n = Some t" using True in_bodies [of n] by auto
    ultimately show ?thesis using p by (simp add: m2 m1 managed_def map_add_def)
  next
    case False
    then have none: "map_of bodies n = None" using in_bodies [of n] by simp
    have stale: "n \<in> set (stale_files bodies orig) \<longleftrightarrow> managed n \<and> n \<in> set (map fst orig)"
      using False by (auto simp: stale_files_def managed_def)
    have gone: "n \<notin> set (map fst orig) \<Longrightarrow> map_of orig n = None" using in_orig [of n] by simp
    have "map_of fs n = (if n \<in> set (stale_files bodies orig) then None else map_of orig n)"
      using none by (simp only: m2 m1) (simp add: map_add_def)
    with stale gone none show ?thesis by (cases "managed n"; cases "n \<in> set (map fst orig)") simp_all
  qed
  moreover have "map_of fs = map_of orig" if "snap = []"
    using s2 that by (simp add: snapshot_of_def fun_eq_iff)
  ultimately show ?thesis using s2 by (simp add: fun_eq_iff)
qed

section \<open>What a pass leaves behind\<close>

definition in_sync :: "edge \<Rightarrow> bool" where
  "in_sync e \<longleftrightarrow> map_of (e_loaded e) = map_of (e_sites e)"

lemma fails_keep_files [simp]:
  "e_sites (note_failure ew k e) = e_sites e" "e_loaded (note_failure ew k e) = e_loaded e"
  "e_sites (clear_failure k e) = e_sites e" "e_loaded (clear_failure k e) = e_loaded e"
  "e_sites (note_issue ew e) = e_sites e" "e_loaded (note_issue ew e) = e_loaded e"
  by (simp_all add: note_failure_def clear_failure_def note_issue_def read_clock_def Let_def)

lemma order_keeps_files:
  "e_sites (snd (order_cert ew n e)) = e_sites e \<and> e_loaded (snd (order_cert ew n e)) = e_loaded e"
  by (auto simp: order_cert_def run_certbot_def Let_def case_prod_beta)

lemma backoff_keeps_files: "backoff_ok ew k e = (b, e') \<Longrightarrow> e_sites e' = e_sites e \<and> e_loaded e' = e_loaded e"
  by (auto simp: backoff_ok_def read_clock_def Let_def split: option.splits fail_note.splits)

lemma budget_keeps_files: "budget_left ew e = (n, e') \<Longrightarrow> e_sites e' = e_sites e \<and> e_loaded e' = e_loaded e"
  by (auto simp: budget_left_def read_clock_def)

lemma obtain_keeps_files:
  "obtain_wildcard ew n e = (r, e') \<Longrightarrow> e_sites e' = e_sites e \<and> e_loaded e' = e_loaded e"
  "obtain_single ew n e = (r, e') \<Longrightarrow> e_sites e' = e_sites e \<and> e_loaded e' = e_loaded e"
  using order_keeps_files
  by (auto simp: obtain_wildcard_def obtain_single_def Let_def dest!: backoff_keeps_files
      budget_keeps_files split: prod.splits bool.splits if_splits) (metis snd_conv)+

lemma user_blocks_keep_files:
  "user_blocks ew u ts wild e = (bs, ns, e') \<Longrightarrow> e_sites e' = e_sites e \<and> e_loaded e' = e_loaded e"
proof (induction ew u ts wild e arbitrary: bs ns e' rule: user_blocks.induct)
  case (2 ew u host ip port pub ts wild e)
  show ?case
  proof (cases "pub \<noteq> None \<and> pub \<noteq> Some 0")
    case True
    obtain bs1 ns1 e1 where r: "user_blocks ew u ts wild e = (bs1, ns1, e1)" by (metis prod_cases3)
    from "2.IH"(1) [OF True r] "2.prems" True r show ?thesis by auto
  next
    case False
    obtain wild1 e1 where w: "(if wild \<noteq> None then (wild, e) else obtain_wildcard ew u e) = (wild1, e1)"
      by fastforce
    obtain cert e2 where c: "(if wild1 \<noteq> None then (wild1, e1) else obtain_single ew host e1) = (cert, e2)"
      by fastforce
    obtain bs1 ns1 e3 where r: "user_blocks ew u ts wild1 e2 = (bs1, ns1, e3)" by (metis prod_cases3)
    have "e_sites e3 = e_sites e2 \<and> e_loaded e3 = e_loaded e2"
    proof (cases cert)
      case None
      from "2.IH"(2) [OF False w [symmetric] refl c [symmetric] refl None r] show ?thesis .
    next
      case (Some cc)
      from "2.IH"(3) [OF False w [symmetric] refl c [symmetric] refl Some r] show ?thesis .
    qed
    moreover have "e_sites e2 = e_sites e \<and> e_loaded e2 = e_loaded e"
      using w c obtain_keeps_files by (metis prod.inject)
    moreover have "e' = e3"
      using "2.prems"(1) False w c r by (auto simp: Let_def split: option.splits prod.splits if_splits)
    ultimately show ?thesis by simp
  qed
qed simp

lemma all_blocks_keep_files:
  "all_blocks ew wanted us e = (bs, ns, e') \<Longrightarrow> e_sites e' = e_sites e \<and> e_loaded e' = e_loaded e"
proof (induction us arbitrary: e bs ns e')
  case (Cons v us)
  obtain bs1 ns1 e1 where one: "user_blocks ew v
      (sort_targets (map snd (filter (\<lambda>t. fst t = v) wanted))) None e = (bs1, ns1, e1)"
    by (metis prod_cases3)
  obtain rest ns2 e2 where r: "all_blocks ew wanted us e1 = (rest, ns2, e2)" by (metis prod_cases3)
  from Cons.prems one r have "e' = e2" by (simp add: Let_def)
  with Cons.IH [OF r] user_blocks_keep_files [OF one] show ?case by simp
qed simp

lemma planned_keeps_files:
  "planned ew d e = (bs, ns, e') \<Longrightarrow> e_sites e' = e_sites e \<and> e_loaded e' = e_loaded e"
  by (simp add: planned_def Let_def all_blocks_keep_files)

lemma vhosts_pass_result:
  assumes "planned ew d e = (blocks, names, e1)"
    and "apply_bodies (bodies_of blocks) (e_sites e) = (fs, snap)"
  shows "vhosts_pass ew d e s =
    (if snap = [] then (0, e1, mark_readiness names (ew_domain ew) s)
     else if ew_test ew \<noteq> 0 then (1, e1\<lparr>e_sites := undo snap fs\<rparr>, s)
     else if ew_reload ew \<noteq> 0 then (1, e1\<lparr>e_sites := fs\<rparr>, s)
     else (0, e1\<lparr>e_sites := fs, e_loaded := fs\<rparr>, mark_readiness names (ew_domain ew) s))"
  using assms planned_keeps_files [OF assms(1)] by (simp add: vhosts_pass_def)

lemma applied:
  assumes "planned ew d e = (blocks, names, e1)" and "distinct (map fst (e_sites e))"
    and "apply_bodies (bodies_of blocks) (e_sites e) = (fs, snap)"
  shows "snapshot_of (e_sites e) (fs, snap)"
    and "map_of fs n = (if managed n then map_of (bodies_of blocks) n else map_of (e_sites e) n)"
    and "snap = [] \<Longrightarrow> map_of fs = map_of (e_sites e)"
proof -
  have sp: "snapshot_of (e_sites e) (fs, snap)
    \<and> map_of fs = (\<lambda>n. if managed n then map_of (bodies_of blocks) n else map_of (e_sites e) n)
    \<and> (snap = [] \<longrightarrow> map_of fs = map_of (e_sites e))"
    by (rule apply_bodies_spec [OF assms(3) distinct_bodies [OF assms(1)] _ assms(2)])
      (rule bodies_prefix)
  then show "snapshot_of (e_sites e) (fs, snap)" ..
  from sp have "map_of fs = (\<lambda>n. if managed n then map_of (bodies_of blocks) n else map_of (e_sites e) n)"
    by blast
  then show "map_of fs n = (if managed n then map_of (bodies_of blocks) n else map_of (e_sites e) n)"
    by (simp only:)
  show "map_of fs = map_of (e_sites e)" if "snap = []" using sp that by blast
qed

text \<open>C24. A pass ends in one of two ways. When it succeeds the managed files are exactly the
  customers' files it planned, no other file has changed, and the marks follow the planned names.
  When it fails the database and nginx are as before, and if it was the test that failed, every
  file is as it was before the pass, so a later reload by another program still works.\<close>
theorem pass_applies_or_restores:
  assumes "planned ew d e = (blocks, names, e1)" and "distinct (map fst (e_sites e))"
    and "vhosts_pass ew d e s = (rc, e', s')"
  shows "if rc = 0
    then map_of (e_sites e') = (\<lambda>n. if managed n then map_of (bodies_of blocks) n else map_of (e_sites e) n)
      \<and> s' = mark_readiness names (ew_domain ew) s
    else s' = s \<and> e_loaded e' = e_loaded e
      \<and> (ew_test ew \<noteq> 0 \<longrightarrow> map_of (e_sites e') = map_of (e_sites e))"
proof -
  obtain fs snap where a: "apply_bodies (bodies_of blocks) (e_sites e) = (fs, snap)" by fastforce
  note r = vhosts_pass_result [OF assms(1) a, of s]
  note sp = applied [OF assms(1,2) a] and keep = planned_keeps_files [OF assms(1)]
  have files: "map_of fs = (\<lambda>n. if managed n then map_of (bodies_of blocks) n else map_of (e_sites e) n)"
    by (rule ext) (rule sp(2))
  show ?thesis
    using assms(3) r keep files sp(3) undo_restores [OF sp(1)] by (auto split: if_splits)
qed

section \<open>Marks and the running configuration\<close>

fun block_name :: "block \<Rightarrow> string" where
  "block_name (Secure h c ip p) = h"
| "block_name (Application h ip p) = published_name h p"

text \<open>A name is served when a file nginx has loaded holds its block.\<close>

definition served :: "edge \<Rightarrow> string \<Rightarrow> bool" where
  "served e n \<longleftrightarrow> (\<exists>u bs b. map_of (e_loaded e) (file_name u) = Some (file_text bs)
     \<and> b \<in> set bs \<and> block_name b = n)"

definition plain_target :: "target \<Rightarrow> bool" where
  "plain_target t \<longleftrightarrow> (case t of (host, ip, port, pub) \<Rightarrow> pub = None \<or> pub = Some port)"

lemma user_blocks_names:
  "user_blocks ew u ts wild e = (bs, ns, e') \<Longrightarrow> list_all plain_target ts \<Longrightarrow> ns = map block_name bs"
proof (induction ew u ts wild e arbitrary: bs ns e' rule: user_blocks.induct)
  case (2 ew u host ip port pub ts wild e)
  show ?case
  proof (cases "pub \<noteq> None \<and> pub \<noteq> Some 0")
    case True
    obtain bs1 ns1 e1 where r: "user_blocks ew u ts wild e = (bs1, ns1, e1)" by (metis prod_cases3)
    from "2.IH"(1) [OF True r] "2.prems" True r show ?thesis by (auto simp: plain_target_def)
  next
    case False
    obtain wild1 e1 where w: "(if wild \<noteq> None then (wild, e) else obtain_wildcard ew u e) = (wild1, e1)"
      by fastforce
    obtain cert e2 where c: "(if wild1 \<noteq> None then (wild1, e1) else obtain_single ew host e1) = (cert, e2)"
      by fastforce
    obtain bs1 ns1 e3 where r: "user_blocks ew u ts wild1 e2 = (bs1, ns1, e3)" by (metis prod_cases3)
    have rest: "list_all plain_target ts" using "2.prems"(2) by simp
    have "ns1 = map block_name bs1"
    proof (cases cert)
      case None
      from "2.IH"(2) [OF False w [symmetric] refl c [symmetric] refl None r rest] show ?thesis .
    next
      case (Some cc)
      from "2.IH"(3) [OF False w [symmetric] refl c [symmetric] refl Some r rest] show ?thesis .
    qed
    then show ?thesis
      using "2.prems"(1) False w c r by (auto simp: Let_def split: option.splits prod.splits if_splits)
  qed
qed simp

lemma all_blocks_served:
  "all_blocks ew wanted us e = (blocks, ns, e') \<Longrightarrow> list_all (\<lambda>t. plain_target (snd t)) wanted \<Longrightarrow>
     n \<in> set ns \<Longrightarrow> \<exists>u bs b. (u, bs) \<in> set blocks \<and> b \<in> set bs \<and> block_name b = n"
proof (induction us arbitrary: e blocks ns e')
  case (Cons v us)
  obtain bs1 ns1 e1 where one: "user_blocks ew v
      (sort_targets (map snd (filter (\<lambda>t. fst t = v) wanted))) None e = (bs1, ns1, e1)"
    by (metis prod_cases3)
  obtain rest ns2 e2 where r: "all_blocks ew wanted us e1 = (rest, ns2, e2)" by (metis prod_cases3)
  have blocks: "blocks = (if bs1 = [] then rest else (v, bs1) # rest)" and ns: "ns = ns1 @ ns2"
    using Cons.prems(1) one r by (simp_all add: Let_def)
  have "list_all plain_target (sort_targets (map snd (filter (\<lambda>t. fst t = v) wanted)))"
    using Cons.prems(2) by (auto simp: list_all_iff)
  from user_blocks_names [OF one this] have ns1: "ns1 = map block_name bs1" .
  consider "n \<in> set ns2" | "n \<in> set ns1" using Cons.prems(3) ns by auto
  then show ?case
  proof cases
    case 1
    from Cons.IH [OF r Cons.prems(2) this] blocks show ?thesis by (auto split: if_splits)
  next
    case 2
    with ns1 blocks show ?thesis by (auto split: if_splits)
  qed
qed simp

lemma desired_plain: "list_all (\<lambda>t. plain_target (snd t)) (desired d domain busy)"
proof -
  have "plain_target t" if "t \<in> set (service_targets domain u w @ port_targets d domain busy u w)" for t u w
    using that service_targets_owned [of t domain u w]
    by (auto simp: plain_target_def port_targets_def)
  moreover have "\<exists>u. snd x \<in> set (service_targets domain u w @ port_targets d domain busy u w)"
    if "x \<in> set (machine_targets d domain busy w)" for x w
    using that by (force simp: machine_targets_def split: option.splits if_splits)
  ultimately have "plain_target (snd x)" if "x \<in> set (machine_targets d domain busy w)" for x w
    using that by blast
  then show ?thesis by (auto simp only: list_all_iff desired_def set_concat set_map)
qed

lemma planned_served:
  assumes "planned ew d e = (blocks, names, e1)" and "n \<in> set names"
    and "map_of (e_loaded e') = map_of fs"
    and "\<And>m. managed m \<Longrightarrow> map_of fs m = map_of (bodies_of blocks) m"
  shows "served e' n"
proof -
  from all_blocks_served [OF assms(1) [unfolded planned_def Let_def] desired_plain assms(2)]
  obtain u bs b where b: "(u, bs) \<in> set blocks" "b \<in> set bs" "block_name b = n" by blast
  from b(1) have "(file_name u, file_text bs) \<in> set (bodies_of blocks)"
    by (force simp: bodies_of_def)
  with distinct_bodies [OF assms(1)] have "map_of (bodies_of blocks) (file_name u) = Some (file_text bs)"
    by simp
  moreover have "managed (file_name u)" by (simp add: managed_def file_name_def)
  ultimately have "map_of (e_loaded e') (file_name u) = Some (file_text bs)"
    using assms(3) assms(4) by simp
  with b show ?thesis by (auto simp: served_def)
qed

lemma ready_row_simps:
  "h_vhost_ready (w_hermes (ready_row d ns dm w)) = (named_host hermes_host (get_user d (w_user_id w)) dm \<in> set ns)"
  "wb_vhost_ready (w_opencode (ready_row d ns dm w)) = (named_host opencode_host (get_user d (w_user_id w)) dm \<in> set ns)"
  "wb_vhost_ready (w_openwebui (ready_row d ns dm w)) = (named_host openwebui_host (get_user d (w_user_id w)) dm \<in> set ns)"
  "w_id (ready_row d ns dm w) = w_id w" "w_user_id (ready_row d ns dm w) = w_user_id w"
  by (simp_all add: ready_row_def Let_def)

lemma cur_mark_readiness [simp]:
  "workspaces (cur (mark_readiness ns dm s)) = map (ready_row (cur s) ns dm) (workspaces (cur s))"
  "exposed_ports (cur (mark_readiness ns dm s)) = map (ready_port (cur s) ns dm) (exposed_ports (cur s))"
  "users (cur (mark_readiness ns dm s)) = users (cur s)"
  by (simp_all add: mark_readiness_def)

lemma port_owner_mark [simp]:
  "port_owner (cur (mark_readiness ns dm s)) p = port_owner (cur s) p"
proof -
  have "find (\<lambda>w. w_id w = i) (map (ready_row (cur s) ns dm) ws)
      = map_option (ready_row (cur s) ns dm) (find (\<lambda>w. w_id w = i) ws)" for i ws
    by (induction ws) (simp_all add: ready_row_simps)
  then show ?thesis
    by (auto simp: port_owner_def get_ws_def get_user_def ready_row_simps split: option.split)
qed

lemma ready_port_user:
  "ep_kind p = PUser \<Longrightarrow> port_owner d p = Some u \<Longrightarrow> ep_web_ready (ready_port d ns dm p) =
     (published_name (application_host u (ep_internal_port p) dm) (ep_internal_port p) \<in> set ns)"
  by (simp add: ready_port_def)

lemma ready_port_same:
  "ep_kind (ready_port d ns dm p) = ep_kind p"
  "ep_internal_port (ready_port d ns dm p) = ep_internal_port p"
  "port_owner d' (ready_port d ns dm p) = port_owner d' p"
  by (auto simp: ready_port_def port_owner_def split: port_kind.splits option.splits)

text \<open>C25. A ready mark is true. If nginx runs the files on disk before a pass that succeeds, it does
  so afterwards, and every address the pass leaves marked as ready, of Hermes, OpenCode, Open WebUI
  or a published port, has its block in a file that nginx has loaded.\<close>
theorem ready_means_served:
  assumes "vhosts_pass ew d e s = (0, e', s')" and "in_sync e" and "distinct (map fst (e_sites e))"
  shows "in_sync e'
    \<and> (\<forall>w \<in> set (workspaces (cur s')). \<forall>u. user_name (get_user (cur s') (w_user_id w)) = Some u \<longrightarrow>
        (h_vhost_ready (w_hermes w) \<longrightarrow> served e' (hermes_host u (ew_domain ew)))
      \<and> (wb_vhost_ready (w_opencode w) \<longrightarrow> served e' (opencode_host u (ew_domain ew)))
      \<and> (wb_vhost_ready (w_openwebui w) \<longrightarrow> served e' (openwebui_host u (ew_domain ew))))
    \<and> (\<forall>p \<in> set (exposed_ports (cur s')). \<forall>u. ep_kind p = PUser \<and> port_owner (cur s') p = Some u
        \<and> ep_web_ready p \<longrightarrow> served e' (published_name
            (application_host u (ep_internal_port p) (ew_domain ew)) (ep_internal_port p)))"
proof -
  obtain blocks names e1 where pl: "planned ew d e = (blocks, names, e1)" by (metis prod_cases3)
  obtain fs snap where a: "apply_bodies (bodies_of blocks) (e_sites e) = (fs, snap)" by fastforce
  note r = vhosts_pass_result [OF pl a, of s] and sp = applied [OF pl assms(3) a]
  note keep = planned_keeps_files [OF pl]
  have s': "s' = mark_readiness names (ew_domain ew) s"
    and l: "map_of (e_loaded e') = map_of fs" and sy: "in_sync e'"
    using assms(1,2) r keep sp(3) by (auto simp: in_sync_def split: if_splits)
  have sv: "served e' n" if "n \<in> set names" for n
    by (rule planned_served [OF pl that l]) (simp add: sp(2))
  have u: "get_user (cur s') i = get_user (cur s) i" for i by (simp add: s' get_user_def)
  have "(h_vhost_ready (w_hermes w) \<longrightarrow> served e' (hermes_host x (ew_domain ew)))
      \<and> (wb_vhost_ready (w_opencode w) \<longrightarrow> served e' (opencode_host x (ew_domain ew)))
      \<and> (wb_vhost_ready (w_openwebui w) \<longrightarrow> served e' (openwebui_host x (ew_domain ew)))"
    if "w \<in> set (workspaces (cur s'))" "user_name (get_user (cur s') (w_user_id w)) = Some x" for w x
  proof -
    from that(1) obtain v where v: "w = ready_row (cur s) names (ew_domain ew) v" by (auto simp: s')
    with that(2) have "user_name (get_user (cur s) (w_user_id v)) = Some x"
      by (simp add: u ready_row_simps)
    then have "named_host f (get_user (cur s) (w_user_id v)) dm = f x dm" for f dm
      by (simp add: named_host_def)
    with v sv show ?thesis by (simp add: ready_row_simps)
  qed
  moreover have "served e' (published_name (application_host x (ep_internal_port p) (ew_domain ew))
      (ep_internal_port p))"
    if "p \<in> set (exposed_ports (cur s'))" "ep_kind p = PUser" "port_owner (cur s') p = Some x"
      "ep_web_ready p" for p x
  proof -
    from that(1) obtain q where q: "p = ready_port (cur s) names (ew_domain ew) q" by (auto simp: s')
    with that show ?thesis
      using ready_port_user [of q "cur s" x names "ew_domain ew"] sv
      by (simp add: ready_port_same s')
  qed
  ultimately show ?thesis using sy by blast
qed

section \<open>A failed reload is forgotten\<close>

lemma write_all_same:
  "\<forall>b \<in> set bs. map_of fs (fst b) = Some (snd b) \<Longrightarrow> write_all bs (fs, snap) = (fs, snap)"
  by (induction bs) auto

text \<open>Files that hold what is planned are left alone by the next pass.\<close>

lemma apply_bodies_again:
  assumes "distinct (map fst bodies)" and "\<And>n. managed n \<Longrightarrow> map_of fs n = map_of bodies n"
    and "\<And>n. n \<in> set (map fst bodies) \<Longrightarrow> startswith n PREFIX"
  shows "apply_bodies bodies fs = (fs, [])"
proof -
  have "map_of fs (fst b) = Some (snd b)" if "b \<in> set bodies" for b
    using that assms(1) assms(2) [of "fst b"] assms(3) [of "fst b"] by (simp add: managed_def)
  then have w: "write_all bodies (fs, []) = (fs, [])" by (simp add: write_all_same)
  have "n \<in> set (map fst bodies)" if "n \<in> set (map fst fs)" "managed n" for n
  proof -
    have "map_of fs n \<noteq> None" using that(1) by (simp add: map_of_eq_None_iff)
    with assms(2) [OF that(2)] have "map_of bodies n \<noteq> None" by simp
    then show ?thesis by (simp add: map_of_eq_None_iff)
  qed
  then have "\<not> (startswith n PREFIX \<and> n \<notin> set (map fst bodies))" "\<not> startswith n OLD_PREFIX"
    if "n \<in> set (map fst fs)" for n
    using that assms(3) [of n] prefixes_differ [of n] unfolding managed_def by blast+
  then have "stale_files bodies fs = []"
    unfolding stale_files_def append_is_Nil_conv filter_empty_conv by blast
  with w show ?thesis by (simp add: apply_bodies_def)
qed

text \<open>When only the reload fails, the new files stay on disk. The next pass that plans the same
  finds nothing to change, does not reload, and marks the addresses as ready, although nginx runs
  the old configuration.\<close>

lemma failed_reload_is_forgotten:
  assumes "planned ew d e = (blocks, names, e1)" and "distinct (map fst (e_sites e))"
    and "vhosts_pass ew d e s = (1, e', s')" and "ew_test ew = 0"
    and "planned ew' d' e' = (blocks, names, e2)"
  shows "vhosts_pass ew' d' e' s' = (0, e2, mark_readiness names (ew_domain ew') s')
    \<and> e_loaded e2 = e_loaded e"
proof -
  obtain fs snap where a: "apply_bodies (bodies_of blocks) (e_sites e) = (fs, snap)" by fastforce
  note sp = applied [OF assms(1,2) a]
  have e': "e_sites e' = fs" "e_loaded e' = e_loaded e"
    using assms(3,4) vhosts_pass_result [OF assms(1) a, of s] planned_keeps_files [OF assms(1)]
    by (auto split: if_splits)
  have "apply_bodies (bodies_of blocks) (e_sites e') = (fs, [])"
    unfolding e' by (rule apply_bodies_again [OF distinct_bodies [OF assms(1)] _ bodies_prefix])
      (simp_all add: sp(2))
  from vhosts_pass_result [OF assms(5) this] e' planned_keeps_files [OF assms(5)] show ?thesis by simp
qed

section \<open>The weekly budget\<close>

text \<open>The times of the orders in a run over names certified one by one.\<close>

fun order_times :: "edge_world \<Rightarrow> string list \<Rightarrow> edge \<Rightarrow> time list" where
  "order_times ew [] e = []"
| "order_times ew (h # hs) e =
     (let e1 = snd (obtain_single ew h e)
      in (if e_calls e1 = e_calls e then [] else [last (issue_log e1)]) @ order_times ew hs e1)"

lemma order_cert_log:
  "order_cert ew h e = (r, e1) \<Longrightarrow> e_reads e + 1 < e_reads e1 \<and> e_calls e1 = e_calls e + 1
     \<and> e_log e1 = Some (filter (\<lambda>t. ew_time ew (e_reads e) - week \<le> t) (issue_log e)
          @ [ew_time ew (e_reads e + 1)])"
  by (auto simp: order_cert_def run_certbot_def note_issue_def read_clock_def note_failure_def
      clear_failure_def issue_log_def Let_def case_prod_beta split: if_splits)

lemma backoff_log:
  "backoff_ok ew k e = (b, e1) \<Longrightarrow> e_calls e1 = e_calls e \<and> e_log e1 = e_log e \<and> e_reads e \<le> e_reads e1"
  by (auto simp: backoff_ok_def read_clock_def Let_def split: option.splits fail_note.splits)

lemma budget_log:
  "budget_left ew e = (n, e1) \<Longrightarrow> e_calls e1 = e_calls e \<and> e_log e1 = e_log e
     \<and> e_reads e1 = e_reads e + 1
     \<and> n = 40 - int (length (filter (\<lambda>t. ew_time ew (e_reads e) - week \<le> t) (issue_log e)))"
  by (auto simp: budget_left_def read_clock_def issue_log_def ISSUE_BUDGET_def)

lemma obtain_single_log:
  assumes "obtain_single ew h e = (r, e1)"
  shows "e_calls e1 = e_calls e \<and> e_log e1 = e_log e \<and> e_reads e \<le> e_reads e1
    \<or> (\<exists>i j k. e_reads e \<le> i \<and> i < j \<and> j < k \<and> k < e_reads e1 \<and> e_calls e1 = e_calls e + 1
        \<and> length (filter (\<lambda>t. ew_time ew i - week \<le> t) (issue_log e)) < 40
        \<and> e_log e1 = Some (filter (\<lambda>t. ew_time ew j - week \<le> t) (issue_log e) @ [ew_time ew k]))"
proof (cases "h \<in> set (e_certs e)")
  case True
  with assms show ?thesis by (auto simp: obtain_single_def)
next
  case False
  obtain b e2 where b: "backoff_ok ew h e = (b, e2)" by fastforce
  note bl = backoff_log [OF b]
  obtain n e3 where n: "budget_left ew e2 = (n, e3)" by fastforce
  note nl = budget_log [OF n]
  have logs: "issue_log e2 = issue_log e" "issue_log e3 = issue_log e"
    using bl nl by (simp_all add: issue_log_def)
  consider (wait) "\<not> b" "e1 = e2" | (spent) "b" "n \<le> 0" "e1 = e3"
    | (order) "b" "0 < n" "order_cert ew h e3 = (r, e1)"
    using assms False b n by (auto simp: obtain_single_def split: bool.splits if_splits)
  then show ?thesis
  proof cases
    case wait
    then show ?thesis using bl by simp
  next
    case spent
    then show ?thesis using bl nl by simp
  next
    case order
    from order_cert_log [OF order(3)] bl nl order(2) logs show ?thesis
      by (intro disjI2 exI [of _ "e_reads e2"] exI [of _ "e_reads e3"] exI [of _ "e_reads e3 + 1"]) auto
  qed
qed

definition window :: "time \<Rightarrow> time list \<Rightarrow> nat" where
  "window a ts = length (filter (\<lambda>t. a \<le> t \<and> t < a + week) ts)"

definition log_tells :: "edge_world \<Rightarrow> time list \<Rightarrow> edge \<Rightarrow> bool" where
  "log_tells ew ts e \<longleftrightarrow> length (issue_log e) \<le> 40 \<and> (\<forall>t \<in> set ts. t \<le> ew_time ew (e_reads e))
     \<and> (\<forall>x \<ge> ew_time ew (e_reads e).
          filter (\<lambda>t. x - week \<le> t) (issue_log e) = filter (\<lambda>t. x - week \<le> t) ts)
     \<and> (\<forall>a. window a ts \<le> 40)"

lemma issue_log_short: "e_log e = Some ts \<Longrightarrow> length ts \<le> 40 \<Longrightarrow> issue_log e = ts"
  by (simp add: issue_log_def)

lemma log_tells_step:
  assumes m: "mono (ew_time ew)" and inv: "log_tells ew ts e" and o: "obtain_single ew h e = (r, e1)"
  shows "log_tells ew (ts @ (if e_calls e1 = e_calls e then [] else [last (issue_log e1)])) e1"
  using obtain_single_log [OF o]
proof
  assume "e_calls e1 = e_calls e \<and> e_log e1 = e_log e \<and> e_reads e \<le> e_reads e1"
  then have "e_calls e1 = e_calls e" "issue_log e1 = issue_log e"
    "ew_time ew (e_reads e) \<le> ew_time ew (e_reads e1)"
    using m by (auto simp: issue_log_def mono_def)
  with inv show ?thesis by (fastforce simp: log_tells_def)
next
  assume "\<exists>i j k. e_reads e \<le> i \<and> i < j \<and> j < k \<and> k < e_reads e1 \<and> e_calls e1 = e_calls e + 1
      \<and> length (filter (\<lambda>t. ew_time ew i - week \<le> t) (issue_log e)) < 40
      \<and> e_log e1 = Some (filter (\<lambda>t. ew_time ew j - week \<le> t) (issue_log e) @ [ew_time ew k])"
  then obtain i j k where le: "e_reads e \<le> i" "i < j" "j < k" "k < e_reads e1"
    and c: "e_calls e1 = e_calls e + 1"
    and few: "length (filter (\<lambda>t. ew_time ew i - week \<le> t) (issue_log e)) < 40"
    and lg: "e_log e1 = Some (filter (\<lambda>t. ew_time ew j - week \<le> t) (issue_log e) @ [ew_time ew k])"
    by blast
  have tm: "ew_time ew (e_reads e) \<le> ew_time ew i" "ew_time ew i \<le> ew_time ew j"
    "ew_time ew j \<le> ew_time ew k" "ew_time ew k \<le> ew_time ew (e_reads e1)"
    using le m by (simp_all add: mono_def)
  have shorter: "length (filter p xs) \<le> length (filter q xs)" if "\<And>x. p x \<Longrightarrow> q x" for p q and xs :: "time list"
    using that by (induction xs) auto
  have kept: "length (filter (\<lambda>t. ew_time ew j - week \<le> t) (issue_log e)) < 40"
    using few shorter [of "\<lambda>t. ew_time ew j - week \<le> t" "\<lambda>t. ew_time ew i - week \<le> t"] tm(2)
    by (meson diff_right_mono dual_order.trans le_less_trans)
  let ?new = "ew_time ew k"
  have log1: "issue_log e1 = filter (\<lambda>t. ew_time ew j - week \<le> t) (issue_log e) @ [?new]"
    using lg kept by (intro issue_log_short) auto
  have agree: "filter (\<lambda>t. x - week \<le> t) (issue_log e) = filter (\<lambda>t. x - week \<le> t) ts"
    if "ew_time ew (e_reads e) \<le> x" for x
    using inv that by (simp add: log_tells_def)
  have "filter (\<lambda>t. x - week \<le> t) (issue_log e1) = filter (\<lambda>t. x - week \<le> t) (ts @ [?new])"
    if "ew_time ew (e_reads e1) \<le> x" for x
  proof -
    have "x - week \<le> t \<longrightarrow> ew_time ew j - week \<le> t" for t using that tm by linarith
    then have "filter (\<lambda>t. x - week \<le> t) (filter (\<lambda>t. ew_time ew j - week \<le> t) (issue_log e))
        = filter (\<lambda>t. x - week \<le> t) (issue_log e)"
      by (auto simp: intro!: filter_cong)
    then show ?thesis using agree [of x] that tm by (simp add: log1)
  qed
  moreover have "window a (ts @ [?new]) \<le> 40" for a
  proof (cases "a \<le> ?new \<and> ?new < a + week")
    case True
    have "window a ts \<le> length (filter (\<lambda>t. ew_time ew i - week \<le> t) ts)"
      unfolding window_def by (rule shorter) (use True tm in linarith)
    also have "\<dots> < 40" using few agree [of "ew_time ew i"] tm by simp
    finally show ?thesis using True by (simp add: window_def)
  next
    case False
    then have "window a (ts @ [?new]) = window a ts" by (auto simp: window_def)
    with inv show ?thesis by (simp add: log_tells_def)
  qed
  moreover have "\<forall>t \<in> set (ts @ [?new]). t \<le> ew_time ew (e_reads e1)"
    using inv tm by (force simp: log_tells_def)
  ultimately show ?thesis
    using c kept log1 by (auto simp: log_tells_def)
qed

text \<open>The weekly budget holds. While the clock does not run backwards, certifying any sequence of
  names one by one, from an empty log and with any answers of certbot, places at most forty orders
  in any seven days, failed ones included.\<close>

lemma orders_within_budget:
  assumes "mono (ew_time ew)" and "e_log e = None"
  shows "window a (order_times ew hosts e) \<le> 40"
proof -
  have "window a (ts @ order_times ew hosts e) \<le> 40" if "log_tells ew ts e" for ts
    using that
  proof (induction hosts arbitrary: ts e)
    case Nil
    then show ?case by (simp add: log_tells_def)
  next
    case (Cons h hs)
    obtain r e1 where o: "obtain_single ew h e = (r, e1)" by fastforce
    from Cons.IH [OF log_tells_step [OF assms(1) Cons.prems o]] o show ?case by (simp add: Let_def)
  qed
  moreover have "log_tells ew [] e" using assms(2) by (simp add: log_tells_def issue_log_def window_def)
  ultimately show ?thesis by fastforce
qed

section \<open>Witnesses\<close>

lemma quiet_edge_distinct: "distinct (map fst (e_sites quiet_edge))"
  by (simp add: quiet_edge_def)

lemma ali_snapshot: "snd (apply_bodies (bodies_of [(''ali'', [ali_block])]) (e_sites quiet_edge)) \<noteq> []"
  by (simp add: apply_bodies_def bodies_of_def quiet_edge_def stale_files_def file_name_def
      PREFIX_def OLD_PREFIX_def)

lemma ali_pass:
  "fst (vhosts_pass (edge_answers c) host_db quiet_edge s) = (if c = 0 then 0 else 1)"
proof -
  obtain fs snap where a: "apply_bodies (bodies_of [(''ali'', [ali_block])]) (e_sites quiet_edge) = (fs, snap)"
    by fastforce
  then have "snap \<noteq> []" using ali_snapshot by simp
  then show ?thesis
    unfolding vhosts_pass_result [OF planned_ali a] by (simp add: edge_answers_def)
qed

theorem pass_applies_or_restores_witness:
  "\<exists>e'. vhosts_pass (edge_answers 1) host_db quiet_edge (open_session host_db 9)
      = (1, e', open_session host_db 9) \<and> map_of (e_sites e') = map_of (e_sites quiet_edge)"
proof -
  obtain rc e' s' where r: "vhosts_pass (edge_answers 1) host_db quiet_edge (open_session host_db 9) = (rc, e', s')"
    by (metis prod_cases3)
  then have rc: "rc = 1" using ali_pass [of 1 "open_session host_db 9"] by simp
  have "ew_test (edge_answers 1) \<noteq> 0" by (simp add: edge_answers_def)
  with pass_applies_or_restores [OF planned_ali quiet_edge_distinct r] r rc show ?thesis by simp
qed

theorem ready_means_served_witness:
  "\<exists>e' s'. vhosts_pass (edge_answers 0) host_db quiet_edge (open_session host_db 9) = (0, e', s')
     \<and> in_sync e'"
proof -
  obtain rc e' s' where r: "vhosts_pass (edge_answers 0) host_db quiet_edge (open_session host_db 9) = (rc, e', s')"
    by (metis prod_cases3)
  then have rc: "rc = 0" using ali_pass [of 0 "open_session host_db 9"] by simp
  have sy: "in_sync quiet_edge" by (simp add: in_sync_def quiet_edge_def)
  from ready_means_served [OF r [unfolded rc] sy quiet_edge_distinct] r rc show ?thesis by auto
qed

lemma orders_within_budget_witness:
  "window 0 (order_times (edge_answers 0) [''a.mmd.ir'', ''b.mmd.ir''] quiet_edge) \<le> 40
     \<and> order_times (edge_answers 0) [''a.mmd.ir'', ''b.mmd.ir''] quiet_edge = [2 * hour, 5 * hour]"
proof -
  have m: "mono (ew_time (edge_answers 0))"
    by (simp add: edge_answers_def mono_def hour_def second_def)
  have l: "e_log quiet_edge = None" by (simp add: quiet_edge_def)
  have o: "order_times (edge_answers 0) [''a.mmd.ir'', ''b.mmd.ir''] quiet_edge = [2 * hour, 5 * hour]"
    by code_simp
  from orders_within_budget [OF m l, of 0 "[''a.mmd.ir'', ''b.mmd.ir'']"] o show ?thesis
    by (simp del: order_times.simps)
qed

end
