(* ===== verification/Tickets.thy ===== *)
theory Tickets
  imports Accounts
begin

text \<open>
  Support tickets: the rules of \<open>control/mmd/tickets.py\<close>, the handlers of \<open>control/mmd/app.py\<close> on
  both sides of a conversation, the badge that counts unread threads, and the announcement of a reply
  (\<open>announce_ticket_reply\<close> of \<open>control/mmd/service.py\<close>). Times are aware, so \<open>as_utc\<close> is the
  identity on them. The webhook to the support agent runs after the answer and leaves the database alone.
\<close>

section \<open>Unread\<close>

definition is_unread :: "bool option \<Rightarrow> time option \<Rightarrow> time option \<Rightarrow> bool \<Rightarrow> bool" where
  "is_unread last_from_staff last_at read_at staff =
     (case (last_from_staff, last_at) of
        (Some side, Some t1) \<Rightarrow>
          (if side = staff then False else case read_at of None \<Rightarrow> True | Some r \<Rightarrow> r < t1)
      | _ \<Rightarrow> False)"

definition messages_of :: "db \<Rightarrow> int \<Rightarrow> ticket_message list" where
  "messages_of d i = filter (\<lambda>m. tm_ticket_id m = i) (ticket_messages d)"

definition last_message :: "db \<Rightarrow> int \<Rightarrow> ticket_message option" where
  "last_message d i = (if messages_of d i = [] then None else Some (last (messages_of d i)))"

definition read_mark :: "bool \<Rightarrow> ticket \<Rightarrow> time option" where
  "read_mark staff t = (if staff then tk_staff_read_at t else tk_user_read_at t)"

record ticket_view =
  tv_id :: int
  tv_subject :: string
  tv_status :: ticket_status
  tv_message_count :: int
  tv_last_from_staff :: "bool option"
  tv_last_at :: "time option"
  tv_unread :: bool
  tv_owner :: "(int \<times> string \<times> string option) option"
  tv_messages :: "ticket_message list option"

definition ticket_json :: "db \<Rightarrow> bool \<Rightarrow> bool \<Rightarrow> ticket \<Rightarrow> ticket_view" where
  "ticket_json d staff with_messages t =
     (let lm = last_message d (tk_id t) in
      \<lparr>tv_id = tk_id t, tv_subject = tk_subject t, tv_status = tk_status t,
       tv_message_count = int (length (messages_of d (tk_id t))),
       tv_last_from_staff = map_option tm_from_staff lm, tv_last_at = map_option tm_created_at lm,
       tv_unread = is_unread (map_option tm_from_staff lm) (map_option tm_created_at lm) (read_mark staff t) staff,
       tv_owner = (if staff then map_option (\<lambda>u. (u_id u, u_username u, u_phone u)) (get_user d (tk_user_id t))
                   else None),
       tv_messages = (if with_messages then Some (messages_of d (tk_id t)) else None)\<rparr>)"

text \<open>The badge, in one query: the tickets joined with the message of the largest identity in each.\<close>

definition max_id :: "ticket_message list \<Rightarrow> int option" where
  "max_id ms = (case map tm_id ms of [] \<Rightarrow> None | i # is \<Rightarrow> Some (fold max is i))"

definition newest_message :: "db \<Rightarrow> int \<Rightarrow> ticket_message option" where
  "newest_message d i = (case max_id (messages_of d i) of None \<Rightarrow> None
     | Some j \<Rightarrow> find (\<lambda>m. tm_id m = j) (ticket_messages d))"

definition counts_unread :: "db \<Rightarrow> bool \<Rightarrow> ticket \<Rightarrow> bool" where
  "counts_unread d staff t = (case newest_message d (tk_id t) of None \<Rightarrow> False
     | Some m \<Rightarrow> tm_from_staff m = (\<not> staff)
         \<and> (case read_mark staff t of None \<Rightarrow> True | Some r \<Rightarrow> r < tm_created_at m))"

definition unread_count :: "db \<Rightarrow> int \<Rightarrow> bool \<Rightarrow> nat" where
  "unread_count d i staff = length (filter (\<lambda>t. counts_unread d staff t
     \<and> (if staff then tk_status t \<noteq> TClosed else tk_user_id t = i)) (tickets d))"

section \<open>The handlers\<close>

definition MAX_OPEN_TICKETS :: nat where "MAX_OPEN_TICKETS = 10"

definition get_ticket_row :: "db \<Rightarrow> int \<Rightarrow> ticket option" where
  "get_ticket_row d i = find (\<lambda>t. tk_id t = i) (tickets d)"

definition set_ticket :: "int \<Rightarrow> (ticket \<Rightarrow> ticket) \<Rightarrow> db \<Rightarrow> db" where
  "set_ticket i f d = d\<lparr>tickets := map_rows (\<lambda>t. tk_id t = i) f (tickets d)\<rparr>"

definition my_ticket :: "db \<Rightarrow> user \<Rightarrow> int \<Rightarrow> ticket option" where
  "my_ticket d u i = (case get_ticket_row d i of None \<Rightarrow> None
     | Some t \<Rightarrow> if tk_user_id t = u_id u then Some t else None)"

definition mark_read :: "bool \<Rightarrow> int \<Rightarrow> time \<Rightarrow> session \<Rightarrow> session" where
  "mark_read staff i now s =
     (let mark = (case last_message (cur s) i of Some m \<Rightarrow> tm_created_at m | None \<Rightarrow> now) in
      edit (set_ticket i (\<lambda>t. if staff then t\<lparr>tk_staff_read_at := Some mark\<rparr>
                              else t\<lparr>tk_user_read_at := Some mark\<rparr>)) s)"

definition add_message :: "int \<Rightarrow> int \<Rightarrow> bool \<Rightarrow> string \<Rightarrow> time \<Rightarrow> session \<Rightarrow> session" where
  "add_message i author staff body now s =
     (let s1 = next_id s in
      edit (\<lambda>d. d\<lparr>ticket_messages := ticket_messages d @
        [\<lparr>tm_id = seq s1, tm_ticket_id = i, tm_author_id = Some author, tm_from_staff = staff,
          tm_body = strip body, tm_created_at = now\<rparr>]\<rparr>) s1)"

text \<open>What the ticket handlers answer: a ticket, a list with its counts, or a refusal.\<close>

datatype ticket_answer =
  TicketIs ticket_view | TicketList "ticket_view list" | TicketOk | TicketRefused int string

definition show_ticket :: "db \<Rightarrow> bool \<Rightarrow> int \<Rightarrow> ticket_answer" where
  "show_ticket d staff i = (case get_ticket_row d i of
     Some t \<Rightarrow> TicketIs (ticket_json d staff True t) | None \<Rightarrow> TicketRefused 404 ''no_such_ticket'')"

definition open_tickets :: "db \<Rightarrow> int \<Rightarrow> nat" where
  "open_tickets d i = length (filter (\<lambda>t. tk_user_id t = i \<and> tk_status t \<noteq> TClosed) (tickets d))"

definition create_ticket :: "user \<Rightarrow> string \<Rightarrow> string \<Rightarrow> time \<Rightarrow> session \<Rightarrow> ticket_answer \<times> session" where
  "create_ticket u subject body now s =
     (if MAX_OPEN_TICKETS \<le> open_tickets (cur s) (u_id u) then (TicketRefused 409 ''too_many_tickets'', s)
      else
        let s1 = next_id s; i = seq s1;
            t = \<lparr>tk_id = i, tk_user_id = u_id u, tk_subject = strip subject, tk_status = TOpen,
                 tk_created_at = now, tk_updated_at = now, tk_user_read_at = None, tk_staff_read_at = None\<rparr>;
            s2 = add_message i (u_id u) False body now (edit (\<lambda>d. d\<lparr>tickets := tickets d @ [t]\<rparr>) s1);
            s3 = commit (mark_read False i now s2);
            s4 = notify_admins now ''admin_ticket_opened'' (Some (''newticket:'' @ show_int i)) s3;
            s5 = audit (Some (u_id u)) ''ticket_opened'' (Some (''#'' @ show_int i)) s4
        in (show_ticket (cur s5) False i, s5))"

definition list_tickets :: "user \<Rightarrow> session \<Rightarrow> ticket_answer" where
  "list_tickets u s = TicketList (map (ticket_json (cur s) False False)
     (sort_key (\<lambda>t. - tk_updated_at t) (filter (\<lambda>t. tk_user_id t = u_id u) (tickets (cur s)))))"

definition get_ticket :: "user \<Rightarrow> int \<Rightarrow> session \<Rightarrow> ticket_answer" where
  "get_ticket u i s = (case my_ticket (cur s) u i of
     None \<Rightarrow> TicketRefused 404 ''no_such_ticket'' | Some t \<Rightarrow> TicketIs (ticket_json (cur s) False True t))"

definition read_ticket :: "user \<Rightarrow> int \<Rightarrow> time \<Rightarrow> session \<Rightarrow> ticket_answer \<times> session" where
  "read_ticket u i now s = (case my_ticket (cur s) u i of
     None \<Rightarrow> (TicketRefused 404 ''no_such_ticket'', s) | Some t \<Rightarrow> (TicketOk, commit (mark_read False i now s)))"

definition touch :: "ticket_status \<Rightarrow> time \<Rightarrow> ticket \<Rightarrow> ticket" where
  "touch st now t = t\<lparr>tk_status := st, tk_updated_at := now\<rparr>"

definition reply_ticket :: "user \<Rightarrow> int \<Rightarrow> string \<Rightarrow> time \<Rightarrow> session \<Rightarrow> ticket_answer \<times> session" where
  "reply_ticket u i body now s = (case my_ticket (cur s) u i of
     None \<Rightarrow> (TicketRefused 404 ''no_such_ticket'', s)
   | Some t \<Rightarrow>
       let s1 = mark_read False i now (add_message i (u_id u) False body now s);
           s2 = commit (edit (set_ticket i (touch TOpen now)) s1)
       in (show_ticket (cur s2) False i, s2))"

section \<open>The staff's side\<close>

definition admin_list_tickets :: "ticket_status option \<Rightarrow> session \<Rightarrow> ticket_answer" where
  "admin_list_tickets st s = TicketList (map (ticket_json (cur s) True False)
     (take 300 (sort_key (\<lambda>t. - tk_updated_at t)
       (filter (\<lambda>t. case st of None \<Rightarrow> True | Some x \<Rightarrow> tk_status t = x) (tickets (cur s))))))"

definition admin_get_ticket :: "int \<Rightarrow> session \<Rightarrow> ticket_answer" where
  "admin_get_ticket i s = show_ticket (cur s) True i"

definition admin_read_ticket :: "int \<Rightarrow> time \<Rightarrow> session \<Rightarrow> ticket_answer \<times> session" where
  "admin_read_ticket i now s = (case get_ticket_row (cur s) i of
     None \<Rightarrow> (TicketRefused 404 ''no_such_ticket'', s) | Some t \<Rightarrow> (TicketOk, commit (mark_read True i now s)))"

text \<open>The announcement: a notification and a message, both keyed by the message; an exception undoes
  what is not committed and is swallowed.\<close>

definition announce_ticket_reply :: "int \<Rightarrow> time \<Rightarrow> session \<Rightarrow> session" where
  "announce_ticket_reply i now s = (case (get_ticket_row (cur s) i, last_message (cur s) i) of
       (Some t, Some m) \<Rightarrow>
         (let s1 = emit now (tk_user_id t) ''support'' ''support_reply'' ''info''
                     (Some (''/console/support/'' @ show_int i))
                     (Some (''ticket:'' @ show_int i @ '':reply:'' @ show_int (tm_id m))) s in
          case get_user (cur s1) (tk_user_id t) of
            Some owner \<Rightarrow>
              (if u_phone owner \<noteq> None \<and> u_phone owner \<noteq> Some []
               then (case queue now (Some (u_id owner)) (u_phone owner) ''ticket_replied''
                            (Some (''ticketreply:'' @ show_int (tm_id m))) (Some owner) s1 of
                       (Inl _, _) \<Rightarrow> rollback s1 | (Inr _, s2) \<Rightarrow> commit s2)
               else commit s1)
          | None \<Rightarrow> commit s1)
     | _ \<Rightarrow> s)"

definition admin_reply_ticket :: "int \<Rightarrow> int \<Rightarrow> string \<Rightarrow> time \<Rightarrow> session \<Rightarrow> ticket_answer \<times> session" where
  "admin_reply_ticket admin i body now s = (case get_ticket_row (cur s) i of
     None \<Rightarrow> (TicketRefused 404 ''no_such_ticket'', s)
   | Some t \<Rightarrow>
       let s1 = mark_read True i now (add_message i admin True body now s);
           s2 = commit (edit (set_ticket i
                  (touch (if tk_status t = TClosed then TClosed else TAnswered) now)) s1);
           s3 = audit (Some admin) ''ticket_replied'' (Some (''#'' @ show_int i)) (announce_ticket_reply i now s2)
       in (show_ticket (cur s3) True i, s3))"

definition admin_ticket_status :: "int \<Rightarrow> int \<Rightarrow> ticket_status \<Rightarrow> time \<Rightarrow> session \<Rightarrow> ticket_answer \<times> session" where
  "admin_ticket_status admin i st now s = (case get_ticket_row (cur s) i of
     None \<Rightarrow> (TicketRefused 404 ''no_such_ticket'', s)
   | Some t \<Rightarrow>
       let s1 = commit (edit (set_ticket i (touch st now)) s);
           s2 = (if st = TClosed \<and> tk_status t \<noteq> TClosed
                 then (case get_user (cur s1) (tk_user_id t) of None \<Rightarrow> s1
                   | Some owner \<Rightarrow> (case queue now (Some (u_id owner)) (u_phone owner) ''ticket_closed''
                            (Some (''ticketclosed:'' @ show_int i)) (Some owner) s1 of
                         (Inl _, _) \<Rightarrow> s1 | (Inr _, s') \<Rightarrow> commit s'))
                 else s1);
           s3 = audit (Some admin) ''ticket_status'' (Some (''#'' @ show_int i)) s2
       in (show_ticket (cur s3) True i, s3))"

section \<open>The messages stay in order\<close>

definition messages_ok :: "session \<Rightarrow> bool" where
  "messages_ok s \<longleftrightarrow> sorted_wrt (<) (map tm_id (ticket_messages (cur s)))
     \<and> (\<forall>m \<in> set (ticket_messages (cur s)). tm_id m \<le> seq s)"

definition same_messages :: "session \<Rightarrow> session \<Rightarrow> bool" where
  "same_messages s s' \<longleftrightarrow> ticket_messages (cur s') = ticket_messages (cur s) \<and> seq s \<le> seq s'"

lemma same_messages_simps [simp]:
  "same_messages s s" "same_messages s (commit t) = same_messages s t"
  "same_messages s (audit a b c t) = same_messages s t" "same_messages s (mark_read f i now t) = same_messages s t"
  "same_messages s (edit (set_ticket i g) t) = same_messages s t"
  by (simp_all add: same_messages_def audit_def mark_read_def set_ticket_def Let_def)

lemma same_messages_trans: "same_messages s t \<Longrightarrow> same_messages t s' \<Longrightarrow> same_messages s s'"
  by (simp add: same_messages_def)

lemma same_messages_ok: "same_messages s s' \<Longrightarrow> messages_ok s \<Longrightarrow> messages_ok s'"
  by (fastforce simp: same_messages_def messages_ok_def)

lemma same_messages_queue: "queue now i p k key u s = (r, s') \<Longrightarrow> same_messages s s'"
  by (auto simp: queue_def same_messages_def Let_def split: if_splits option.splits sum.splits)

lemma same_messages_fold: "(\<And>x t. same_messages t (f x t)) \<Longrightarrow> same_messages s (fold f xs s)"
  by (induction xs arbitrary: s) (auto intro: same_messages_trans)

lemma same_messages_notify: "same_messages s (notify_admins now k key s)"
  unfolding notify_admins_def
  by (simp, rule same_messages_fold) (metis same_messages_queue prod.collapse)

lemma same_messages_emit: "same_messages s (emit now u k c v h key s)"
  unfolding emit_def by (auto simp: same_messages_def set_notification_def Let_def split: option.split)

lemma emit_clean: "clean s \<Longrightarrow> clean (emit now u k c v h key s)"
  unfolding emit_def by (auto simp: Let_def split: option.split)

lemma same_messages_announce: "clean s \<Longrightarrow> same_messages s (announce_ticket_reply i now s)"
proof -
  assume "clean s"
  have e: "same_messages s (emit now a b c d h k s)" "rollback (emit now a b c d h k s) = emit now a b c d h k s"
    for a b c d h k
    using same_messages_emit rollback_clean [OF emit_clean [OF \<open>clean s\<close>]] by blast+
  show ?thesis
    unfolding announce_ticket_reply_def Let_def
    by (auto simp: e dest!: same_messages_queue intro: same_messages_trans [OF e(1)]
        split: option.split prod.split sum.split)
qed

lemma messages_ok_simps [simp]:
  "messages_ok (commit s) = messages_ok s" "messages_ok (audit a b c s) = messages_ok s"
  "messages_ok (mark_read f i now s) = messages_ok s" "messages_ok (edit (set_ticket i g) s) = messages_ok s"
  by (simp_all add: messages_ok_def audit_def mark_read_def set_ticket_def Let_def)

lemma add_message_ok: "messages_ok s \<Longrightarrow> messages_ok (add_message i a f b now s)"
  by (fastforce simp: messages_ok_def add_message_def Let_def sorted_wrt_append)

inductive ticket_step :: "session \<Rightarrow> session \<Rightarrow> bool" where
  opens: "ticket_step s (snd (create_ticket u subject body now s))"
| reads: "ticket_step s (snd (read_ticket u i now s))"
| replies: "ticket_step s (snd (reply_ticket u i body now s))"
| staff_reads: "ticket_step s (snd (admin_read_ticket i now s))"
| staff_replies: "ticket_step s (snd (admin_reply_ticket a i body now s))"
| staff_sets: "ticket_step s (snd (admin_ticket_status a i st now s))"
| erases: "ticket_step s (commit (edit (erase_threads i) s))"
| elsewhere: "same_messages s s' \<Longrightarrow> ticket_step s s'"

lemma create_ticket_ok: "messages_ok s \<Longrightarrow> messages_ok (snd (create_ticket u subject body now s))"
proof -
  assume ok: "messages_ok s"
  have base: "messages_ok (edit (\<lambda>d. d\<lparr>tickets := tickets d @ [t]\<rparr>) (next_id s))" for t
    using ok by (fastforce simp: messages_ok_def)
  have "messages_ok (commit (mark_read f i now (add_message j a g b now
      (edit (\<lambda>d. d\<lparr>tickets := tickets d @ [t]\<rparr>) (next_id s)))))" for f i j a g b t
    by (simp add: add_message_ok base)
  from same_messages_ok [OF same_messages_notify this] ok show ?thesis
    by (auto simp: create_ticket_def Let_def intro: same_messages_ok [rotated])
qed

lemma reply_ok:
  "messages_ok s \<Longrightarrow> messages_ok (snd (reply_ticket u i body now s))"
  "messages_ok s \<Longrightarrow> messages_ok (snd (admin_reply_ticket a i body now s))"
proof -
  assume ok: "messages_ok s"
  have m: "messages_ok (commit (edit (set_ticket i g) (mark_read f i now (add_message i x b body now s))))" for g f x b
    by (simp add: add_message_ok ok)
  then show "messages_ok (snd (reply_ticket u i body now s))"
    using ok by (simp add: reply_ticket_def Let_def split: option.split)
  have "messages_ok (announce_ticket_reply i now
      (commit (edit (set_ticket i g) (mark_read True i now (add_message i x b body now s)))))" for g x b
    by (rule same_messages_ok [OF same_messages_announce m]) simp
  then have "messages_ok (audit p q r (announce_ticket_reply i now
      (commit (edit (set_ticket i g) (mark_read True i now (add_message i x b body now s))))))" for g x b p q r
    by simp
  with ok show "messages_ok (snd (admin_reply_ticket a i body now s))"
    by (simp add: admin_reply_ticket_def Let_def split: option.split)
qed

lemma status_ok: "same_messages s (snd (admin_ticket_status a i st now s))"
  by (auto simp: admin_ticket_status_def Let_def dest!: same_messages_queue intro: same_messages_trans [rotated]
      split: option.splits prod.splits sum.splits)

lemma erase_threads_ok: "messages_ok s \<Longrightarrow> messages_ok (edit (erase_threads i) s)"
  by (auto simp: messages_ok_def erase_threads_def sorted_wrt_map sorted_wrt_filter)

lemma ticket_step_ok: "ticket_step s s' \<Longrightarrow> messages_ok s \<Longrightarrow> messages_ok s'"
proof (induction rule: ticket_step.induct)
  case (staff_sets s a i st now)
  then show ?case using status_ok by (rule same_messages_ok [rotated])
next
  case (reads s u i now)
  have "same_messages s (snd (read_ticket u i now s))" by (simp add: read_ticket_def split: option.split)
  then show ?case using reads by (rule same_messages_ok)
next
  case (staff_reads s i now)
  have "same_messages s (snd (admin_read_ticket i now s))" by (simp add: admin_read_ticket_def split: option.split)
  then show ?case using staff_reads by (rule same_messages_ok)
qed (simp_all add: create_ticket_ok reply_ok erase_threads_ok same_messages_ok)

lemma ticket_steps_ok: "ticket_step\<^sup>*\<^sup>* s s' \<Longrightarrow> messages_ok s \<Longrightarrow> messages_ok s'"
  by (induction rule: rtranclp_induct) (auto intro: ticket_step_ok)

section \<open>The badge and the list agree\<close>

lemma fold_max_sorted: "sorted_wrt (<) (x # xs) \<Longrightarrow> fold max xs (x :: int) = last (x # xs)"
  by (induction xs arbitrary: x) auto

lemma max_id_last:
  assumes "sorted_wrt (<) (map tm_id ms)" and "ms \<noteq> []" shows "max_id ms = Some (tm_id (last ms))"
proof -
  obtain m ms' where ms: "ms = m # ms'" using assms(2) by (cases ms) auto
  have "fold max (map tm_id ms') (tm_id m) = last (map tm_id ms)"
    using fold_max_sorted [of "tm_id m" "map tm_id ms'"] assms(1) ms by simp
  also have "\<dots> = tm_id (last ms)" using assms(2) by (rule last_map)
  finally show ?thesis using ms by (simp add: max_id_def)
qed

lemma find_by_key: "distinct (map f xs) \<Longrightarrow> x \<in> set xs \<Longrightarrow> find (\<lambda>y. f y = f x) xs = Some x"
  by (induction xs) (auto simp: image_iff)

lemma newest_is_last:
  assumes "messages_ok s" shows "newest_message (cur s) i = last_message (cur s) i"
proof (cases "messages_of (cur s) i = []")
  case True
  then show ?thesis by (simp add: newest_message_def last_message_def max_id_def)
next
  case False
  let ?all = "ticket_messages (cur s)" and ?m = "last (messages_of (cur s) i)"
  have sorted: "sorted_wrt (<) (map tm_id ?all)" using assms by (simp add: messages_ok_def)
  then have "sorted_wrt (<) (map tm_id (messages_of (cur s) i))"
    by (simp add: messages_of_def sorted_wrt_map sorted_wrt_filter)
  from max_id_last [OF this False] have mx: "max_id (messages_of (cur s) i) = Some (tm_id ?m)" .
  have m: "?m \<in> set ?all" using last_in_set [OF False] by (simp add: messages_of_def)
  have "distinct (map tm_id ?all)" using sorted strict_sorted_iff by blast
  then have "find (\<lambda>m. tm_id m = tm_id ?m) ?all = Some ?m" using m by (rule find_by_key)
  then show ?thesis using mx False by (simp add: newest_message_def last_message_def)
qed

lemma counts_unread_view:
  assumes "messages_ok s" shows "counts_unread (cur s) staff t = tv_unread (ticket_json (cur s) staff b t)"
  using newest_is_last [OF assms, of "tk_id t"]
  by (auto simp: counts_unread_def ticket_json_def is_unread_def Let_def split: option.splits)

lemma length_filter_sort_key: "length (filter P (sort_key f xs)) = length (filter P xs)"
  by (simp add: filter_sort)

text \<open>C17. The badge agrees with the pages: after any history of opening, answering, reading, closing and
  erasing, the count of the one query equals the number of threads the customer's list shows as unread,
  and for the staff the number of threads that are unread to them and not closed.\<close>
theorem badge_equals_list:
  assumes "ticket_step\<^sup>*\<^sup>* s0 s" and "messages_ok s0" and "list_tickets u s = TicketList views"
  shows "unread_count (cur s) (u_id u) False = length (filter tv_unread views)
    \<and> unread_count (cur s) (u_id u) True = length (filter
        (\<lambda>t. tk_status t \<noteq> TClosed \<and> tv_unread (ticket_json (cur s) True False t)) (tickets (cur s)))"
proof
  note view = counts_unread_view [OF ticket_steps_ok [OF assms(1,2)]]
  have views: "views = map (ticket_json (cur s) False False)
     (sort_key (\<lambda>t. - tk_updated_at t) (filter (\<lambda>t. tk_user_id t = u_id u) (tickets (cur s))))"
    using assms(3) by (simp add: list_tickets_def)
  have "length (filter tv_unread views) = length (filter (\<lambda>t. tv_unread (ticket_json (cur s) False False t))
      (filter (\<lambda>t. tk_user_id t = u_id u) (tickets (cur s))))"
    unfolding views filter_map length_map comp_def by (rule length_filter_sort_key)
  then show "unread_count (cur s) (u_id u) False = length (filter tv_unread views)"
    by (simp add: unread_count_def view [of False _ False] conj_commute)
  show "unread_count (cur s) (u_id u) True = length (filter
      (\<lambda>t. tk_status t \<noteq> TClosed \<and> tv_unread (ticket_json (cur s) True False t)) (tickets (cur s)))"
    by (simp add: unread_count_def view [of True _ False] conj_commute)
qed

text \<open>One customer opens a thread, and the staff answer it a second later.\<close>

definition a_customer :: user where
  "a_customer = new_user 3 ''sara'' ''x'' \<lparr>su_password = ''p'', su_username = ''sara'', su_full_name = ''Sara'',
     su_phone = ''09120000000'', su_code = ''1''\<rparr> False"

definition thread_open :: session where
  "thread_open = snd (create_ticket a_customer ''Disk full'' ''Help'' 100
     (open_session (empty_db\<lparr>users := [a_customer]\<rparr>) 10))"

definition thread_answered :: session where
  "thread_answered = snd (admin_reply_ticket 1 11 ''Resized'' (100 + second) thread_open)"

lemma thread_views:
  "\<exists>v. list_tickets a_customer thread_answered = TicketList [v] \<and> tv_unread v"
proof -
  have "case list_tickets a_customer thread_answered of TicketList vs \<Rightarrow> map tv_unread vs = [True] | _ \<Rightarrow> False"
    by code_simp
  then show ?thesis by (auto split: ticket_answer.splits)
qed

theorem badge_equals_list_witness:
  "unread_count (cur thread_answered) 3 False = 1"
proof -
  have "ticket_step thread_open thread_answered"
    unfolding thread_answered_def by (rule ticket_step.staff_replies)
  moreover have "ticket_step (open_session (empty_db\<lparr>users := [a_customer]\<rparr>) 10) thread_open"
    unfolding thread_open_def by (rule ticket_step.opens)
  ultimately have "ticket_step\<^sup>*\<^sup>* (open_session (empty_db\<lparr>users := [a_customer]\<rparr>) 10) thread_answered" by simp
  moreover have "messages_ok (open_session (empty_db\<lparr>users := [a_customer]\<rparr>) 10)"
    by (simp add: messages_ok_def empty_db_def)
  moreover obtain v where "list_tickets a_customer thread_answered = TicketList [v]" "tv_unread v"
    using thread_views by blast
  ultimately show ?thesis
    using badge_equals_list [of _ thread_answered a_customer "[v]"] by (simp add: a_customer_def new_user_def)
qed

end
