(* ===== verification/CustomerData.thy ===== *)
theory CustomerData
  imports Accounts
begin

text \<open>
  \<open>control/mmd/customerdata.py\<close>: everything the platform holds about one customer, for the support
  agent. A row is its columns with their values as JSON; a timestamp is its number, a wide or nested
  column (\<open>detail\<close>, the message preferences) is left out, as the records of \<open>Models\<close> leave it out.
  The columns of a table are those of its record, in the order of the class.
\<close>

type_synonym columns = "(string \<times> json) list"

section \<open>What is held back\<close>

definition REDACTED :: "(string \<times> string list) list" where
  "REDACTED = [
     (''users'', [''password_hash'', ''telegram_bot_token'']),
     (''openrouter_accounts'', [''key'', ''key_hash'']),
     (''workspaces'', [''hermes_key'', ''hermes_key_hash'', ''hermes_dash_password'',
        ''hermes_telegram_token'', ''openclaw_password'', ''opencode_password'', ''openwebui_password'']),
     (''sms_codes'', [''*''])]"

definition NOT_PER_CUSTOMER :: "string list" where
  "NOT_PER_CUSTOMER = [''settings'', ''ai_model_prices'', ''login_attempts'', ''sms_codes'']"

definition hidden :: "string \<Rightarrow> string list" where
  "hidden table = (case map_of REDACTED table of None \<Rightarrow> [] | Some cs \<Rightarrow> cs)"

text \<open>\<open>exportable_columns\<close>, as a restriction of a row.\<close>

definition exportable :: "string \<Rightarrow> columns \<Rightarrow> columns" where
  "exportable table row = (if ''*'' \<in> set (hidden table) then []
     else filter (\<lambda>c. fst c \<notin> set (hidden table)) row)"

section \<open>Rows as columns\<close>

definition text_cell :: "string option \<Rightarrow> json" where
  "text_cell x = (case x of None \<Rightarrow> JNull | Some s \<Rightarrow> JStr s)"

definition int_cell :: "int option \<Rightarrow> json" where
  "int_cell x = (case x of None \<Rightarrow> JNull | Some n \<Rightarrow> JInt n)"

definition float_cell :: "rat option \<Rightarrow> json" where
  "float_cell x = (case x of None \<Rightarrow> JNull | Some r \<Rightarrow> JFloat r)"

text \<open>The tables are read as SQL text, so a column of an enumeration holds the name of the member, as
  the type \<open>Enum\<close> stores it, and not its value.\<close>

fun user_status_name :: "user_status \<Rightarrow> string" where
  "user_status_name UPending = ''PENDING''"
| "user_status_name UApproved = ''APPROVED''"
| "user_status_name URejected = ''REJECTED''"
| "user_status_name USuspended = ''SUSPENDED''"
| "user_status_name UDeleting = ''DELETING''"

fun ws_state_name :: "ws_state \<Rightarrow> string" where
  "ws_state_name PROVISIONING = ''PROVISIONING''"
| "ws_state_name OFF = ''OFF''"
| "ws_state_name STARTING = ''STARTING''"
| "ws_state_name ON = ''ON''"
| "ws_state_name STOPPING = ''STOPPING''"
| "ws_state_name RESETTING = ''RESETTING''"
| "ws_state_name ARCHIVING = ''ARCHIVING''"
| "ws_state_name ARCHIVED = ''ARCHIVED''"
| "ws_state_name DELETING = ''DELETING''"
| "ws_state_name DELETED = ''DELETED''"
| "ws_state_name ERROR = ''ERROR''"

fun ticket_status_name :: "ticket_status \<Rightarrow> string" where
  "ticket_status_name TOpen = ''OPEN''"
| "ticket_status_name TWaitingForUser = ''WAITING_FOR_USER''"
| "ticket_status_name TAnswered = ''ANSWERED''"
| "ticket_status_name TEscalated = ''ESCALATED''"
| "ticket_status_name TClosed = ''CLOSED''"

fun tx_kind_name :: "tx_kind \<Rightarrow> string" where
  "tx_kind_name GRANT = ''GRANT''"
| "tx_kind_name CHARGE_HOUR = ''CHARGE_HOUR''"
| "tx_kind_name CHARGE_PARTIAL = ''CHARGE_PARTIAL''"
| "tx_kind_name CHARGE_AI = ''CHARGE_AI''"
| "tx_kind_name CHARGE_HERMES = ''CHARGE_HERMES''"
| "tx_kind_name CHARGE_CODEX = ''CHARGE_CODEX''"
| "tx_kind_name ADJUSTMENT = ''ADJUSTMENT''"

fun port_kind_name :: "port_kind \<Rightarrow> string" where
  "port_kind_name PUser = ''USER''" | "port_kind_name PSsh = ''SSH''" | "port_kind_name PRdp = ''RDP''"

definition user_row :: "user \<Rightarrow> columns" where
  "user_row u = [(''id'', JInt (u_id u)), (''username'', JStr (u_username u)),
     (''full_name'', text_cell (u_full_name u)), (''phone'', text_cell (u_phone u)),
     (''sms_credit_step_toman'', JInt (u_sms_credit_step_toman u)),
     (''sms_credit_band'', int_cell (u_sms_credit_band u)),
     (''telegram_bot_token'', text_cell (u_telegram_bot_token u)),
     (''telegram_user_id'', text_cell (u_telegram_user_id u)),
     (''password_hash'', JStr (u_password_hash u)), (''session_version'', JInt (u_session_version u)),
     (''is_admin'', JBool (u_is_admin u)), (''status'', JStr (user_status_name (u_status u))),
     (''approved_at'', int_cell (u_approved_at u)), (''approved_by'', int_cell (u_approved_by u))]"

definition openrouter_row :: "openrouter_account \<Rightarrow> columns" where
  "openrouter_row a = [(''user_id'', JInt (oa_user_id a)), (''key_hash'', text_cell (oa_key_hash a)),
     (''key'', text_cell (oa_key a)), (''usage_usd'', JFloat (oa_usage_usd a)),
     (''credit_blocked'', JBool (oa_credit_blocked a)), (''limit_dirty'', JBool (oa_limit_dirty a)),
     (''limit_usd'', float_cell (oa_limit_usd a)), (''limit_synced_at'', int_cell (oa_limit_synced_at a)),
     (''error'', text_cell (oa_error a))]"

definition hermes_columns :: "hermes_cols \<Rightarrow> columns" where
  "hermes_columns h = [(''hermes_enabled'', JBool (h_enabled h)), (''hermes_installed'', JBool (h_installed h)),
     (''hermes_dash_user'', text_cell (h_dash_user h)), (''hermes_dash_password'', text_cell (h_dash_password h)),
     (''hermes_vhost_ready'', JBool (h_vhost_ready h)), (''hermes_error'', text_cell (h_error h)),
     (''hermes_telegram_enabled'', JBool (h_telegram_enabled h)),
     (''hermes_telegram_installed'', JBool (h_telegram_installed h)),
     (''hermes_telegram_token'', text_cell (h_telegram_token h)),
     (''hermes_telegram_users'', text_cell (h_telegram_users h)),
     (''hermes_telegram_error'', text_cell (h_telegram_error h))]"

definition openclaw_columns :: "openclaw_cols \<Rightarrow> columns" where
  "openclaw_columns c = [(''openclaw_enabled'', JBool (oc_enabled c)),
     (''openclaw_installed'', JBool (oc_installed c)), (''openclaw_password'', text_cell (oc_password c)),
     (''openclaw_error'', text_cell (oc_error c)),
     (''openclaw_telegram_enabled'', JBool (oc_telegram_enabled c)),
     (''openclaw_telegram_installed'', JBool (oc_telegram_installed c)),
     (''openclaw_telegram_error'', text_cell (oc_telegram_error c))]"

definition web_columns :: "string \<Rightarrow> web_cols \<Rightarrow> columns" where
  "web_columns n b = [(n @ ''_enabled'', JBool (wb_enabled b)), (n @ ''_installed'', JBool (wb_installed b)),
     (n @ ''_password'', text_cell (wb_password b)), (n @ ''_error'', text_cell (wb_error b)),
     (n @ ''_vhost_ready'', JBool (wb_vhost_ready b))]"

definition workspace_row :: "workspace \<Rightarrow> columns" where
  "workspace_row w = [(''id'', JInt (w_id w)), (''user_id'', JInt (w_user_id w)), (''idx'', JInt (w_idx w)),
     (''incus_project'', JStr (w_incus_project w)), (''instance'', JStr (w_instance w)),
     (''state'', JStr (ws_state_name (w_state w))), (''desired_on'', JBool (w_desired_on w)),
     (''cpu_milli'', JInt (w_cpu_milli w)), (''mem_mib'', JInt (w_mem_mib w)),
     (''root_gib'', JInt (w_root_gib w)), (''docker_gib'', JInt (w_docker_gib w)),
     (''created_at'', JInt (w_created_at w)), (''started_at'', int_cell (w_started_at w)),
     (''period_start'', int_cell (w_period_start w)), (''archived_at'', int_cell (w_archived_at w)),
     (''purge_after'', int_cell (w_purge_after w)), (''last_activity'', int_cell (w_last_activity w)),
     (''auto_stop_at'', int_cell (w_auto_stop_at w)), (''error'', text_cell (w_error w)),
     (''ssh_enabled'', JBool (w_ssh_enabled w)), (''ssh_keys'', text_cell (w_ssh_keys w)),
     (''rdp_enabled'', JBool (w_rdp_enabled w)), (''rdp_installed'', JBool (w_rdp_installed w)),
     (''disk_used_mib'', int_cell (w_disk_used_mib w)), (''disk_checked_at'', int_cell (w_disk_checked_at w))]
   @ hermes_columns (w_hermes w) @ openclaw_columns (w_openclaw w)
   @ web_columns ''opencode'' (w_opencode w) @ web_columns ''openwebui'' (w_openwebui w)"

definition account_row :: "credit_account \<Rightarrow> columns" where
  "account_row a = [(''user_id'', JInt (ca_user_id a)), (''balance_micro'', JInt (ca_balance_micro a))]"

definition transaction_row :: "transaction \<Rightarrow> columns" where
  "transaction_row t = [(''id'', JInt (tx_id t)), (''user_id'', JInt (tx_user_id t)),
     (''workspace_id'', int_cell (tx_workspace_id t)), (''kind'', JStr (tx_kind_name (tx_kind t))),
     (''amount_micro'', JInt (tx_amount_micro t)), (''period_start'', int_cell (tx_period_start t)),
     (''scope_key'', text_cell (tx_scope_key t))]"

definition sample_row :: "usage_sample \<Rightarrow> columns" where
  "sample_row r = [(''workspace_id'', JInt (us_workspace_id r)), (''ts'', JInt (us_ts r)),
     (''cpu_seconds_total'', JFloat (us_cpu_seconds_total r)), (''mem_bytes'', JInt (us_mem_bytes r))]"

definition port_row :: "exposed_port \<Rightarrow> columns" where
  "port_row p = [(''id'', JInt (ep_id p)), (''workspace_id'', JInt (ep_workspace_id p)),
     (''internal_port'', JInt (ep_internal_port p)), (''external_port'', JInt (ep_external_port p)),
     (''protocol'', JStr (ep_protocol p)), (''kind'', JStr (port_kind_name (ep_kind p))),
     (''device'', JStr (ep_device p)), (''note'', text_cell (ep_note p)), (''web_ready'', JBool (ep_web_ready p))]"

definition ssh_key_row :: "ssh_key \<Rightarrow> columns" where
  "ssh_key_row k = [(''id'', JInt (sk_id k)), (''workspace_id'', JInt (sk_workspace_id k)),
     (''key_type'', JStr (sk_key_type k)), (''body'', JStr (sk_body k)),
     (''comment'', text_cell (sk_comment k)), (''fingerprint'', JStr (sk_fingerprint k))]"

definition audit_row :: "audit_entry \<Rightarrow> columns" where
  "audit_row a = [(''actor_id'', int_cell (au_actor_id a)), (''action'', JStr (au_action a)),
     (''target'', text_cell (au_target a))]"

definition operation_row :: "operation \<Rightarrow> columns" where
  "operation_row p = [(''id'', JInt (op_id p)), (''user_id'', int_cell (op_user_id p)),
     (''workspace_id'', int_cell (op_workspace_id p)), (''actor_id'', int_cell (op_actor_id p)),
     (''kind'', JStr (op_kind p)), (''status'', JStr (op_status p)),
     (''progress_code'', JStr (op_progress_code p)), (''error_code'', text_cell (op_error_code p)),
     (''finished_at'', int_cell (op_finished_at p))]"

definition contact_row :: "bale_contact \<Rightarrow> columns" where
  "contact_row c = [(''phone'', JStr (bc_phone c)), (''chat_id'', JInt (bc_chat_id c)),
     (''display_name'', text_cell (bc_display_name c))]"

definition sms_row :: "sms_message \<Rightarrow> columns" where
  "sms_row m = [(''id'', JInt (sm_id m)), (''user_id'', int_cell (sm_user_id m)), (''phone'', JStr (sm_phone m)),
     (''kind'', JStr (sm_kind m)), (''status'', JStr (sm_status m)), (''attempts'', JInt (sm_attempts m)),
     (''error'', text_cell (sm_error m)), (''provider_message_id'', text_cell (sm_provider_message_id m)),
     (''dedupe_key'', text_cell (sm_dedupe_key m)), (''next_attempt_at'', int_cell (sm_next_attempt_at m)),
     (''created_at'', JInt (sm_created_at m)), (''sent_at'', int_cell (sm_sent_at m))]"

definition notification_row :: "notification \<Rightarrow> columns" where
  "notification_row n = [(''id'', JInt (nt_id n)), (''user_id'', JInt (nt_user_id n)),
     (''kind'', JStr (nt_kind n)), (''severity'', JStr (nt_severity n)), (''code'', JStr (nt_code n)),
     (''href'', text_cell (nt_href n)), (''dedupe_key'', text_cell (nt_dedupe_key n)),
     (''read_at'', int_cell (nt_read_at n)), (''resolved_at'', int_cell (nt_resolved_at n)),
     (''created_at'', JInt (nt_created_at n))]"

definition ticket_row :: "ticket \<Rightarrow> columns" where
  "ticket_row t = [(''id'', JInt (tk_id t)), (''user_id'', JInt (tk_user_id t)), (''subject'', JStr (tk_subject t)),
     (''status'', JStr (ticket_status_name (tk_status t))), (''created_at'', JInt (tk_created_at t)),
     (''updated_at'', JInt (tk_updated_at t)), (''user_read_at'', int_cell (tk_user_read_at t)),
     (''staff_read_at'', int_cell (tk_staff_read_at t))]"

definition message_row :: "ticket_message \<Rightarrow> columns" where
  "message_row m = [(''id'', JInt (tm_id m)), (''ticket_id'', JInt (tm_ticket_id m)),
     (''author_id'', int_cell (tm_author_id m)), (''from_staff'', JBool (tm_from_staff m)),
     (''body'', JStr (tm_body m)), (''created_at'', JInt (tm_created_at m))]"

text \<open>A mark stores one counter per kind of token.\<close>

fun category_column :: "category \<Rightarrow> string" where
  "category_column CatInput = ''input_tokens''"
| "category_column CatWrite5m = ''cache_write_5m_tokens''"
| "category_column CatWrite1h = ''cache_write_1h_tokens''"
| "category_column CatRead = ''cache_read_tokens''"
| "category_column CatOutput = ''output_tokens''"

definition mark_row :: "ai_usage_mark \<Rightarrow> columns" where
  "mark_row m = [(''workspace_id'', JInt (am_workspace_id m)), (''service'', JStr (am_service m)),
     (''session_id'', JStr (am_session_id m)), (''model'', JStr (am_model m)),
     (''billed_micro'', JInt (am_billed_micro m))]
   @ map (\<lambda>c. (category_column c, JInt (am_tokens m c))) CATEGORIES"

section \<open>The export\<close>

type_synonym tables = "(string \<times> columns list) list"

definition table_of :: "string \<Rightarrow> ('r \<Rightarrow> columns) \<Rightarrow> ('r \<Rightarrow> bool) \<Rightarrow> 'r list \<Rightarrow> tables" where
  "table_of name f own rs = [(name, map (\<lambda>r. exportable name (f r)) (filter own rs))]"

text \<open>The loop over the tables, in the order of their names: by customer, by the customer's machines
  (left out when there are none), by the customer's phone (left out when there is none).\<close>

definition export_tables :: "db \<Rightarrow> user \<Rightarrow> tables" where
  "export_tables d u =
     (let i = u_id u;
          ws = map w_id (filter (\<lambda>w. w_user_id w = i) (workspaces d));
          if_machine = (\<lambda>ts. if ws = [] then [] else ts)
      in if_machine (table_of ''ai_usage_marks'' mark_row (\<lambda>m. am_workspace_id m \<in> set ws) (ai_marks d))
       @ table_of ''audit_log'' audit_row (\<lambda>a. au_actor_id a = Some i) (audit_log d)
       @ (if has_text (u_phone u)
          then table_of ''bale_contacts'' contact_row (\<lambda>c. Some (bc_phone c) = u_phone u) (bale_contacts d)
          else [])
       @ table_of ''credit_accounts'' account_row (\<lambda>a. ca_user_id a = i) (credit_accounts d)
       @ table_of ''credit_transactions'' transaction_row (\<lambda>x. tx_user_id x = i) (transactions d)
       @ if_machine (table_of ''exposed_ports'' port_row (\<lambda>p. ep_workspace_id p \<in> set ws) (exposed_ports d))
       @ table_of ''notifications'' notification_row (\<lambda>n. nt_user_id n = i) (notifications d)
       @ table_of ''openrouter_accounts'' openrouter_row (\<lambda>a. oa_user_id a = i) (or_accounts d)
       @ table_of ''operations'' operation_row (\<lambda>p. op_user_id p = Some i) (operations d)
       @ table_of ''sms_messages'' sms_row (\<lambda>m. sm_user_id m = Some i) (sms_messages d)
       @ if_machine (table_of ''ssh_keys'' ssh_key_row (\<lambda>k. sk_workspace_id k \<in> set ws) (ssh_keys d))
       @ table_of ''ticket_messages'' message_row (\<lambda>m. tm_author_id m = Some i) (ticket_messages d)
       @ table_of ''tickets'' ticket_row (\<lambda>t. tk_user_id t = i) (tickets d)
       @ if_machine (table_of ''usage_samples'' sample_row (\<lambda>r. us_workspace_id r \<in> set ws) (samples d))
       @ table_of ''users'' user_row (\<lambda>v. u_id v = i) (users d)
       @ table_of ''workspaces'' workspace_row (\<lambda>w. w_user_id w = i) (workspaces d))"

definition open_ticket_usernames :: "db \<Rightarrow> string list" where
  "open_ticket_usernames d = map u_username (filter (\<lambda>u. u_username u \<noteq> []
     \<and> list_ex (\<lambda>t. tk_user_id t = u_id u \<and> tk_status t \<noteq> TClosed) (tickets d)) (users d))"

definition user_named :: "db \<Rightarrow> string \<Rightarrow> user option" where
  "user_named d n = find (\<lambda>u. u_username u = n) (users d)"

definition export :: "db \<Rightarrow> string \<Rightarrow> (string, tables) result" where
  "export d username =
     (case user_named d username of
        None \<Rightarrow> raise ''no customer of that name''
      | Some u \<Rightarrow> if username \<notin> set (open_ticket_usernames d) then raise ''no open ticket''
                  else return (export_tables d u))"

section \<open>What an export can depend on\<close>

definition blank_user :: "user \<Rightarrow> user" where
  "blank_user u = u\<lparr>u_password_hash := [], u_telegram_bot_token := None\<rparr>"

definition blank_openrouter :: "openrouter_account \<Rightarrow> openrouter_account" where
  "blank_openrouter a = a\<lparr>oa_key := None, oa_key_hash := None\<rparr>"

definition blank_workspace :: "workspace \<Rightarrow> workspace" where
  "blank_workspace w = w\<lparr>w_hermes := (w_hermes w)\<lparr>h_dash_password := None, h_telegram_token := None\<rparr>,
     w_openclaw := (w_openclaw w)\<lparr>oc_password := None\<rparr>,
     w_opencode := (w_opencode w)\<lparr>wb_password := None\<rparr>,
     w_openwebui := (w_openwebui w)\<lparr>wb_password := None\<rparr>\<rparr>"

text \<open>A customer's own rows with every credential erased, and nothing else.\<close>

definition own_view :: "user \<Rightarrow> db \<Rightarrow> db" where
  "own_view u d =
     (let i = u_id u; ws = map w_id (filter (\<lambda>w. w_user_id w = i) (workspaces d)) in
      \<lparr>users = map blank_user (filter (\<lambda>v. u_id v = i) (users d)),
       or_accounts = map blank_openrouter (filter (\<lambda>a. oa_user_id a = i) (or_accounts d)),
       workspaces = map blank_workspace (filter (\<lambda>w. w_user_id w = i) (workspaces d)),
       credit_accounts = filter (\<lambda>a. ca_user_id a = i) (credit_accounts d),
       transactions = filter (\<lambda>x. tx_user_id x = i) (transactions d),
       samples = filter (\<lambda>r. us_workspace_id r \<in> set ws) (samples d),
       exposed_ports = filter (\<lambda>p. ep_workspace_id p \<in> set ws) (exposed_ports d),
       ssh_keys = filter (\<lambda>k. sk_workspace_id k \<in> set ws) (ssh_keys d),
       settings = [], audit_log = filter (\<lambda>a. au_actor_id a = Some i) (audit_log d),
       operations = filter (\<lambda>p. op_user_id p = Some i) (operations d),
       bale_contacts = filter (\<lambda>c. Some (bc_phone c) = u_phone u) (bale_contacts d),
       sms_messages = filter (\<lambda>m. sm_user_id m = Some i) (sms_messages d),
       login_attempts = [], sms_codes = [],
       notifications = filter (\<lambda>n. nt_user_id n = i) (notifications d),
       tickets = filter (\<lambda>t. tk_user_id t = i) (tickets d),
       ticket_messages = filter (\<lambda>m. tm_author_id m = Some i) (ticket_messages d),
       ai_prices = [], ai_marks = filter (\<lambda>m. am_workspace_id m \<in> set ws) (ai_marks d)\<rparr>)"

lemma blank_simps [simp]:
  "u_id (blank_user u) = u_id u" "u_username (blank_user u) = u_username u" "u_phone (blank_user u) = u_phone u"
  "w_id (blank_workspace w) = w_id w" "w_user_id (blank_workspace w) = w_user_id w"
  "oa_user_id (blank_openrouter a) = oa_user_id a"
  by (simp_all add: blank_user_def blank_workspace_def blank_openrouter_def)

lemma filter_idem: "filter P (filter P xs) = filter P xs"
  by simp

lemma filter_map_kept: "(\<And>x. P (f x) = P x) \<Longrightarrow> filter P (map f (filter P xs)) = map f (filter P xs)"
  by (induction xs) auto

lemma map_ids_kept: "(\<And>x. g (f x) = g x) \<Longrightarrow> map g (map f xs) = map g xs"
  by (induction xs) auto

lemma hidden_simps:
  "hidden ''users'' = [''password_hash'', ''telegram_bot_token'']"
  "hidden ''openrouter_accounts'' = [''key'', ''key_hash'']"
  "hidden ''workspaces'' = [''hermes_key'', ''hermes_key_hash'', ''hermes_dash_password'',
     ''hermes_telegram_token'', ''openclaw_password'', ''opencode_password'', ''openwebui_password'']"
  by (simp_all add: hidden_def REDACTED_def)

text \<open>Erasing the credentials changes no exported column.\<close>

lemma exportable_blank:
  "exportable ''users'' (user_row (blank_user u)) = exportable ''users'' (user_row u)"
  "exportable ''openrouter_accounts'' (openrouter_row (blank_openrouter a))
     = exportable ''openrouter_accounts'' (openrouter_row a)"
  "exportable ''workspaces'' (workspace_row (blank_workspace w)) = exportable ''workspaces'' (workspace_row w)"
  by (simp_all add: exportable_def hidden_simps user_row_def blank_user_def openrouter_row_def
      blank_openrouter_def workspace_row_def hermes_columns_def openclaw_columns_def web_columns_def
      blank_workspace_def)

lemma export_tables_own_view: "export_tables (own_view u d) (blank_user u) = export_tables d u"
  by (simp add: export_tables_def own_view_def Let_def table_of_def filter_map_kept map_ids_kept
      exportable_blank)

definition waiting :: "db \<Rightarrow> int \<Rightarrow> bool" where
  "waiting d i \<longleftrightarrow> (\<exists>t \<in> set (tickets d). tk_user_id t = i \<and> tk_status t \<noteq> TClosed)"

lemma open_ticket_iff:
  "n \<in> set (open_ticket_usernames d) \<longleftrightarrow> n \<noteq> [] \<and> (\<exists>v \<in> set (users d). u_username v = n \<and> waiting d (u_id v))"
  by (auto simp: open_ticket_usernames_def waiting_def list_ex_iff)

lemma open_ticket_own_view:
  assumes "user_named d n = Some u" and "distinct (map u_username (users d))"
  shows "n \<in> set (open_ticket_usernames (own_view u d)) \<longleftrightarrow> n \<in> set (open_ticket_usernames d)"
proof -
  have u: "u \<in> set (users d)" "u_username u = n"
    using assms(1) by (auto simp: user_named_def dest: find_SomeD)
  have only: "v = u" if "v \<in> set (users d)" "u_username v = n" for v
    using that u assms(2) by (metis distinct_map inj_onD)
  have "tickets (own_view u d) = filter (\<lambda>t. tk_user_id t = u_id u) (tickets d)"
    by (simp add: own_view_def Let_def)
  then have same: "waiting (own_view u d) (u_id u) = waiting d (u_id u)"
    unfolding waiting_def by (simp only: set_filter) blast
  have S: "set (users (own_view u d)) = blank_user ` {v \<in> set (users d). u_id v = u_id u}"
    by (simp add: own_view_def Let_def)
  have "(\<exists>v \<in> set (users (own_view u d)). u_username v = n \<and> waiting (own_view u d) (u_id v))
      \<longleftrightarrow> (\<exists>x \<in> set (users d). u_id x = u_id u \<and> u_username x = n \<and> waiting (own_view u d) (u_id x))"
    unfolding S by (simp only: bex_simps blank_simps) blast
  also have "\<dots> \<longleftrightarrow> waiting d (u_id u)" unfolding same [symmetric] using u only by blast
  finally have "(\<exists>v \<in> set (users (own_view u d)). u_username v = n \<and> waiting (own_view u d) (u_id v))
      \<longleftrightarrow> waiting d (u_id u)" .
  moreover have "(\<exists>v \<in> set (users d). u_username v = n \<and> waiting d (u_id v)) \<longleftrightarrow> waiting d (u_id u)"
    using u only by blast
  ultimately show ?thesis unfolding open_ticket_iff by (simp only:)
qed

lemma user_named_own_view:
  assumes "user_named d n = Some u"
  shows "user_named (own_view u d) n = Some (blank_user u)"
proof -
  have "find (\<lambda>v. u_username v = n) vs = Some u \<Longrightarrow>
      find (\<lambda>v. u_username v = n) (map blank_user (filter (\<lambda>v. u_id v = u_id u) vs)) = Some (blank_user u)" for vs
    by (induction vs) (auto split: if_splits)
  with assms show ?thesis by (simp add: user_named_def own_view_def Let_def)
qed

lemma export_own_view:
  assumes "user_named d n = Some u" and "distinct (map u_username (users d))"
  shows "export d n = export (own_view u d) n"
  using assms open_ticket_own_view [OF assms]
  by (simp add: export_def user_named_own_view export_tables_own_view)

text \<open>C18. An export reveals the customer and nothing else. If two databases agree on a customer's own
  rows once all credentials are erased, the agent receives the same document, or the same refusal,
  from both: no other customer's row and no password, key or token can be learnt from an export.\<close>
theorem export_reveals_only_own:
  assumes "user_named d n = Some u" and "user_named d' n = Some u'"
    and "distinct (map u_username (users d))" and "distinct (map u_username (users d'))"
    and "own_view u d = own_view u' d'"
  shows "export d n = export d' n"
  using export_own_view [OF assms(1,3)] export_own_view [OF assms(2,4)] assms(5) by simp

definition asking_user :: user where
  "asking_user = \<lparr>u_id = 1, u_username = ''ali'', u_full_name = None, u_phone = Some ''09120000000'',
     u_sms_prefs = (\<lambda>_. None), u_sms_credit_step_toman = 0, u_sms_credit_band = None,
     u_telegram_bot_token = Some ''1:secret'', u_telegram_user_id = None, u_password_hash = ''scrypt'',
     u_session_version = 0, u_is_admin = False, u_status = UApproved, u_approved_at = None,
     u_approved_by = None\<rparr>"

definition asked_db :: "string \<Rightarrow> int \<Rightarrow> db" where
  "asked_db hash other_balance = empty_db\<lparr>
     users := [asking_user\<lparr>u_password_hash := hash\<rparr>, asking_user\<lparr>u_id := 2, u_username := ''sara''\<rparr>],
     credit_accounts := [\<lparr>ca_user_id = 1, ca_balance_micro = 7\<rparr>, \<lparr>ca_user_id = 2, ca_balance_micro = other_balance\<rparr>],
     tickets := [\<lparr>tk_id = 5, tk_user_id = 1, tk_subject = ''help'', tk_status = TOpen, tk_created_at = 0,
        tk_updated_at = 0, tk_user_read_at = None, tk_staff_read_at = None\<rparr>]\<rparr>"

theorem export_reveals_only_own_witness:
  "export (asked_db ''a'' 10) ''ali'' = export (asked_db ''b'' 99) ''ali''
     \<and> (\<exists>ts. export (asked_db ''a'' 10) ''ali'' = return ts)"
proof -
  have n: "user_named (asked_db h b) ''ali'' = Some (asking_user\<lparr>u_password_hash := h\<rparr>)" for h b
    by (simp add: user_named_def asked_db_def asking_user_def)
  have d: "distinct (map u_username (users (asked_db h b)))" for h b
    by (simp add: asked_db_def asking_user_def)
  have v: "own_view (asking_user\<lparr>u_password_hash := ''a''\<rparr>) (asked_db ''a'' 10)
      = own_view (asking_user\<lparr>u_password_hash := ''b''\<rparr>) (asked_db ''b'' 99)"
    by (simp add: own_view_def Let_def asked_db_def asking_user_def blank_user_def empty_db_def)
  have "''ali'' \<in> set (open_ticket_usernames (asked_db ''a'' 10))"
    by (simp add: open_ticket_usernames_def asked_db_def asking_user_def)
  then have "\<exists>ts. export (asked_db ''a'' 10) ''ali'' = return ts" by (simp add: export_def n)
  with export_reveals_only_own [OF n n d d v] show ?thesis by blast
qed

end
