(* ===== verification/SideTraces.thy ===== *)
theory SideTraces
  imports Operations Billing
begin

text \<open>
  What notices and texts leave behind: operations that write only notifications, text messages and
  the audit log, as one relation on sessions that several components use.
\<close>

text \<open>Operations that leave only notifications, texts and audit entries.\<close>

definition side_traces :: "session \<Rightarrow> session \<Rightarrow> bool" where
  "side_traces s s' \<longleftrightarrow> (\<exists>nts sms aud. cur s' = (cur s)\<lparr>notifications := nts, sms_messages := sms, audit_log := aud\<rparr>)"

lemma side_traces_same: "side_traces s s"
  unfolding side_traces_def by (intro exI [of _ "notifications (cur s)"] exI [of _ "sms_messages (cur s)"]
      exI [of _ "audit_log (cur s)"]) simp

lemma side_traces_trans: "side_traces s s' \<Longrightarrow> side_traces s' s'' \<Longrightarrow> side_traces s s''"
  unfolding side_traces_def by (elim exE) (intro exI, simp)

lemma side_traces_edit:
  assumes "f (cur s) = (cur s)\<lparr>notifications := nts, sms_messages := sms, audit_log := aud\<rparr>"
  shows "side_traces s (edit f s)"
  unfolding side_traces_def using assms by (intro exI) simp

lemma side_traces_simps [simp]:
  "side_traces s (commit s') = side_traces s s'" "side_traces s (next_id s') = side_traces s s'"
  "side_traces (next_id s) s' = side_traces s s'"
  by (simp_all add: side_traces_def)

lemma side_traces_emit: "side_traces s (emit now u k c v h key s)"
proof -
  have e: "side_traces s (edit (set_notification i f) s)" for i f
    by (rule side_traces_edit [where sms = "sms_messages (cur s)" and aud = "audit_log (cur s)"])
      (simp add: set_notification_def)
  have a: "side_traces s (edit (\<lambda>d. d\<lparr>notifications := notifications d @ [r]\<rparr>) (next_id s))" for r
    unfolding side_traces_def by (intro exI [of _ "notifications (cur s) @ [r]"]
        exI [of _ "sms_messages (cur s)"] exI [of _ "audit_log (cur s)"]) simp
  show ?thesis unfolding emit_def Let_def by (simp add: e a split: option.split)
qed

lemma side_traces_queue:
  assumes "queue now i p k key u s = (r, s')"
  shows "side_traces s s'"
proof -
  have s': "s' = snd (queue now i p k key u s)" using assms by simp
  show ?thesis
    using queue_state [of now i p k key u s]
  proof (elim disjE)
    assume "snd (queue now i p k key u s) = s"
    then show ?thesis by (simp add: s' side_traces_same)
  next
    assume q: "snd (queue now i p k key u s) = edit (\<lambda>d. d\<lparr>sms_messages := sms_messages d @
        [\<lparr>sm_id = seq s + 1, sm_user_id = i, sm_phone = strip (case p of None \<Rightarrow> [] | Some p \<Rightarrow> p), sm_kind = k,
          sm_status = ''queued'', sm_attempts = 0, sm_error = None, sm_provider_message_id = None,
          sm_dedupe_key = key, sm_next_attempt_at = Some now, sm_created_at = now, sm_sent_at = None\<rparr>]\<rparr>) (next_id s)"
    have "cur s' = (cur s)\<lparr>notifications := notifications (cur s), sms_messages := sms_messages (cur s'),
        audit_log := audit_log (cur s)\<rparr>"
      unfolding s' q by simp
    then show ?thesis unfolding side_traces_def by blast
  qed
qed

lemma side_traces_audit: "side_traces s (audit a b c s)"
  unfolding side_traces_def audit_def
  by (rule exI [of _ "notifications (cur s)"], rule exI [of _ "sms_messages (cur s)"], rule exI) simp

lemma side_traces_frame [frame]:
  assumes "side_traces s s'"
  shows "users (cur s') = users (cur s)" "workspaces (cur s') = workspaces (cur s)"
    "ssh_keys (cur s') = ssh_keys (cur s)" "settings (cur s') = settings (cur s)"
    "operations (cur s') = operations (cur s)" "exposed_ports (cur s') = exposed_ports (cur s)"
    "transactions (cur s') = transactions (cur s)" "credit_accounts (cur s') = credit_accounts (cur s)"
    "or_accounts (cur s') = or_accounts (cur s)" "tickets (cur s') = tickets (cur s)"
    "ticket_messages (cur s') = ticket_messages (cur s)"
  using assms unfolding side_traces_def by auto

lemma side_traces_op_text: "side_traces s (op_text now u k d s)"
  unfolding op_text_def
  by (auto simp: side_traces_same split: option.split prod.split sum.split dest: side_traces_queue)

end
