(* ===== verification/Secrets.thy ===== *)
theory Secrets
  imports Passwords
begin

text \<open>
  \<open>compare_digest\<close> of \<open>hmac\<close> and \<open>secrets\<close> on texts, which \<open>mcp.py\<close> and \<open>webhook.py\<close> use, and the
  bytes of texts.
\<close>

definition ascii :: "string \<Rightarrow> bool" where
  "ascii s \<longleftrightarrow> list_all (\<lambda>c. code c < 128) s"

text \<open>A text with another character raises \<open>TypeError\<close>.\<close>

definition compare_digest :: "string \<Rightarrow> string \<Rightarrow> bool option" where
  "compare_digest a b = (if ascii a \<and> ascii b then Some (a = b) else None)"

lemma ascii_hex_digit:
  assumes "n < 16"
  shows "code (hex_digit n) < 128"
proof -
  have "hex_digit n \<in> set ''0123456789abcdef''"
    unfolding hex_digit_def using assms by (intro nth_mem) simp
  moreover have "\<forall>c \<in> set ''0123456789abcdef''. code c < 128" by simp
  ultimately show ?thesis by blast
qed

lemma ascii_hex: "\<forall>b \<in> set bs. b < 256 \<Longrightarrow> ascii (hex bs)"
  unfolding ascii_def hex_def list_all_iff by (auto intro!: ascii_hex_digit less_mult_imp_div_less)

lemma utf8_append: "utf8 (s @ t) = utf8 s @ utf8 t"
  by (simp add: utf8_def)

lemma utf8_ascii: "ascii s \<Longrightarrow> utf8 s = map code s"
  by (induction s) (simp_all add: utf8_def utf8_char_def ascii_def)

text \<open>A byte below 128 comes from its own character.\<close>

lemma utf8_low: "b < 128 \<Longrightarrow> b \<in> set (utf8 s) \<Longrightarrow> \<exists>c \<in> set s. code c = b"
  by (induction s) (auto simp: utf8_def utf8_char_def split: if_splits)

lemma utf8_inj: "utf8 s = utf8 t \<Longrightarrow> s = t"
proof (induction s arbitrary: t)
  case Nil
  then show ?case by (cases t) (auto simp: utf8_def utf8_char_def split: if_splits)
next
  case (Cons c s)
  then obtain d u where t: "t = d # u" by (cases t) (auto simp: utf8_def utf8_char_def split: if_splits)
  have *: "utf8_char c @ utf8 s = utf8_char d @ utf8 u" using Cons.prems t by (simp add: utf8_def)
  have split: "code x div 64 * 64 + code x mod 64 = code x" for x by simp
  have "code c div 64 = code d div 64 \<and> code c mod 64 = code d mod 64"
    using * by (auto simp: utf8_char_def split: if_splits)
  with split [of c] split [of d] have "code c = code d" by metis
  then have "c = d" by simp
  with * Cons.IH [of u] t show ?case by simp
qed

end
