(* ===== verification/Mcp.thy ===== *)
theory Mcp
  imports Tickets CustomerData SideTraces Secrets
begin

text \<open>
  \<open>control/mmd/mcp.py\<close> and its endpoint in \<open>control/mmd/app.py\<close>: the JSON-RPC server of the support
  agent. Requests are parsed JSON. A tool answers with a value, fails with an \<open>McpError\<close>, or lets an
  exception of another kind out, which becomes a status 500. The files of the guide are an argument,
  by name and text; numbers of an answer are left unprinted and unrounded.
\<close>

section \<open>Tools\<close>

definition BOT_USERNAME :: string where "BOT_USERNAME = ''support-agent''"

definition AGENT_STATUSES :: "(string \<times> ticket_status) list" where
  "AGENT_STATUSES = [(''waiting_for_user'', TWaitingForUser), (''answered'', TAnswered),
     (''escalated'', TEscalated)]"

datatype speaker = Agent | Staff | Customer

record customer_context =
  cc_username :: string
  cc_full_name :: "string option"
  cc_status :: user_status
  cc_credit_micro :: int
  cc_machine :: "(ws_state \<times> int \<times> int) option"

record queue_entry =
  qe_ticket :: int
  qe_subject :: string
  qe_status :: ticket_status
  qe_opened_at :: time
  qe_customer :: customer_context
  qe_messages :: "(time \<times> speaker \<times> string option \<times> string) list"

datatype tool_value =
  Queue "queue_entry list" | Replied int ticket_status | Exported tables
| Documents "(string \<times> string) list" | Document string string bool

datatype tool_result = ToolOk tool_value | ToolError int string | Crashed

text \<open>\<open>bot_account\<close>: the row of the agent, made on first use; a customer of that name is refused.\<close>

definition is_bot :: "user \<Rightarrow> bool" where
  "is_bot u \<longleftrightarrow> u_username u = BOT_USERNAME \<and> u_password_hash u = ''!'' \<and> \<not> has_text (u_phone u)"

definition new_bot :: "int \<Rightarrow> user" where
  "new_bot i = \<lparr>u_id = i, u_username = BOT_USERNAME, u_full_name = Some ''Support agent'', u_phone = None,
     u_sms_prefs = (\<lambda>_. None), u_sms_credit_step_toman = DEFAULT_CREDIT_STEP_TOMAN,
     u_sms_credit_band = None, u_telegram_bot_token = None, u_telegram_user_id = None,
     u_password_hash = ''!'', u_session_version = 0, u_is_admin = False, u_status = UApproved,
     u_approved_at = None, u_approved_by = None\<rparr>"

definition bot_account :: "session \<Rightarrow> (string, user) result \<times> session" where
  "bot_account s =
     (case user_named (cur s) BOT_USERNAME of
        Some b \<Rightarrow> if u_password_hash b \<noteq> ''!'' \<or> has_text (u_phone b)
                  then (raise ''a customer account of that name'', s) else (return b, s)
      | None \<Rightarrow> let s1 = next_id s; b = new_bot (seq s1)
                in (return b, commit (edit (\<lambda>d. d\<lparr>users := users d @ [b]\<rparr>) s1)))"

definition context_of :: "db \<Rightarrow> user \<Rightarrow> customer_context" where
  "context_of d u = \<lparr>cc_username = u_username u, cc_full_name = u_full_name u, cc_status = u_status u,
     cc_credit_micro = balance_micro d (u_id u),
     cc_machine = map_option (\<lambda>w. (w_state w, w_cpu_milli w, w_mem_mib w))
       (find (\<lambda>w. w_user_id w = u_id u) (workspaces d))\<rparr>"

definition author_of :: "db \<Rightarrow> ticket_message \<Rightarrow> user option" where
  "author_of d m = (case tm_author_id m of None \<Rightarrow> None | Some i \<Rightarrow> if i = 0 then None else get_user d i)"

definition message_entry :: "db \<Rightarrow> ticket_message \<Rightarrow> time \<times> speaker \<times> string option \<times> string" where
  "message_entry d m =
     (let a = author_of d m in
      (tm_created_at m,
       (if (case a of Some u \<Rightarrow> u_username u = BOT_USERNAME | None \<Rightarrow> False) then Agent
        else if tm_from_staff m then Staff else Customer),
       map_option u_username a, tm_body m))"

definition queue_of :: "db \<Rightarrow> ticket \<Rightarrow> queue_entry option" where
  "queue_of d t = (case get_user d (tk_user_id t) of None \<Rightarrow> None
     | Some u \<Rightarrow> Some \<lparr>qe_ticket = tk_id t, qe_subject = tk_subject t, qe_status = tk_status t,
         qe_opened_at = tk_created_at t, qe_customer = context_of d u,
         qe_messages = map (message_entry d) (sort_key tm_id (messages_of d (tk_id t)))\<rparr>)"

definition list_open_tickets :: "db \<Rightarrow> tool_value" where
  "list_open_tickets d = Queue (List.map_filter (queue_of d)
     (sort_key tk_created_at (filter (\<lambda>t. tk_status t = TOpen) (tickets d))))"

definition reply_to_ticket :: "time \<Rightarrow> int \<Rightarrow> string \<Rightarrow> string option \<Rightarrow> session \<Rightarrow> tool_result \<times> session" where
  "reply_to_ticket now i text status s =
     (let body = strip text in
      if body = [] then (ToolError (-32602) ''body is required'', s)
      else if 8000 < length body then (ToolError (-32602) ''body is too long'', s)
      else if status \<noteq> None \<and> map_of AGENT_STATUSES (the status) = None
        then (ToolError (-32602) ''not a status of the agent'', s)
      else case get_ticket_row (cur s) i of
        None \<Rightarrow> (ToolError (-32602) ''no such ticket'', s)
      | Some t \<Rightarrow>
          if tk_status t = TClosed then (ToolError (-32602) ''that ticket is closed'', s)
          else case bot_account s of
            (Inl e, s1) \<Rightarrow> (ToolError (-32603) e, s1)
          | (Inr agent, s1) \<Rightarrow>
              let st = (case status of None \<Rightarrow> TAnswered | Some x \<Rightarrow> the (map_of AGENT_STATUSES x));
                  s2 = commit (edit (set_ticket i (touch st now)) (add_message i (u_id agent) True body now s1));
                  s3 = audit (Some (u_id agent)) ''agent_ticket_reply'' (Some (''#'' @ show_int i))
                         (announce_ticket_reply i now s2)
              in (ToolOk (Replied i st), s3))"

definition export_customer_data :: "string \<Rightarrow> session \<Rightarrow> tool_result \<times> session" where
  "export_customer_data username s =
     (case export (cur s) (lower (strip username)) of
        Inl e \<Rightarrow> (ToolError (-32602) e, s)
      | Inr ts \<Rightarrow>
          (case bot_account s of
             (Inl e, s1) \<Rightarrow> (ToolError (-32603) e, s1)
           | (Inr agent, s1) \<Rightarrow> (ToolOk (Exported ts), audit (Some (u_id agent)) ''agent_export'' (Some username) s1)))"

text \<open>\<open>_first_heading\<close> and \<open>platform_guide\<close>.\<close>

definition first_heading :: "string \<Rightarrow> string" where
  "first_heading text = (case find (\<lambda>l. l \<noteq> [] \<and> \<not> startswith l ''#'') (map strip (splitlines text)) of
     None \<Rightarrow> [] | Some l \<Rightarrow> take 120 l)"

definition platform_guide :: "(string \<times> string) list \<Rightarrow> string \<Rightarrow> tool_result" where
  "platform_guide docs name =
     (let wanted = strip name in
      if wanted = [] then ToolOk (Documents (map (\<lambda>(n, t). (n, first_heading t)) docs))
      else case find (\<lambda>x. lower (fst x) = lower wanted) docs of
        None \<Rightarrow> ToolError (-32602) ''no such document''
      | Some (n, t) \<Rightarrow> ToolOk (Document n (take 80000 t) (80000 < length t)))"

section \<open>Messages\<close>

text \<open>\<open>int(str(v or 0).strip())\<close>.\<close>

definition ticket_number :: "json \<Rightarrow> int option" where
  "ticket_number v = (if \<not> truthy v then Some 0
     else case v of JInt n \<Rightarrow> Some n | JStr t \<Rightarrow> py_int (strip t) | _ \<Rightarrow> None)"

text \<open>A status that can be looked up in a set; lists and objects cannot. What is not a text is no
  status of the agent.\<close>

definition status_argument :: "json \<Rightarrow> string option option" where
  "status_argument v = (case v of JNull \<Rightarrow> Some None | JStr x \<Rightarrow> Some (Some x)
     | JList _ \<Rightarrow> None | JObj _ \<Rightarrow> None | _ \<Rightarrow> Some (Some ''?''))"

text \<open>A body or a name that is not a text has no \<open>strip\<close>; a status that cannot be looked up fails only
  after the checks of the body.\<close>

definition tool_reply :: "time \<Rightarrow> request \<Rightarrow> session \<Rightarrow> tool_result \<times> session" where
  "tool_reply now args s =
     (case ticket_number (obj_get ''ticket_id'' args) of
        None \<Rightarrow> (ToolError (-32602) ''ticket_id must be a number'', s)
      | Some i \<Rightarrow>
          (case text_or_empty (obj_get ''body'' args) of
             None \<Rightarrow> (Crashed, s)
           | Some body \<Rightarrow>
               (case status_argument (obj_get ''status'' args) of
                  Some st \<Rightarrow> reply_to_ticket now i body st s
                | None \<Rightarrow> if strip body = [] \<or> 8000 < length (strip body)
                          then reply_to_ticket now i body None s else (Crashed, s))))"

definition call_tool ::
  "(string \<times> string) list \<Rightarrow> time \<Rightarrow> json \<Rightarrow> request \<Rightarrow> session \<Rightarrow> tool_result \<times> session" where
  "call_tool docs now name args s =
     (if name = JStr ''platform_guide''
      then (case obj_get ''document'' args of
              JStr n \<Rightarrow> platform_guide docs n
            | v \<Rightarrow> if truthy v then ToolError (-32602) ''no such document'' else platform_guide docs [], s)
      else if name = JStr ''list_open_tickets'' then (ToolOk (list_open_tickets (cur s)), s)
      else if name = JStr ''reply_to_ticket'' then tool_reply now args s
      else if name = JStr ''export_customer_data''
      then (case text_or_empty (obj_get ''username'' args) of
              None \<Rightarrow> (Crashed, s) | Some u \<Rightarrow> export_customer_data u s)
      else (ToolError (-32602) ''unknown tool'', s))"

datatype rpc_body =
  RpcError int string | Initialised | Pong | ToolList | ToolText tool_value | ToolFailed string

datatype rpc = Reply json rpc_body | NoReply | ServerError

definition rpc_handle :: "(string \<times> string) list \<Rightarrow> time \<Rightarrow> json \<Rightarrow> session \<Rightarrow> rpc \<times> session" where
  "rpc_handle docs now request s =
     (case request of
        JObj req \<Rightarrow>
          (let method = obj_get ''method'' req; rid = obj_get ''id'' req;
               params = (if truthy (obj_get ''params'' req) then obj_get ''params'' req else JObj [])
           in case params of
                JObj ps \<Rightarrow>
                  if method = JStr ''initialize'' then (Reply rid Initialised, s)
                  else if method = JStr ''notifications/initialized'' \<or> method = JStr ''initialized''
                    then (NoReply, s)
                  else if method = JStr ''ping'' then (Reply rid Pong, s)
                  else if method = JStr ''tools/list'' then (Reply rid ToolList, s)
                  else if method = JStr ''tools/call'' then
                    (case (if truthy (obj_get ''arguments'' ps) then obj_get ''arguments'' ps else JObj []) of
                       JObj args \<Rightarrow>
                         (case call_tool docs now (obj_get ''name'' ps) args s of
                            (ToolOk v, s1) \<Rightarrow> (Reply rid (ToolText v), s1)
                          | (ToolError _ e, s1) \<Rightarrow> (Reply rid (ToolFailed e), s1)
                          | (Crashed, s1) \<Rightarrow> (ServerError, s1))
                     | _ \<Rightarrow> (Reply rid (RpcError (-32602) ''arguments must be an object''), s))
                  else (Reply rid (RpcError (-32601) ''unknown method''), s)
              | _ \<Rightarrow> (Reply rid (RpcError (-32602) ''params must be an object''), s))
      | _ \<Rightarrow> (Reply JNull (RpcError (-32600) ''request must be an object''), s))"

section \<open>The endpoint\<close>

text \<open>\<open>authorised\<close>: comparing texts that are not ASCII is a \<open>TypeError\<close>.\<close>

definition mcp_authorised :: "string \<Rightarrow> string \<Rightarrow> bool option" where
  "mcp_authorised expected supplied =
     (if expected = [] then Some False else compare_digest supplied expected)"

definition supplied_token :: "string \<Rightarrow> string" where
  "supplied_token header = strip (if startswith header ''Bearer '' then drop 7 header else header)"

datatype mcp_answer = McpRefused | McpInvalid | McpEmpty | McpOne rpc | McpMany "rpc list" | McpServerError

text \<open>A batch is handled in order in one session; an exception ends it.\<close>

fun rpc_batch :: "(string \<times> string) list \<Rightarrow> time \<Rightarrow> json list \<Rightarrow> session \<Rightarrow> rpc list option \<times> session" where
  "rpc_batch docs now [] s = (Some [], s)"
| "rpc_batch docs now (m # ms) s =
     (case rpc_handle docs now m s of
        (ServerError, s1) \<Rightarrow> (None, s1)
      | (r, s1) \<Rightarrow> (case rpc_batch docs now ms s1 of
            (None, s2) \<Rightarrow> (None, s2)
          | (Some rs, s2) \<Rightarrow> (Some (if r = NoReply then rs else r # rs), s2)))"

definition mcp_endpoint ::
  "string \<Rightarrow> (string \<times> string) list \<Rightarrow> time \<Rightarrow> string \<Rightarrow> json option \<Rightarrow> session \<Rightarrow> mcp_answer \<times> session" where
  "mcp_endpoint token docs now header body s =
     (case mcp_authorised token (supplied_token header) of
        None \<Rightarrow> (McpServerError, s)
      | Some False \<Rightarrow> (McpRefused, s)
      | Some True \<Rightarrow>
          (case body of
             None \<Rightarrow> (McpInvalid, s)
           | Some (JList ms) \<Rightarrow>
               (case rpc_batch docs now ms s of
                  (None, s1) \<Rightarrow> (McpServerError, s1)
                | (Some rs, s1) \<Rightarrow> ((if rs = [] then McpEmpty else McpMany rs), s1))
           | Some m \<Rightarrow>
               (case rpc_handle docs now m s of
                  (ServerError, s1) \<Rightarrow> (McpServerError, s1)
                | (NoReply, s1) \<Rightarrow> (McpEmpty, s1)
                | (r, s1) \<Rightarrow> (McpOne r, s1))))"

section \<open>What the agent can change\<close>

text \<open>A ticket after an agent's turn: untouched, or given one of the agent's statuses, and never when
  it was closed.\<close>

definition agent_turn :: "ticket \<Rightarrow> ticket \<Rightarrow> bool" where
  "agent_turn t t' \<longleftrightarrow> t' = t \<or> (tk_status t \<noteq> TClosed
     \<and> (\<exists>st now. st \<in> {TWaitingForUser, TAnswered, TEscalated} \<and> t' = touch st now t))"

text \<open>Only the traces of an answer: the agent's account, the tickets and messages, notifications, texts
  and the audit log.\<close>

definition agent_frame :: "session \<Rightarrow> session \<Rightarrow> bool" where
  "agent_frame s s' \<longleftrightarrow>
     (\<exists>new ts ms nts sms aud. cur s' = (cur s)\<lparr>users := users (cur s) @ new, tickets := ts,
         ticket_messages := ticket_messages (cur s) @ ms, notifications := nts, sms_messages := sms,
         audit_log := aud\<rparr>
       \<and> list_all (\<lambda>u. is_bot u \<and> \<not> u_is_admin u) new
       \<and> list_all2 agent_turn (tickets (cur s)) ts
       \<and> list_all (\<lambda>m. tm_from_staff m \<and> (\<exists>b \<in> set (users (cur s')). is_bot b \<and> tm_author_id m = Some (u_id b))) ms)"

lemma agent_turn_trans: "agent_turn t u \<Longrightarrow> agent_turn u v \<Longrightarrow> agent_turn t v"
proof -
  have "touch st now (touch st' now' t) = touch st now t" for st st' now now' t
    by (simp add: touch_def)
  moreover have "tk_status (touch st now t) = st" for st now t by (simp add: touch_def)
  ultimately show "agent_turn t u \<Longrightarrow> agent_turn u v \<Longrightarrow> agent_turn t v"
    unfolding agent_turn_def by metis
qed

lemma agent_frame_refl: "agent_frame s s"
  unfolding agent_frame_def
  by (intro exI [of _ "[]"] exI [of _ "tickets (cur s)"] exI [of _ "notifications (cur s)"]
      exI [of _ "sms_messages (cur s)"] exI [of _ "audit_log (cur s)"])
    (simp add: list_all2_same agent_turn_def)

lemma agent_frame_trans:
  assumes "agent_frame s s'" and "agent_frame s' s''"
  shows "agent_frame s s''"
proof -
  from assms(1) obtain new ts ms nts sms aud where a:
    "cur s' = (cur s)\<lparr>users := users (cur s) @ new, tickets := ts,
       ticket_messages := ticket_messages (cur s) @ ms, notifications := nts, sms_messages := sms, audit_log := aud\<rparr>"
    "list_all (\<lambda>u. is_bot u \<and> \<not> u_is_admin u) new" "list_all2 agent_turn (tickets (cur s)) ts"
    "list_all (\<lambda>m. tm_from_staff m \<and> (\<exists>b \<in> set (users (cur s')). is_bot b \<and> tm_author_id m = Some (u_id b))) ms"
    unfolding agent_frame_def by blast
  from assms(2) obtain new' ts' ms' nts' sms' aud' where b:
    "cur s'' = (cur s')\<lparr>users := users (cur s') @ new', tickets := ts',
       ticket_messages := ticket_messages (cur s') @ ms', notifications := nts', sms_messages := sms', audit_log := aud'\<rparr>"
    "list_all (\<lambda>u. is_bot u \<and> \<not> u_is_admin u) new'" "list_all2 agent_turn (tickets (cur s')) ts'"
    "list_all (\<lambda>m. tm_from_staff m \<and> (\<exists>b \<in> set (users (cur s'')). is_bot b \<and> tm_author_id m = Some (u_id b))) ms'"
    unfolding agent_frame_def by blast
  have "list_all2 agent_turn (tickets (cur s)) ts'"
    using list_all2_trans [OF agent_turn_trans a(3)] b(3) a(1) by simp
  moreover have "list_all (\<lambda>m. tm_from_staff m
      \<and> (\<exists>b \<in> set (users (cur s'')). is_bot b \<and> tm_author_id m = Some (u_id b))) (ms @ ms')"
    using a(4) b(4) b(1) by (fastforce simp: list_all_iff)
  moreover have "cur s'' = (cur s)\<lparr>users := users (cur s) @ (new @ new'), tickets := ts',
       ticket_messages := ticket_messages (cur s) @ (ms @ ms'), notifications := nts', sms_messages := sms',
       audit_log := aud'\<rparr>"
    using a(1) b(1) by simp
  ultimately show ?thesis
    unfolding agent_frame_def using a(2) b(2) by (intro exI conjI) (assumption | simp)+
qed

lemma announce_effects:
  assumes "clean s"
  shows "side_traces s (announce_ticket_reply i now s) \<and> clean (announce_ticket_reply i now s)"
proof -
  have e: "side_traces s (emit now a b c d h k s)" "rollback (emit now a b c d h k s) = emit now a b c d h k s"
    "clean (emit now a b c d h k s)" for a b c d h k
    using side_traces_emit rollback_clean emit_clean [OF assms] by blast+
  show ?thesis
    unfolding announce_ticket_reply_def Let_def using assms
    by (auto simp: e side_traces_same dest!: side_traces_queue intro: side_traces_trans [OF e(1)]
        split: option.split prod.split sum.split)
qed

lemma side_traces_agent_frame:
  assumes "side_traces s s'"
  shows "agent_frame s s'"
proof -
  from assms obtain nts sms aud where
    c: "cur s' = (cur s)\<lparr>notifications := nts, sms_messages := sms, audit_log := aud\<rparr>"
    unfolding side_traces_def by blast
  show ?thesis
    unfolding agent_frame_def
    by (intro exI [of _ "[]"] exI [of _ "tickets (cur s)"] exI [of _ nts] exI [of _ sms] exI [of _ aud])
      (simp add: c list_all2_same agent_turn_def)
qed

lemma bot_account_effects:
  assumes "bot_account s = (r, s')" and "clean s"
  shows "agent_frame s s' \<and> clean s' \<and> tickets (cur s') = tickets (cur s)
    \<and> (\<forall>b. r = Inr b \<longrightarrow> is_bot b \<and> b \<in> set (users (cur s')))"
proof (cases "user_named (cur s) BOT_USERNAME")
  case (Some b)
  then have "b \<in> set (users (cur s))" "u_username b = BOT_USERNAME"
    by (auto simp: user_named_def dest: find_SomeD)
  with Some assms show ?thesis
    by (auto simp: bot_account_def agent_frame_refl is_bot_def split: if_splits)
next
  case None
  then have r: "r = Inr (new_bot (seq s + 1))"
    and s': "s' = commit (edit (\<lambda>d. d\<lparr>users := users d @ [new_bot (seq s + 1)]\<rparr>) (next_id s))"
    using assms(1) by (simp_all add: bot_account_def Let_def)
  have b: "is_bot (new_bot i)" "\<not> u_is_admin (new_bot i)" for i
    by (simp_all add: is_bot_def new_bot_def has_text_def)
  have "agent_frame s s'"
    unfolding agent_frame_def
    by (intro exI [of _ "[new_bot (seq s + 1)]"] exI [of _ "tickets (cur s)"] exI [of _ "[]"]
        exI [of _ "notifications (cur s)"] exI [of _ "sms_messages (cur s)"] exI [of _ "audit_log (cur s)"])
      (simp add: s' b list_all2_same agent_turn_def)
  with r b show ?thesis by (simp add: s')
qed

lemma status_set_by_agent:
  "map_of AGENT_STATUSES x = Some st \<Longrightarrow> st \<in> {TWaitingForUser, TAnswered, TEscalated}"
  by (auto simp: AGENT_STATUSES_def split: if_splits)

lemma reply_rows:
  assumes "is_bot b" and "b \<in> set (users (cur s))" and "distinct (map tk_id (tickets (cur s)))"
    and "get_ticket_row (cur s) i = Some t" and "tk_status t \<noteq> TClosed"
    and "st \<in> {TWaitingForUser, TAnswered, TEscalated}"
  shows "agent_frame s (commit (edit (set_ticket i (touch st now)) (add_message i (u_id b) True body now s)))"
proof -
  have only: "u = t" if "u \<in> set (tickets (cur s))" "tk_id u = i" for u
    using distinct_map_find [OF assms(3) that(1)] that(2) assms(4) by (simp add: get_ticket_row_def)
  have turns: "list_all2 agent_turn ts (map_rows (\<lambda>u. tk_id u = i) (touch st now) ts)"
    if "set ts \<subseteq> set (tickets (cur s))" for ts
    using that
  proof (induction ts)
    case (Cons u ts)
    have "agent_turn u (if tk_id u = i then touch st now u else u)"
      using Cons.prems only [of u] assms(5,6) unfolding agent_turn_def by auto
    with Cons show ?case by simp
  qed simp
  let ?m = "\<lparr>tm_id = seq s + 1, tm_ticket_id = i, tm_author_id = Some (u_id b), tm_from_staff = True,
      tm_body = strip body, tm_created_at = now\<rparr>"
  have "list_all2 agent_turn (tickets (cur s)) (map_rows (\<lambda>u. tk_id u = i) (touch st now) (tickets (cur s)))"
    by (rule turns) simp
  note rows = this
  show ?thesis
    unfolding agent_frame_def
    by (rule exI [of _ "[]"], rule exI [of _ "map_rows (\<lambda>u. tk_id u = i) (touch st now) (tickets (cur s))"],
        rule exI [of _ "[?m]"], rule exI [of _ "notifications (cur s)"],
        rule exI [of _ "sms_messages (cur s)"], rule exI [of _ "audit_log (cur s)"])
      (use rows assms(1,2) in \<open>auto simp: add_message_def Let_def set_ticket_def\<close>)
qed

text \<open>One call of the agent, as a step: from a clean session with distinct ticket numbers.\<close>

definition agent_step :: "session \<Rightarrow> session \<Rightarrow> bool" where
  "agent_step s s' \<longleftrightarrow> (clean s \<and> distinct (map tk_id (tickets (cur s)))
     \<longrightarrow> agent_frame s s' \<and> clean s' \<and> distinct (map tk_id (tickets (cur s'))))"

lemma agent_turn_id: "agent_turn t t' \<Longrightarrow> tk_id t' = tk_id t"
  by (auto simp: agent_turn_def touch_def)

lemma agent_frame_ids:
  assumes "agent_frame s s'"
  shows "map tk_id (tickets (cur s')) = map tk_id (tickets (cur s))"
proof -
  from assms obtain ts where ts: "tickets (cur s') = ts" "list_all2 agent_turn (tickets (cur s)) ts"
    unfolding agent_frame_def by auto
  from ts(2) have "map tk_id ts = map tk_id (tickets (cur s))"
    by (induction rule: list_all2_induct) (simp_all add: agent_turn_id)
  with ts(1) show ?thesis by simp
qed

lemma agent_stepI:
  assumes "clean s \<Longrightarrow> distinct (map tk_id (tickets (cur s))) \<Longrightarrow> agent_frame s s' \<and> clean s'"
  shows "agent_step s s'"
  using assms agent_frame_ids [of s s'] unfolding agent_step_def by auto

lemma agent_step_refl: "agent_step s s"
  by (rule agent_stepI) (simp add: agent_frame_refl)

lemma agent_step_trans: "agent_step s s' \<Longrightarrow> agent_step s' s'' \<Longrightarrow> agent_step s s''"
  unfolding agent_step_def by (blast intro: agent_frame_trans)

lemma audit_step: "agent_step s (audit a b c s)"
  by (rule agent_stepI) (intro conjI side_traces_agent_frame side_traces_audit, simp add: audit_def)

lemma bot_account_step:
  assumes "bot_account s = (r, s')"
  shows "agent_step s s'"
  using bot_account_effects [OF assms] by (intro agent_stepI) blast

lemma announce_step: "agent_step s (announce_ticket_reply i now s)"
  using announce_effects [of s i now] side_traces_agent_frame by (intro agent_stepI) blast

lemma reply_step: "agent_step s (snd (reply_to_ticket now i text status s))"
proof (cases "\<exists>t b s1. get_ticket_row (cur s) i = Some t \<and> tk_status t \<noteq> TClosed \<and> bot_account s = (Inr b, s1)
    \<and> (status \<noteq> None \<longrightarrow> map_of AGENT_STATUSES (the status) \<noteq> None)")
  case False
  then show ?thesis
    unfolding reply_to_ticket_def Let_def
    by (auto simp: agent_step_refl bot_account_step split: option.split prod.split sum.split)
next
  case True
  then obtain t b s1 where t: "get_ticket_row (cur s) i = Some t" "tk_status t \<noteq> TClosed"
    and b: "bot_account s = (Inr b, s1)"
    and st: "status \<noteq> None \<longrightarrow> map_of AGENT_STATUSES (the status) \<noteq> None" by blast
  define new where "new = (case status of None \<Rightarrow> TAnswered | Some x \<Rightarrow> the (map_of AGENT_STATUSES x))"
  have new: "new \<in> {TWaitingForUser, TAnswered, TEscalated}"
    using st status_set_by_agent unfolding new_def by (cases status) auto
  let ?s2 = "commit (edit (set_ticket i (touch new now)) (add_message i (u_id b) True (strip text) now s1))"
  have "agent_step s ?s2"
  proof (rule agent_stepI)
    assume s: "clean s" "distinct (map tk_id (tickets (cur s)))"
    note e = bot_account_effects [OF b s(1)]
    have "agent_frame s1 ?s2"
      using e t s(2) new by (intro reply_rows) (auto simp: get_ticket_row_def)
    then show "agent_frame s ?s2 \<and> clean ?s2" using e agent_frame_trans by auto
  qed
  then have "agent_step s (audit (Some (u_id b)) a c (announce_ticket_reply i now ?s2))" for a c
    by (rule agent_step_trans [OF agent_step_trans [OF _ announce_step] audit_step])
  then show ?thesis
    using t b st unfolding reply_to_ticket_def Let_def new_def by (auto simp: agent_step_refl)
qed

lemma export_step: "agent_step s (snd (export_customer_data u s))"
  unfolding export_customer_data_def
  by (auto simp: agent_step_refl bot_account_step split: sum.split prod.split
      intro: agent_step_trans [OF bot_account_step audit_step])

lemma call_step: "agent_step s (snd (call_tool docs now name args s))"
  by (auto simp: call_tool_def tool_reply_def agent_step_refl reply_step export_step split: option.split)

lemma handle_step: "agent_step s (snd (rpc_handle docs now m s))"
proof (cases m)
  case (JObj req)
  define ps where "ps = (if truthy (obj_get ''params'' req) then obj_get ''params'' req else JObj [])"
  show ?thesis
  proof (cases "\<exists>p args. ps = JObj p \<and> (if truthy (obj_get ''arguments'' p) then obj_get ''arguments'' p
      else JObj []) = JObj args")
    case True
    then obtain p args where p: "ps = JObj p"
      and a: "(if truthy (obj_get ''arguments'' p) then obj_get ''arguments'' p else JObj []) = JObj args" by blast
    obtain r s' where c: "call_tool docs now (obj_get ''name'' p) args s = (r, s')" by fastforce
    with call_step [of s docs now "obj_get ''name'' p" args] have "agent_step s s'" by simp
    then show ?thesis
      unfolding rpc_handle_def JObj Let_def json.case ps_def [symmetric] p a c
      by (cases r) (simp_all add: agent_step_refl)
  next
    case False
    then have "snd (rpc_handle docs now m s) = s"
      unfolding rpc_handle_def JObj Let_def json.case ps_def [symmetric]
      by (cases ps) (auto split: json.split simp del: split_paired_Ex)
    then show ?thesis by (simp add: agent_step_refl)
  qed
qed (simp_all add: rpc_handle_def agent_step_refl)

lemma batch_step: "agent_step s (snd (rpc_batch docs now ms s))"
proof (induction ms arbitrary: s)
  case (Cons m ms)
  have h: "rpc_handle docs now m s = (r, s1) \<Longrightarrow> agent_step s s1" for r s1
    using handle_step [of s docs now m] by simp
  have b: "rpc_batch docs now ms s1 = (o1, s2) \<Longrightarrow> agent_step s1 s2" for s1 o1 s2
    using Cons.IH [of s1] by simp
  show ?case
    by (auto split: prod.split rpc.split option.split intro: agent_step_trans dest: h b)
qed (simp add: agent_step_refl)

lemma endpoint_step: "agent_step s (snd (mcp_endpoint token docs now header body s))"
proof -
  have h: "rpc_handle docs now m s = (r, s1) \<Longrightarrow> agent_step s s1" for m r s1
    using handle_step [of s docs now m] by simp
  have b: "rpc_batch docs now ms s = (rs, s1) \<Longrightarrow> agent_step s s1" for ms rs s1
    using batch_step [of s docs now ms] by simp
  show ?thesis
    unfolding mcp_endpoint_def
    by (auto simp: agent_step_refl split: option.split bool.split json.split prod.split rpc.split dest: h b)
qed

text \<open>C19. The agent keeps its place. Whatever it sends to \<open>/mcp\<close>, in whatever batch, money, machines,
  ports, keys, settings and operations stay as they were; no account changes and none but the agent's
  own, which is no administrator, is added; a closed ticket is not touched, none is closed and none
  given another status than the agent's three; messages are only added, from the staff and under the
  agent's account. Without the agent's token nothing changes at all.\<close>
theorem agent_keeps_its_place:
  assumes "clean s" and "distinct (map tk_id (tickets (cur s)))"
    and "mcp_endpoint token docs now header body s = (a, s')"
  shows "(\<exists>new ts ms nts sms aud. cur s' = (cur s)\<lparr>users := users (cur s) @ new, tickets := ts,
         ticket_messages := ticket_messages (cur s) @ ms, notifications := nts, sms_messages := sms,
         audit_log := aud\<rparr>
       \<and> list_all (\<lambda>u. is_bot u \<and> \<not> u_is_admin u) new
       \<and> list_all2 agent_turn (tickets (cur s)) ts
       \<and> list_all (\<lambda>m. tm_from_staff m \<and> (\<exists>b \<in> set (users (cur s')). is_bot b \<and> tm_author_id m = Some (u_id b))) ms)
     \<and> (token = [] \<or> supplied_token header \<noteq> token \<longrightarrow> s' = s \<and> a \<in> {McpRefused, McpServerError})"
proof
  have "agent_frame s s'"
    using endpoint_step [of s token docs now header body] assms unfolding agent_step_def by simp
  then show "\<exists>new ts ms nts sms aud. cur s' = (cur s)\<lparr>users := users (cur s) @ new, tickets := ts,
         ticket_messages := ticket_messages (cur s) @ ms, notifications := nts, sms_messages := sms,
         audit_log := aud\<rparr>
       \<and> list_all (\<lambda>u. is_bot u \<and> \<not> u_is_admin u) new
       \<and> list_all2 agent_turn (tickets (cur s)) ts
       \<and> list_all (\<lambda>m. tm_from_staff m \<and> (\<exists>b \<in> set (users (cur s')). is_bot b \<and> tm_author_id m = Some (u_id b))) ms"
    unfolding agent_frame_def .
  show "token = [] \<or> supplied_token header \<noteq> token \<longrightarrow> s' = s \<and> a \<in> {McpRefused, McpServerError}"
    using assms(3) by (auto simp: mcp_endpoint_def mcp_authorised_def compare_digest_def split: if_splits)
qed

text \<open>The agent answers the open thread and escalates it.\<close>

definition an_escalation :: json where
  "an_escalation = JObj [(''method'', JStr ''tools/call''), (''id'', JInt 1),
     (''params'', JObj [(''name'', JStr ''reply_to_ticket''),
        (''arguments'', JObj [(''ticket_id'', JStr ''11''), (''body'', JStr ''Asking a human''),
           (''status'', JStr ''escalated'')])])]"

definition after_escalation :: "mcp_answer \<times> session" where
  "after_escalation = mcp_endpoint ''k'' [] (200 * second) ''Bearer k'' (Some an_escalation)
     (open_session (cur thread_open) 11)"

theorem agent_keeps_its_place_witness:
  "map tk_status (tickets (cur (snd after_escalation))) = [TEscalated]
   \<and> credit_accounts (cur (snd after_escalation)) = credit_accounts (cur thread_open)"
proof -
  have s: "clean (open_session (cur thread_open) 11)" by simp
  have d: "distinct (map tk_id (tickets (cur (open_session (cur thread_open) 11))))" by code_simp
  from agent_keeps_its_place [OF s d, of "''k''" "[]" "200 * second" "''Bearer k''" "Some an_escalation"
      "fst after_escalation" "snd after_escalation"]
  have "credit_accounts (cur (snd after_escalation)) = credit_accounts (cur thread_open)"
    unfolding after_escalation_def by auto
  moreover have "map tk_status (tickets (cur (snd after_escalation))) = [TEscalated]" by code_simp
  ultimately show ?thesis by simp
qed

end
