(* ===== verification/Connections.thy ===== *)
theory Connections
  imports WorkspaceOps SshKeys SideTraces
begin

text \<open>
  The connections page of \<open>control/mmd/app.py\<close>: the reserved service ports, the published ports as a
  customer sees them, the registered SSH keys and the switches of the SSH server and the remote
  desktop. A machine's \<open>authorized_keys\<close> is part of the state, by the workspace it belongs to; what
  the provisioner answers, and whether it acted, is an argument.
\<close>

section \<open>Addresses\<close>

text \<open>\<open>_port_view\<close>, with the configured hosts as arguments.\<close>

record port_view =
  pv_id :: int
  pv_internal :: int
  pv_external :: int
  pv_protocols :: "string list"
  pv_kind :: port_kind
  pv_removable :: bool
  pv_address :: "string \<times> int"
  pv_host_address :: "(string \<times> int) option"
  pv_web_ready :: bool
  pv_url :: "(string \<times> int) option"
  pv_host_url :: "(string \<times> int) option"

definition view_of_port :: "string \<Rightarrow> string \<Rightarrow> string \<Rightarrow> exposed_port \<Rightarrow> port_view" where
  "view_of_port endpoint domain username p =
     (let host = (if username \<noteq> [] \<and> ep_kind p = PUser
                  then Some (application_host username (ep_internal_port p) domain) else None);
          protos = expand (ep_protocol p)
      in \<lparr>pv_id = ep_id p, pv_internal = ep_internal_port p, pv_external = ep_external_port p,
          pv_protocols = protos, pv_kind = ep_kind p, pv_removable = (ep_kind p = PUser),
          pv_address = (endpoint, ep_external_port p),
          pv_host_address = map_option (\<lambda>h. (h, ep_internal_port p)) host,
          pv_web_ready = ep_web_ready p,
          pv_url = (if ep_kind p = PUser \<and> ''tcp'' \<in> set protos then Some (endpoint, ep_external_port p)
                    else None),
          pv_host_url = (if ep_web_ready p \<and> ''tcp'' \<in> set protos
                         then map_option (\<lambda>h. (h, ep_internal_port p)) host else None)\<rparr>)"

text \<open>\<open>list_ports\<close>: ordered by the stored name of the kind and the inner port.\<close>

definition kind_rank :: "port_kind \<Rightarrow> int" where
  "kind_rank k = (case k of PRdp \<Rightarrow> 0 | PSsh \<Rightarrow> 1 | PUser \<Rightarrow> 2)"

definition list_ports ::
  "string \<Rightarrow> string \<Rightarrow> user \<Rightarrow> db \<Rightarrow> (answer, port_view list \<times> nat) result" where
  "list_ports endpoint domain u d =
     (case my_workspace d u of
        None \<Rightarrow> raise (Failed 404 ''no_workspace'')
      | Some w \<Rightarrow>
          let rows = sort_key (\<lambda>p. kind_rank (ep_kind p)) (sort_key ep_internal_port
                       (filter (\<lambda>p. ep_workspace_id p = w_id w) (exposed_ports d)))
          in return (map (view_of_port endpoint domain (u_username u)) rows,
                     length (filter (\<lambda>p. ep_kind p = PUser) rows)))"

text \<open>\<open>_service_ports\<close>: allocates on read what is missing, and pushes the rules then. The table is read
  again, and the last row of a kind decides.\<close>

definition reserved_rows :: "db \<Rightarrow> int \<Rightarrow> exposed_port list" where
  "reserved_rows d i = filter (\<lambda>p. ep_workspace_id p = i \<and> ep_kind p \<in> {PSsh, PRdp}) (exposed_ports d)"

definition address_of :: "port_kind \<Rightarrow> exposed_port list \<Rightarrow> int option" where
  "address_of k ps = (case rev (filter (\<lambda>p. ep_kind p = k) ps) of [] \<Rightarrow> None | p # _ \<Rightarrow> Some (ep_external_port p))"

definition service_ports ::
  "int \<Rightarrow> (port_kind \<Rightarrow> attempt list) \<Rightarrow> fw_reply \<Rightarrow> session \<times> mapping list \<Rightarrow>
   (port_error, int option \<times> int option) result \<times> session \<times> mapping list" where
  "service_ports i draws reply st =
     (let (s, rules) = st; found = (\<lambda>d. (address_of PSsh (reserved_rows d i), address_of PRdp (reserved_rows d i)))
      in if 2 \<le> length (reserved_rows (cur s) i) then (return (found (cur s)), s, rules)
         else case reserve_service_ports i draws s of
           (Inl e, s1) \<Rightarrow> (raise e, rollback s1, rules)
         | (Inr _, s1) \<Rightarrow>
             let s2 = commit s1; (_, rules1) = push_rules reply (published None None (cur s2)) rules
             in (return (found (cur s2)), s2, rules1))"

section \<open>Keys\<close>

type_synonym files = "int \<Rightarrow> string option"

definition keys_of :: "db \<Rightarrow> int \<Rightarrow> ssh_key list" where
  "keys_of d i = filter (\<lambda>k. sk_workspace_id k = i) (ssh_keys d)"

definition stored_keys_body :: "ssh_key list \<Rightarrow> string" where
  "stored_keys_body ks = keys_header @ newline @ join newline (map sk_line ks) @ newline"

text \<open>A request to write the file: ended and confirmed, not ended, or ended without a confirmation.\<close>

definition write_keys :: "fw_reply \<Rightarrow> int \<Rightarrow> string \<Rightarrow> files \<Rightarrow> bool \<times> files" where
  "write_keys reply i body fs = (case reply of Applied \<Rightarrow> (True, fs(i := Some body))
     | Refused \<Rightarrow> (False, fs) | LostReply \<Rightarrow> (False, fs(i := Some body)))"

definition push_keys :: "fw_reply \<Rightarrow> workspace \<Rightarrow> db \<Rightarrow> files \<Rightarrow> bool \<times> files" where
  "push_keys reply w d fs =
     (if \<not> w_ssh_enabled w \<or> keys_of d (w_id w) = [] then (True, fs)
      else write_keys reply (w_id w) (stored_keys_body (keys_of d (w_id w))) fs)"

fun key_code :: "key_error \<Rightarrow> string" where
  "key_code BadSshKey = ''bad_ssh_key''"
| "key_code BadSshKeyType = ''bad_ssh_key_type''"
| "key_code NoSshKey = ''no_ssh_key''"
| "key_code TooManySshKeys = ''too_many_ssh_keys''"

definition new_ssh_key :: "int \<Rightarrow> int \<Rightarrow> key_entry \<Rightarrow> ssh_key" where
  "new_ssh_key i ws k = \<lparr>sk_id = i, sk_workspace_id = ws, sk_key_type = ke_type k, sk_body = ke_body k,
     sk_comment = (if ke_comment k = [] then None else Some (ke_comment k)), sk_fingerprint = ke_fingerprint k\<rparr>"

definition add_ssh_key ::
  "(nat list \<Rightarrow> nat list) \<Rightarrow> fw_reply \<Rightarrow> user \<Rightarrow> string \<Rightarrow> session \<times> files \<Rightarrow> answer \<times> session \<times> files" where
  "add_ssh_key sha256 reply u text st =
     (let (s, fs) = st in
      case my_workspace (cur s) u of
        None \<Rightarrow> (Failed 404 ''no_workspace'', s, fs)
      | Some w \<Rightarrow>
          (case normalise_keys sha256 text of
             Inl e \<Rightarrow> (Failed 400 (key_code e), s, fs)
           | Inr ks \<Rightarrow>
               if length ks \<noteq> 1 then (Failed 400 ''one_key_at_a_time'', s, fs)
               else if list_ex (\<lambda>r. sk_fingerprint r = ke_fingerprint (hd ks)) (keys_of (cur s) (w_id w))
                 then (Failed 409 ''key_exists'', s, fs)
               else if MAX_KEYS \<le> length (keys_of (cur s) (w_id w))
                 then (Failed 400 ''too_many_ssh_keys'', s, fs)
               else
                 let s1 = next_id s;
                     s2 = commit (edit (\<lambda>d. d\<lparr>ssh_keys := ssh_keys d @ [new_ssh_key (seq s1) (w_id w) (hd ks)]\<rparr>) s1);
                     (ok, fs1) = push_keys reply w (cur s2) fs
                 in if ok then (Done ''ok'', audit (Some (u_id u)) ''ssh_key_added'' (Some (w_incus_project w)) s2, fs1)
                    else (Failed 500 ''ssh_failed'', s2, fs1)))"

definition remove_ssh_key ::
  "fw_reply \<Rightarrow> user \<Rightarrow> int \<Rightarrow> session \<times> files \<Rightarrow> answer \<times> session \<times> files" where
  "remove_ssh_key reply u key_id st =
     (let (s, fs) = st in
      case my_workspace (cur s) u of
        None \<Rightarrow> (Failed 404 ''no_workspace'', s, fs)
      | Some w \<Rightarrow>
          (case find (\<lambda>k. sk_id k = key_id) (ssh_keys (cur s)) of
             None \<Rightarrow> (Failed 404 ''no_such_key'', s, fs)
           | Some row \<Rightarrow>
               if sk_workspace_id row \<noteq> w_id w then (Failed 404 ''no_such_key'', s, fs)
               else if w_ssh_enabled w \<and> filter (\<lambda>k. sk_id k \<noteq> key_id) (keys_of (cur s) (w_id w)) = []
                 then (Failed 409 ''last_key'', s, fs)
               else
                 let s2 = commit (edit (\<lambda>d. d\<lparr>ssh_keys := filter (\<lambda>k. sk_id k \<noteq> key_id) (ssh_keys d)\<rparr>) s);
                     (ok, fs1) = push_keys reply w (cur s2) fs
                 in if ok then (Done ''ok'', audit (Some (u_id u)) ''ssh_key_removed'' (Some (w_incus_project w)) s2, fs1)
                    else (Failed 500 ''ssh_failed'', s2, fs1)))"

section \<open>The switches\<close>

text \<open>Switching SSH off stops the server and leaves the file.\<close>

definition set_ssh :: "fw_reply \<Rightarrow> bool \<Rightarrow> user \<Rightarrow> session \<times> files \<Rightarrow> answer \<times> session \<times> files" where
  "set_ssh reply enabled u st =
     (let (s, fs) = st in
      case my_workspace (cur s) u of
        None \<Rightarrow> (Failed 404 ''no_workspace'', s, fs)
      | Some w \<Rightarrow>
          if w_state w \<noteq> ON then (Failed 409 ''machine_off'', s, fs)
          else if enabled then
            (let ks = keys_of (cur s) (w_id w) in
             if ks = [] then (Failed 400 ''no_ssh_key'', s, fs)
             else let (ok, fs1) = write_keys reply (w_id w) (stored_keys_body ks) fs
                  in if \<not> ok then (Failed 500 ''ssh_failed'', s, fs1)
                     else (Done ''on'', audit (Some (u_id u)) ''ssh_enabled'' (Some (w_incus_project w))
                             (commit (update_ws (w_id w) (\<lambda>w. w\<lparr>w_ssh_enabled := True\<rparr>) s)), fs1))
          else if reply \<noteq> Applied then (Failed 500 ''ssh_failed'', s, fs)
          else (Done ''off'', audit (Some (u_id u)) ''ssh_disabled'' (Some (w_incus_project w))
                  (commit (update_ws (w_id w) (\<lambda>w. w\<lparr>w_ssh_enabled := False\<rparr>) s)), fs))"

datatype desktop_request = DesktopOn int bool string | DesktopOff int

definition set_rdp ::
  "(desktop_request \<Rightarrow> bool) \<Rightarrow> bool \<Rightarrow> string option \<Rightarrow> user \<Rightarrow> session \<Rightarrow> answer \<times> session" where
  "set_rdp call enabled password u s =
     (case my_workspace (cur s) u of
        None \<Rightarrow> (Failed 404 ''no_workspace'', s)
      | Some w \<Rightarrow>
          if w_state w \<noteq> ON then (Failed 409 ''machine_off'', s)
          else if enabled then
            (if w_mem_mib w < 2048 then (Failed 409 ''rdp_needs_memory'', s)
             else if \<not> has_text password then (Failed 400 ''rdp_needs_password'', s)
             else if length (the password) < 8 then (Failed 400 ''rdp_password_short'', s)
             else if \<not> call (DesktopOn (w_idx w) (\<not> w_rdp_installed w) (the password))
               then (Failed 500 ''rdp_failed'', s)
             else (Done ''on'', audit (Some (u_id u)) ''rdp_enabled'' (Some (w_incus_project w))
                     (commit (update_ws (w_id w) (\<lambda>w. w\<lparr>w_rdp_installed := True, w_rdp_enabled := True\<rparr>) s))))
          else if \<not> call (DesktopOff (w_idx w)) then (Failed 500 ''rdp_failed'', s)
          else (Done ''off'', audit (Some (u_id u)) ''rdp_disabled'' (Some (w_incus_project w))
                  (commit (update_ws (w_id w) (\<lambda>w. w\<lparr>w_rdp_enabled := False\<rparr>) s))))"

text \<open>What the page shows.\<close>

record services_view =
  sv_running :: bool
  sv_ssh_enabled :: bool
  sv_ssh_port :: "int option"
  sv_keys :: "(int \<times> string \<times> string option \<times> string) list"
  sv_ssh_can_enable :: bool
  sv_rdp_enabled :: bool
  sv_rdp_installed :: bool
  sv_rdp_port :: "int option"
  sv_rdp_memory_ok :: bool
  sv_rdp_can_enable :: bool
  sv_applications :: "port_view list"

definition view_of_services ::
  "string \<Rightarrow> string \<Rightarrow> user \<Rightarrow> workspace \<Rightarrow> int option \<times> int option \<Rightarrow> db \<Rightarrow> services_view" where
  "view_of_services endpoint domain u w ports d =
     (let keys = keys_of d (w_id w); running = (w_state w = ON) in
      \<lparr>sv_running = running, sv_ssh_enabled = w_ssh_enabled w, sv_ssh_port = fst ports,
       sv_keys = map (\<lambda>k. (sk_id k, sk_key_type k, sk_comment k, sk_fingerprint k)) keys,
       sv_ssh_can_enable = (keys \<noteq> [] \<and> running),
       sv_rdp_enabled = w_rdp_enabled w, sv_rdp_installed = w_rdp_installed w, sv_rdp_port = snd ports,
       sv_rdp_memory_ok = (2048 \<le> w_mem_mib w), sv_rdp_can_enable = (2048 \<le> w_mem_mib w \<and> running),
       sv_applications = map (view_of_port endpoint domain (u_username u)) (ports_of d (w_id w) PUser)\<rparr>)"

definition services ::
  "string \<Rightarrow> string \<Rightarrow> (port_kind \<Rightarrow> attempt list) \<Rightarrow> fw_reply \<Rightarrow> user \<Rightarrow> session \<times> mapping list \<Rightarrow>
   (answer, services_view) result \<times> session \<times> mapping list" where
  "services endpoint domain draws reply u st =
     (case my_workspace (cur (fst st)) u of
        None \<Rightarrow> (raise (Failed 404 ''no_workspace''), st)
      | Some w \<Rightarrow>
          (case service_ports (w_id w) draws reply st of
             (Inl _, st1) \<Rightarrow> (raise (Failed 500 ''internal''), st1)
           | (Inr ports, st1) \<Rightarrow> (return (view_of_services endpoint domain u w ports (cur (fst st1))), st1)))"

section \<open>What may sign in\<close>

text \<open>Histories of a platform, with the machines' files. With \<open>good\<close> every request is confirmed and every
  rebuild ends well; without it replies are lost, requests fail, and a rebuild leaves any file.
  Other handlers leave keys, owners and switches alone.\<close>

definition same_keys :: "session \<Rightarrow> session \<Rightarrow> bool" where
  "same_keys s s' \<longleftrightarrow> ssh_keys (cur s') = ssh_keys (cur s) \<and> seq s \<le> seq s'
     \<and> map (\<lambda>w. (w_id w, w_user_id w, w_ssh_enabled w)) (workspaces (cur s'))
       = map (\<lambda>w. (w_id w, w_user_id w, w_ssh_enabled w)) (workspaces (cur s))"

inductive ssh_step :: "bool \<Rightarrow> session \<times> files \<Rightarrow> session \<times> files \<Rightarrow> bool" for good :: bool where
  adds: "(good \<Longrightarrow> reply = Applied) \<Longrightarrow> ssh_step good st (snd (add_ssh_key sha256 reply u text st))"
| removes: "(good \<Longrightarrow> reply = Applied) \<Longrightarrow> ssh_step good st (snd (remove_ssh_key reply u key_id st))"
| switches: "(good \<Longrightarrow> reply = Applied) \<Longrightarrow> ssh_step good st (snd (set_ssh reply enabled u st))"
| desktop: "ssh_step good (s, fs) (snd (set_rdp call enabled password u s), fs)"
| rebuilds: "(good \<Longrightarrow> ow_reset ow = ProvOk \<and> ow_stop ow = IncusOk) \<Longrightarrow>
    ssh_step good (s, fs) (factory_reset ow now p w s, fs(w_id w := f))"
| elsewhere: "same_keys s s' \<Longrightarrow> ssh_step good (s, fs) (s', fs)"

definition row_plain :: "ssh_key \<Rightarrow> bool" where
  "row_plain k \<longleftrightarrow> plain_key (sk_key_type k) (sk_body k) (case sk_comment k of None \<Rightarrow> [] | Some c \<Rightarrow> c)"

definition ssh_ok :: "bool \<Rightarrow> session \<times> files \<Rightarrow> bool" where
  "ssh_ok good st =
     (case st of (s, fs) \<Rightarrow> distinct (map w_id (workspaces (cur s))) \<and> distinct (map sk_id (ssh_keys (cur s)))
      \<and> (\<forall>k \<in> set (ssh_keys (cur s)). row_plain k \<and> sk_id k \<le> seq s)
      \<and> (\<forall>w \<in> set (workspaces (cur s)). w_ssh_enabled w \<longrightarrow> keys_of (cur s) (w_id w) \<noteq> []
           \<and> (good \<longrightarrow> fs (w_id w) = Some (stored_keys_body (keys_of (cur s) (w_id w))))))"

lemma ssh_okI:
  assumes "distinct (map w_id (workspaces (cur s)))" and "distinct (map sk_id (ssh_keys (cur s)))"
    and "\<And>k. k \<in> set (ssh_keys (cur s)) \<Longrightarrow> row_plain k \<and> sk_id k \<le> seq s"
    and "\<And>w. w \<in> set (workspaces (cur s)) \<Longrightarrow> w_ssh_enabled w \<Longrightarrow> keys_of (cur s) (w_id w) \<noteq> []
      \<and> (good \<longrightarrow> fs (w_id w) = Some (stored_keys_body (keys_of (cur s) (w_id w))))"
  shows "ssh_ok good (s, fs)"
  using assms unfolding ssh_ok_def by auto

lemma ssh_okD:
  assumes "ssh_ok good (s, fs)"
  shows "distinct (map w_id (workspaces (cur s)))" "distinct (map sk_id (ssh_keys (cur s)))"
    "k \<in> set (ssh_keys (cur s)) \<Longrightarrow> row_plain k \<and> sk_id k \<le> seq s"
    "w \<in> set (workspaces (cur s)) \<Longrightarrow> w_ssh_enabled w \<Longrightarrow> keys_of (cur s) (w_id w) \<noteq> []
      \<and> (good \<longrightarrow> fs (w_id w) = Some (stored_keys_body (keys_of (cur s) (w_id w))))"
  using assms unfolding ssh_ok_def by auto

lemma keys_of_same: "ssh_keys d' = ssh_keys d \<Longrightarrow> keys_of d' i = keys_of d i"
  by (simp add: keys_of_def)

lemma same_keys_ok:
  assumes "ssh_ok good (s, fs)" and "same_keys s s'"
  shows "ssh_ok good (s', fs)"
proof (rule ssh_okI)
  have m: "map (\<lambda>w. (w_id w, w_user_id w, w_ssh_enabled w)) (workspaces (cur s'))
      = map (\<lambda>w. (w_id w, w_user_id w, w_ssh_enabled w)) (workspaces (cur s))"
    and k: "ssh_keys (cur s') = ssh_keys (cur s)" and q: "seq s \<le> seq s'"
    using assms(2) by (simp_all add: same_keys_def)
  note D = ssh_okD [OF assms(1)]
  have "map w_id (workspaces (cur s')) = map w_id (workspaces (cur s))"
    using arg_cong [OF m, of "map fst"] by (simp add: comp_def)
  then show "distinct (map w_id (workspaces (cur s')))" using D(1) by simp
  show "distinct (map sk_id (ssh_keys (cur s')))" using D(2) k by simp
  show "row_plain x \<and> sk_id x \<le> seq s'" if "x \<in> set (ssh_keys (cur s'))" for x
    using D(3) [of x] that k q by auto
  fix w assume w: "w \<in> set (workspaces (cur s'))" "w_ssh_enabled w"
  then have "(w_id w, w_user_id w, True) \<in> set (map (\<lambda>w. (w_id w, w_user_id w, w_ssh_enabled w)) (workspaces (cur s)))"
    unfolding m [symmetric] by force
  then obtain v where v: "v \<in> set (workspaces (cur s))" "w_ssh_enabled v" "w_id v = w_id w" by auto
  with D(4) [of v] keys_of_same [OF k]
  show "keys_of (cur s') (w_id w) \<noteq> []
      \<and> (good \<longrightarrow> fs (w_id w) = Some (stored_keys_body (keys_of (cur s') (w_id w))))" by auto
qed

text \<open>An addition or removal at one machine, with the file written or not.\<close>

lemma keys_changed_ok:
  assumes ok: "ssh_ok good (s, fs)" and w: "w \<in> set (workspaces (cur s))"
    and ws: "workspaces (cur s') = workspaces (cur s)"
    and rows: "distinct (map sk_id (ssh_keys (cur s')))"
      "\<And>k. k \<in> set (ssh_keys (cur s')) \<Longrightarrow> row_plain k \<and> sk_id k \<le> seq s'"
    and others: "\<And>i. i \<noteq> w_id w \<Longrightarrow> keys_of (cur s') i = keys_of (cur s) i"
    and left: "w_ssh_enabled w \<Longrightarrow> keys_of (cur s') (w_id w) \<noteq> []"
    and pushed: "push_keys reply w (cur s') fs = (r, fs')" and applied: "good \<Longrightarrow> reply = Applied"
  shows "ssh_ok good (s', fs')"
proof (rule ssh_okI)
  note D = ssh_okD [OF ok]
  show "distinct (map w_id (workspaces (cur s')))" using D(1) ws by simp
  show "distinct (map sk_id (ssh_keys (cur s')))" by (rule rows)
  show "row_plain k \<and> sk_id k \<le> seq s'" if "k \<in> set (ssh_keys (cur s'))" for k using rows(2) [OF that] .
  fix v assume v: "v \<in> set (workspaces (cur s'))" "w_ssh_enabled v"
  show "keys_of (cur s') (w_id v) \<noteq> []
      \<and> (good \<longrightarrow> fs' (w_id v) = Some (stored_keys_body (keys_of (cur s') (w_id v))))"
  proof (cases "w_id v = w_id w")
    case True
    have "v = w" using D(1) v(1) w True ws by (auto simp: distinct_map dest: inj_onD)
    with left v(2) have ne: "keys_of (cur s') (w_id w) \<noteq> []" by simp
    with \<open>v = w\<close> v(2) pushed applied show ?thesis
      by (auto simp: push_keys_def write_keys_def split: fw_reply.splits)
  next
    case False
    have "fs' (w_id v) = fs (w_id v)"
      using pushed False by (auto simp: push_keys_def write_keys_def split: if_splits fw_reply.splits)
    with False D(4) [of v] v ws others show ?thesis by simp
  qed
qed

lemma my_workspace_in: "my_workspace d u = Some w \<Longrightarrow> w \<in> set (workspaces d)"
  by (auto simp: my_workspace_def dest: find_SomeD)

lemma new_key_plain:
  assumes "normalise_keys sha256 text = Inr ks" and "length ks = 1"
  shows "row_plain (new_ssh_key i ws (hd ks))"
proof -
  let ?ls = "filter (\<lambda>l. strip l \<noteq> [] \<and> hd (strip l) \<noteq> CHR ''#'') (splitlines text)"
  have "collect_keys sha256 [] ?ls = Inr ks"
    using assms(1) by (auto simp: normalise_keys_def Let_def split: if_splits)
  moreover have "hd ks \<in> set ks" using assms(2) by (cases ks) auto
  ultimately have "plain_key (ke_type (hd ks)) (ke_body (hd ks)) (ke_comment (hd ks))"
    using collect_keys_spec by blast
  then show ?thesis by (cases "ke_comment (hd ks)") (simp_all add: row_plain_def new_ssh_key_def)
qed

lemma new_ssh_key_simps [simp]: "sk_id (new_ssh_key i ws k) = i" "sk_workspace_id (new_ssh_key i ws k) = ws"
  by (simp_all add: new_ssh_key_def)

lemma ssh_ok_audit: "ssh_ok good (s, fs) \<Longrightarrow> ssh_ok good (audit a b c s, fs)"
  by (erule same_keys_ok) (simp add: same_keys_def audit_def)

lemma add_ssh_key_ok:
  assumes ok: "ssh_ok good (s, fs)" and good: "good \<Longrightarrow> reply = Applied"
  shows "ssh_ok good (snd (add_ssh_key sha256 reply u text (s, fs)))"
proof (cases "\<exists>w ks. my_workspace (cur s) u = Some w \<and> normalise_keys sha256 text = Inr ks \<and> length ks = 1
    \<and> \<not> list_ex (\<lambda>r. sk_fingerprint r = ke_fingerprint (hd ks)) (keys_of (cur s) (w_id w))
    \<and> \<not> MAX_KEYS \<le> length (keys_of (cur s) (w_id w))")
  case False
  then show ?thesis
    unfolding add_ssh_key_def Let_def by (auto simp: ok split: option.split sum.split)
next
  case True
  then obtain w ks where w: "my_workspace (cur s) u = Some w" and ks: "normalise_keys sha256 text = Inr ks"
    "length ks = 1" "\<not> list_ex (\<lambda>r. sk_fingerprint r = ke_fingerprint (hd ks)) (keys_of (cur s) (w_id w))"
    "\<not> MAX_KEYS \<le> length (keys_of (cur s) (w_id w))" by blast
  define s2 where "s2 = commit (edit (\<lambda>d. d\<lparr>ssh_keys := ssh_keys d @ [new_ssh_key (seq s + 1) (w_id w) (hd ks)]\<rparr>) (next_id s))"
  obtain r fs1 where p: "push_keys reply w (cur s2) fs = (r, fs1)" by fastforce
  note D = ssh_okD [OF ok]
  have fresh: "seq s + 1 \<notin> sk_id ` set (ssh_keys (cur s))" using D(3) by force
  have "ssh_ok good (s2, fs1)"
  proof (rule keys_changed_ok [OF ok my_workspace_in [OF w] _ _ _ _ _ p good])
    show "distinct (map sk_id (ssh_keys (cur s2)))" using D(2) fresh by (simp add: s2_def)
    show "row_plain k \<and> sk_id k \<le> seq s2" if "k \<in> set (ssh_keys (cur s2))" for k
      using that D(3) [of k] new_key_plain [OF ks(1,2)] by (auto simp: s2_def)
  qed (auto simp: s2_def keys_of_def)
  then have "ssh_ok good (s2, fs1)" "ssh_ok good (audit a b c s2, fs1)" for a b c
    using ssh_ok_audit by blast+
  then show ?thesis
    using w ks p unfolding add_ssh_key_def Let_def s2_def by simp
qed

lemma remove_ssh_key_ok:
  assumes ok: "ssh_ok good (s, fs)" and good: "good \<Longrightarrow> reply = Applied"
  shows "ssh_ok good (snd (remove_ssh_key reply u i (s, fs)))"
proof (cases "\<exists>w row. my_workspace (cur s) u = Some w \<and> find (\<lambda>k. sk_id k = i) (ssh_keys (cur s)) = Some row
    \<and> sk_workspace_id row = w_id w
    \<and> \<not> (w_ssh_enabled w \<and> filter (\<lambda>k. sk_id k \<noteq> i) (keys_of (cur s) (w_id w)) = [])")
  case False
  then show ?thesis
    unfolding remove_ssh_key_def Let_def by (auto simp: ok split: option.split)
next
  case True
  then obtain w row where w: "my_workspace (cur s) u = Some w" and row: "find (\<lambda>k. sk_id k = i) (ssh_keys (cur s)) = Some row"
    "sk_workspace_id row = w_id w" "\<not> (w_ssh_enabled w \<and> filter (\<lambda>k. sk_id k \<noteq> i) (keys_of (cur s) (w_id w)) = [])"
    by blast
  define s2 where "s2 = commit (edit (\<lambda>d. d\<lparr>ssh_keys := filter (\<lambda>k. sk_id k \<noteq> i) (ssh_keys d)\<rparr>) s)"
  obtain r fs1 where p: "push_keys reply w (cur s2) fs = (r, fs1)" by fastforce
  note D = ssh_okD [OF ok]
  have only: "k = row" if "k \<in> set (ssh_keys (cur s))" "sk_id k = i" for k
    using distinct_map_find [OF D(2) that(1)] that(2) row(1) by simp
  have swap: "keys_of (cur s2) j = filter (\<lambda>k. sk_id k \<noteq> i) (keys_of (cur s) j)" for j
    by (simp add: s2_def keys_of_def conj_commute)
  have "ssh_ok good (s2, fs1)"
  proof (rule keys_changed_ok [OF ok my_workspace_in [OF w] _ _ _ _ _ p good])
    show "distinct (map sk_id (ssh_keys (cur s2)))" using D(2) by (simp add: s2_def distinct_map_filter)
    show "keys_of (cur s2) j = keys_of (cur s) j" if "j \<noteq> w_id w" for j
      unfolding swap using only row(2) that by (intro filter_True) (auto simp: keys_of_def)
    show "keys_of (cur s2) (w_id w) \<noteq> []" if "w_ssh_enabled w" using row(3) that swap by simp
  qed (use D(3) in \<open>auto simp: s2_def\<close>)
  then have "ssh_ok good (s2, fs1)" "ssh_ok good (audit a b c s2, fs1)" for a b c
    using ssh_ok_audit by blast+
  then show ?thesis
    using w row p unfolding remove_ssh_key_def Let_def s2_def by auto
qed

lemma switched_ok:
  assumes ok: "ssh_ok good (s, fs)" and w: "w \<in> set (workspaces (cur s))"
    and on: "on \<Longrightarrow> keys_of (cur s) (w_id w) \<noteq> [] \<and> (good \<longrightarrow> fs' (w_id w) = Some (stored_keys_body (keys_of (cur s) (w_id w))))"
    and others: "\<And>i. i \<noteq> w_id w \<Longrightarrow> fs' i = fs i" and f: "\<And>v. w_id (f v) = w_id v" "\<And>v. w_ssh_enabled (f v) = on"
  shows "ssh_ok good (commit (update_ws (w_id w) f s), fs')"
proof (rule ssh_okI)
  note D = ssh_okD [OF ok]
  have rows: "workspaces (cur (commit (update_ws (w_id w) f s))) = map_rows (\<lambda>v. w_id v = w_id w) f (workspaces (cur s))"
    "ssh_keys (cur (commit (update_ws (w_id w) f s))) = ssh_keys (cur s)" "seq (commit (update_ws (w_id w) f s)) = seq s"
    by (simp_all add: update_ws_def set_ws_def)
  show "distinct (map w_id (workspaces (cur (commit (update_ws (w_id w) f s)))))"
    unfolding rows using D(1) f(1) by (simp add: map_map_rows)
  show "distinct (map sk_id (ssh_keys (cur (commit (update_ws (w_id w) f s)))))" unfolding rows by (rule D(2))
  show "row_plain k \<and> sk_id k \<le> seq (commit (update_ws (w_id w) f s))"
    if "k \<in> set (ssh_keys (cur (commit (update_ws (w_id w) f s))))" for k
    using D(3) that unfolding rows by blast
  fix v assume "v \<in> set (workspaces (cur (commit (update_ws (w_id w) f s))))" "w_ssh_enabled v"
  then obtain u where u: "u \<in> set (workspaces (cur s))" "v = (if w_id u = w_id w then f u else u)"
    unfolding rows set_map_rows by blast
  show "keys_of (cur (commit (update_ws (w_id w) f s))) (w_id v) \<noteq> [] \<and> (good \<longrightarrow>
      fs' (w_id v) = Some (stored_keys_body (keys_of (cur (commit (update_ws (w_id w) f s))) (w_id v))))"
    unfolding keys_of_same [OF rows(2)]
  proof (cases "w_id u = w_id w")
    case True
    with u \<open>w_ssh_enabled v\<close> f on show "keys_of (cur s) (w_id v) \<noteq> [] \<and> (good \<longrightarrow>
        fs' (w_id v) = Some (stored_keys_body (keys_of (cur s) (w_id v))))" by simp
  next
    case False
    with u \<open>w_ssh_enabled v\<close> D(4) [of u] others show "keys_of (cur s) (w_id v) \<noteq> [] \<and> (good \<longrightarrow>
        fs' (w_id v) = Some (stored_keys_body (keys_of (cur s) (w_id v))))" by simp
  qed
qed

lemma set_ssh_ok:
  assumes ok: "ssh_ok good (s, fs)" and good: "good \<Longrightarrow> reply = Applied"
  shows "ssh_ok good (snd (set_ssh reply enabled u (s, fs)))"
proof (cases "my_workspace (cur s) u")
  case None
  then show ?thesis by (simp add: set_ssh_def ok)
next
  case (Some w)
  note D = ssh_okD [OF ok]
  obtain r fs1 where p: "write_keys reply (w_id w) (stored_keys_body (keys_of (cur s) (w_id w))) fs = (r, fs1)"
    by fastforce
  have others: "fs1 i = fs i" if "i \<noteq> w_id w" for i
    using p that by (auto simp: write_keys_def split: fw_reply.splits)
  have wrote: "fs1 = fs \<or> fs1 (w_id w) = Some (stored_keys_body (keys_of (cur s) (w_id w)))"
    "r \<Longrightarrow> fs1 (w_id w) = Some (stored_keys_body (keys_of (cur s) (w_id w)))"
    using p by (auto simp: write_keys_def split: fw_reply.splits)
  have "ssh_ok good (s, fs1)"
  proof (rule ssh_okI [OF D(1,2,3)])
    fix v assume v: "v \<in> set (workspaces (cur s))" "w_ssh_enabled v"
    show "keys_of (cur s) (w_id v) \<noteq> [] \<and> (good \<longrightarrow> fs1 (w_id v) = Some (stored_keys_body (keys_of (cur s) (w_id v))))"
      using D(4) [OF v] others [of "w_id v"] wrote(1) by (cases "w_id v = w_id w") auto
  qed
  moreover have "ssh_ok good (audit a b c (commit (update_ws (w_id w) (\<lambda>w. w\<lparr>w_ssh_enabled := True\<rparr>) s)), fs1)"
    if "r" "keys_of (cur s) (w_id w) \<noteq> []" for a b c
    by (rule ssh_ok_audit, rule switched_ok [OF ok my_workspace_in [OF Some], where on = True])
      (use that wrote others in auto)
  moreover have "ssh_ok good (audit a b c (commit (update_ws (w_id w) (\<lambda>w. w\<lparr>w_ssh_enabled := False\<rparr>) s)), fs)" for a b c
    by (rule ssh_ok_audit, rule switched_ok [OF ok my_workspace_in [OF Some], where on = False]) auto
  ultimately show ?thesis
    using Some p by (cases reply) (auto simp: set_ssh_def Let_def ok)
qed

lemma set_rdp_same: "same_keys s (snd (set_rdp call enabled password u s))"
  unfolding set_rdp_def Let_def
  by (auto simp: same_keys_def audit_def update_ws_def set_ws_def map_rows_def split: option.split)

lemma seq_notices [simp]:
  "seq s \<le> seq (emit now u k c v h key s)" "seq s \<le> seq (op_text now u k d s)"
proof -
  show "seq s \<le> seq (emit now u k c v h key s)"
    unfolding emit_def Let_def by (auto split: option.split)
  have "seq s \<le> seq (snd (queue now i p kd key u s))" for i p kd key u
    using queue_state [of now i p kd key u s] by auto
  then show "seq s \<le> seq (op_text now u k d s)"
    unfolding op_text_def by (auto split: option.split prod.split sum.split) (metis snd_conv)+
qed

text \<open>A rebuilt machine: its row keeps its switch at most, and drops it when the rebuild ends well.\<close>

definition only_rebuilt :: "bool \<Rightarrow> int \<Rightarrow> session \<Rightarrow> session \<Rightarrow> bool" where
  "only_rebuilt ended i s s' \<longleftrightarrow> ssh_keys (cur s') = ssh_keys (cur s) \<and> seq s \<le> seq s'
     \<and> (\<exists>g. workspaces (cur s') = map_rows (\<lambda>v. w_id v = i) g (workspaces (cur s))
          \<and> (\<forall>v. w_id (g v) = w_id v \<and> (w_ssh_enabled (g v) \<longrightarrow> w_ssh_enabled v) \<and> (ended \<longrightarrow> \<not> w_ssh_enabled (g v))))"

lemma rebuilt_ok:
  assumes ok: "ssh_ok good (s, fs)" and r: "only_rebuilt ended i s s'" and good: "good \<Longrightarrow> ended"
  shows "ssh_ok good (s', fs(i := f))"
proof (rule ssh_okI)
  note D = ssh_okD [OF ok]
  from r obtain g where k: "ssh_keys (cur s') = ssh_keys (cur s)" "seq s \<le> seq s'"
    and ws: "workspaces (cur s') = map_rows (\<lambda>v. w_id v = i) g (workspaces (cur s))"
    and g: "\<And>v. w_id (g v) = w_id v" "\<And>v. w_ssh_enabled (g v) \<Longrightarrow> w_ssh_enabled v"
      "\<And>v. ended \<Longrightarrow> \<not> w_ssh_enabled (g v)" unfolding only_rebuilt_def by blast
  show "distinct (map w_id (workspaces (cur s')))" using D(1) g(1) by (simp add: ws map_map_rows)
  show "distinct (map sk_id (ssh_keys (cur s')))" using D(2) k by simp
  show "row_plain x \<and> sk_id x \<le> seq s'" if "x \<in> set (ssh_keys (cur s'))" for x
    using D(3) [of x] that k by auto
  fix v assume "v \<in> set (workspaces (cur s'))" "w_ssh_enabled v"
  then obtain u where u: "u \<in> set (workspaces (cur s))" "v = (if w_id u = i then g u else u)"
    unfolding ws set_map_rows by blast
  with \<open>w_ssh_enabled v\<close> g(2) have "w_ssh_enabled u" by (auto split: if_splits)
  with D(4) [OF u(1)] u(2) g(1,3) good \<open>w_ssh_enabled v\<close> keys_of_same [OF k(1)]
  show "keys_of (cur s') (w_id v) \<noteq> [] \<and> (good \<longrightarrow>
      (fs(i := f)) (w_id v) = Some (stored_keys_body (keys_of (cur s') (w_id v))))" by auto
qed

lemma only_rebuilt_after:
  assumes "only_rebuilt ended i s s'" and "ssh_keys (cur s'') = ssh_keys (cur s')"
    and "workspaces (cur s'') = workspaces (cur s')" and "seq s' \<le> seq s''"
  shows "only_rebuilt ended i s s''"
  using assms unfolding only_rebuilt_def by simp

lemma notices_keys [simp]:
  "ssh_keys (cur (emit now u k c v h key s)) = ssh_keys (cur s)"
  "ssh_keys (cur (op_text now u k d s)) = ssh_keys (cur s)"
  "ssh_keys (cur (op_progress p cd s)) = ssh_keys (cur s)"
  "workspaces (cur (op_progress p cd s)) = workspaces (cur s)" "seq (op_progress p cd s) = seq s"
  "ssh_keys (cur (update_ws i g s)) = ssh_keys (cur s)" "seq (update_ws i g s) = seq s"
  "workspaces (cur (update_ws i g s)) = map_rows (\<lambda>v. w_id v = i) g (workspaces (cur s))"
  "ssh_keys (cur (audit x y z s)) = ssh_keys (cur s)" "workspaces (cur (audit x y z s)) = workspaces (cur s)"
  "seq (audit x y z s) = seq s"
  by (simp_all add: side_traces_frame [OF side_traces_emit] side_traces_frame [OF side_traces_op_text]
      op_progress_def set_operation_def update_ws_def set_ws_def audit_def)

lemma only_rebuilt_op:
  assumes "only_rebuilt ended i s s'"
  shows "only_rebuilt ended i s (op_finish p now s')" "only_rebuilt ended i s (op_fail p cd now s')"
proof -
  have q: "seq s' \<le> seq (op_text now u k d (emit now' u' k' c v h key s1))"
    "seq s' \<le> seq (emit now' u' k' c v h key s1)" if "seq s1 = seq s'" for now u k d now' u' k' c v h key s1
    using seq_notices that by (metis order_trans)+
  show "only_rebuilt ended i s (op_finish p now s')"
    by (rule only_rebuilt_after [OF assms])
      (simp_all add: op_finish_def Let_def set_operation_def q split: option.split)
  show "only_rebuilt ended i s (op_fail p cd now s')"
    by (rule only_rebuilt_after [OF assms])
      (simp_all add: op_fail_def Let_def set_operation_def q split: option.split)
qed

lemma map_rows_twice:
  "(\<And>v. k (f v) = k v) \<Longrightarrow> map_rows (\<lambda>v. k v = i) g (map_rows (\<lambda>v. k v = i) f rs) = map_rows (\<lambda>v. k v = i) (g \<circ> f) rs"
  by (induction rs) auto

lemma reset_row_ids [simp]:
  "w_id (reset_row w) = w_id w" "\<not> w_ssh_enabled (reset_row w)" "w_id (error_row e w) = w_id w"
  "w_ssh_enabled (error_row e w) = w_ssh_enabled w" "w_id (reset_intent w) = w_id w"
  "w_ssh_enabled (reset_intent w) = w_ssh_enabled w"
  by (simp_all add: reset_row_def error_row_def reset_intent_def disarm_auto_stop_def)

lemma factory_reset_rebuilds:
  "only_rebuilt (ow_reset ow = ProvOk \<and> ow_stop ow = IncusOk) (w_id w) s (factory_reset ow now p w s)"
proof -
  let ?s1 = "op_progress p ''rebuilding_machine'' (commit (update_ws (w_id w) reset_intent s))"
  let ?s2 = "op_progress p ''stopping_machine'' ?s1"
  have ended: "only_rebuilt True (w_id w) s (commit (update_ws (w_id w) reset_row ?s2))"
    unfolding only_rebuilt_def by (auto simp: map_rows_twice intro!: exI [of _ "reset_row \<circ> reset_intent"])
  have failed: "only_rebuilt False (w_id w) s (update_ws (w_id w) (error_row e) ?s1)"
    "only_rebuilt False (w_id w) s (update_ws (w_id w) (error_row e) ?s2)" for e
    unfolding only_rebuilt_def by (auto simp: map_rows_twice intro!: exI [of _ "error_row e \<circ> reset_intent"])
  have logged: "only_rebuilt b i s (audit x y z s')" if "only_rebuilt b i s s'" for b i s' x y z
    by (rule only_rebuilt_after [OF that]) simp_all
  show ?thesis
    unfolding factory_reset_def Let_def
    using ended failed by (auto intro!: only_rebuilt_op logged split: prov_reply.split incus_reply.split)
qed

lemma ssh_step_ok:
  assumes "ssh_step good st st'" and "ssh_ok good st"
  shows "ssh_ok good st'"
  using assms
proof (cases rule: ssh_step.cases)
  case (adds reply sha256 u pasted)
  then show ?thesis using assms(2) add_ssh_key_ok by (cases st) auto
next
  case (removes reply u key_id)
  then show ?thesis using assms(2) remove_ssh_key_ok by (cases st) auto
next
  case (switches reply enabled u)
  then show ?thesis using assms(2) set_ssh_ok by (cases st) auto
next
  case (desktop s fs call enabled password u)
  then show ?thesis using assms(2) same_keys_ok set_rdp_same by blast
next
  case (rebuilds ow s fs now p w f)
  then show ?thesis using assms(2) rebuilt_ok [OF _ factory_reset_rebuilds] by blast
next
  case (elsewhere s s' fs)
  then show ?thesis using assms(2) same_keys_ok by blast
qed

lemma ssh_steps_ok: "(ssh_step good)\<^sup>*\<^sup>* st st' \<Longrightarrow> ssh_ok good st \<Longrightarrow> ssh_ok good st'"
  by (induction rule: rtranclp_induct) (auto intro: ssh_step_ok)

section \<open>Properties\<close>

lemma stored_line:
  "sk_line k = key_line (sk_key_type k) (sk_body k) (case sk_comment k of None \<Rightarrow> [] | Some c \<Rightarrow> c)"
  by (simp add: sk_line_def key_line_def split: option.split)

lemma stored_keys_lines:
  assumes "ks \<noteq> []" and "\<And>k. k \<in> set ks \<Longrightarrow> row_plain k"
  shows "split_nl (stored_keys_body ks) = keys_header # map sk_line ks @ [[]]"
proof -
  have "list_all (list_all (\<lambda>c. code c \<noteq> 10)) (map sk_line ks)"
    using key_line_one_line [OF assms(2) [unfolded row_plain_def]] by (auto simp: list_all_iff stored_line)
  then have "split_nl (join newline (map sk_line ks) @ newline) = map sk_line ks @ [[]]"
    using assms(1) by (intro split_nl_join) simp_all
  moreover have "list_all (\<lambda>c. code c \<noteq> 10) keys_header" by (simp add: keys_header_def)
  ultimately show ?thesis using split_nl_line by (simp add: stored_keys_body_def)
qed


text \<open>One machine: its owner registers a key and switches SSH on.\<close>

definition an_owner :: user where
  "an_owner = \<lparr>u_id = 3, u_username = ''ali'', u_full_name = None, u_phone = None, u_sms_prefs = (\<lambda>_. None),
     u_sms_credit_step_toman = 0, u_sms_credit_band = None, u_telegram_bot_token = None,
     u_telegram_user_id = None, u_password_hash = ''x'', u_session_version = 0, u_is_admin = False,
     u_status = UApproved, u_approved_at = None, u_approved_by = None\<rparr>"

definition bare_machine :: "session \<times> files" where
  "bare_machine = (open_session (empty_db\<lparr>users := [an_owner],
     workspaces := [(new_workspace 5 3 1 0)\<lparr>w_state := ON\<rparr>]\<rparr>) 10, (\<lambda>_. None))"

definition keyed_machine :: "session \<times> files" where
  "keyed_machine = snd (add_ssh_key (\<lambda>_. []) Applied an_owner sample_keys bare_machine)"

definition open_machine :: "session \<times> files" where
  "open_machine = snd (set_ssh Applied True an_owner keyed_machine)"

lemma open_machine_row:
  "map (\<lambda>w. (w_id w, w_ssh_enabled w)) (workspaces (cur (fst open_machine))) = [(5, True)]
   \<and> map sk_line (keys_of (cur (fst open_machine)) 5) = [''ssh-ed25519 AAAAC3NzaC1lZDI1NTE5AA== ali@laptop'']"
  by code_simp


text \<open>What a lost request leaves: the key is gone from the page, still in the machine, and asking again is
  answered with 404 and sends nothing.\<close>

lemma removed_key_may_stay:
  assumes "my_workspace (cur s) u = Some w" and "w_ssh_enabled w"
    and "find (\<lambda>k. sk_id k = i) (ssh_keys (cur s)) = Some row" and "sk_workspace_id row = w_id w"
    and "filter (\<lambda>k. sk_id k \<noteq> i) (keys_of (cur s) (w_id w)) \<noteq> []"
    and "remove_ssh_key Refused u i (s, fs) = (a, s', fs')"
  shows "a = Failed 500 ''ssh_failed'' \<and> fs' = fs \<and> find (\<lambda>k. sk_id k = i) (ssh_keys (saved s')) = None
    \<and> remove_ssh_key Applied u i (s', fs') = (Failed 404 ''no_such_key'', s', fs')"
proof -
  define s2 where "s2 = commit (edit (\<lambda>d. d\<lparr>ssh_keys := filter (\<lambda>k. sk_id k \<noteq> i) (ssh_keys d)\<rparr>) s)"
  have "keys_of (cur s2) (w_id w) \<noteq> []"
    using assms(5) by (simp add: s2_def keys_of_def conj_commute)
  then have r: "a = Failed 500 ''ssh_failed''" "s' = s2" "fs' = fs"
    using assms by (auto simp: remove_ssh_key_def Let_def push_keys_def write_keys_def s2_def)
  have gone: "find (\<lambda>k. sk_id k = i) (filter (\<lambda>k. sk_id k \<noteq> i) ks) = None" for ks :: "ssh_key list"
    by (auto simp: find_None_iff')
  have "my_workspace (cur s') u = Some w" using assms(1) r(2) by (simp add: s2_def my_workspace_def)
  with r gone show ?thesis by (simp add: remove_ssh_key_def s2_def)
qed

end
