(* ===== verification/FileApi.thy ===== *)
theory FileApi
  imports WorkspaceOps SideTraces PosixPath Host Passwords
begin

text \<open>
  The file endpoints of \<open>control/mmd/app.py\<close>. Contents travel through a spool directory shared with
  the provisioner, one file per token; the spool is a map from tokens to bytes. What the provisioner
  answers, and what it leaves in the spool file it was asked to fill, is an argument; what it does in
  the machine is the matter of \<open>HostFiles\<close> and \<open>Confinement\<close>. A token is drawn for every transfer.
\<close>

section \<open>UTF-8\<close>

text \<open>\<open>bytes.decode\<close> into code points; \<open>str.encode\<close> is \<open>utf8\<close> of \<open>Passwords\<close>.\<close>

definition continuation :: "nat \<Rightarrow> bool" where
  "continuation b \<longleftrightarrow> 128 \<le> b \<and> b < 192"

fun decode_utf8 :: "nat list \<Rightarrow> nat list option" where
  "decode_utf8 [] = Some []"
| "decode_utf8 (b # bs) =
     (if b < 128 then map_option (\<lambda>r. b # r) (decode_utf8 bs)
      else if 194 \<le> b \<and> b < 224 then
        (case bs of c # r \<Rightarrow>
           if continuation c then map_option (\<lambda>r. ((b - 192) * 64 + (c - 128)) # r) (decode_utf8 r) else None
         | [] \<Rightarrow> None)
      else if 224 \<le> b \<and> b < 240 then
        (case bs of c # d # r \<Rightarrow>
           (let n = ((b - 224) * 64 + (c - 128)) * 64 + (d - 128) in
            if continuation c \<and> continuation d \<and> 2048 \<le> n \<and> \<not> (55296 \<le> n \<and> n < 57344)
            then map_option (\<lambda>r. n # r) (decode_utf8 r) else None)
         | _ \<Rightarrow> None)
      else if 240 \<le> b \<and> b < 245 then
        (case bs of c # d # e # r \<Rightarrow>
           (let n = (((b - 240) * 64 + (c - 128)) * 64 + (d - 128)) * 64 + (e - 128) in
            if continuation c \<and> continuation d \<and> continuation e \<and> 65536 \<le> n \<and> n < 1114112
            then map_option (\<lambda>r. n # r) (decode_utf8 r) else None)
         | _ \<Rightarrow> None)
      else None)"

section \<open>Requests and replies\<close>

datatype fs_request =
  FsList int string | FsPull int string string | FsPush int string string | FsMkdir int string
| FsDelete int string | FsArchive int string string

record fs_entry =
  fe_name :: string
  fe_type :: string
  fe_size :: int

record fs_reply =
  fr_ok :: bool
  fr_error :: string
  fr_too_large :: bool
  fr_size :: int
  fr_entries :: "fs_entry list"
  fr_partial :: bool
  fr_left :: "nat list option"

type_synonym spool = "string \<Rightarrow> nat list option"
type_synonym daemon = "fs_request \<Rightarrow> nat list option \<Rightarrow> fs_reply"

text \<open>A pull or an archive leaves its file under the token; a push reads it.\<close>

fun fills :: "fs_request \<Rightarrow> bool" where
  "fills (FsPull _ _ _) = True" | "fills (FsArchive _ _ _) = True" | "fills _ = False"

definition ask_fs :: "daemon \<Rightarrow> string \<Rightarrow> fs_request \<Rightarrow> spool \<Rightarrow> fs_reply \<times> spool" where
  "ask_fs prov token req sp =
     (let r = prov req (sp token) in (r, if fills req then sp(token := fr_left r) else sp))"

section \<open>The handlers\<close>

definition MAX_EDIT_BYTES :: int where "MAX_EDIT_BYTES = 2 * 1024 * 1024"
definition MAX_UPLOAD_BYTES :: int where "MAX_UPLOAD_BYTES = 512 * 1024 * 1024"

definition TEXT_SUFFIXES :: "string list" where
  "TEXT_SUFFIXES = [
     ''.txt'', ''.md'', ''.markdown'', ''.rst'', ''.log'', ''.csv'', ''.tsv'', ''.ini'', ''.cfg'',
     ''.conf'', ''.toml'', ''.json'', ''.jsonc'', ''.yaml'', ''.yml'', ''.xml'', ''.html'',
     ''.htm'', ''.css'', ''.scss'', ''.js'', ''.mjs'', ''.cjs'', ''.ts'', ''.tsx'', ''.jsx'',
     ''.py'', ''.pyi'', ''.rb'', ''.go'', ''.rs'', ''.java'', ''.kt'', ''.c'', ''.h'', ''.cpp'',
     ''.hpp'', ''.cs'', ''.php'', ''.sh'', ''.bash'', ''.zsh'', ''.fish'', ''.sql'', ''.env'',
     ''.gitignore'', ''.dockerignore'', ''.editorconfig'', ''.lock'', ''.properties'']"

definition IMAGE_SUFFIXES :: "string list" where
  "IMAGE_SUFFIXES = [''.png'', ''.jpg'', ''.jpeg'', ''.gif'', ''.webp'', ''.svg'', ''.bmp'', ''.ico'']"

text \<open>\<open>posixpath.splitext\<close>: dots that lead a name start no suffix.\<close>

definition suffix_of :: "string \<Rightarrow> string" where
  "suffix_of name =
     (let b = basename name; ext = rev (takeWhile (\<lambda>c. c \<noteq> CHR ''.'') (rev b))
      in if CHR ''.'' \<in> set b \<and> list_ex (\<lambda>c. c \<noteq> CHR ''.'') (take (length b - length ext - 1) b)
         then CHR ''.'' # ext else [])"

definition editable :: "fs_entry \<Rightarrow> bool" where
  "editable e \<longleftrightarrow> fe_type e = ''file''
     \<and> (lower (suffix_of (fe_name e)) \<in> set TEXT_SUFFIXES \<or> CHR ''.'' \<notin> set (fe_name e))"

definition is_image :: "fs_entry \<Rightarrow> bool" where
  "is_image e \<longleftrightarrow> fe_type e = ''file'' \<and> lower (suffix_of (fe_name e)) \<in> set IMAGE_SUFFIXES"

record listed =
  li_entry :: fs_entry
  li_editable :: bool
  li_image :: bool
  li_path :: string

datatype file_answer =
  FileRefused int string | Listing string "string option" "listed list" bool
| FileText string "nat list" nat | FileSaved nat | FileStream string "nat list"
| FileUploaded string nat | PathMade string | PathGone

text \<open>A handler answers, may change the session and the spool, and sends requests.\<close>

type_synonym file_result = "file_answer \<times> session \<times> spool \<times> fs_request list"

definition running_ws :: "db \<Rightarrow> user \<Rightarrow> (file_answer, workspace) result" where
  "running_ws d u = (case my_workspace d u of
     None \<Rightarrow> raise (FileRefused 404 ''no_workspace'')
   | Some w \<Rightarrow> if w_state w \<noteq> ON then raise (FileRefused 409 ''machine_off'') else return w)"

text \<open>\<open>_running_ws\<close> and \<open>_clean_path\<close>, with which every handler begins.\<close>

definition at_path ::
  "user \<Rightarrow> string \<Rightarrow> session \<Rightarrow> spool \<Rightarrow> (workspace \<Rightarrow> string \<Rightarrow> file_result) \<Rightarrow> file_result" where
  "at_path u path s sp f =
     (case running_ws (cur s) u of
        Inl a \<Rightarrow> (a, s, sp, [])
      | Inr w \<Rightarrow> (case clean_path path of None \<Rightarrow> (FileRefused 400 ''bad_path'', s, sp, []) | Some p \<Rightarrow> f w p))"

definition file_audit :: "user \<Rightarrow> workspace \<Rightarrow> string \<Rightarrow> session \<Rightarrow> session" where
  "file_audit u w action s = audit (Some (u_id u)) action (Some (w_incus_project w)) s"

definition drop_token :: "string \<Rightarrow> spool \<Rightarrow> spool" where
  "drop_token token sp = sp(token := None)"

definition sorted_entries :: "fs_entry list \<Rightarrow> fs_entry list" where
  "sorted_entries es = sort_key (\<lambda>e. if fe_type e = ''dir'' then (0::nat) else 1)
     (sort_key (\<lambda>e. map code (lower (fe_name e))) es)"

definition list_files :: "daemon \<Rightarrow> string \<Rightarrow> user \<Rightarrow> string \<Rightarrow> session \<Rightarrow> spool \<Rightarrow> file_result" where
  "list_files prov token u path s sp = at_path u path s sp (\<lambda>w p.
     let req = FsList (w_idx w) p; (r, sp1) = ask_fs prov token req sp
     in if \<not> fr_ok r then ((if fr_error r = ''not found'' then FileRefused 404 ''no_such_path''
                           else FileRefused 500 ''fs_failed''), s, sp1, [req])
        else (Listing p (if p = ''/'' then None else Some (dirname p))
                (map (\<lambda>e. \<lparr>li_entry = e, li_editable = editable e, li_image = is_image e,
                   li_path = path_join p (fe_name e)\<rparr>) (sorted_entries (fr_entries r))) (fr_partial r),
              s, sp1, [req]))"

text \<open>The refusal comes before the \<open>try\<close> that drops the token.\<close>

definition read_file :: "daemon \<Rightarrow> string \<Rightarrow> user \<Rightarrow> string \<Rightarrow> session \<Rightarrow> spool \<Rightarrow> file_result" where
  "read_file prov token u path s sp = at_path u path s sp (\<lambda>w p.
     let req = FsPull (w_idx w) p token; (r, sp1) = ask_fs prov token req sp
     in if \<not> fr_ok r then (FileRefused 404 ''no_such_path'', s, sp1, [req])
        else ((if MAX_EDIT_BYTES < fr_size r then FileRefused 413 ''file_too_large''
               else case sp1 token of
                 None \<Rightarrow> FileRefused 500 ''internal''
               | Some raw \<Rightarrow> (case decode_utf8 raw of
                     None \<Rightarrow> FileRefused 415 ''not_text''
                   | Some cs \<Rightarrow> FileText p cs (length raw))),
              s, drop_token token sp1, [req]))"

definition save_file :: "daemon \<Rightarrow> string \<Rightarrow> user \<Rightarrow> string \<Rightarrow> string \<Rightarrow> session \<Rightarrow> spool \<Rightarrow> file_result" where
  "save_file prov token u path content s sp = at_path u path s sp (\<lambda>w p.
     let data = utf8 content; req = FsPush (w_idx w) p token
     in if MAX_EDIT_BYTES < int (length data) then (FileRefused 413 ''file_too_large'', s, sp, [])
        else let (r, sp1) = ask_fs prov token req (sp(token := Some data)); sp2 = drop_token token sp1
             in if \<not> fr_ok r then (FileRefused 500 ''fs_failed'', s, sp2, [req])
                else (FileSaved (length data), file_audit u w ''file_saved'' s, sp2, [req]))"

text \<open>\<open>_stream_and_delete\<close>: the copy lives as long as the response; without it the response fails.\<close>

definition stream_and_delete :: "string \<Rightarrow> string \<Rightarrow> spool \<Rightarrow> file_answer \<times> spool" where
  "stream_and_delete token filename sp =
     ((case sp token of None \<Rightarrow> FileRefused 500 ''internal'' | Some b \<Rightarrow> FileStream filename b), drop_token token sp)"

definition named_or :: "string \<Rightarrow> string \<Rightarrow> string" where
  "named_or p other = (if basename p = [] then other else basename p)"

definition download_file :: "daemon \<Rightarrow> string \<Rightarrow> user \<Rightarrow> string \<Rightarrow> session \<Rightarrow> spool \<Rightarrow> file_result" where
  "download_file prov token u path s sp = at_path u path s sp (\<lambda>w p.
     let req = FsPull (w_idx w) p token; (r, sp1) = ask_fs prov token req sp
     in if \<not> fr_ok r then ((if fr_too_large r then FileRefused 413 ''download_too_large''
                           else FileRefused 404 ''no_such_path''), s, drop_token token sp1, [req])
        else let (a, sp2) = stream_and_delete token (named_or p ''download'') sp1 in (a, s, sp2, [req]))"

definition download_archive :: "daemon \<Rightarrow> string \<Rightarrow> user \<Rightarrow> string \<Rightarrow> session \<Rightarrow> spool \<Rightarrow> file_result" where
  "download_archive prov token u path s sp = at_path u path s sp (\<lambda>w p.
     let req = FsArchive (w_idx w) p token; (r, sp1) = ask_fs prov token req sp
     in if \<not> fr_ok r then ((if fr_too_large r then FileRefused 413 ''download_too_large''
                           else FileRefused 500 ''fs_failed''), s, drop_token token sp1, [req])
        else let (a, sp2) = stream_and_delete token (named_or p ''workspace'' @ ''.zip'') sp1
             in (a, file_audit u w ''folder_downloaded'' s, sp2, [req]))"

text \<open>\<open>upload_file\<close>: the chunks are written until they pass the limit.\<close>

definition upload_file ::
  "daemon \<Rightarrow> string \<Rightarrow> user \<Rightarrow> string \<Rightarrow> string \<Rightarrow> nat list \<Rightarrow> session \<Rightarrow> spool \<Rightarrow> file_result" where
  "upload_file prov token u path filename data s sp = at_path u path s sp (\<lambda>w folder.
     let name = basename filename
     in if name = [] \<or> name = ''.'' \<or> name = ''..'' \<or> CHR ''/'' \<in> set name
        then (FileRefused 400 ''bad_name'', s, sp, [])
        else if MAX_UPLOAD_BYTES < int (length data)
          then (FileRefused 413 ''file_too_large'', s, drop_token token sp, [])
        else let dest = path_join folder name; req = FsPush (w_idx w) dest token;
                 (r, sp1) = ask_fs prov token req (sp(token := Some data)); sp2 = drop_token token sp1
             in if \<not> fr_ok r then (FileRefused 500 ''fs_failed'', s, sp2, [req])
                else (FileUploaded dest (length data), file_audit u w ''file_uploaded'' s, sp2, [req]))"

definition make_dir :: "daemon \<Rightarrow> string \<Rightarrow> user \<Rightarrow> string \<Rightarrow> session \<Rightarrow> spool \<Rightarrow> file_result" where
  "make_dir prov token u path s sp = at_path u path s sp (\<lambda>w p.
     let req = FsMkdir (w_idx w) p; (r, sp1) = ask_fs prov token req sp
     in ((if fr_ok r then PathMade p else FileRefused 500 ''fs_failed''), s, sp1, [req]))"

definition new_file :: "daemon \<Rightarrow> string \<Rightarrow> user \<Rightarrow> string \<Rightarrow> session \<Rightarrow> spool \<Rightarrow> file_result" where
  "new_file prov token u path s sp = at_path u path s sp (\<lambda>w p.
     let req = FsPush (w_idx w) p token; (r, sp1) = ask_fs prov token req (sp(token := Some []))
     in ((if fr_ok r then PathMade p else FileRefused 500 ''fs_failed''), s, drop_token token sp1, [req]))"

definition delete_path :: "daemon \<Rightarrow> string \<Rightarrow> user \<Rightarrow> string \<Rightarrow> session \<Rightarrow> spool \<Rightarrow> file_result" where
  "delete_path prov token u path s sp = at_path u path s sp (\<lambda>w p.
     let req = FsDelete (w_idx w) p; (r, sp1) = ask_fs prov token req sp
     in if \<not> fr_ok r then ((if occurs ''system path'' (fr_error r) then FileRefused 409 ''protected_path''
                           else FileRefused 500 ''fs_failed''), s, sp1, [req])
        else (PathGone, file_audit u w ''file_deleted'' s, sp1, [req]))"

text \<open>One request of the page.\<close>

datatype file_call =
  ListFiles string | ReadFile string | SaveFile string string | Download string | Archive string
| Upload string string "nat list" | MakeDir string | NewFile string | DeletePath string

fun serve_file :: "daemon \<Rightarrow> string \<Rightarrow> user \<Rightarrow> file_call \<Rightarrow> session \<Rightarrow> spool \<Rightarrow> file_result" where
  "serve_file prov token u (ListFiles p) s sp = list_files prov token u p s sp"
| "serve_file prov token u (ReadFile p) s sp = read_file prov token u p s sp"
| "serve_file prov token u (SaveFile p c) s sp = save_file prov token u p c s sp"
| "serve_file prov token u (Download p) s sp = download_file prov token u p s sp"
| "serve_file prov token u (Archive p) s sp = download_archive prov token u p s sp"
| "serve_file prov token u (Upload p f b) s sp = upload_file prov token u p f b s sp"
| "serve_file prov token u (MakeDir p) s sp = make_dir prov token u p s sp"
| "serve_file prov token u (NewFile p) s sp = new_file prov token u p s sp"
| "serve_file prov token u (DeletePath p) s sp = delete_path prov token u p s sp"

section \<open>Lemmas\<close>

lemma decode_utf8_char:
  "decode_utf8 (utf8_char c @ bs)
     = map_option (\<lambda>r. code c # r) (decode_utf8 bs)"
proof (cases "code c < 128")
  case False
  have d: "2 \<le> code c div 64" "code c div 64 < 4" using False less_mult_imp_div_less [of "code c" 4 64] code_less [of c] by auto
  have m: "code c div 64 * 64 + code c mod 64 = code c" by simp
  have "continuation (128 + code c mod 64)" by (simp add: continuation_def)
  with False d m show ?thesis by (simp add: utf8_char_def)
qed (simp add: utf8_char_def)

lemma utf8_round_trip: "decode_utf8 (utf8 s) = Some (map code s)"
proof (induction s)
  case (Cons c s)
  have "utf8 (c # s) = utf8_char c @ utf8 s" by (simp add: utf8_def)
  then show ?case using decode_utf8_char [of c "utf8 s"] Cons by simp
qed (simp add: utf8_def)

lemma join_slash_snoc: "xs \<noteq> [] \<Longrightarrow> join_slash (xs @ [x]) = join_slash xs @ CHR ''/'' # x"
  by (induction xs rule: join_slash.induct) auto

lemma last_join_slash:
  "xs \<noteq> [] \<Longrightarrow> list_all plain_comp xs \<Longrightarrow> join_slash xs \<noteq> [] \<and> last (join_slash xs) \<noteq> CHR ''/''"
proof (induction xs rule: join_slash.induct)
  case (2 x)
  then show ?case by (cases x rule: rev_cases) (auto simp: plain_comp_def no_slash_def)
qed auto

lemma canonical_join:
  assumes "canonical folder" and "plain_comp name"
  shows "canonical (path_join folder name)"
proof -
  obtain n xs where n: "n = 1 \<or> n = 2" and xs: "list_all plain_comp xs"
    and f: "folder = replicate n (CHR ''/'') @ join_slash xs"
    using assms(1) by (auto simp: canonical_def)
  have "\<not> startswith name ''/''" using assms(2) by (cases name) (auto simp: plain_comp_def no_slash_def)
  then have j: "path_join folder name = (if last folder = CHR ''/'' then folder @ name else folder @ CHR ''/'' # name)"
    using n f by (auto simp: path_join_def)
  have "path_join folder name = replicate n (CHR ''/'') @ join_slash (xs @ [name])"
  proof (cases "xs = []")
    case True
    with n f have "last folder = CHR ''/''" by auto
    with True j f show ?thesis by simp
  next
    case False
    with last_join_slash [OF False xs] f have "last folder \<noteq> CHR ''/''" by simp
    with j f join_slash_snoc [OF False] show ?thesis by simp
  qed
  with n xs assms(2) show ?thesis unfolding canonical_def by (intro exI [of _ n] exI [of _ "xs @ [name]"]) simp
qed

lemma clean_path_canonical: "clean_path p = Some q \<Longrightarrow> canonical q"
  using normpath_canonical by (auto simp: clean_path_def split: if_splits)

lemma basename_plain: "basename f = n \<Longrightarrow> n \<noteq> [] \<Longrightarrow> n \<noteq> ''.'' \<Longrightarrow> n \<noteq> ''..'' \<Longrightarrow> plain_comp n"
  using split_slash_no_slash [of "last (split_slash f)" f] by (auto simp: basename_def plain_comp_def)

text \<open>What every handler keeps to, as a relation between its inputs and its result.\<close>

fun request_idx :: "fs_request \<Rightarrow> int" where
  "request_idx (FsList i _) = i" | "request_idx (FsPull i _ _) = i" | "request_idx (FsPush i _ _) = i"
| "request_idx (FsMkdir i _) = i" | "request_idx (FsDelete i _) = i" | "request_idx (FsArchive i _ _) = i"

fun request_path :: "fs_request \<Rightarrow> string" where
  "request_path (FsList _ p) = p" | "request_path (FsPull _ p _) = p" | "request_path (FsPush _ p _) = p"
| "request_path (FsMkdir _ p) = p" | "request_path (FsDelete _ p) = p" | "request_path (FsArchive _ p _) = p"

fun request_tokens :: "fs_request \<Rightarrow> string set" where
  "request_tokens (FsPull _ _ t) = {t}" | "request_tokens (FsPush _ _ t) = {t}"
| "request_tokens (FsArchive _ _ t) = {t}" | "request_tokens _ = {}"

definition own_request :: "user \<Rightarrow> string \<Rightarrow> db \<Rightarrow> fs_request list \<Rightarrow> bool" where
  "own_request u token d reqs \<longleftrightarrow> reqs = [] \<or> (\<exists>w req. reqs = [req] \<and> my_workspace d u = Some w \<and> w_state w = ON
     \<and> request_idx req = w_idx w \<and> canonical (request_path req) \<and> request_tokens req \<subseteq> {token})"

definition only_audited :: "user \<Rightarrow> session \<Rightarrow> session \<Rightarrow> bool" where
  "only_audited u s s' \<longleftrightarrow> s' = s \<or> (\<exists>action target. s' = audit (Some (u_id u)) action target s)"

definition spool_left :: "string \<Rightarrow> spool \<Rightarrow> spool \<Rightarrow> bool" where
  "spool_left token sp sp' \<longleftrightarrow> (\<forall>t. t \<noteq> token \<longrightarrow> sp' t = sp t) \<and> (sp token = None \<longrightarrow> sp' token = None)"

definition keeps_to :: "user \<Rightarrow> string \<Rightarrow> session \<Rightarrow> spool \<Rightarrow> file_result \<Rightarrow> bool" where
  "keeps_to u token s sp res = (case res of (a, s', sp', reqs) \<Rightarrow>
     own_request u token (cur s) reqs \<and> only_audited u s s' \<and> spool_left token sp sp')"

lemma keeps_toI:
  "own_request u token (cur s) reqs \<Longrightarrow> only_audited u s s' \<Longrightarrow> spool_left token sp sp' \<Longrightarrow>
     keeps_to u token s sp (a, s', sp', reqs)"
  by (simp add: keeps_to_def)

lemma own_request_simps [simp]: "own_request u token d []"
  by (simp add: own_request_def)

lemma only_audited_simps [simp]: "only_audited u s s" "only_audited u s (file_audit u w action s)"
  by (auto simp: only_audited_def file_audit_def)

lemma spool_left_simps [simp]:
  "spool_left token sp sp" "spool_left token sp (drop_token token sp)"
  "spool_left token sp (drop_token token (sp(token := b)))"
  by (simp_all add: spool_left_def drop_token_def)

lemma at_path_keeps:
  assumes "\<And>w p. my_workspace (cur s) u = Some w \<Longrightarrow> w_state w = ON \<Longrightarrow> clean_path path = Some p \<Longrightarrow> canonical p \<Longrightarrow>
    keeps_to u token s sp (f w p)"
  shows "keeps_to u token s sp (at_path u path s sp f)"
  unfolding at_path_def running_ws_def
  using assms clean_path_canonical by (auto intro!: keeps_toI split: option.split)

lemma own_requestI:
  "my_workspace d u = Some w \<Longrightarrow> w_state w = ON \<Longrightarrow> request_idx req = w_idx w \<Longrightarrow> canonical (request_path req) \<Longrightarrow>
     request_tokens req \<subseteq> {token} \<Longrightarrow> own_request u token d [req]"
  unfolding own_request_def by blast

lemma serve_file_keeps:
  assumes "\<And>p. c \<noteq> ReadFile p"
  shows "keeps_to u token s sp (serve_file prov token u c s sp)"
proof (cases c)
  case (ReadFile p)
  with assms show ?thesis by blast
qed (auto simp: list_files_def save_file_def download_file_def download_archive_def upload_file_def make_dir_def
      new_file_def delete_path_def ask_fs_def stream_and_delete_def Let_def
      intro!: at_path_keeps keeps_toI own_requestI canonical_join basename_plain)

lemma read_file_keeps:
  assumes "read_file prov token u path s sp = (a, s', sp', reqs)"
  shows "own_request u token (cur s) reqs \<and> s' = s \<and> (\<forall>t. t \<noteq> token \<longrightarrow> sp' t = sp t)
    \<and> (a = FileRefused 404 ''no_such_path'' \<or> spool_left token sp sp')"
  using assms clean_path_canonical
  by (auto simp: read_file_def at_path_def running_ws_def ask_fs_def Let_def drop_token_def spool_left_def
      intro!: own_requestI split: option.splits if_splits)

section \<open>Properties\<close>

text \<open>C27. A file request stays with its customer. It sends the provisioner at most one request, and only
  for the customer's own running machine, with a normalised absolute path and the token drawn for it;
  in the database it leaves at most an audit entry of that customer; it touches no other spool file
  and leaves none of its own, except that opening a file the provisioner refused leaves what the
  provisioner had copied.\<close>
theorem file_requests_stay_own:
  assumes "serve_file prov token u c s sp = (a, s', sp', reqs)"
  shows "(reqs = [] \<or> (\<exists>w req. reqs = [req] \<and> my_workspace (cur s) u = Some w \<and> w_state w = ON
       \<and> request_idx req = w_idx w \<and> canonical (request_path req) \<and> request_tokens req \<subseteq> {token}))
    \<and> (s' = s \<or> (\<exists>action target. s' = audit (Some (u_id u)) action target s))
    \<and> (\<forall>t. t \<noteq> token \<longrightarrow> sp' t = sp t)
    \<and> (sp token = None \<longrightarrow> sp' token = None \<or> (\<exists>p. c = ReadFile p) \<and> a = FileRefused 404 ''no_such_path'')"
proof (cases "\<exists>p. c = ReadFile p")
  case True
  with assms read_file_keeps [of prov token u _ s sp a s' sp' reqs] show ?thesis
    by (auto simp: own_request_def spool_left_def)
next
  case False
  with serve_file_keeps [of c u token s sp prov] assms show ?thesis
    by (auto simp: keeps_to_def own_request_def only_audited_def spool_left_def)
qed

text \<open>A customer saves a note in a running machine.\<close>

definition note_owner :: user where
  "note_owner = \<lparr>u_id = 3, u_username = ''ali'', u_full_name = None, u_phone = None, u_sms_prefs = (\<lambda>_. None),
     u_sms_credit_step_toman = 0, u_sms_credit_band = None, u_telegram_bot_token = None,
     u_telegram_user_id = None, u_password_hash = ''x'', u_session_version = 0, u_is_admin = False,
     u_status = UApproved, u_approved_at = None, u_approved_by = None\<rparr>"

definition note_session :: session where
  "note_session = open_session (empty_db\<lparr>users := [note_owner],
     workspaces := [(new_workspace 5 3 7 0)\<lparr>w_state := ON\<rparr>]\<rparr>) 10"

text \<open>A daemon that stores one note and returns it.\<close>

definition note_daemon :: daemon where
  "note_daemon req held = \<lparr>fr_ok = True, fr_error = [], fr_too_large = False, fr_size = 2, fr_entries = [],
     fr_partial = False, fr_left = Some [195, 169]\<rparr>"

definition save_note :: file_result where
  "save_note = serve_file note_daemon ''t0'' note_owner (SaveFile ''/home/dev//./a.txt'' [char_of (233 :: nat)])
     note_session (\<lambda>_. None)"

lemma save_note_evaluated:
  "fst save_note = FileSaved 2 \<and> snd (snd (snd save_note)) = [FsPush 7 ''/home/dev/a.txt'' ''t0'']"
  by code_simp

theorem file_requests_stay_own_witness:
  "fst save_note = FileSaved 2 \<and> fst (snd (snd save_note)) = (\<lambda>_. None)"
proof -
  obtain a s' sp' reqs where r: "save_note = (a, s', sp', reqs)" by (cases save_note) auto
  from file_requests_stay_own [OF r [unfolded save_note_def]] have "sp' t = None" for t
    by (cases "t = ''t0''") auto
  then have "sp' = (\<lambda>_. None)" by blast
  then show ?thesis using save_note_evaluated unfolding r by simp
qed

text \<open>What the editor saves it shows again. When a text was saved and the provisioner answers a read of
  the same path with the bytes that were pushed, the answer is the saved text, character by
  character: the encoding is undone, and the limit of the editor refuses no text it has saved.\<close>

lemma saved_text_reads_back:
  assumes "save_file prov token u path content s sp = (FileSaved n, s1, sp1, reqs)"
    and "clean_path path = Some p" and "my_workspace (cur s2) u = Some w" and "w_state w = ON"
    and "prov (FsPull (w_idx w) p token2) (sp2 token2) = r"
    and "fr_ok r" and "fr_left r = Some (utf8 content)" and "fr_size r = int (length (utf8 content))"
  shows "fst (read_file prov token2 u path s2 sp2) = FileText p (map code content) n"
proof -
  have "n = length (utf8 content)" "int n \<le> MAX_EDIT_BYTES"
    using assms(1) by (auto simp: save_file_def at_path_def running_ws_def Let_def
        split: option.splits if_splits prod.splits)
  with assms(2-) show ?thesis
    by (simp add: read_file_def at_path_def running_ws_def ask_fs_def utf8_round_trip)
qed

lemma saved_text_reads_back_witness:
  "fst (read_file note_daemon ''t1'' note_owner ''/home/dev//./a.txt'' note_session (\<lambda>_. None))
     = FileText ''/home/dev/a.txt'' [233] 2"
proof -
  obtain s1 sp1 reqs where s: "save_file note_daemon ''t0'' note_owner ''/home/dev//./a.txt'' [char_of (233 :: nat)]
      note_session (\<lambda>_. None) = (FileSaved 2, s1, sp1, reqs)"
    using save_note_evaluated by (cases save_note) (auto simp: save_note_def)
  have p: "clean_path ''/home/dev//./a.txt'' = Some ''/home/dev/a.txt''" by code_simp
  have w: "my_workspace (cur note_session) note_owner = Some ((new_workspace 5 3 7 0)\<lparr>w_state := ON\<rparr>)"
    by (simp add: my_workspace_def note_session_def new_workspace_def note_owner_def)
  have c: "code (char_of (233 :: nat)) = 233" by (simp add: code_char_of)
  have b: "utf8 [char_of (233 :: nat)] = [195, 169]" by (simp add: utf8_def utf8_char_def c)
  show ?thesis
    using saved_text_reads_back [OF s p w _ refl] by (simp add: note_daemon_def b c)
qed

text \<open>Files whose name is one of the listed suffixes are not offered for editing.\<close>

lemma dotfiles_not_editable:
  "\<not> editable \<lparr>fe_name = ''.gitignore'', fe_type = ''file'', fe_size = 1\<rparr>"
  "\<not> editable \<lparr>fe_name = ''.env'', fe_type = ''file'', fe_size = 1\<rparr>"
  by code_simp+

end
