(* ===== verification/Backup.thy ===== *)
theory Backup
  imports ManagedApps Alerts
begin

text \<open>
  \<open>control/mmd/backup.py\<close>, its panel in \<open>control/mmd/app.py\<close> and its pass in \<open>control/mmd/worker.py\<close>: the
  database sent to an administrator's Telegram. What \<open>pg_dump\<close> and Telegram answer is an argument, and
  so is \<open>datetime.fromisoformat\<close>. Texts of errors are the names of their causes.
\<close>

section \<open>Settings\<close>

definition BACKUP_ENABLED :: string where "BACKUP_ENABLED = ''backup_enabled''"
definition BACKUP_INTERVAL :: string where "BACKUP_INTERVAL = ''backup_interval_minutes''"
definition BACKUP_TOKEN :: string where "BACKUP_TOKEN = ''backup_bot_token''"
definition BACKUP_CHAT :: string where "BACKUP_CHAT = ''backup_chat_id''"
definition BACKUP_LAST_OK :: string where "BACKUP_LAST_OK = ''backup_last_ok_at''"
definition BACKUP_LAST_ERROR :: string where "BACKUP_LAST_ERROR = ''backup_last_error''"
definition BACKUP_LAST_SIZE :: string where "BACKUP_LAST_SIZE = ''backup_last_size''"

definition MIN_INTERVAL :: int where "MIN_INTERVAL = 5"
definition MAX_INTERVAL :: int where "MAX_INTERVAL = 10080"
definition DEFAULT_INTERVAL :: int where "DEFAULT_INTERVAL = 1440"
definition TELEGRAM_MAX_BYTES :: int where "TELEGRAM_MAX_BYTES = 50 * 1024 * 1024"

lemmas backup_keys = BACKUP_ENABLED_def BACKUP_INTERVAL_def BACKUP_TOKEN_def BACKUP_CHAT_def
  BACKUP_LAST_OK_def BACKUP_LAST_ERROR_def BACKUP_LAST_SIZE_def

text \<open>\<open>TOKEN_RE\<close> is the pattern of the bot tokens of \<open>ManagedApps\<close>; \<open>CHAT_RE\<close>.\<close>

definition backup_token_ok :: "string \<Rightarrow> bool" where
  "backup_token_ok t = telegram_token_ok t"

definition chat_ok :: "string \<Rightarrow> bool" where
  "chat_ok s = (let t = (if startswith s ''-'' then tl s else s) in
     5 \<le> length t \<and> length t \<le> 16 \<and> list_all is_ascii_digit t \<and> hd t \<noteq> CHR ''0'')"

text \<open>\<open>clamp_interval\<close> of a number, and of the text of a setting.\<close>

definition clamp_minutes :: "int \<Rightarrow> int" where
  "clamp_minutes n = max MIN_INTERVAL (min MAX_INTERVAL n)"

definition clamp_interval :: "string \<Rightarrow> int" where
  "clamp_interval s = (case py_int s of None \<Rightarrow> DEFAULT_INTERVAL | Some n \<Rightarrow> clamp_minutes n)"

definition stored_interval :: "db \<Rightarrow> int" where
  "stored_interval d = (case setting_lookup d BACKUP_INTERVAL of
     None \<Rightarrow> clamp_minutes DEFAULT_INTERVAL | Some s \<Rightarrow> clamp_interval s)"

record backup_page =
  bk_enabled :: bool
  bk_interval :: int
  bk_chat :: string
  bk_token_set :: bool
  bk_token_hint :: string
  bk_last_ok :: "string option"
  bk_last_error :: "string option"
  bk_last_size :: int

definition some_text :: "string \<Rightarrow> string option" where
  "some_text s = (if s = [] then None else Some s)"

text \<open>A size that is not a number raises \<open>ValueError\<close>.\<close>

definition backup_config :: "db \<Rightarrow> backup_page option" where
  "backup_config d =
     (let token = get_setting d BACKUP_TOKEN [];
          size = (let s = get_setting d BACKUP_LAST_SIZE ''0'' in if s = [] then Some 0 else py_int s)
      in map_option (\<lambda>n. \<lparr>bk_enabled = (get_setting d BACKUP_ENABLED [] = ''1''), bk_interval = stored_interval d,
           bk_chat = get_setting d BACKUP_CHAT [], bk_token_set = (token \<noteq> []),
           bk_token_hint = (if token = [] then [] else last_chars 4 token),
           bk_last_ok = some_text (get_setting d BACKUP_LAST_OK []),
           bk_last_error = some_text (get_setting d BACKUP_LAST_ERROR []), bk_last_size = n\<rparr>) size)"

text \<open>\<open>save\<close>: everything is checked before anything is written.\<close>

definition store_backup :: "bool \<Rightarrow> int \<Rightarrow> string \<Rightarrow> string option \<Rightarrow> db \<Rightarrow> db" where
  "store_backup enabled minutes chat token d =
     set_setting BACKUP_LAST_ERROR [] (set_setting BACKUP_ENABLED (if enabled then ''1'' else ''0'')
       (set_setting BACKUP_INTERVAL (show_int (clamp_minutes minutes)) (set_setting BACKUP_CHAT chat
         (case token of None \<Rightarrow> d | Some t \<Rightarrow> set_setting BACKUP_TOKEN t d))))"

definition save_backup :: "bool \<Rightarrow> int \<Rightarrow> string \<Rightarrow> string option \<Rightarrow> db \<Rightarrow> (string, db) result" where
  "save_backup enabled minutes chat_id bot_token d =
     (let chat = strip chat_id; token = map_option strip bot_token;
          effective = (case token of Some t \<Rightarrow> t | None \<Rightarrow> get_setting d BACKUP_TOKEN [])
      in if token \<noteq> None \<and> the token \<noteq> [] \<and> \<not> backup_token_ok (the token) then raise ''invalid token''
         else if chat \<noteq> [] \<and> \<not> chat_ok chat then raise ''invalid chat id''
         else if enabled \<and> (effective = [] \<or> chat = []) then raise ''token and chat id are required''
         else return (store_backup enabled minutes chat token d))"

text \<open>\<open>due\<close>: measured from the last success.\<close>

definition backup_due :: "(string \<Rightarrow> time option) \<Rightarrow> time \<Rightarrow> db \<Rightarrow> bool" where
  "backup_due fromiso now d =
     (if get_setting d BACKUP_ENABLED [] \<noteq> ''1'' then False
      else let last = get_setting d BACKUP_LAST_OK [] in
        if last = [] then True
        else case fromiso last of None \<Rightarrow> True
          | Some t \<Rightarrow> stored_interval d * 60 * second \<le> now - t)"

section \<open>A run\<close>

text \<open>\<open>dump_url\<close>: the driver is dropped from the scheme.\<close>

definition driver_char :: "char \<Rightarrow> bool" where
  "driver_char c \<longleftrightarrow> is_lower_az c \<or> is_ascii_digit c \<or> c = CHR ''_''"

definition dump_url :: "string \<Rightarrow> string" where
  "dump_url url =
     (let rest = drop (length ''postgresql+'') url; tail = dropWhile driver_char rest
      in if startswith url ''postgresql+'' \<and> takeWhile driver_char rest \<noteq> [] \<and> startswith tail ''://''
         then ''postgresql'' @ tail else url)"

datatype dump_reply = DumpFails string | DumpSize int | DumpRaises string
datatype send_reply = SendOk | SendFails string | SendRaises string

definition dump_and_send :: "dump_reply \<Rightarrow> send_reply \<Rightarrow> (string, int) result" where
  "dump_and_send dump send =
     (case dump of DumpFails e \<Rightarrow> raise e | DumpRaises e \<Rightarrow> raise e
      | DumpSize n \<Rightarrow>
          if n \<le> 0 then raise ''pg_dump produced an empty file''
          else if TELEGRAM_MAX_BYTES < n then raise ''over the limit''
          else case send of SendOk \<Rightarrow> return n | SendFails e \<Rightarrow> raise e | SendRaises e \<Rightarrow> raise e)"

definition run_backup ::
  "dump_reply \<Rightarrow> send_reply \<Rightarrow> time \<Rightarrow> session \<Rightarrow> (string, int) result \<times> session" where
  "run_backup dump send now s =
     (if get_setting (cur s) BACKUP_TOKEN [] = [] \<or> get_setting (cur s) BACKUP_CHAT [] = []
      then (raise ''not configured'', s)
      else case dump_and_send dump send of
        Inl e \<Rightarrow> (raise e, commit (edit (set_setting BACKUP_LAST_ERROR (take 255 e)) s))
      | Inr n \<Rightarrow> (return n, commit (edit (\<lambda>d. set_setting BACKUP_LAST_ERROR []
            (set_setting BACKUP_LAST_SIZE (show_int n) (set_setting BACKUP_LAST_OK (isoformat now) d))) s)))"

text \<open>The pass of the worker: the check, then the run in a session of its own, and a text to the
  administrators when it failed.\<close>

definition backup_once ::
  "(string \<Rightarrow> time option) \<Rightarrow> dump_reply \<Rightarrow> send_reply \<Rightarrow> time \<Rightarrow> session \<Rightarrow> session" where
  "backup_once fromiso dump send now s =
     (if \<not> backup_due fromiso now (cur s) then s
      else case run_backup dump send now s of
        (Inr _, s1) \<Rightarrow> s1
      | (Inl _, s1) \<Rightarrow> text_admins now ''admin_backup_failed'' (Some (''backupfail:'' @ stamp_day now)) s1)"

section \<open>The panel\<close>

definition admin_backup_put ::
  "user \<Rightarrow> bool \<Rightarrow> int \<Rightarrow> string \<Rightarrow> string option \<Rightarrow> session \<Rightarrow> answer \<times> session" where
  "admin_backup_put admin enabled minutes chat token s =
     (case save_backup enabled minutes chat token (cur s) of
        Inl _ \<Rightarrow> (Failed 400 ''backup_invalid'', s)
      | Inr d \<Rightarrow> (case backup_config d of
            None \<Rightarrow> (Failed 500 ''internal'', s)
          | Some _ \<Rightarrow> (Done ''saved'', audit (Some (u_id admin)) ''admin_backup_config'' None
                        (commit (edit (\<lambda>_. d) s)))))"

definition admin_backup_run :: "user \<Rightarrow> dump_reply \<Rightarrow> send_reply \<Rightarrow> time \<Rightarrow> session \<Rightarrow> answer \<times> session" where
  "admin_backup_run admin dump send now s =
     (let (r, s1) = run_backup dump send now (audit (Some (u_id admin)) ''admin_backup_run'' None s)
      in if backup_config (cur s1) = None then (Failed 500 ''internal'', s1)
         else (Done (case r of Inl _ \<Rightarrow> ''failed'' | Inr _ \<Rightarrow> ''sent''), s1))"

section \<open>Lemmas\<close>

text \<open>What a history does to the settings of the backup.\<close>

definition same_backup :: "db \<Rightarrow> db \<Rightarrow> bool" where
  "same_backup d d' \<longleftrightarrow> (\<forall>k \<in> {BACKUP_ENABLED, BACKUP_INTERVAL, BACKUP_TOKEN, BACKUP_CHAT}.
     setting_lookup d' k = setting_lookup d k)"

inductive backup_step :: "session \<Rightarrow> session \<Rightarrow> bool" where
  saves: "backup_step s (snd (admin_backup_put admin enabled minutes chat token s))"
| runs: "backup_step s (snd (admin_backup_run admin dump send now s))"
| passes: "backup_step s (backup_once fromiso dump send now s)"
| elsewhere: "same_backup (cur s) (cur s') \<Longrightarrow> backup_step s s'"

definition deliverable :: "db \<Rightarrow> bool" where
  "deliverable d \<longleftrightarrow> (get_setting d BACKUP_ENABLED [] = ''1'' \<longrightarrow>
     backup_token_ok (get_setting d BACKUP_TOKEN []) \<and> chat_ok (get_setting d BACKUP_CHAT []))
   \<and> (get_setting d BACKUP_TOKEN [] \<noteq> [] \<longrightarrow> backup_token_ok (get_setting d BACKUP_TOKEN []))"

lemma same_backup_get:
  "same_backup d d' \<Longrightarrow> k \<in> {BACKUP_ENABLED, BACKUP_INTERVAL, BACKUP_TOKEN, BACKUP_CHAT} \<Longrightarrow>
     get_setting d' k x = get_setting d k x"
  by (auto simp: same_backup_def get_setting_def)

lemma same_backup_deliverable: "same_backup d d' \<Longrightarrow> deliverable d \<Longrightarrow> deliverable d'"
  unfolding deliverable_def by (simp add: same_backup_get)

lemma same_backup_refl: "same_backup d d"
  by (simp add: same_backup_def)

lemma same_backup_settings: "settings d' = settings d \<Longrightarrow> same_backup d d'"
  by (simp add: same_backup_def setting_lookup_def)

lemma same_backup_audit: "same_backup d (cur s) \<Longrightarrow> same_backup d (cur (audit a b c s))"
  by (simp add: same_backup_def audit_def setting_lookup_def)

lemma fold_queue_settings:
  "settings (cur (fold (\<lambda>a s. snd (queue now (i a) (p a) kind (k a) (u a) s)) us s)) = settings (cur s)"
  by (induction us arbitrary: s) simp_all

lemma text_admins_settings [simp]: "settings (cur (text_admins now kind key s)) = settings (cur s)"
  unfolding text_admins_def by (simp add: fold_queue_settings)

lemma run_backup_same: "same_backup (cur s) (cur (snd (run_backup dump send now s)))"
  unfolding run_backup_def
  by (auto simp: same_backup_def setting_lookup_set backup_keys split: sum.split)

lemma backup_once_same: "same_backup (cur s) (cur (backup_once fromiso dump send now s))"
proof -
  obtain r s1 where r: "run_backup dump send now s = (r, s1)" by fastforce
  with run_backup_same [of s dump send now] have "same_backup (cur s) (cur s1)" by simp
  with r show ?thesis
    by (auto simp: backup_once_def same_backup_refl same_backup_def setting_lookup_def split: sum.split)
qed

lemma admin_backup_run_same: "same_backup (cur s) (cur (snd (admin_backup_run admin dump send now s)))"
proof -
  let ?s = "audit (Some (u_id admin)) ''admin_backup_run'' None s"
  have "same_backup (cur s) (cur ?s)" by (rule same_backup_audit [OF same_backup_refl])
  moreover note run_backup_same [of ?s dump send now]
  ultimately show ?thesis
    by (auto simp: admin_backup_run_def Let_def same_backup_def split: prod.split)
qed

lemma store_backup_get:
  "get_setting (store_backup e m chat token d) BACKUP_ENABLED x = (if e then ''1'' else ''0'')"
  "get_setting (store_backup e m chat token d) BACKUP_CHAT x = chat"
  "get_setting (store_backup e m chat token d) BACKUP_TOKEN x
     = (case token of None \<Rightarrow> get_setting d BACKUP_TOKEN x | Some t \<Rightarrow> t)"
  by (auto simp: store_backup_def get_setting_set backup_keys split: option.split)

lemma save_backup_deliverable:
  assumes "save_backup e m chat token d = Inr d'" and "deliverable d"
  shows "deliverable d'"
  using assms unfolding deliverable_def
  by (auto simp: save_backup_def Let_def store_backup_get split: if_splits option.splits)

lemma backup_step_deliverable:
  assumes "backup_step s s'" and "deliverable (cur s)"
  shows "deliverable (cur s')"
  using assms
proof (cases rule: backup_step.cases)
  case (saves admin enabled minutes chat token)
  then show ?thesis
    using assms(2) save_backup_deliverable
    by (auto simp: admin_backup_put_def audit_def split: sum.split option.split
        intro: same_backup_deliverable [OF same_backup_settings])
next
  case (runs admin dump send now)
  then show ?thesis using assms(2) same_backup_deliverable admin_backup_run_same by blast
next
  case (passes fromiso dump send now)
  then show ?thesis using assms(2) same_backup_deliverable backup_once_same by blast
next
  case elsewhere
  then show ?thesis using assms(2) same_backup_deliverable by blast
qed

lemma backup_steps_deliverable: "backup_step\<^sup>*\<^sup>* s s' \<Longrightarrow> deliverable (cur s) \<Longrightarrow> deliverable (cur s')"
  by (induction rule: rtranclp_induct) (auto intro: backup_step_deliverable)

lemma clamp_bounds: "5 \<le> clamp_minutes n \<and> clamp_minutes n \<le> 10080"
  by (simp add: clamp_minutes_def MIN_INTERVAL_def MAX_INTERVAL_def)

lemma stored_interval_bounds: "5 \<le> stored_interval d \<and> stored_interval d \<le> 10080"
  using clamp_bounds by (simp add: stored_interval_def clamp_interval_def DEFAULT_INTERVAL_def split: option.split)

lemma backup_due_iff:
  "backup_due fromiso now d \<longleftrightarrow> get_setting d BACKUP_ENABLED [] = ''1''
     \<and> (get_setting d BACKUP_LAST_OK [] = [] \<or> fromiso (get_setting d BACKUP_LAST_OK []) = None
        \<or> (\<exists>t. fromiso (get_setting d BACKUP_LAST_OK []) = Some t \<and> stored_interval d * 60 * second \<le> now - t))"
  by (auto simp: backup_due_def Let_def split: option.split)

text \<open>A run that fails records its error and nothing else, so the backup stays due at once.\<close>

lemma failed_backup_still_due:
  assumes "backup_due fromiso now (cur s)" and "run_backup dump send now s = (Inl e, s')" and "now \<le> now'"
  shows "backup_due fromiso now' (cur s')"
proof -
  have "get_setting (cur s') k x = get_setting (cur s) k x"
    if "k \<in> {BACKUP_ENABLED, BACKUP_LAST_OK}" for k x
    using assms(2) that by (auto simp: run_backup_def get_setting_set backup_keys split: if_splits sum.splits)
  moreover have "stored_interval (cur s') = stored_interval (cur s)"
    using run_backup_same [of s dump send now] assms(2) by (simp add: same_backup_def stored_interval_def)
  ultimately show ?thesis using assms(1,3) unfolding backup_due_iff by force
qed

section \<open>Properties\<close>

text \<open>C28. A backup that is switched on can be delivered. After any history of the panel and the worker, when
  the schedule is on there is a well-formed bot token and chat, and the interval is between five
  minutes and a week. A run whose dump fits and whose upload is accepted then reports success, and no
  further backup is due before the interval has passed.\<close>
theorem armed_backup_delivers:
  assumes "backup_step\<^sup>*\<^sup>* s0 s" and "deliverable (cur s0)" and "get_setting (cur s) BACKUP_ENABLED [] = ''1''"
    and "0 < n" and "n \<le> 50 * 1024 * 1024" and "run_backup (DumpSize n) SendOk now s = (r, s')"
    and "fromiso (isoformat now) = Some now" and "now' < now + stored_interval (cur s) * 60 * second"
  shows "backup_token_ok (get_setting (cur s) BACKUP_TOKEN []) \<and> chat_ok (get_setting (cur s) BACKUP_CHAT [])
    \<and> 5 \<le> stored_interval (cur s) \<and> stored_interval (cur s) \<le> 10080
    \<and> r = return n \<and> \<not> backup_due fromiso now' (cur s')"
proof -
  have d: "deliverable (cur s)" by (rule backup_steps_deliverable [OF assms(1,2)])
  then have t: "backup_token_ok (get_setting (cur s) BACKUP_TOKEN [])" and c: "chat_ok (get_setting (cur s) BACKUP_CHAT [])"
    using assms(3) by (simp_all add: deliverable_def)
  have ne: "get_setting (cur s) BACKUP_TOKEN [] \<noteq> []" "get_setting (cur s) BACKUP_CHAT [] \<noteq> []"
    using t c by (auto simp: backup_token_ok_def telegram_token_ok_def chat_ok_def Let_def)
  have e: "r = return n" "cur s' = set_setting BACKUP_LAST_ERROR []
      (set_setting BACKUP_LAST_SIZE (show_int n) (set_setting BACKUP_LAST_OK (isoformat now) (cur s)))"
    using assms(4-6) ne by (auto simp: run_backup_def dump_and_send_def TELEGRAM_MAX_BYTES_def split: if_splits)
  have "isoformat now \<noteq> []" by (simp add: isoformat_def split: prod.split)
  moreover have "get_setting (cur s') BACKUP_LAST_OK [] = isoformat now"
    by (simp add: e(2) get_setting_set backup_keys)
  moreover have "stored_interval (cur s') = stored_interval (cur s)"
    by (simp add: e(2) stored_interval_def setting_lookup_set backup_keys)
  ultimately have "\<not> backup_due fromiso now' (cur s')"
    using assms(7,8) by (simp add: backup_due_iff)
  with t c e(1) stored_interval_bounds [of "cur s"] show ?thesis by blast
qed

definition backup_admin :: user where
  "backup_admin = \<lparr>u_id = 1, u_username = ''root'', u_full_name = None, u_phone = None, u_sms_prefs = (\<lambda>_. None),
     u_sms_credit_step_toman = 0, u_sms_credit_band = None, u_telegram_bot_token = None,
     u_telegram_user_id = None, u_password_hash = ''x'', u_session_version = 0, u_is_admin = True,
     u_status = UApproved, u_approved_at = None, u_approved_by = None\<rparr>"

definition armed_session :: session where
  "armed_session = snd (admin_backup_put backup_admin True 60 '' 123456 ''
     (Some ''1234567:AAAAAAAAAAAAAAAAAAAA_-'') (open_session empty_db 5))"

lemma armed_enabled:
  "get_setting (cur armed_session) BACKUP_ENABLED [] = ''1'' \<and> stored_interval (cur armed_session) = 60"
  by code_simp

theorem armed_backup_delivers_witness:
  "fst (run_backup (DumpSize 4096) SendOk 0 armed_session) = return 4096
   \<and> \<not> backup_due (\<lambda>_. Some 0) (59 * 60 * second) (cur (snd (run_backup (DumpSize 4096) SendOk 0 armed_session)))"
proof -
  have "backup_step\<^sup>*\<^sup>* (open_session empty_db 5) armed_session"
    unfolding armed_session_def by (rule r_into_rtranclp) (rule backup_step.saves)
  moreover have "deliverable (cur (open_session empty_db 5))"
    by (simp add: deliverable_def get_setting_def setting_lookup_def empty_db_def)
  moreover obtain r s' where r: "run_backup (DumpSize 4096) SendOk 0 armed_session = (r, s')" by fastforce
  ultimately have "r = return 4096 \<and> \<not> backup_due (\<lambda>_. Some 0) (59 * 60 * second) (cur s')"
    using armed_backup_delivers [of "open_session empty_db 5" armed_session 4096 0 r s' "\<lambda>_. Some 0" "59 * 60 * second"]
      armed_enabled by (simp add: second_def)
  with r show ?thesis by simp
qed

text \<open>The panel never shows more of the token than its last four characters.\<close>

lemma panel_hides_token:
  assumes "t \<noteq> []" and "t' \<noteq> []" and "last_chars 4 t = last_chars 4 t'"
  shows "backup_config (set_setting BACKUP_TOKEN t d) = backup_config (set_setting BACKUP_TOKEN t' d)"
  using assms by (simp add: backup_config_def Let_def get_setting_set stored_interval_def setting_lookup_set backup_keys)

end
