(* ===== verification/Watchdog.thy ===== *)
theory Watchdog
  imports Alerts
begin

text \<open>
  \<open>control/mmd/watchdog.py\<close>: the timer that tells the operators when the worker's loop or the storage
  pool has stopped, and sends the messages itself. What \<open>zpool\<close> and the provider answer, and
  \<open>datetime.fromisoformat\<close>, are arguments.
\<close>

section \<open>The two questions\<close>

definition last_heartbeat :: "(string \<Rightarrow> time option) \<Rightarrow> db \<Rightarrow> time option" where
  "last_heartbeat fromiso d = (case setting_lookup d ''worker_heartbeat'' of
     None \<Rightarrow> None | Some v \<Rightarrow> if v = [] then None else fromiso v)"

definition worker_alive :: "config \<Rightarrow> (string \<Rightarrow> time option) \<Rightarrow> time \<Rightarrow> db \<Rightarrow> bool" where
  "worker_alive cf fromiso now d = (case last_heartbeat fromiso d of
     None \<Rightarrow> True | Some beat \<Rightarrow> now - beat \<le> cf_worker_stall_minutes cf * 60 * second)"

datatype zpool_reply = ZpoolAbsent | ZpoolTimeout | ZpoolUnreadable | ZpoolSays bool string

definition POOL_MISSING :: string where "POOL_MISSING = ''MISSING''"

text \<open>\<open>str.upper\<close>; a sharp s becomes two letters, and what has no capital below 256 is kept.\<close>

definition upper_char :: "char \<Rightarrow> string" where
  "upper_char c =
     (if is_lower_az c \<or> (224 \<le> code c \<and> code c \<le> 254 \<and> code c \<noteq> 247) then [char_of (code c - 32)]
      else if code c = 223 then ''SS'' else [c])"

definition upper :: "string \<Rightarrow> string" where
  "upper s = concat (map upper_char s)"

definition or_missing :: "string \<Rightarrow> string" where
  "or_missing s = (if s = [] then POOL_MISSING else s)"

definition pool_state :: "zpool_reply \<Rightarrow> string option" where
  "pool_state r = (case r of ZpoolAbsent \<Rightarrow> None | ZpoolUnreadable \<Rightarrow> None | ZpoolTimeout \<Rightarrow> Some ''TIMEOUT''
     | ZpoolSays ok out \<Rightarrow> Some (if ok then or_missing (upper (strip out)) else POOL_MISSING))"

section \<open>Alerts\<close>

text \<open>One administrator: nothing, a violation of the column \<open>phone\<close>, or a row that is committed and handed
  over. The trace holds the keys handed to the provider.\<close>

definition alert_key :: "string \<Rightarrow> time \<Rightarrow> user \<Rightarrow> string" where
  "alert_key dedupe now a = dedupe @ '':'' @ stamp_hour now @ '':'' @ show_int (u_id a)"

definition alert_row :: "int \<Rightarrow> user \<Rightarrow> string \<Rightarrow> string \<Rightarrow> string \<Rightarrow> time \<Rightarrow> sms_message" where
  "alert_row i a phone kind key now =
     \<lparr>sm_id = i, sm_user_id = Some (u_id a), sm_phone = phone, sm_kind = kind, sm_status = ''queued'',
      sm_attempts = 0, sm_error = None, sm_provider_message_id = None, sm_dedupe_key = Some key,
      sm_next_attempt_at = Some now, sm_created_at = now, sm_sent_at = None\<rparr>"

definition store_alert :: "user \<Rightarrow> string \<Rightarrow> string \<Rightarrow> string \<Rightarrow> time \<Rightarrow> session \<Rightarrow> sms_message \<times> session" where
  "store_alert a phone kind key now s =
     (let s1 = next_id s; row = alert_row (seq s1) a phone kind key now
      in (row, commit (edit (\<lambda>d. d\<lparr>sms_messages := sms_messages d @ [row]\<rparr>) s1)))"

definition alerted :: "db \<Rightarrow> string \<Rightarrow> bool" where
  "alerted d key \<longleftrightarrow> list_ex (\<lambda>m. sm_dedupe_key m = Some key) (sms_messages d)"

fun alert_all ::
  "(int \<Rightarrow> send_answer) \<Rightarrow> string \<Rightarrow> string \<Rightarrow> time \<Rightarrow> user list \<Rightarrow> session \<Rightarrow>
   (string, string list) result \<times> session" where
  "alert_all answers kind dedupe now [] s = (return [], s)"
| "alert_all answers kind dedupe now (a # as) s =
     (let key = alert_key dedupe now a in
      if \<not> wants a kind \<or> alerted (cur s) key then alert_all answers kind dedupe now as s
      else case u_phone a of
        None \<Rightarrow> (raise ''IntegrityError'', rollback s)
      | Some phone \<Rightarrow>
          let (row, s1) = store_alert a phone kind key now s;
              (_, s2) = deliver now row (answers (sm_id row)) s1;
              handed = (if chat_for (cur s1) phone = None then [] else [key])
          in (case alert_all answers kind dedupe now as s2 of
                (Inl e, s3) \<Rightarrow> (raise e, s3) | (Inr ks, s3) \<Rightarrow> (return (handed @ ks), s3)))"

definition alert ::
  "(int \<Rightarrow> send_answer) \<Rightarrow> string \<Rightarrow> string \<Rightarrow> time \<Rightarrow> session \<Rightarrow> (string, string list) result \<times> session" where
  "alert answers kind dedupe now s = alert_all answers kind dedupe now (admins (cur s)) s"

text \<open>\<open>main\<close>: the exit status, and what was handed over.\<close>

definition watchdog ::
  "config \<Rightarrow> (string \<Rightarrow> time option) \<Rightarrow> zpool_reply \<Rightarrow> (int \<Rightarrow> send_answer) \<Rightarrow> time \<Rightarrow> session \<Rightarrow>
   (string, int \<times> string list) result \<times> session" where
  "watchdog cf fromiso zpool answers now s =
     (let stalled = \<not> worker_alive cf fromiso now (cur s); state = pool_state zpool;
          down = (state \<noteq> None \<and> state \<noteq> Some ''ONLINE'')
      in case (if stalled then alert answers ''admin_worker_stalled'' ''stall'' now s else (return [], s)) of
        (Inl e, s1) \<Rightarrow> (raise e, s1)
      | (Inr ks, s1) \<Rightarrow>
          (case (if down then alert answers ''admin_pool_down'' ''pooldown'' now s1 else (return [], s1)) of
             (Inl e, s2) \<Rightarrow> (raise e, s2)
           | (Inr ks', s2) \<Rightarrow> (return (if stalled \<or> down then 1 else 0, ks @ ks'), s2)))"

section \<open>Lemmas\<close>

lemma deliver_keys:
  "map sm_dedupe_key (sms_messages (cur (snd (deliver now row ans s)))) = map sm_dedupe_key (sms_messages (cur s))"
  "users (cur (snd (deliver now row ans s))) = users (cur s)"
  "bale_contacts (cur (snd (deliver now row ans s))) = bale_contacts (cur s)"
  "settings (cur (snd (deliver now row ans s))) = settings (cur s)"
  by (auto simp: deliver_def set_sms_def Let_def map_map_rows split: option.split sum.split)

lemma alerted_keys: "alerted d key \<longleftrightarrow> Some key \<in> set (map sm_dedupe_key (sms_messages d))"
  by (auto simp: alerted_def list_ex_iff image_iff) metis

lemma alert_key_id: "alert_key dedupe now x = alert_key dedupe now a \<longleftrightarrow> u_id x = u_id a"
  by (auto simp: alert_key_def dest: show_int_inj)

lemma store_alert_keys:
  assumes "store_alert a phone kind key now s = (row, s1)"
  shows "map sm_dedupe_key (sms_messages (cur s1)) = map sm_dedupe_key (sms_messages (cur s)) @ [Some key]"
    "users (cur s1) = users (cur s)" "bale_contacts (cur s1) = bale_contacts (cur s)" "settings (cur s1) = settings (cur s)"
  using assms by (auto simp: store_alert_def Let_def alert_row_def)

text \<open>A pass that does not raise leaves every key of its hour, once each, and only adds rows.\<close>

lemma alert_all_spec:
  assumes "alert_all answers kind dedupe now as s = (Inr ks, s')" and "distinct (map u_id as)"
  shows "\<exists>new. map sm_dedupe_key (sms_messages (cur s')) = map sm_dedupe_key (sms_messages (cur s)) @ map Some new
      \<and> (\<forall>k \<in> set new. Some k \<notin> set (map sm_dedupe_key (sms_messages (cur s)))) \<and> distinct new
      \<and> set ks \<subseteq> set new \<and> distinct ks
      \<and> users (cur s') = users (cur s) \<and> bale_contacts (cur s') = bale_contacts (cur s) \<and> settings (cur s') = settings (cur s)
      \<and> (\<forall>a \<in> set as. wants a kind \<longrightarrow> alerted (cur s') (alert_key dedupe now a))
      \<and> (\<forall>a \<in> set as. wants a kind \<and> \<not> alerted (cur s) (alert_key dedupe now a)
           \<and> (\<exists>p. u_phone a = Some p \<and> chat_for (cur s) p \<noteq> None) \<longrightarrow> alert_key dedupe now a \<in> set ks)"
  using assms
proof (induction as arbitrary: s ks)
  case Nil
  then show ?case by (auto intro!: exI [of _ "[]"])
next
  case (Cons a as)
  let ?key = "alert_key dedupe now a"
  show ?case
  proof (cases "\<not> wants a kind \<or> alerted (cur s) ?key")
    case True
    with Cons.prems have "alert_all answers kind dedupe now as s = (Inr ks, s')" "distinct (map u_id as)" by simp_all
    from Cons.IH [OF this] obtain new where new:
      "map sm_dedupe_key (sms_messages (cur s')) = map sm_dedupe_key (sms_messages (cur s)) @ map Some new"
      "\<forall>k \<in> set new. Some k \<notin> set (map sm_dedupe_key (sms_messages (cur s)))" "distinct new" "set ks \<subseteq> set new" "distinct ks"
      "users (cur s') = users (cur s)" "bale_contacts (cur s') = bale_contacts (cur s)" "settings (cur s') = settings (cur s)"
      "\<forall>a \<in> set as. wants a kind \<longrightarrow> alerted (cur s') (alert_key dedupe now a)"
      "\<forall>a \<in> set as. wants a kind \<and> \<not> alerted (cur s) (alert_key dedupe now a)
           \<and> (\<exists>p. u_phone a = Some p \<and> chat_for (cur s) p \<noteq> None) \<longrightarrow> alert_key dedupe now a \<in> set ks"
      by blast
    have "wants a kind \<longrightarrow> alerted (cur s') ?key" using True new(1) by (auto simp: alerted_keys)
    with new True show ?thesis by (intro exI [of _ new]) auto
  next
    case False
    then obtain phone where ph: "u_phone a = Some phone"
      using Cons.prems by (cases "u_phone a") auto
    obtain row s1 where st: "store_alert a phone kind ?key now s = (row, s1)" by fastforce
    obtain b s2 where dl: "deliver now row (answers (sm_id row)) s1 = (b, s2)" by fastforce
    let ?handed = "if chat_for (cur s1) phone = None then [] else [?key]"
    obtain ks2 where rest: "alert_all answers kind dedupe now as s2 = (Inr ks2, s')" and ks: "ks = ?handed @ ks2"
      using Cons.prems False ph st dl by (auto split: sum.splits prod.splits)
    note k1 = store_alert_keys [OF st]
    have k2: "map sm_dedupe_key (sms_messages (cur s2)) = map sm_dedupe_key (sms_messages (cur s)) @ [Some ?key]"
      "users (cur s2) = users (cur s)" "bale_contacts (cur s2) = bale_contacts (cur s)" "settings (cur s2) = settings (cur s)"
      using deliver_keys [of now row "answers (sm_id row)" s1] dl k1 by simp_all
    have chat: "chat_for (cur s2) p = chat_for (cur s) p" "chat_for (cur s1) p = chat_for (cur s) p" for p
      using k2(3) k1(3) by (simp_all add: chat_for_def)
    have d: "distinct (map u_id as)" "u_id a \<notin> u_id ` set as" using Cons.prems(2) by simp_all
    from Cons.IH [OF rest d(1)] obtain new where new:
      "map sm_dedupe_key (sms_messages (cur s')) = map sm_dedupe_key (sms_messages (cur s2)) @ map Some new"
      "\<forall>k \<in> set new. Some k \<notin> set (map sm_dedupe_key (sms_messages (cur s2)))" "distinct new" "set ks2 \<subseteq> set new" "distinct ks2"
      "users (cur s') = users (cur s2)" "bale_contacts (cur s') = bale_contacts (cur s2)" "settings (cur s') = settings (cur s2)"
      "\<forall>a \<in> set as. wants a kind \<longrightarrow> alerted (cur s') (alert_key dedupe now a)"
      "\<forall>a \<in> set as. wants a kind \<and> \<not> alerted (cur s2) (alert_key dedupe now a)
           \<and> (\<exists>p. u_phone a = Some p \<and> chat_for (cur s2) p \<noteq> None) \<longrightarrow> alert_key dedupe now a \<in> set ks2"
      by blast
    have keys: "map sm_dedupe_key (sms_messages (cur s')) = map sm_dedupe_key (sms_messages (cur s)) @ map Some (?key # new)"
      using new(1) k2(1) by simp
    have fresh: "?key \<notin> set new" "\<forall>k \<in> set (?key # new). Some k \<notin> set (map sm_dedupe_key (sms_messages (cur s)))"
      using new(2) False unfolding k2(1) alerted_keys by auto
    have mine: "alerted (cur s') ?key" unfolding alerted_keys keys by simp
    have others: "alert_key dedupe now x \<in> set ks" if "x \<in> set (a # as)" "wants x kind"
      "\<not> alerted (cur s) (alert_key dedupe now x)" "u_phone x = Some p" "chat_for (cur s) p \<noteq> None" for x p
    proof (cases "x = a")
      case True
      with that ph chat ks show ?thesis by auto
    next
      case False
      with that(1) have x: "x \<in> set as" by simp
      then have "alert_key dedupe now x \<noteq> ?key" using d(2) by (metis alert_key_id imageI)
      with that(3) have "\<not> alerted (cur s2) (alert_key dedupe now x)" unfolding alerted_keys k2(1) by simp
      with x that(2,4,5) new(10) chat ks show ?thesis by auto
    qed
    have handed: "\<forall>x \<in> set (a # as). wants x kind \<and> \<not> alerted (cur s) (alert_key dedupe now x)
        \<and> (\<exists>p. u_phone x = Some p \<and> chat_for (cur s) p \<noteq> None) \<longrightarrow> alert_key dedupe now x \<in> set ks"
      using others by blast
    have each: "\<forall>x \<in> set (a # as). wants x kind \<longrightarrow> alerted (cur s') (alert_key dedupe now x)"
      using new(9) mine by simp
    have once: "distinct (?key # new)" "set ks \<subseteq> set (?key # new)" "distinct ks"
      using fresh(1) new(3,4,5) ks by auto
    have same: "users (cur s') = users (cur s)" "bale_contacts (cur s') = bale_contacts (cur s)"
      "settings (cur s') = settings (cur s)" using new(6-8) k2(2-4) by simp_all
    show ?thesis
      by (rule exI [of _ "?key # new"]) (intro conjI keys fresh(2) once same each handed)
  qed
qed

lemma alert_all_quiet:
  "(\<forall>a \<in> set as. wants a kind \<longrightarrow> alerted (cur s) (alert_key dedupe now a)) \<Longrightarrow>
     alert_all answers kind dedupe now as s = (Inr [], s)"
  by (induction as) auto

lemma alert_key_hour: "stamp_hour now' = stamp_hour now \<Longrightarrow> alert_key dedupe now' a = alert_key dedupe now a"
  by (simp add: alert_key_def)

lemma admins_same: "users d' = users d \<Longrightarrow> admins d' = admins d"
  by (simp add: admins_def)

lemma worker_alive_same: "settings d' = settings d \<Longrightarrow> worker_alive cf fromiso now d' = worker_alive cf fromiso now d"
  by (simp add: worker_alive_def last_heartbeat_def setting_lookup_def)

lemma worker_dead_later:
  "\<not> worker_alive cf fromiso now d \<Longrightarrow> now \<le> now' \<Longrightarrow> \<not> worker_alive cf fromiso now' d"
  by (auto simp: worker_alive_def split: option.splits)

section \<open>Properties\<close>

text \<open>C29. An outage is told once an hour. When the worker's heartbeat is older than its limit and the check
  does not raise, it ends with status 1 and every approved administrator who takes the alert has a
  message of this hour, handed over at once if the number is linked and it was not sent before. A
  second check in the same hour, with the same outage, changes nothing and hands over nothing.\<close>
theorem outage_told_once_an_hour:
  assumes "watchdog cf fromiso zpool answers now s = (Inr (status, sent), s')"
    and "distinct (map u_id (users (cur s)))" and "\<not> worker_alive cf fromiso now (cur s)"
    and "a \<in> set (users (cur s))" and "u_is_admin a" and "u_status a = UApproved" and "wants a ''admin_worker_stalled''"
  shows "status = 1 \<and> alerted (cur s') (alert_key ''stall'' now a)
    \<and> (\<not> alerted (cur s) (alert_key ''stall'' now a) \<and> (\<exists>p. u_phone a = Some p \<and> chat_for (cur s) p \<noteq> None)
         \<longrightarrow> alert_key ''stall'' now a \<in> set sent)
    \<and> distinct sent
    \<and> (stamp_hour now' = stamp_hour now \<and> now \<le> now' \<longrightarrow>
         watchdog cf fromiso zpool answers' now' s' = (Inr (1, []), s'))"
proof -
  let ?down = "pool_state zpool \<noteq> None \<and> pool_state zpool \<noteq> Some ''ONLINE''"
  have d: "distinct (map u_id (admins (cur s)))" using assms(2) by (simp add: admins_def distinct_map_filter)
  have a: "a \<in> set (admins (cur s))" using assms(4-6) by (simp add: admins_def)
  obtain ks s1 ks' where first: "alert_all answers ''admin_worker_stalled'' ''stall'' now (admins (cur s)) s = (Inr ks, s1)"
    and second: "(if ?down then alert_all answers ''admin_pool_down'' ''pooldown'' now (admins (cur s1)) s1 else (return [], s1)) = (Inr ks', s')"
    and r: "status = 1" "sent = ks @ ks'"
    using assms(1,3) unfolding watchdog_def alert_def Let_def by (auto split: sum.splits prod.splits)
  from alert_all_spec [OF first d] obtain new where A:
    "map sm_dedupe_key (sms_messages (cur s1)) = map sm_dedupe_key (sms_messages (cur s)) @ map Some new"
    "set ks \<subseteq> set new" "distinct ks" "users (cur s1) = users (cur s)" "settings (cur s1) = settings (cur s)"
    "\<forall>a \<in> set (admins (cur s)). wants a ''admin_worker_stalled'' \<longrightarrow> alerted (cur s1) (alert_key ''stall'' now a)"
    "\<forall>a \<in> set (admins (cur s)). wants a ''admin_worker_stalled'' \<and> \<not> alerted (cur s) (alert_key ''stall'' now a)
       \<and> (\<exists>p. u_phone a = Some p \<and> chat_for (cur s) p \<noteq> None) \<longrightarrow> alert_key ''stall'' now a \<in> set ks" by blast
  have d1: "distinct (map u_id (admins (cur s1)))" using d admins_same [OF A(4)] by simp
  obtain new' where B:
    "map sm_dedupe_key (sms_messages (cur s')) = map sm_dedupe_key (sms_messages (cur s1)) @ map Some new'"
    "\<forall>k \<in> set new'. Some k \<notin> set (map sm_dedupe_key (sms_messages (cur s1)))"
    "set ks' \<subseteq> set new'" "distinct ks'" "users (cur s') = users (cur s1)" "settings (cur s') = settings (cur s1)"
    "?down \<longrightarrow> (\<forall>a \<in> set (admins (cur s1)). wants a ''admin_pool_down'' \<longrightarrow> alerted (cur s') (alert_key ''pooldown'' now a))"
  proof (cases ?down)
    case True
    with second have "alert_all answers ''admin_pool_down'' ''pooldown'' now (admins (cur s1)) s1 = (Inr ks', s')" by simp
    from alert_all_spec [OF this d1] that show ?thesis by blast
  next
    case False
    with second have "ks' = []" "s' = s1" by auto
    with False show ?thesis by (intro that [of "[]"]) auto
  qed
  have keep: "alerted (cur s1) k \<Longrightarrow> alerted (cur s') k" for k using B(1) by (simp add: alerted_keys)
  have "set ks \<inter> set ks' = {}"
  proof -
    have "Some k \<in> set (map sm_dedupe_key (sms_messages (cur s1)))" if "k \<in> set ks" for k
      using A(1,2) that by auto
    with B(2,3) show ?thesis by blast
  qed
  with A(3) B(4) r(2) have dist: "distinct sent" by simp
  have again: "watchdog cf fromiso zpool answers' now' s' = (Inr (1, []), s')"
    if "stamp_hour now' = stamp_hour now" "now \<le> now'"
  proof -
    have dead: "\<not> worker_alive cf fromiso now' (cur s')"
      using worker_dead_later [OF assms(3) that(2)] worker_alive_same [of "cur s'" "cur s" cf fromiso now'] A(5) B(6)
      by simp
    have adm: "admins (cur s') = admins (cur s)" "admins (cur s1) = admins (cur s)"
      using admins_same [OF A(4)] admins_same [OF B(5)] by simp_all
    have hour: "alert_key k now' a = alert_key k now a" for k a by (rule alert_key_hour [OF that(1)])
    have q1: "alert_all answers' ''admin_worker_stalled'' ''stall'' now' (admins (cur s')) s' = (Inr [], s')"
    proof (rule alert_all_quiet)
      show "\<forall>a\<in>set (admins (cur s')). wants a ''admin_worker_stalled'' \<longrightarrow> alerted (cur s') (alert_key ''stall'' now' a)"
        unfolding adm hour using A(6) keep by blast
    qed
    have q2: "alert_all answers' ''admin_pool_down'' ''pooldown'' now' (admins (cur s')) s' = (Inr [], s')" if "?down"
    proof (rule alert_all_quiet)
      show "\<forall>a\<in>set (admins (cur s')). wants a ''admin_pool_down'' \<longrightarrow> alerted (cur s') (alert_key ''pooldown'' now' a)"
        unfolding adm(1) hour using B(7) that unfolding adm(2) by blast
    qed
    show ?thesis
    proof (cases ?down)
      case True
      with dead q1 q2 [OF True] show ?thesis unfolding watchdog_def alert_def Let_def by simp
    next
      case False
      with dead q1 show ?thesis unfolding watchdog_def alert_def Let_def by auto
    qed
  qed
  show ?thesis
  proof (intro conjI impI)
    show "status = 1" by (rule r(1))
    show "alerted (cur s') (alert_key ''stall'' now a)" using A(6) a assms(7) keep by blast
    show "alert_key ''stall'' now a \<in> set sent"
      if "\<not> alerted (cur s) (alert_key ''stall'' now a) \<and> (\<exists>p. u_phone a = Some p \<and> chat_for (cur s) p \<noteq> None)"
      using A(7) a assms(7) that r(2) by simp
    show "distinct sent" by (rule dist)
    show "watchdog cf fromiso zpool answers' now' s' = (Inr (1, []), s')" if "stamp_hour now' = stamp_hour now \<and> now \<le> now'"
      using again that by blast
  qed
qed

text \<open>One operator with a linked number; the last heartbeat is an hour old and the pool is fine.\<close>

definition operator :: user where
  "operator = \<lparr>u_id = 1, u_username = ''root'', u_full_name = None, u_phone = Some ''09120000000'', u_sms_prefs = (\<lambda>_. None),
     u_sms_credit_step_toman = 0, u_sms_credit_band = None, u_telegram_bot_token = None,
     u_telegram_user_id = None, u_password_hash = ''x'', u_session_version = 0, u_is_admin = True,
     u_status = UApproved, u_approved_at = None, u_approved_by = None\<rparr>"

definition stalled_session :: session where
  "stalled_session = open_session (empty_db\<lparr>users := [operator],
     bale_contacts := [\<lparr>bc_phone = ''09120000000'', bc_chat_id = 7, bc_display_name = None\<rparr>],
     settings := [\<lparr>st_key = ''worker_heartbeat'', st_value = ''t''\<rparr>]\<rparr>) 4"

definition stalled_check :: "(string, int \<times> string list) result \<times> session" where
  "stalled_check = watchdog default_config (\<lambda>_. Some 0) (ZpoolSays True ''ONLINE'') (\<lambda>_. Inr ''m'') hour stalled_session"

lemma stalled_check_evaluated:
  "fst stalled_check = Inr (1, [''stall:1970010101:1''])"
  by code_simp

theorem outage_told_once_an_hour_witness:
  "watchdog default_config (\<lambda>_. Some 0) (ZpoolSays True ''ONLINE'') (\<lambda>_. Inr ''m'') (hour + second) (snd stalled_check)
     = (Inr (1, []), snd stalled_check)"
proof -
  obtain s' where r: "watchdog default_config (\<lambda>_. Some 0) (ZpoolSays True ''ONLINE'') (\<lambda>_. Inr ''m'') hour stalled_session
      = (Inr (1, [''stall:1970010101:1'']), s')" and s': "snd stalled_check = s'"
    using stalled_check_evaluated by (cases stalled_check) (auto simp: stalled_check_def)
  have late: "\<not> worker_alive default_config (\<lambda>_. Some 0) hour (cur stalled_session)" by code_simp
  have hour: "stamp_hour (hour + second) = stamp_hour hour" by code_simp
  have u: "operator \<in> set (users (cur stalled_session))" "distinct (map u_id (users (cur stalled_session)))"
    by (simp_all add: stalled_session_def)
  have w: "wants operator ''admin_worker_stalled''" by code_simp
  show ?thesis
    using outage_told_once_an_hour [OF r u(2) late u(1) _ _ w, of "hour + second"] hour s'
    by (simp add: operator_def second_def)
qed

text \<open>The row is committed as queued and due before it is handed over, so a worker that is still running
  can hand it over too.\<close>

definition alert_stored :: "sms_message \<times> session" where
  "alert_stored = store_alert operator ''09120000000'' ''admin_pool_down'' ''k'' 0 stalled_session"

lemma alert_may_go_out_twice:
  "fst (outbox_pass 0 (\<lambda>_. Inr ''m1'') (snd alert_stored)) = [(5, True)]
   \<and> fst (deliver 0 (fst alert_stored) (Inr ''m2'') (snd (outbox_pass 0 (\<lambda>_. Inr ''m1'') (snd alert_stored))))"
  by code_simp

end
