(* ===== verification/Inbox.thy ===== *)
theory Inbox
  imports WorkspaceApi
begin

text \<open>
  The notice endpoints of \<open>control/mmd/app.py\<close>: the conditions that every poll brings up to date, the
  list with its unread count, the marks, and the lists of operations. The end of the caller's session
  is an argument.
\<close>

section \<open>Conditions\<close>

text \<open>A condition: its key, whether it holds, and the notice that tells it.\<close>

record condition =
  cn_key :: string
  cn_holds :: bool
  cn_kind :: string
  cn_code :: string
  cn_severity :: string
  cn_href :: string

definition conditions :: "time \<Rightarrow> user \<Rightarrow> time option \<Rightarrow> db \<Rightarrow> condition list" where
  "conditions now u session_ends d =
     (let soon = (\<lambda>t. t \<noteq> None \<and> the t \<le> now + hour); w = my_workspace d u in
      [\<lparr>cn_key = ''condition:low_balance'', cn_holds = (balance_micro d (u_id u) < 1000 * MICRO),
         cn_kind = ''billing'', cn_code = ''low_balance'', cn_severity = ''warning'', cn_href = ''/console/billing''\<rparr>,
       \<lparr>cn_key = ''condition:auto_stop'', cn_holds = (w \<noteq> None \<and> soon (w_auto_stop_at (the w))),
         cn_kind = ''machine'', cn_code = ''auto_stop_soon'', cn_severity = ''warning'', cn_href = ''/console''\<rparr>,
       \<lparr>cn_key = ''condition:archive'', cn_holds = (w \<noteq> None \<and> w_purge_after (the w) \<noteq> None),
         cn_kind = ''machine'', cn_code = ''archive_deadline'', cn_severity = ''critical'', cn_href = ''/console/billing''\<rparr>,
       \<lparr>cn_key = ''condition:session'', cn_holds = soon session_ends,
         cn_kind = ''security'', cn_code = ''session_expiring'', cn_severity = ''warning'', cn_href = ''/console/account''\<rparr>])"

definition sync_condition :: "time \<Rightarrow> int \<Rightarrow> condition \<Rightarrow> session \<Rightarrow> session" where
  "sync_condition now i c s =
     (if cn_holds c then emit now i (cn_kind c) (cn_code c) (cn_severity c) (Some (cn_href c)) (Some (cn_key c)) s
      else resolve_notification i (cn_key c) now s)"

text \<open>Notices change neither balances nor machines, so the conditions can be read at once.\<close>

definition sync_conditions :: "time \<Rightarrow> user \<Rightarrow> time option \<Rightarrow> session \<Rightarrow> session" where
  "sync_conditions now u session_ends s =
     fold (sync_condition now (u_id u)) (conditions now u session_ends (cur s)) s"

section \<open>The endpoints\<close>

record notice_view =
  nv_id :: int
  nv_kind :: string
  nv_code :: string
  nv_severity :: string
  nv_href :: "string option"
  nv_read :: bool
  nv_resolved :: bool
  nv_created_at :: time

definition view_of_notice :: "notification \<Rightarrow> notice_view" where
  "view_of_notice n = \<lparr>nv_id = nt_id n, nv_kind = nt_kind n, nv_code = nt_code n, nv_severity = nt_severity n,
     nv_href = nt_href n, nv_read = (nt_read_at n \<noteq> None), nv_resolved = (nt_resolved_at n \<noteq> None),
     nv_created_at = nt_created_at n\<rparr>"

definition my_notifications ::
  "time \<Rightarrow> user \<Rightarrow> time option \<Rightarrow> session \<Rightarrow> (notice_view list \<times> nat) \<times> session" where
  "my_notifications now u session_ends s =
     (let s1 = sync_conditions now u session_ends s;
          rows = take 100 (sort_key (\<lambda>n. - nt_created_at n)
                   (filter (\<lambda>n. nt_user_id n = u_id u \<and> nt_resolved_at n = None) (notifications (cur s1))))
      in ((map view_of_notice rows, length (filter (\<lambda>n. nt_read_at n = None) rows)), s1))"

definition read_notification :: "time \<Rightarrow> user \<Rightarrow> int \<Rightarrow> session \<Rightarrow> answer \<times> session" where
  "read_notification now u i s =
     (case find (\<lambda>n. nt_id n = i) (notifications (cur s)) of
        None \<Rightarrow> (Failed 404 ''no_such_notification'', s)
      | Some n \<Rightarrow> if nt_user_id n \<noteq> u_id u then (Failed 404 ''no_such_notification'', s)
          else (Done ''ok'', commit (edit (set_notification i (\<lambda>n. n\<lparr>nt_read_at := Some now\<rparr>)) s)))"

definition read_all_notifications :: "time \<Rightarrow> user \<Rightarrow> session \<Rightarrow> answer \<times> session" where
  "read_all_notifications now u s =
     (Done ''ok'', commit (edit (\<lambda>d. d\<lparr>notifications := map_rows (\<lambda>n. nt_user_id n = u_id u \<and> nt_read_at n = None)
        (\<lambda>n. n\<lparr>nt_read_at := Some now\<rparr>) (notifications d)\<rparr>) s))"

record operation_view =
  ov_id :: int
  ov_kind :: string
  ov_status :: string
  ov_progress :: string
  ov_error :: "string option"
  ov_finished_at :: "time option"

definition view_of_operation :: "operation \<Rightarrow> operation_view" where
  "view_of_operation p = \<lparr>ov_id = op_id p, ov_kind = op_kind p, ov_status = op_status p,
     ov_progress = op_progress_code p, ov_error = op_error_code p, ov_finished_at = op_finished_at p\<rparr>"

definition my_operations :: "user \<Rightarrow> db \<Rightarrow> operation_view list" where
  "my_operations u d = map view_of_operation (take 20 (sort_key (\<lambda>p. - op_id p)
     (filter (\<lambda>p. op_user_id p = Some (u_id u)) (operations d))))"

definition admin_operations :: "db \<Rightarrow> operation_view list" where
  "admin_operations d = map view_of_operation (take 100 (sort_key (\<lambda>p. - op_id p) (operations d)))"

section \<open>Lemmas\<close>

definition notices_ok :: "session \<Rightarrow> bool" where
  "notices_ok s \<longleftrightarrow> distinct (map nt_id (notifications (cur s)))
     \<and> (\<forall>n \<in> set (notifications (cur s)). nt_id n \<le> seq s)
     \<and> (\<forall>i k. length (filter (has_key i k) (notifications (cur s))) \<le> 1)"

definition inbox :: "int \<Rightarrow> string \<Rightarrow> session \<Rightarrow> notification list" where
  "inbox i k s = filter (has_key i k) (notifications (cur s))"

lemma filter_map_rows:
  assumes "\<And>x. P (f x) = P x"
  shows "filter P (map_rows q f xs) = map_rows q f (filter P xs)"
  using assms by (induction xs) auto

text \<open>Rewriting one row of the table.\<close>

lemma rewrite_inbox:
  assumes ok: "notices_ok s" and row: "row \<in> set (notifications (cur s))" "has_key i k row"
    and f: "\<And>n. nt_id (f n) = nt_id n" "\<And>n. nt_user_id (f n) = nt_user_id n" "\<And>n. nt_dedupe_key (f n) = nt_dedupe_key n"
    and s': "s' = commit (edit (set_notification (nt_id row) f) s)"
  shows "notices_ok s' \<and> inbox i k s = [row] \<and> inbox i k s' = [f row]
    \<and> (\<forall>j l. (j, l) \<noteq> (i, k) \<longrightarrow> inbox j l s' = inbox j l s)"
proof -
  have key: "has_key j l (f n) = has_key j l n" for j l n by (simp add: has_key_def f)
  have n': "notifications (cur s') = map_rows (\<lambda>n. nt_id n = nt_id row) f (notifications (cur s))" "seq s' = seq s"
    by (simp_all add: s' set_notification_def)
  have inb: "inbox j l s' = map_rows (\<lambda>n. nt_id n = nt_id row) f (inbox j l s)" for j l
    by (simp add: inbox_def n' filter_map_rows key)
  have D: "distinct (map nt_id (notifications (cur s)))" "length (inbox i k s) \<le> 1"
    using ok by (simp_all add: notices_ok_def inbox_def)
  have "row \<in> set (inbox i k s)" using row by (simp add: inbox_def)
  with D(2) have one: "inbox i k s = [row]" by (cases "inbox i k s") auto
  have other: "inbox j l s' = inbox j l s" if "(j, l) \<noteq> (i, k)" for j l
    unfolding inb
  proof (rule map_rows_none)
    fix n assume n: "n \<in> set (inbox j l s)"
    show "nt_id n \<noteq> nt_id row"
    proof
      assume "nt_id n = nt_id row"
      with D(1) n row(1) have "n = row" by (auto simp: inbox_def distinct_map dest: inj_onD)
      with n row(2) that show False by (auto simp: inbox_def has_key_def)
    qed
  qed
  have "notices_ok s'"
    using ok row(1) unfolding notices_ok_def n' by (auto simp: map_map_rows f set_map_rows filter_map_rows key)
  with one other inb show ?thesis by auto
qed

definition became_new :: "string \<Rightarrow> notification \<Rightarrow> bool" where
  "became_new c n \<longleftrightarrow> nt_resolved_at n \<noteq> None \<or> nt_code n \<noteq> c"

lemma emit_inbox:
  assumes ok: "notices_ok s" and k: "k \<noteq> []" and s': "s' = emit now i kd c sv (Some h) (Some k) s"
  shows "notices_ok s' \<and> (\<exists>n. inbox i k s' = [n] \<and> nt_resolved_at n = None \<and> nt_code n = c
      \<and> nt_kind n = kd \<and> nt_severity n = sv \<and> nt_href n = Some h
      \<and> (\<forall>m. inbox i k s = [m] \<and> \<not> became_new c m \<longrightarrow> nt_read_at n = nt_read_at m)
      \<and> (\<forall>m. inbox i k s = [m] \<and> \<not> became_new c m \<and> nt_kind m = kd \<and> nt_severity m = sv \<and> nt_href m = Some h \<longrightarrow> n = m))
    \<and> (\<forall>j l. (j, l) \<noteq> (i, k) \<longrightarrow> inbox j l s' = inbox j l s)"
proof (cases "find (has_key i k) (notifications (cur s))")
  case None
  let ?row = "\<lparr>nt_id = seq s + 1, nt_user_id = i, nt_kind = kd, nt_severity = sv, nt_code = c, nt_href = Some h,
     nt_dedupe_key = Some k, nt_read_at = None, nt_resolved_at = None, nt_created_at = now\<rparr>"
  have e: "s' = commit (edit (\<lambda>d. d\<lparr>notifications := notifications d @ [?row]\<rparr>) (next_id s))"
    unfolding s' emit_def Let_def using None k by simp
  have empty: "inbox i k s = []" using None by (auto simp: inbox_def find_None_iff' filter_empty_conv)
  have inb: "inbox j l s' = inbox j l s @ (if (j, l) = (i, k) then [?row] else [])" for j l
    by (auto simp: e inbox_def has_key_def)
  have fresh: "seq s + 1 \<notin> nt_id ` set (notifications (cur s))" using ok by (force simp: notices_ok_def)
  have "length (inbox j l s') \<le> 1" for j l
    using ok empty inb [of j l] by (auto simp: notices_ok_def inbox_def)
  then have "notices_ok s'"
    using ok fresh unfolding notices_ok_def by (auto simp: e inbox_def)
  with inb empty show ?thesis by auto
next
  case (Some row)
  define f where "f = (\<lambda>n :: notification. let n' = n\<lparr>nt_kind := kd, nt_code := c, nt_severity := sv, nt_href := Some h,
      nt_resolved_at := None\<rparr> in if became_new c row then n'\<lparr>nt_read_at := None, nt_created_at := now\<rparr> else n')"
  have e: "s' = commit (edit (set_notification (nt_id row) f) s)"
    unfolding s' emit_def Let_def f_def became_new_def using Some k by simp
  have row: "row \<in> set (notifications (cur s))" "has_key i k row" using find_SomeD [OF Some] by blast+
  have f: "nt_id (f n) = nt_id n" "nt_user_id (f n) = nt_user_id n" "nt_dedupe_key (f n) = nt_dedupe_key n" for n
    by (simp_all add: f_def Let_def)
  note R = rewrite_inbox [OF ok row f e]
  have "f row = row" if "\<not> became_new c row" "nt_kind row = kd" "nt_severity row = sv" "nt_href row = Some h"
    using that by (cases row) (auto simp: f_def became_new_def)
  then have "\<exists>n. inbox i k s' = [n] \<and> nt_resolved_at n = None \<and> nt_code n = c \<and> nt_kind n = kd \<and> nt_severity n = sv
      \<and> nt_href n = Some h
      \<and> (\<forall>m. inbox i k s = [m] \<and> \<not> became_new c m \<longrightarrow> nt_read_at n = nt_read_at m)
      \<and> (\<forall>m. inbox i k s = [m] \<and> \<not> became_new c m \<and> nt_kind m = kd \<and> nt_severity m = sv \<and> nt_href m = Some h \<longrightarrow> n = m)"
    using R by (intro exI [of _ "f row"]) (auto simp: f_def Let_def)
  with R show ?thesis by blast
qed

lemma resolve_inbox:
  assumes ok: "notices_ok s" and s': "s' = resolve_notification i k now s"
  shows "notices_ok s' \<and> (\<forall>n \<in> set (inbox i k s'). nt_resolved_at n \<noteq> None)
    \<and> ((\<forall>n \<in> set (inbox i k s). nt_resolved_at n \<noteq> None) \<longrightarrow> s' = s)
    \<and> (\<forall>j l. (j, l) \<noteq> (i, k) \<longrightarrow> inbox j l s' = inbox j l s)"
proof (cases "find (\<lambda>n. has_key i k n \<and> nt_resolved_at n = None) (notifications (cur s))")
  case None
  then have "s' = s" by (simp add: s' resolve_notification_def)
  moreover have "\<forall>n \<in> set (inbox i k s). nt_resolved_at n \<noteq> None"
    using None by (auto simp: inbox_def find_None_iff')
  ultimately show ?thesis using ok by simp
next
  case (Some row)
  let ?f = "\<lambda>n :: notification. n\<lparr>nt_resolved_at := Some now\<rparr>"
  have e: "s' = commit (edit (set_notification (nt_id row) ?f) s)"
    unfolding s' resolve_notification_def using Some by simp
  have row: "row \<in> set (notifications (cur s))" "has_key i k row" "nt_resolved_at row = None"
    using find_SomeD [OF Some] by blast+
  have "notices_ok s' \<and> inbox i k s = [row] \<and> inbox i k s' = [?f row]
      \<and> (\<forall>j l. (j, l) \<noteq> (i, k) \<longrightarrow> inbox j l s' = inbox j l s)"
    by (rule rewrite_inbox [OF ok row(1,2) _ _ _ e]) simp_all
  with row(3) show ?thesis by auto
qed

text \<open>What a notice of a condition is after a poll.\<close>

definition settled :: "condition \<Rightarrow> notification list \<Rightarrow> bool" where
  "settled c ns \<longleftrightarrow> (if cn_holds c
     then (\<exists>n. ns = [n] \<and> nt_resolved_at n = None \<and> nt_code n = cn_code c \<and> nt_kind n = cn_kind c
             \<and> nt_severity n = cn_severity c \<and> nt_href n = Some (cn_href c))
     else \<forall>n \<in> set ns. nt_resolved_at n \<noteq> None)"

lemma sync_condition_inbox:
  assumes "notices_ok s" and "cn_key c \<noteq> []"
  shows "notices_ok (sync_condition now i c s) \<and> settled c (inbox i (cn_key c) (sync_condition now i c s))
    \<and> (\<forall>j l. (j, l) \<noteq> (i, cn_key c) \<longrightarrow> inbox j l (sync_condition now i c s) = inbox j l s)
    \<and> (\<forall>m. cn_holds c \<and> inbox i (cn_key c) s = [m] \<and> nt_resolved_at m = None \<and> nt_code m = cn_code c \<longrightarrow>
         (\<exists>n. inbox i (cn_key c) (sync_condition now i c s) = [n] \<and> nt_read_at n = nt_read_at m))"
proof (cases "cn_holds c")
  case True
  with emit_inbox [OF assms refl, of now i "cn_kind c" "cn_code c" "cn_severity c" "cn_href c"]
  show ?thesis by (auto simp: sync_condition_def settled_def became_new_def)
next
  case False
  with resolve_inbox [OF assms(1) refl, of i "cn_key c" now]
  show ?thesis by (auto simp: sync_condition_def settled_def)
qed

lemma sync_all_inbox:
  assumes "notices_ok s" and "\<forall>c \<in> set cs. cn_key c \<noteq> []" and "distinct (map cn_key cs)"
  shows "notices_ok (fold (sync_condition now i) cs s)
    \<and> (\<forall>c \<in> set cs. settled c (inbox i (cn_key c) (fold (sync_condition now i) cs s)))
    \<and> (\<forall>j l. j \<noteq> i \<or> l \<notin> cn_key ` set cs \<longrightarrow> inbox j l (fold (sync_condition now i) cs s) = inbox j l s)
    \<and> (\<forall>c m. c \<in> set cs \<and> cn_holds c \<and> inbox i (cn_key c) s = [m] \<and> nt_resolved_at m = None \<and> nt_code m = cn_code c \<longrightarrow>
         (\<exists>n. inbox i (cn_key c) (fold (sync_condition now i) cs s) = [n] \<and> nt_read_at n = nt_read_at m))"
  using assms
proof (induction cs arbitrary: s)
  case (Cons c cs)
  let ?s1 = "sync_condition now i c s"
  have c: "cn_key c \<noteq> []" "cn_key c \<notin> cn_key ` set cs" using Cons.prems by auto
  note A = sync_condition_inbox [OF Cons.prems(1) c(1), of now i]
  have ok: "notices_ok ?s1" using A by blast
  have "\<forall>c \<in> set cs. cn_key c \<noteq> []" "distinct (map cn_key cs)" using Cons.prems by auto
  note B = Cons.IH [OF ok this]
  have same: "inbox i (cn_key c) (fold (sync_condition now i) cs ?s1) = inbox i (cn_key c) ?s1"
    using B c(2) by blast
  have other: "inbox i (cn_key x) ?s1 = inbox i (cn_key x) s" if "x \<in> set cs" for x
    using A c(2) that by (metis image_eqI prod.inject)
  show ?case
  proof (intro conjI ballI allI impI)
    show "notices_ok (fold (sync_condition now i) (c # cs) s)" using B by simp
    show "settled x (inbox i (cn_key x) (fold (sync_condition now i) (c # cs) s))" if "x \<in> set (c # cs)" for x
      using that A B same by auto
    show "inbox j l (fold (sync_condition now i) (c # cs) s) = inbox j l s"
      if "j \<noteq> i \<or> l \<notin> cn_key ` set (c # cs)" for j l
      using that A B by auto
    show "\<exists>n. inbox i (cn_key x) (fold (sync_condition now i) (c # cs) s) = [n] \<and> nt_read_at n = nt_read_at m"
      if "x \<in> set (c # cs) \<and> cn_holds x \<and> inbox i (cn_key x) s = [m] \<and> nt_resolved_at m = None \<and> nt_code m = cn_code x"
      for x m
    proof (cases "x = c")
      case True
      with that A same show ?thesis by auto
    next
      case False
      with that have x: "x \<in> set cs" by simp
      with that other [OF x] B show ?thesis by auto
    qed
  qed
qed simp

lemma sync_condition_again:
  assumes "notices_ok s" and "cn_key c \<noteq> []" and "settled c (inbox i (cn_key c) s)"
  shows "notifications (cur (sync_condition now i c s)) = notifications (cur s)
    \<and> notices_ok (sync_condition now i c s)"
proof (cases "cn_holds c")
  case True
  with assms(3) obtain n where n: "inbox i (cn_key c) s = [n]" "nt_resolved_at n = None" "nt_code n = cn_code c"
    "nt_kind n = cn_kind c" "nt_severity n = cn_severity c" "nt_href n = Some (cn_href c)"
    by (auto simp: settled_def)
  have "n \<in> set (inbox i (cn_key c) s)" using n(1) by simp
  then have row: "n \<in> set (notifications (cur s))" "has_key i (cn_key c) n" by (simp_all add: inbox_def)
  have "find (has_key i (cn_key c)) (notifications (cur s)) = Some n"
  proof -
    obtain m where m: "find (has_key i (cn_key c)) (notifications (cur s)) = Some m"
      using row by (cases "find (has_key i (cn_key c)) (notifications (cur s))") (auto simp: find_None_iff')
    then have "m \<in> set (inbox i (cn_key c) s)" by (auto simp: inbox_def dest: find_SomeD)
    with n(1) m show ?thesis by simp
  qed
  moreover have "map_rows (\<lambda>m. nt_id m = nt_id n) (\<lambda>m. m\<lparr>nt_kind := cn_kind c, nt_code := cn_code c,
      nt_severity := cn_severity c, nt_href := Some (cn_href c), nt_resolved_at := None\<rparr>) (notifications (cur s))
      = notifications (cur s)"
  proof -
    have "m = n" if "m \<in> set (notifications (cur s))" "nt_id m = nt_id n" for m
      using assms(1) that row(1) by (auto simp: notices_ok_def distinct_map dest: inj_onD)
    moreover have "n\<lparr>nt_kind := cn_kind c, nt_code := cn_code c, nt_severity := cn_severity c,
        nt_href := Some (cn_href c), nt_resolved_at := None\<rparr> = n"
      using n by (cases n) simp
    ultimately show ?thesis unfolding map_rows_def by (intro map_idI) auto
  qed
  ultimately have "notifications (cur (sync_condition now i c s)) = notifications (cur s)"
    using True n assms(2) by (simp add: sync_condition_def emit_def Let_def set_notification_def)
  then show ?thesis using sync_condition_inbox [OF assms(1,2)] by blast
next
  case False
  with assms(3) resolve_inbox [OF assms(1) refl, of i "cn_key c" now] assms(1)
  show ?thesis by (simp add: sync_condition_def settled_def)
qed

lemma sync_all_again:
  assumes "notices_ok s" and "\<forall>c \<in> set cs. cn_key c \<noteq> [] \<and> settled c (inbox i (cn_key c) s)"
  shows "notifications (cur (fold (sync_condition now i) cs s)) = notifications (cur s)"
  using assms
proof (induction cs arbitrary: s)
  case (Cons c cs)
  have a: "notifications (cur (sync_condition now i c s)) = notifications (cur s)" "notices_ok (sync_condition now i c s)"
    using sync_condition_again [OF Cons.prems(1), of c i now] Cons.prems(2) by auto
  have "\<forall>x \<in> set cs. cn_key x \<noteq> [] \<and> settled x (inbox i (cn_key x) (sync_condition now i c s))"
    using Cons.prems(2) a(1) by (auto simp: inbox_def)
  from Cons.IH [OF a(2) this] a(1) show ?case by simp
qed simp

lemma condition_keys:
  "map cn_key (conditions now u ends d) = [''condition:low_balance'', ''condition:auto_stop'',
     ''condition:archive'', ''condition:session'']"
  by (simp add: conditions_def Let_def)

lemma conditions_nonempty: "c \<in> set (conditions now u ends d) \<Longrightarrow> cn_key c \<noteq> []"
  by (auto simp: conditions_def Let_def)

lemma sync_condition_rest:
  "transactions (cur (sync_condition now i c s)) = transactions (cur s)"
  "credit_accounts (cur (sync_condition now i c s)) = credit_accounts (cur s)"
  "workspaces (cur (sync_condition now i c s)) = workspaces (cur s)"
  by (simp_all add: sync_condition_def)

lemma sync_rest:
  "credit_accounts (cur (fold (sync_condition now i) cs s)) = credit_accounts (cur s)"
  "workspaces (cur (fold (sync_condition now i) cs s)) = workspaces (cur s)"
  by (induction cs arbitrary: s) (simp_all add: sync_condition_rest)

lemma conditions_same:
  "credit_accounts d' = credit_accounts d \<Longrightarrow> workspaces d' = workspaces d \<Longrightarrow>
     conditions now u ends d' = conditions now u ends d"
  by (simp add: conditions_def my_workspace_def balance_micro_def)

section \<open>Properties\<close>

text \<open>C30. A condition is told once for as long as it lasts. After a poll each of the four conditions that
  holds has exactly one notice of the customer and it is open, and one that does not hold has none
  open; notices of other customers and other keys are as before; a notice that was open and read
  stays read; and polling again at the same moment changes no notice and gives the same list.\<close>
theorem conditions_told_once:
  assumes "notices_ok s" and "my_notifications now u ends s = (list, s')"
    and "c \<in> set (conditions now u ends (cur s))"
  shows "notices_ok s'
    \<and> (if cn_holds c then (\<exists>n. filter (has_key (u_id u) (cn_key c)) (notifications (cur s')) = [n] \<and> nt_resolved_at n = None)
       else (\<forall>n \<in> set (notifications (cur s')). has_key (u_id u) (cn_key c) n \<longrightarrow> nt_resolved_at n \<noteq> None))
    \<and> (\<forall>j k. j \<noteq> u_id u \<or> k \<notin> cn_key ` set (conditions now u ends (cur s)) \<longrightarrow>
         filter (has_key j k) (notifications (cur s')) = filter (has_key j k) (notifications (cur s)))
    \<and> (\<forall>m. cn_holds c \<and> filter (has_key (u_id u) (cn_key c)) (notifications (cur s)) = [m] \<and> nt_resolved_at m = None
         \<and> nt_code m = cn_code c \<and> nt_read_at m \<noteq> None \<longrightarrow>
         (\<forall>n \<in> set (notifications (cur s')). has_key (u_id u) (cn_key c) n \<longrightarrow> nt_read_at n \<noteq> None))
    \<and> fst (my_notifications now u ends s') = list
    \<and> notifications (cur (snd (my_notifications now u ends s'))) = notifications (cur s')"
proof -
  let ?cs = "conditions now u ends (cur s)"
  have s': "s' = fold (sync_condition now (u_id u)) ?cs s"
    using assms(2) by (simp add: my_notifications_def sync_conditions_def Let_def)
  have list: "list = fst (my_notifications now u ends s)" using assms(2) by simp
  have keys: "\<forall>c \<in> set ?cs. cn_key c \<noteq> []" "distinct (map cn_key ?cs)"
    using conditions_nonempty condition_keys by (blast, simp)
  note A = sync_all_inbox [OF assms(1) keys, of now "u_id u", folded s']
  have cs': "conditions now u ends (cur s') = ?cs" unfolding s' by (rule conditions_same) (rule sync_rest)+
  have ok: "notices_ok s'" using A by blast
  have again: "notifications (cur (sync_conditions now u ends s')) = notifications (cur s')"
    unfolding sync_conditions_def cs' using A keys(1) by (intro sync_all_again) auto
  have "sync_conditions now u ends s = s'" by (simp add: s' sync_conditions_def)
  with again have "fst (my_notifications now u ends s') = list"
    by (simp add: list my_notifications_def Let_def)
  moreover have "notifications (cur (snd (my_notifications now u ends s'))) = notifications (cur s')"
    using again by (simp add: my_notifications_def Let_def)
  moreover have "if cn_holds c then (\<exists>n. filter (has_key (u_id u) (cn_key c)) (notifications (cur s')) = [n] \<and> nt_resolved_at n = None)
       else (\<forall>n \<in> set (notifications (cur s')). has_key (u_id u) (cn_key c) n \<longrightarrow> nt_resolved_at n \<noteq> None)"
  proof -
    have "settled c (inbox (u_id u) (cn_key c) s')" using A assms(3) by blast
    then show ?thesis by (cases "cn_holds c") (auto simp: settled_def inbox_def)
  qed
  moreover have "\<forall>n \<in> set (notifications (cur s')). has_key (u_id u) (cn_key c) n \<longrightarrow> nt_read_at n \<noteq> None"
    if "cn_holds c \<and> filter (has_key (u_id u) (cn_key c)) (notifications (cur s)) = [m] \<and> nt_resolved_at m = None
       \<and> nt_code m = cn_code c \<and> nt_read_at m \<noteq> None" for m
  proof -
    from A assms(3) that obtain n where n: "inbox (u_id u) (cn_key c) s' = [n]" "nt_read_at n = nt_read_at m"
      unfolding inbox_def by blast
    show ?thesis
    proof (intro ballI impI)
      fix x assume "x \<in> set (notifications (cur s'))" "has_key (u_id u) (cn_key c) x"
      then have "x \<in> set (inbox (u_id u) (cn_key c) s')" by (simp add: inbox_def)
      with n that show "nt_read_at x \<noteq> None" by simp
    qed
  qed
  moreover have "\<forall>j k. j \<noteq> u_id u \<or> k \<notin> cn_key ` set ?cs \<longrightarrow>
       filter (has_key j k) (notifications (cur s')) = filter (has_key j k) (notifications (cur s))"
    using A by (simp add: inbox_def)
  ultimately show ?thesis using ok by blast
qed

text \<open>A customer without credit and with a session that lasts.\<close>

definition poor_customer :: user where
  "poor_customer = \<lparr>u_id = 3, u_username = ''ali'', u_full_name = None, u_phone = None, u_sms_prefs = (\<lambda>_. None),
     u_sms_credit_step_toman = 0, u_sms_credit_band = None, u_telegram_bot_token = None,
     u_telegram_user_id = None, u_password_hash = ''x'', u_session_version = 0, u_is_admin = False,
     u_status = UApproved, u_approved_at = None, u_approved_by = None\<rparr>"

definition poor_session :: session where
  "poor_session = open_session (empty_db\<lparr>users := [poor_customer]\<rparr>) 5"

theorem conditions_told_once_witness:
  "snd (fst (my_notifications 0 poor_customer None poor_session)) = 1
   \<and> fst (my_notifications 0 poor_customer None (snd (my_notifications 0 poor_customer None poor_session)))
     = fst (my_notifications 0 poor_customer None poor_session)"
proof -
  have ok: "notices_ok poor_session" by (simp add: notices_ok_def poor_session_def empty_db_def)
  obtain list s' where r: "my_notifications 0 poor_customer None poor_session = (list, s')" by fastforce
  have c: "hd (conditions 0 poor_customer None (cur poor_session)) \<in> set (conditions 0 poor_customer None (cur poor_session))"
    by (simp add: conditions_def Let_def)
  have "snd (fst (my_notifications 0 poor_customer None poor_session)) = 1" by code_simp
  with conditions_told_once [OF ok r c] r show ?thesis by simp
qed

text \<open>The key of the session's end is the customer's and not the session's: two browsers whose sessions end
  at different times make the notice come and go with every poll, unread each time.\<close>

definition early_poll :: session where
  "early_poll = snd (my_notifications 0 poor_customer (Some hour) poor_session)"

definition read_then_other :: session where
  "read_then_other = snd (my_notifications 2 poor_customer (Some (9 * hour))
     (snd (read_all_notifications 1 poor_customer early_poll)))"

lemma session_notice_flaps:
  "snd (fst (my_notifications 2 poor_customer (Some (9 * hour)) read_then_other)) = 0
   \<and> snd (fst (my_notifications 3 poor_customer (Some hour) read_then_other)) = 1"
  by code_simp

end
