(* ===== verification/Webhook.thy ===== *)
theory Webhook
  imports WorkspaceOps ManagedApps SideTraces Secrets
begin

text \<open>
  \<open>control/mmd/webhook.py\<close> with its endpoints in \<open>control/mmd/app.py\<close>: the signed nudge to an outside
  agent when a customer wrote, and the receiver's check. HMAC-SHA256 is a parameter on bytes; the
  clock and what the other side answers are arguments.
\<close>

section \<open>Settings\<close>

definition WEBHOOK_URL :: string where "WEBHOOK_URL = ''ticket_webhook_url''"
definition WEBHOOK_SECRET :: string where "WEBHOOK_SECRET = ''ticket_webhook_secret''"
definition MAX_AGE_SECONDS :: rat where "MAX_AGE_SECONDS = 300"

definition hook_setting :: "db \<Rightarrow> string \<Rightarrow> string" where
  "hook_setting d k = strip (get_setting d k [])"

record hook_page =
  hp_url :: string
  hp_secret_set :: bool
  hp_secret_hint :: string
  hp_enabled :: bool

definition hook_config :: "db \<Rightarrow> hook_page" where
  "hook_config d = (let secret = hook_setting d WEBHOOK_SECRET in
     \<lparr>hp_url = hook_setting d WEBHOOK_URL, hp_secret_set = (secret \<noteq> []),
      hp_secret_hint = (if secret = [] then [] else last_chars 4 secret),
      hp_enabled = (hook_setting d WEBHOOK_URL \<noteq> [])\<rparr>)"

definition web_address :: "string \<Rightarrow> bool" where
  "web_address url \<longleftrightarrow> startswith url ''http://'' \<or> startswith url ''https://''"

definition save_hook :: "string \<Rightarrow> string option \<Rightarrow> db \<Rightarrow> (string, db) result" where
  "save_hook given secret d =
     (let url = strip given in
      if url \<noteq> [] \<and> \<not> web_address url then raise ''url must start with http:// or https://''
      else return (set_setting WEBHOOK_URL url
             (case secret of None \<Rightarrow> d | Some x \<Rightarrow> set_setting WEBHOOK_SECRET (strip x) d)))"

section \<open>The payload\<close>

text \<open>\<open>json.dumps\<close> with \<open>ensure_ascii=False\<close>, for the kinds of value a payload holds.\<close>

definition escape_char :: "char \<Rightarrow> string" where
  "escape_char c =
     (let b = CHR 0x5C in
      if c = CHR 0x22 then [b, c] else if c = b then [b, b]
      else if code c = 10 then [b, CHR ''n''] else if code c = 13 then [b, CHR ''r'']
      else if code c = 9 then [b, CHR ''t''] else if code c = 12 then [b, CHR ''f'']
      else if code c = 8 then [b, CHR ''b'']
      else if code c < 32 then [b] @ ''u00'' @ [hex_digit (code c div 16), hex_digit (code c mod 16)]
      else [c])"

definition json_string :: "string \<Rightarrow> string" where
  "json_string s = [CHR 0x22] @ concat (map escape_char s) @ [CHR 0x22]"

definition json_text :: "string option \<Rightarrow> string" where
  "json_text v = (case v of None \<Rightarrow> ''null'' | Some s \<Rightarrow> json_string s)"

record nudge =
  ng_event :: string
  ng_ticket_id :: "int option"
  ng_username :: "string option"
  ng_subject :: "string option"

definition build :: "string \<Rightarrow> int option \<Rightarrow> string option \<Rightarrow> string option \<Rightarrow> nudge" where
  "build event ticket_id username subject =
     \<lparr>ng_event = event, ng_ticket_id = ticket_id, ng_username = username, ng_subject = subject\<rparr>"

definition HINT :: string where
  "HINT = ''A customer is waiting. Call list_open_tickets for the details and answer, or escalate if you cannot.''"

definition member :: "string \<Rightarrow> string \<Rightarrow> string" where
  "member k v = json_string k @ '': '' @ v"

definition payload_text :: "nudge \<Rightarrow> string" where
  "payload_text n = ''{'' @ join '', ''
     [member ''event'' (json_string (ng_event n)),
      member ''ticket_id'' (case ng_ticket_id n of None \<Rightarrow> ''null'' | Some i \<Rightarrow> show_int i),
      member ''username'' (json_text (ng_username n)), member ''subject'' (json_text (ng_subject n)),
      member ''hint'' (json_string HINT)] @ ''}''"

section \<open>Signing\<close>

type_synonym hmac = "nat list \<Rightarrow> nat list \<Rightarrow> nat list"

definition signed_material :: "string \<Rightarrow> nat list \<Rightarrow> nat list" where
  "signed_material timestamp body = utf8 timestamp @ [46] @ body"

definition sign :: "hmac \<Rightarrow> string \<Rightarrow> string \<Rightarrow> nat list \<Rightarrow> string" where
  "sign hm secret timestamp body = hex (hm (utf8 secret) (signed_material timestamp body))"

definition signature_headers :: "hmac \<Rightarrow> string \<Rightarrow> string \<Rightarrow> nat list \<Rightarrow> (string \<times> string) list" where
  "signature_headers hm secret timestamp body =
     (let digest = sign hm secret timestamp body in
      [(''X-MMD-Signature'', digest), (''X-Webhook-Signature-V2'', digest), (''X-Webhook-Timestamp'', timestamp)])"

text \<open>The age of a request. A timestamp that is not a number is refused; the float \<open>nan\<close>, which compares
  as not too old, is not; infinities are too old.\<close>

definition fresh_enough :: "rat \<Rightarrow> string \<Rightarrow> bool" where
  "fresh_enough now timestamp =
     (case py_float timestamp of Some t \<Rightarrow> \<bar>fsub now t\<bar> \<le> MAX_AGE_SECONDS
      | None \<Rightarrow> lower (snd (split_sign (strip timestamp))) = ''nan'')"

definition verify_nudge :: "hmac \<Rightarrow> string \<Rightarrow> string \<Rightarrow> nat list \<Rightarrow> string \<Rightarrow> rat \<Rightarrow> bool option" where
  "verify_nudge hm secret timestamp body signature now =
     (if \<not> fresh_enough now timestamp then Some False
      else compare_digest (sign hm secret timestamp body) signature)"

section \<open>Delivery\<close>

record post =
  po_url :: string
  po_body :: "nat list"
  po_headers :: "(string \<times> string) list"

datatype post_reply = PostFails string | PostStatus int string

datatype nudge_answer = NudgeNotSent string | NudgeStatus bool int string

definition nudge_post :: "hmac \<Rightarrow> int \<Rightarrow> string \<Rightarrow> string \<Rightarrow> nudge \<Rightarrow> post" where
  "nudge_post hm clock url secret n =
     (let body = utf8 (payload_text n); timestamp = show_int clock in
      \<lparr>po_url = url, po_body = body,
       po_headers = [(''Content-Type'', ''application/json''), (''X-MMD-Timestamp'', timestamp),
           (''X-MMD-Event'', ng_event n)]
         @ (if secret = [] then [] else signature_headers hm secret timestamp body)\<rparr>)"

definition answer_of_post :: "nat \<Rightarrow> post_reply \<Rightarrow> nudge_answer" where
  "answer_of_post limit r = (case r of
     PostFails e \<Rightarrow> NudgeNotSent (''unreachable: '' @ e)
   | PostStatus n text \<Rightarrow> NudgeStatus (n < 400) n (take limit text))"

definition deliver_nudge :: "hmac \<Rightarrow> int \<Rightarrow> (post \<Rightarrow> post_reply) \<Rightarrow> nudge \<Rightarrow> db \<Rightarrow> nudge_answer \<times> post list" where
  "deliver_nudge hm clock send n d =
     (let url = hook_setting d WEBHOOK_URL in
      if url = [] then (NudgeNotSent ''no webhook configured'', [])
      else let p = nudge_post hm clock url (hook_setting d WEBHOOK_SECRET) n in (answer_of_post 200 (send p), [p]))"

text \<open>\<open>_fire_ticket_webhook\<close>: the answer is dropped.\<close>

definition fire_ticket_webhook ::
  "hmac \<Rightarrow> int \<Rightarrow> (post \<Rightarrow> post_reply) \<Rightarrow> string \<Rightarrow> int \<Rightarrow> string \<Rightarrow> string \<Rightarrow> db \<Rightarrow> post list" where
  "fire_ticket_webhook hm clock send event ticket_id username subject d =
     snd (deliver_nudge hm clock send (build event (Some ticket_id) (Some username) (Some subject)) d)"

definition test_hook ::
  "hmac \<Rightarrow> int \<Rightarrow> (post \<Rightarrow> post_reply) \<Rightarrow> string \<Rightarrow> string option \<Rightarrow> db \<Rightarrow> nudge_answer \<times> post list" where
  "test_hook hm clock send given secret d =
     (let url = strip given; effective = (case secret of Some x \<Rightarrow> x | None \<Rightarrow> hook_setting d WEBHOOK_SECRET) in
      if url = [] then (NudgeNotSent ''no url given'', [])
      else if \<not> web_address url then (NudgeNotSent ''url must start with http:// or https://'', [])
      else let p = nudge_post hm clock url effective (build ''test'' None None None)
           in (answer_of_post 300 (send p), [p]))"

section \<open>The panel\<close>

definition admin_ticket_webhook_put :: "user \<Rightarrow> string \<Rightarrow> string option \<Rightarrow> session \<Rightarrow> answer \<times> session" where
  "admin_ticket_webhook_put admin url secret s =
     (case save_hook url secret (cur s) of
        Inl _ \<Rightarrow> (Failed 400 ''webhook_invalid'', s)
      | Inr d \<Rightarrow> (Done ''saved'', audit (Some (u_id admin)) ''admin_ticket_webhook'' None (commit (edit (\<lambda>_. d) s))))"

section \<open>Lemmas\<close>

lemma set_strip_space: "c \<in> set s \<Longrightarrow> \<not> is_space c \<Longrightarrow> c \<in> set (strip s)"
proof -
  have *: "c \<in> set (dropWhile is_space xs)" if "c \<in> set xs" "\<not> is_space c" for c xs
    using that by (induction xs) auto
  assume "c \<in> set s" "\<not> is_space c"
  then show ?thesis by (simp add: strip_def rstrip_def lstrip_def *)
qed

lemma set_split_sign: "c \<in> set s \<Longrightarrow> c \<noteq> CHR ''-'' \<Longrightarrow> c \<noteq> CHR ''+'' \<Longrightarrow> c \<in> set (snd (split_sign s))"
  by (cases s) (auto simp: split_sign_def)

lemma set_digit_run: "digit_run s = Some n \<Longrightarrow> c \<in> set s \<Longrightarrow> is_ascii_digit c \<or> c = CHR ''_''"
  by (auto simp: digit_run_def list_all_iff split: if_splits)

lemma set_frac_run: "frac_run s = Some n \<Longrightarrow> c \<in> set s \<Longrightarrow> is_ascii_digit c \<or> c = CHR ''_''"
  by (auto simp: frac_run_def dest: set_digit_run split: if_splits)

text \<open>No text of a float has a brace.\<close>

lemma set_cut: "c \<in> set s \<Longrightarrow> c \<in> set (takeWhile P s) \<or> (\<exists>d r. dropWhile P s = d # r \<and> \<not> P d \<and> (c = d \<or> c \<in> set r))"
  by (induction s) (auto split: if_splits)

lemma float_no_brace:
  assumes "py_float s = Some x"
  shows "CHR ''{'' \<notin> set s"
proof
  let ?b = "CHR ''{''"
  assume "?b \<in> set s"
  have plain: "\<not> is_space ?b" "\<not> is_ascii_digit ?b" by (simp_all add: is_space_def is_ascii_digit_def)
  obtain neg t where st: "split_sign (strip s) = (neg, t)" by fastforce
  define isE where "isE = (\<lambda>c. c = CHR ''e'' \<or> c = CHR ''E'')"
  define m where "m = takeWhile (\<lambda>c. \<not> isE c) t"
  define r where "r = dropWhile (\<lambda>c. \<not> isE c) t"
  define ip where "ip = takeWhile (\<lambda>c. c \<noteq> CHR ''.'') m"
  define fp where "fp = drop 1 (dropWhile (\<lambda>c. c \<noteq> CHR ''.'') m)"
  from \<open>?b \<in> set s\<close> plain(1) have "?b \<in> set (strip s)" by (rule set_strip_space)
  then have "?b \<in> set (snd (split_sign (strip s)))" by (rule set_split_sign) simp_all
  then have "?b \<in> set t" by (simp add: st)
  have some: "frac_run ip \<noteq> None" "frac_run fp \<noteq> None"
    "(case r of [] \<Rightarrow> Some 0 | _ # e \<Rightarrow> (case split_sign e of (en, d) \<Rightarrow>
        map_option (\<lambda>n. if en then - int n else int n) (digit_run d))) \<noteq> None"
    using assms unfolding py_float_def st Let_def ip_def fp_def m_def r_def isE_def
    by (auto split: if_splits option.splits)
  from \<open>?b \<in> set t\<close> have "?b \<in> set m \<or> (\<exists>d e. r = d # e \<and> isE d \<and> (?b = d \<or> ?b \<in> set e))"
    unfolding m_def r_def using set_cut [of ?b t "\<lambda>c. \<not> isE c"] by blast
  then show False
  proof
    assume "?b \<in> set m"
    then have "?b \<in> set ip \<or> ?b \<in> set fp"
      unfolding ip_def fp_def using set_cut [of ?b m "\<lambda>c. c \<noteq> CHR ''.''"] by auto
    with some(1,2) plain(2) set_frac_run show False by blast
  next
    assume "\<exists>d e. r = d # e \<and> isE d \<and> (?b = d \<or> ?b \<in> set e)"
    then obtain d e where e: "r = d # e" "?b \<in> set e" by (auto simp: isE_def)
    then have "?b \<in> set (snd (split_sign e))" by (intro set_split_sign) simp_all
    with some(3) e(1) plain(2) show False by (auto simp: split: prod.splits dest: set_digit_run)
  qed
qed

lemma fresh_no_brace:
  assumes "fresh_enough now ts"
  shows "CHR ''{'' \<notin> set ts"
proof (cases "py_float ts")
  case None
  then have n: "lower (snd (split_sign (strip ts))) = ''nan''" using assms by (simp add: fresh_enough_def)
  show ?thesis
  proof
    assume "CHR ''{'' \<in> set ts"
    then have "CHR ''{'' \<in> set (strip ts)" by (rule set_strip_space) (simp add: is_space_def)
    then have "CHR ''{'' \<in> set (snd (split_sign (strip ts)))" by (rule set_split_sign) simp_all
    then have "lower_char (CHR ''{'') \<in> set (lower (snd (split_sign (strip ts))))" by (simp add: lower_def)
    then show False unfolding n by (simp add: lower_char_def is_upper_az_def)
  qed
next
  case (Some x)
  then show ?thesis by (rule float_no_brace)
qed

lemma float_of_digits: "py_float (show_nat n) = Some (fl64 (of_nat n))"
proof -
  have d: "\<forall>c \<in> set (show_nat n). is_ascii_digit c" by (rule show_nat_digits)
  have no: "\<not> is_ascii_digit (CHR ''e'')" "\<not> is_ascii_digit (CHR ''E'')" "\<not> is_ascii_digit (CHR ''.'')"
    "\<not> is_ascii_digit (CHR ''-'')" "\<not> is_ascii_digit (CHR ''+'')"
    by (simp_all add: is_ascii_digit_def)
  have "\<forall>c \<in> set (show_nat n). \<not> is_space c" using d by (auto simp: is_ascii_digit_def is_space_def)
  then have st: "strip (show_nat n) = show_nat n" by (rule strip_no_space)
  have sg: "split_sign (show_nat n) = (False, show_nat n)"
    using d no by (cases "show_nat n") (auto simp: split_sign_def)
  have m: "takeWhile (\<lambda>c. \<not> (c = CHR ''e'' \<or> c = CHR ''E'')) (show_nat n) = show_nat n"
    "dropWhile (\<lambda>c. \<not> (c = CHR ''e'' \<or> c = CHR ''E'')) (show_nat n) = []"
    "takeWhile (\<lambda>c. c \<noteq> CHR ''.'') (show_nat n) = show_nat n" "dropWhile (\<lambda>c. c \<noteq> CHR ''.'') (show_nat n) = []"
    using d no by (auto simp: takeWhile_eq_all_conv dropWhile_eq_Nil_conv)
  have f: "frac_run (show_nat n) = Some (n, length (filter is_ascii_digit (show_nat n)))"
    by (simp add: frac_run_def digit_run_show)
  show ?thesis unfolding py_float_def st sg Let_def prod.case m f by (simp add: frac_run_def)
qed

lemma show_int_nat: "0 \<le> n \<Longrightarrow> show_int n = show_nat (nat n)"
  by (simp add: show_int_def)

lemma fresh_enough_sent: "0 \<le> n \<Longrightarrow> fresh_enough now (show_int n) \<longleftrightarrow> \<bar>fsub now (int_float n)\<bar> \<le> MAX_AGE_SECONDS"
  by (simp add: fresh_enough_def show_int_nat float_of_digits int_float_def)

text \<open>A nudge begins with a brace, so its signed material has one reading.\<close>

lemma signed_once:
  assumes m: "signed_material ts (123 # b) = signed_material ts' body'"
    and ts: "\<forall>c \<in> set ts. is_ascii_digit c" and ts': "CHR ''{'' \<notin> set ts'"
  shows "ts' = ts \<and> body' = 123 # b"
proof -
  have e: "utf8 ts @ 46 # 123 # b = utf8 ts' @ 46 # body'" using m by (simp add: signed_material_def)
  have low: "46 \<notin> set (utf8 ts)"
  proof
    assume "46 \<in> set (utf8 ts)"
    then obtain c where "c \<in> set ts" "code c = 46" using utf8_low [of 46 ts] by auto
    with ts show False by (auto simp: is_ascii_digit_def)
  qed
  have brace: "123 \<notin> set (utf8 ts')"
  proof
    assume "123 \<in> set (utf8 ts')"
    then obtain c where c: "c \<in> set ts'" "code c = 123" using utf8_low [of 123 ts'] by auto
    have "c = CHR ''{''" by (rule iffD1 [OF of_char_eq_iff [where 'a = nat]]) (simp add: c(2))
    with c(1) ts' show False by simp
  qed
  from e consider us where "utf8 ts = utf8 ts' @ us" "us @ 46 # 123 # b = 46 # body'"
    | us where "utf8 ts @ us = utf8 ts'" "46 # 123 # b = us @ 46 # body'"
    by (auto simp: append_eq_append_conv2)
  then have "utf8 ts = utf8 ts' \<and> body' = 123 # b"
  proof cases
    case 1
    with low show ?thesis by (cases us) auto
  next
    case 2
    then show ?thesis
    proof (cases us)
      case (Cons u us')
      with 2(2) consider "us' = []" | list where "us' = 123 # list" by (cases us') auto
      then show ?thesis
      proof cases
        case 2
        with \<open>utf8 ts @ us = utf8 ts'\<close> Cons have "123 \<in> set (utf8 ts')" by (metis in_set_conv_decomp list.set_intros UnCI set_append list.set_intros(2))
        with brace show ?thesis ..
      qed (use 2 Cons in simp)
    qed simp
  qed
  then show ?thesis using utf8_inj by blast
qed

lemma payload_brace: "\<exists>b. utf8 (payload_text n) = 123 # b"
  by (simp add: payload_text_def utf8_def utf8_char_def)

lemma sign_ascii: "\<forall>k m. \<forall>b \<in> set (hm k m). b < 256 \<Longrightarrow> ascii (sign hm secret ts body)"
  by (simp add: sign_def ascii_hex)

text \<open>A secret of at most four characters is shown in full.\<close>

lemma short_secret_shown:
  assumes "length (hook_setting d WEBHOOK_SECRET) \<le> 4" and "hook_setting d WEBHOOK_SECRET \<noteq> []"
  shows "hp_secret_hint (hook_config d) = hook_setting d WEBHOOK_SECRET"
  using assms by (simp add: hook_config_def Let_def last_chars_def)

text \<open>A new address without a new secret keeps the stored one.\<close>

lemma secret_survives_new_address:
  "save_hook url None d = Inr d' \<Longrightarrow> hook_setting d' WEBHOOK_SECRET = hook_setting d WEBHOOK_SECRET"
  by (auto simp: save_hook_def Let_def hook_setting_def get_setting_def setting_lookup_set WEBHOOK_URL_def
      WEBHOOK_SECRET_def split: if_splits)

section \<open>Properties\<close>

text \<open>C33. A nudge is authentic. What is sent while a secret is stored goes to the stored address with a
  signature that the receiver's check accepts exactly as long as the clocks differ by at most five
  minutes; and under that signature the check accepts no other timestamp and no other body, unless
  HMAC itself collides on the signed material.\<close>
theorem nudge_is_authentic:
  assumes "deliver_nudge hm clock send n d = (a, [p])" and "hook_setting d WEBHOOK_SECRET = key" and "key \<noteq> []"
    and "0 \<le> clock" and "\<forall>k m. \<forall>b \<in> set (hm k m). b < 256"
  shows "po_url p = hook_setting d WEBHOOK_URL \<and> (\<exists>sig. (''X-MMD-Signature'', sig) \<in> set (po_headers p)
    \<and> (''X-MMD-Timestamp'', show_int clock) \<in> set (po_headers p)
    \<and> (\<forall>now. verify_nudge hm key (show_int clock) (po_body p) sig now = Some (\<bar>fsub now (int_float clock)\<bar> \<le> 300))
    \<and> (\<forall>now ts body. verify_nudge hm key ts body sig now = Some True \<longrightarrow>
         (ts = show_int clock \<and> body = po_body p)
         \<or> (\<exists>m. m \<noteq> signed_material (show_int clock) (po_body p)
              \<and> hm (utf8 key) m = hm (utf8 key) (signed_material (show_int clock) (po_body p)))))"
proof -
  let ?ts = "show_int clock"
  have p: "p = nudge_post hm clock (hook_setting d WEBHOOK_URL) key n"
    using assms(1,2) by (auto simp: deliver_nudge_def Let_def split: if_splits)
  let ?sig = "sign hm key ?ts (po_body p)"
  have body: "po_body p = utf8 (payload_text n)" by (simp add: p nudge_post_def Let_def)
  have heads: "(''X-MMD-Signature'', ?sig) \<in> set (po_headers p)" "(''X-MMD-Timestamp'', ?ts) \<in> set (po_headers p)"
    using assms(3) by (simp_all add: p nudge_post_def Let_def signature_headers_def)
  have asc: "ascii (sign hm key ts b)" for ts b using assms(5) by (rule sign_ascii)
  have own: "verify_nudge hm key ?ts (po_body p) ?sig now = Some (\<bar>fsub now (int_float clock)\<bar> \<le> 300)" for now
    using assms(4) asc by (simp add: verify_nudge_def fresh_enough_sent compare_digest_def MAX_AGE_SECONDS_def)
  have other: "(ts = ?ts \<and> b = po_body p) \<or> (\<exists>m. m \<noteq> signed_material ?ts (po_body p)
      \<and> hm (utf8 key) m = hm (utf8 key) (signed_material ?ts (po_body p)))"
    if "verify_nudge hm key ts b ?sig now = Some True" for now ts b
  proof (cases "signed_material ts b = signed_material ?ts (po_body p)")
    case True
    obtain b0 where b0: "po_body p = 123 # b0" using payload_brace body by metis
    have digits: "\<forall>c \<in> set ?ts. is_ascii_digit c"
      unfolding show_int_nat [OF assms(4)] by (rule show_nat_digits)
    have "fresh_enough now ts" using that by (simp add: verify_nudge_def split: if_splits)
    then have "CHR ''{'' \<notin> set ts" by (rule fresh_no_brace)
    with signed_once [OF _ digits] True b0 show ?thesis by metis
  next
    case False
    from that have "sign hm key ts b = ?sig"
      by (simp add: verify_nudge_def compare_digest_def split: if_splits)
    then have "hm (utf8 key) (signed_material ts b) = hm (utf8 key) (signed_material ?ts (po_body p))"
      unfolding sign_def using assms(5) by (auto simp: bytes_ok_def list_all_iff intro: hex_inj)
    with False show ?thesis by blast
  qed
  have "po_url p = hook_setting d WEBHOOK_URL" by (simp add: p nudge_post_def Let_def)
  with heads own other show ?thesis by blast
qed

text \<open>A stored address and secret, and a sum for HMAC.\<close>

definition hooked_db :: db where
  "hooked_db = set_setting WEBHOOK_SECRET ''s3'' (set_setting WEBHOOK_URL ''https://agent/x'' empty_db)"

definition sum_hmac :: hmac where
  "sum_hmac k m = [sum_list m mod 256]"

theorem nudge_is_authentic_witness:
  "\<exists>p sig. snd (deliver_nudge sum_hmac 1000 (\<lambda>_. PostStatus 200 []) (build ''ticket_opened'' (Some 4) (Some ''ali'') (Some ''Hi'')) hooked_db) = [p]
     \<and> (''X-MMD-Signature'', sig) \<in> set (po_headers p)
     \<and> verify_nudge sum_hmac ''s3'' ''1000'' (po_body p) sig 1200 = Some True
     \<and> verify_nudge sum_hmac ''s3'' ''1000'' (po_body p) sig 1400 = Some False"
proof -
  let ?n = "build ''ticket_opened'' (Some 4) (Some ''ali'') (Some ''Hi'')"
  have key: "hook_setting hooked_db WEBHOOK_SECRET = ''s3''" "hook_setting hooked_db WEBHOOK_URL = ''https://agent/x''"
    by code_simp+
  define p where "p = nudge_post sum_hmac 1000 ''https://agent/x'' ''s3'' ?n"
  have d: "deliver_nudge sum_hmac 1000 (\<lambda>_. PostStatus 200 []) ?n hooked_db = (NudgeStatus True 200 [], [p])"
    by (simp add: deliver_nudge_def key p_def answer_of_post_def)
  have bytes: "\<forall>k m. \<forall>b \<in> set (sum_hmac k m). b < 256" by (simp add: sum_hmac_def)
  have ts: "show_int 1000 = ''1000''" by code_simp
  have age: "\<bar>fsub 1200 (int_float 1000)\<bar> \<le> 300" "\<not> \<bar>fsub 1400 (int_float 1000)\<bar> \<le> 300" by code_simp+
  from nudge_is_authentic [OF d key(1) _ _ bytes] ts age d show ?thesis
    by (intro exI [of _ p]) auto
qed

end
