(* ===== verification/Statements.thy ===== *)
theory Statements
  imports WorkspaceOps
begin

text \<open>
  The pages of \<open>control/mmd/app.py\<close> that only read: the state of the machine with its prices, the
  statement of an account, its usage and its activity, and the operator's page of one customer.
  Displayed texts are left out; sums are integers of micro credits until they are shown. The times the
  database stamps on ledger entries are an argument.
\<close>

section \<open>Prices\<close>

record price_option =
  po_cpu :: int
  po_mem :: int
  po_comfortable :: bool
  po_max_per_hour :: rat
  po_idle_per_hour :: rat

definition option_of :: "rates \<Rightarrow> tier \<Rightarrow> price_option" where
  "option_of r t = (let q = quote t r in
     \<lparr>po_cpu = cpu_milli t, po_mem = mem_mib t, po_comfortable = is_comfortable t,
      po_max_per_hour = q_max_per_hour q, po_idle_per_hour = q_idle_per_hour q\<rparr>)"

fun collect :: "('a \<Rightarrow> ('e, 'b) result) \<Rightarrow> 'a list \<Rightarrow> ('e, 'b list) result" where
  "collect f [] = return []"
| "collect f (x # xs) = andthen (f x) (\<lambda>y. andthen (collect f xs) (\<lambda>ys. return (y # ys)))"

definition tiers :: "user \<Rightarrow> db \<Rightarrow> (invalid_tier, price_option list \<times> (int \<times> int) option \<times> rates) result" where
  "tiers u d =
     (let w = my_workspace d u;
          disk = (case w of Some w \<Rightarrow> w_disk_gib w | None \<Rightarrow> DEFAULT_ROOT_GIB + DEFAULT_DOCKER_GIB)
      in andthen (collect (\<lambda>(c, m). andthen (mk_tier c m disk) (\<lambda>t. return (option_of (rates_of d) t)))
                    (List.product CPU_OPTIONS_MILLI MEM_OPTIONS_MIB))
           (\<lambda>os. return (os, map_option (\<lambda>w. (w_cpu_milli w, w_mem_mib w)) w, rates_of d)))"

record plan =
  pl_tier :: tier
  pl_max_per_hour :: rat
  pl_idle_per_hour :: rat
  pl_off_per_hour :: rat
  pl_max_per_month :: rat
  pl_comfortable :: bool

definition PLAN_SIZES :: "(int \<times> int) list" where
  "PLAN_SIZES = [(500, 512), (1000, 1024), (2000, 2048), (3000, 6144)]"

definition plan_of :: "rates \<Rightarrow> tier \<Rightarrow> plan" where
  "plan_of r t = (let q = quote t r in
     \<lparr>pl_tier = t, pl_max_per_hour = q_max_per_hour q, pl_idle_per_hour = q_idle_per_hour q,
      pl_off_per_hour = q_off_per_hour q, pl_max_per_month = fmul (q_max_per_hour q) 720,
      pl_comfortable = is_comfortable t\<rparr>)"

definition public_pricing :: "db \<Rightarrow> (invalid_tier, plan list) result" where
  "public_pricing d = collect (\<lambda>(c, m). andthen (mk_tier c m (DEFAULT_ROOT_GIB + DEFAULT_DOCKER_GIB))
     (\<lambda>t. return (plan_of (rates_of d) t))) PLAN_SIZES"

section \<open>The machine\<close>

datatype blocked = LacksCredit rat rat | LacksCapacity string

record status_view =
  sw_state :: ws_state
  sw_tier :: tier
  sw_credits :: rat
  sw_rate_on :: rat
  sw_rate_idle :: rat
  sw_rate_off :: rat
  sw_hours :: rat
  sw_days :: rat
  sw_ports :: int
  sw_can_power_on :: bool
  sw_blocked :: "blocked option"
  sw_started_at :: "time option"
  sw_archived_until :: "time option"
  sw_auto_stop_at :: "time option"

datatype status_page = PendingApproval | NoMachine | StatusFails | Status status_view

definition resource_of :: "admission_result \<Rightarrow> string" where
  "resource_of r = (case r of Admitted _ _ \<Rightarrow> '''' | NoMemory _ _ \<Rightarrow> ''memory'' | NoCpu _ _ \<Rightarrow> ''cpu'')"

definition hours_left :: "rat \<Rightarrow> rat \<Rightarrow> rat" where
  "hours_left credits per_hour = (if per_hour \<noteq> 0 then fdiv credits per_hour else 0)"

definition status_of ::
  "db \<Rightarrow> workspace \<Rightarrow> tier \<Rightarrow> bool \<times> int \<times> int \<Rightarrow> admission_result \<Rightarrow> status_view" where
  "status_of d w t afford adm =
     (let (affordable, have, need) = afford; q = quote t (rates_of d); off = (w_state w = OFF) in
      \<lparr>sw_state = w_state w, sw_tier = t, sw_credits = to_toman have, sw_rate_on = q_max_per_hour q,
       sw_rate_idle = q_idle_per_hour q, sw_rate_off = q_off_per_hour q,
       sw_hours = hours_left (to_toman have) (q_max_per_hour q),
       sw_days = (if q_max_per_hour q \<noteq> 0 then fdiv (hours_left (to_toman have) (q_max_per_hour q)) 24 else 0),
       sw_ports = port_count d w, sw_can_power_on = (off \<and> affordable \<and> allowed adm),
       sw_blocked = (if \<not> off then None
          else if \<not> affordable then Some (LacksCredit (to_toman need) (to_toman have))
          else if \<not> allowed adm then Some (LacksCapacity (''capacity_'' @
            (if resource_of adm = [] then ''general'' else resource_of adm))) else None),
       sw_started_at = w_started_at w, sw_archived_until = w_purge_after w,
       sw_auto_stop_at = (if w_state w = ON then w_auto_stop_at w else None)\<rparr>)"

definition workspace_status :: "int \<Rightarrow> int \<Rightarrow> user \<Rightarrow> db \<Rightarrow> status_page" where
  "workspace_status cpus mem_kb u d =
     (if u_status u = UPending then PendingApproval
      else case my_workspace d u of
        None \<Rightarrow> NoMachine
      | Some w \<Rightarrow> (case (tier_of w, can_afford_next_hour d w, check_admission cpus mem_kb d w None) of
            (Inr t, Inr afford, Inr adm) \<Rightarrow> Status (status_of d w t afford adm)
          | _ \<Rightarrow> StatusFails))"

text \<open>\<open>workspace_metrics\<close>: cores and gibibytes between consecutive samples of the window.\<close>

definition METRIC_WINDOWS :: "int list" where "METRIC_WINDOWS = [5, 15, 60, 360, 1440]"

definition seconds_between :: "time \<Rightarrow> time \<Rightarrow> rat" where
  "seconds_between a b = fl64 (of_int (b - a) / of_int second)"

definition chart_pair :: "rat \<Rightarrow> usage_sample \<times> usage_sample \<Rightarrow> (time \<times> rat \<times> rat) option" where
  "chart_pair cores_of_tier pair =
     (let (prev, cur) = pair; span = seconds_between (us_ts prev) (us_ts cur);
          delta = fsub (us_cpu_seconds_total cur) (us_cpu_seconds_total prev)
      in if span \<le> 0 then None
         else Some (us_ts cur, py_round_nd 3 (min (fdiv (max 0 delta) span) cores_of_tier),
                py_round_nd 3 (fl64 (of_int (us_mem_bytes cur) / 1073741824))))"

definition workspace_metrics ::
  "time \<Rightarrow> int \<Rightarrow> user \<Rightarrow> db \<Rightarrow> (answer, int \<times> (time \<times> rat \<times> rat) list \<times> nat) result" where
  "workspace_metrics now minutes u d =
     (case my_workspace d u of
        None \<Rightarrow> raise (Failed 404 ''no_workspace'')
      | Some w \<Rightarrow>
          let m = max 1 (min minutes 1440);
              rows = sort_key us_ts (filter (\<lambda>r. us_workspace_id r = w_id w \<and> now - m * 60 * second \<le> us_ts r) (samples d))
          in return (m, List.map_filter (chart_pair (fdiv (int_float (w_cpu_milli w)) 1000)) (zip rows (tl rows)), length rows))"

section \<open>The account\<close>

definition account_entries :: "db \<Rightarrow> int \<Rightarrow> transaction list" where
  "account_entries d i = filter (\<lambda>t. tx_user_id t = i) (transactions d)"

definition spent_micro :: "db \<Rightarrow> int \<Rightarrow> int" where
  "spent_micro d i = sum_list (map tx_amount_micro (filter (\<lambda>t. tx_amount_micro t < 0) (account_entries d i)))"

definition granted_micro :: "db \<Rightarrow> int \<Rightarrow> int" where
  "granted_micro d i = sum_list (map tx_amount_micro (filter (\<lambda>t. 0 < tx_amount_micro t) (account_entries d i)))"

record account_view =
  av_credits :: rat
  av_total_spent :: rat
  av_total_granted :: rat
  av_rates :: rates
  av_quote :: "price_quote option"
  av_hours :: "rat option"
  av_days :: "rat option"

definition billing_summary :: "user \<Rightarrow> db \<Rightarrow> (invalid_tier, account_view) result" where
  "billing_summary u d =
     (let have = balance_micro d (u_id u); r = rates_of d;
          view = (\<lambda>q h. \<lparr>av_credits = to_toman have, av_total_spent = to_toman (- spent_micro d (u_id u)),
             av_total_granted = to_toman (granted_micro d (u_id u)), av_rates = r, av_quote = q, av_hours = h,
             av_days = map_option (\<lambda>x. fdiv x 24) h\<rparr>)
      in case my_workspace d u of None \<Rightarrow> return (view None None)
       | Some w \<Rightarrow> andthen (tier_of w) (\<lambda>t. let q = quote t r in
            return (view (Some q) (Some (hours_left (to_toman have) (q_max_per_hour q))))))"

text \<open>A page of the newest entries. A negative offset is an error of the database.\<close>

definition page_of :: "int \<Rightarrow> int \<Rightarrow> 'a list \<Rightarrow> (answer, nat \<times> int \<times> 'a list) result" where
  "page_of limit offset rows =
     (if offset < 0 then raise (Failed 500 ''internal'')
      else return (length rows, limit, take (nat limit) (drop (nat offset) rows)))"

definition billing_transactions ::
  "(transaction \<Rightarrow> time) \<Rightarrow> int \<Rightarrow> int \<Rightarrow> user \<Rightarrow> db \<Rightarrow> (answer, nat \<times> int \<times> (transaction \<times> rat) list) result" where
  "billing_transactions created limit offset u d =
     page_of (max 1 (min limit 500)) offset
       (map (\<lambda>t. (t, to_toman (tx_amount_micro t))) (sort_key (\<lambda>t. - created t) (account_entries d (u_id u))))"

definition billing_usage :: "(transaction \<Rightarrow> time) \<Rightarrow> time \<Rightarrow> int \<Rightarrow> user \<Rightarrow> db \<Rightarrow> int \<times> (time \<times> rat) list" where
  "billing_usage created now hours u d =
     (let h = max 1 (min hours (24 * 30));
          rows = filter (\<lambda>t. tx_amount_micro t < 0 \<and> now - h * hour \<le> created t) (account_entries d (u_id u));
          hours_of = remdups (sort (map (\<lambda>t. hour_floor (created t)) rows))
      in (h, map (\<lambda>b. (b, to_toman (- sum_list (map tx_amount_micro (filter (\<lambda>t. hour_floor (created t) = b) rows))))) hours_of))"

text \<open>Log entries are kept in the order in which they were stamped.\<close>

definition activity :: "int \<Rightarrow> int \<Rightarrow> user \<Rightarrow> db \<Rightarrow> (answer, nat \<times> int \<times> audit_entry list) result" where
  "activity limit offset u d = page_of (max 1 (min limit 500)) offset
     (rev (filter (\<lambda>e. au_actor_id e = Some (u_id u)) (audit_log d)))"

section \<open>One customer\<close>

text \<open>The balance walked backwards from the newest entry; the second value is what is left before the
  window.\<close>

fun walk_back :: "(transaction \<Rightarrow> time) \<Rightarrow> int \<Rightarrow> transaction list \<Rightarrow> (time \<times> int) list \<times> int" where
  "walk_back created running [] = ([], running)"
| "walk_back created running (t # ts) =
     (let (ps, rest) = walk_back created (running - tx_amount_micro t) ts in ((created t, running) # ps, rest))"

definition kind_sums :: "transaction list \<Rightarrow> (tx_kind \<times> int) list" where
  "kind_sums ts = map (\<lambda>k. (k, sum_list (map tx_amount_micro (filter (\<lambda>t. tx_kind t = k) ts))))
     (remdups (map tx_kind ts))"

record customer_page =
  cp_user :: "int \<times> string \<times> string option \<times> string option \<times> user_status \<times> bool"
  cp_balance :: rat
  cp_credit :: "(time \<times> rat) list"
  cp_by_kind :: "(tx_kind \<times> rat) list"
  cp_transactions :: "(time \<times> tx_kind \<times> rat) list"
  cp_audits :: "audit_entry list"
  cp_workspace :: "(int \<times> int \<times> ws_state) option"
  cp_openrouter :: "bool \<times> bool"

definition credit_points :: "(transaction \<Rightarrow> time) \<Rightarrow> time \<Rightarrow> int \<Rightarrow> transaction list \<Rightarrow> (time \<times> int) list" where
  "credit_points created since balance txs =
     (let (ps, rest) = walk_back created balance (rev txs) in rev (ps @ [(since, rest)]))"

definition admin_user_detail ::
  "(transaction \<Rightarrow> time) \<Rightarrow> time \<Rightarrow> int \<Rightarrow> int \<Rightarrow> db \<Rightarrow> (answer, customer_page) result" where
  "admin_user_detail created now minutes i d =
     (case find (\<lambda>u. u_id u = i) (users d) of
        None \<Rightarrow> raise (Failed 404 ''no_such_user'')
      | Some u \<Rightarrow>
          let since = now - max 60 (min minutes 525600) * 60 * second;
              txs = sort_key created (filter (\<lambda>t. since \<le> created t) (account_entries d i));
              account = find (\<lambda>a. oa_user_id a = i) (or_accounts d)
          in return \<lparr>cp_user = (u_id u, u_username u, u_full_name u, u_phone u, u_status u, u_is_admin u), cp_balance = to_toman (balance_micro d i),
               cp_credit = map (\<lambda>(t, v). (t, to_toman v)) (credit_points created since (balance_micro d i) txs),
               cp_by_kind = map (\<lambda>(k, v). (k, to_toman v)) (kind_sums txs),
               cp_transactions = take 200 (map (\<lambda>t. (created t, tx_kind t, to_toman (tx_amount_micro t))) (rev txs)),
               cp_audits = take 100 (rev (filter (\<lambda>e. au_actor_id e = Some i) (audit_log d))),
               cp_workspace = map_option (\<lambda>w. (w_id w, w_idx w, w_state w)) (find (\<lambda>w. w_user_id w = i) (workspaces d)),
               cp_openrouter = (case account of None \<Rightarrow> (False, False)
                 | Some a \<Rightarrow> (has_text (oa_key_hash a), oa_credit_blocked a))\<rparr>)"

section \<open>Lemmas\<close>

text \<open>The balance walked forwards.\<close>

fun walk_on :: "(transaction \<Rightarrow> time) \<Rightarrow> int \<Rightarrow> transaction list \<Rightarrow> (time \<times> int) list" where
  "walk_on created base [] = []"
| "walk_on created base (t # ts) =
     (created t, base + tx_amount_micro t) # walk_on created (base + tx_amount_micro t) ts"

lemma walk_on_snoc:
  "walk_on created base (ts @ [t]) =
     walk_on created base ts @ [(created t, base + sum_list (map tx_amount_micro ts) + tx_amount_micro t)]"
  by (induction ts arbitrary: base) (simp_all add: add.assoc)

lemma walk_on_nth:
  "k < length ts \<Longrightarrow> walk_on created base ts ! k =
     (created (ts ! k), base + sum_list (map tx_amount_micro (take (Suc k) ts)))"
proof (induction ts arbitrary: base k)
  case (Cons t ts)
  then show ?case by (cases k) (simp_all add: add.assoc)
qed simp

lemma length_walk_on [simp]: "length (walk_on created base ts) = length ts"
  by (induction ts arbitrary: base) simp_all

text \<open>Backwards from the balance is forwards from what the window leaves.\<close>

lemma credit_points_walk:
  "credit_points created since (base + sum_list (map tx_amount_micro txs)) txs = (since, base) # walk_on created base txs"
proof (induction txs rule: rev_induct)
  case (snoc t ts)
  have "credit_points created since b (ts @ [t]) = credit_points created since (b - tx_amount_micro t) ts @ [(created t, b)]" for b
    by (simp add: credit_points_def Let_def split: prod.split)
  with snoc show ?case by (simp add: walk_on_snoc add.assoc)
qed (simp add: credit_points_def)

lemma sum_sorted: "sum_list (map f (sort_key g xs)) = (sum_list (map f xs) :: int)"
proof (induction xs)
  case (Cons x xs)
  have "sum_list (map f (insort_key g x ys)) = f x + sum_list (map f ys)" for ys by (induction ys) simp_all
  with Cons show ?case by simp
qed simp

lemma sum_split: "sum_list (map f xs) = sum_list (map f (filter P xs)) + (sum_list (map f (filter (\<lambda>x. \<not> P x) xs)) :: int)"
  by (induction xs) simp_all

lemma granted_and_spent:
  assumes "ledger_ok d"
  shows "balance_micro d i = granted_micro d i + spent_micro d i"
proof -
  have z: "sum_list (map tx_amount_micro (filter (\<lambda>t. \<not> 0 < tx_amount_micro t) ts))
      = sum_list (map tx_amount_micro (filter (\<lambda>t. tx_amount_micro t < 0) ts))" for ts
    by (induction ts) auto
  have "balance_micro d i = sum_list (map tx_amount_micro (account_entries d i))"
    using assms by (simp add: ledger_ok_def entries_sum_def account_entries_def)
  with sum_split [of tx_amount_micro "account_entries d i" "\<lambda>t. 0 < tx_amount_micro t"] z [of "account_entries d i"]
  show ?thesis by (simp add: granted_micro_def spent_micro_def)
qed

lemma collect_all:
  "collect f xs = Inr ys \<Longrightarrow> y \<in> set ys \<Longrightarrow> \<exists>x \<in> set xs. f x = Inr y"
proof (induction xs arbitrary: ys)
  case (Cons x xs)
  then show ?case by (auto simp: andthen_def split: sum.splits)
qed simp

section \<open>Properties\<close>


text \<open>C32. The power button tells the truth. For a machine that is off it is offered exactly when the
  request would be let through to Incus, and what it says is missing is what the request is refused
  for, with the amount of the gate; it is never offered when the request would be refused; and the
  hourly price beside it is the price advertised to the public for that size, and the amount of the
  gate.\<close>
theorem power_button_tells_the_truth:
  assumes "my_workspace (cur s) u = Some w" and "workspace_status cpus mem_kb u (cur s) = Status v"
  shows "(sw_can_power_on v \<longleftrightarrow> w_state w = OFF \<and> fst (power_on_begin cpus mem_kb w s) = None)
    \<and> (w_state w = OFF \<longrightarrow> fst (power_on_begin cpus mem_kb w s) = (case sw_blocked v of None \<Rightarrow> None
         | Some (LacksCredit need have) \<Rightarrow> Some (Failed 402 ''insufficient_credit'')
         | Some (LacksCapacity c) \<Rightarrow> Some (Failed 503 ''no_capacity'')))
    \<and> (\<exists>need. gate_micro (cur s) w = Inr need \<and> sw_rate_on v = to_toman need
        \<and> (\<forall>n h. sw_blocked v = Some (LacksCredit n h) \<longrightarrow> n = to_toman need \<and> h = sw_credits v \<and> balance_micro (cur s) (w_user_id w) < need))
    \<and> (\<forall>ps pl. public_pricing (cur s) = Inr ps \<and> pl \<in> set ps \<and> pl_tier pl = sw_tier v \<longrightarrow> pl_max_per_hour pl = sw_rate_on v)"
proof -
  obtain t ok have' need adm where t: "tier_of w = Inr t"
    and a: "can_afford_next_hour (cur s) w = Inr (ok, have', need)" and m: "check_admission cpus mem_kb (cur s) w None = Inr adm"
    and v: "v = status_of (cur s) w t (ok, have', need) adm"
    using assms by (auto simp: workspace_status_def split: if_splits option.splits sum.splits)
  have g: "gate_micro (cur s) w = Inr (max_hour_micro t (rates_of (cur s)))"
    using t by (simp add: gate_micro_def andthen_def)
  then have need: "need = max_hour_micro t (rates_of (cur s))" "have' = balance_micro (cur s) (w_user_id w)"
    "ok \<longleftrightarrow> have' \<ge> need"
    using a by (auto simp: can_afford_next_hour_def andthen_def Let_def)
  have rate: "sw_rate_on v = to_toman need" by (simp add: v status_of_def Let_def quote_def need)
  have public: "pl_max_per_hour pl = sw_rate_on v"
    if "public_pricing (cur s) = Inr ps" "pl \<in> set ps" "pl_tier pl = sw_tier v" for ps pl
  proof -
    from collect_all [OF that(1) [unfolded public_pricing_def] that(2)] obtain c m where
      "andthen (mk_tier c m (DEFAULT_ROOT_GIB + DEFAULT_DOCKER_GIB)) (\<lambda>t. return (plan_of (rates_of (cur s)) t)) = Inr pl"
      by auto
    then obtain t' where "pl = plan_of (rates_of (cur s)) t'" by (auto simp: andthen_def split: sum.splits)
    with that(3) show ?thesis by (simp add: plan_of_def v status_of_def Let_def)
  qed
  have "sw_can_power_on v \<longleftrightarrow> w_state w = OFF \<and> fst (power_on_begin cpus mem_kb w s) = None"
    using a m by (auto simp: v status_of_def Let_def power_on_begin_def)
  moreover have "w_state w = OFF \<longrightarrow> fst (power_on_begin cpus mem_kb w s) = (case sw_blocked v of None \<Rightarrow> None
         | Some (LacksCredit need have) \<Rightarrow> Some (Failed 402 ''insufficient_credit'')
         | Some (LacksCapacity c) \<Rightarrow> Some (Failed 503 ''no_capacity''))"
    using a m by (auto simp: v status_of_def Let_def power_on_begin_def)
  moreover have "n = to_toman need \<and> h = sw_credits v \<and> balance_micro (cur s) (w_user_id w) < need"
    if "sw_blocked v = Some (LacksCredit n h)" for n h
    using that need by (auto simp: v status_of_def Let_def split: if_splits)
  ultimately show ?thesis using g need(1) rate public by blast
qed

text \<open>An account with a grant and a charge, and its machine.\<close>

definition billed_user :: user where
  "billed_user = \<lparr>u_id = 3, u_username = ''ali'', u_full_name = None, u_phone = None, u_sms_prefs = (\<lambda>_. None),
     u_sms_credit_step_toman = 0, u_sms_credit_band = None, u_telegram_bot_token = None,
     u_telegram_user_id = None, u_password_hash = ''x'', u_session_version = 0, u_is_admin = False,
     u_status = UApproved, u_approved_at = None, u_approved_by = None\<rparr>"

definition billed_db :: db where
  "billed_db = (cur (snd (post_transaction 3 None CHARGE_HOUR (- 4000000) (Some 0) NoDetail (Some ''k'') True
     (snd (post_transaction 3 None GRANT 9000000 None (GrantDetail [] ''root'') None True (open_session empty_db 5))))))
     \<lparr>users := [billed_user], workspaces := [new_workspace 5 3 7 0]\<rparr>"

lemma billed_ok: "ledger_ok billed_db"
proof -
  have "transactions billed_db = [new_tx 6 3 None GRANT 9000000 None (GrantDetail [] ''root'') None,
      new_tx 7 3 None CHARGE_HOUR (- 4000000) (Some 0) NoDetail (Some ''k'')]"
    "credit_accounts billed_db = [\<lparr>ca_user_id = 3, ca_balance_micro = 5000000\<rparr>]"
    by (simp_all add: billed_db_def post_transaction_def Let_def open_session_def empty_db_def tx_conflict_def
        tx_clash_def move_balance_def)
  then show ?thesis
    by (simp add: ledger_ok_def pairwise_free_def tx_clash_def balance_micro_def entries_sum_def)
qed

lemma summary_exists: "my_workspace d u = Some w \<Longrightarrow> tier_of w = Inr t \<Longrightarrow> \<exists>v. billing_summary u d = Inr v"
  by (simp add: billing_summary_def Let_def andthen_def)

lemma detail_exists: "find (\<lambda>u. u_id u = i) (users d) = Some u \<Longrightarrow> \<exists>p. admin_user_detail created now minutes i d = Inr p"
  by (simp add: admin_user_detail_def Let_def)

lemma billed_machine: "my_workspace billed_db billed_user = Some (new_workspace 5 3 7 0)"
  "find (\<lambda>u. u_id u = 3) (users billed_db) = Some billed_user" "u_id billed_user = 3"
  by (simp_all add: my_workspace_def billed_db_def billed_user_def new_workspace_def)


definition off_machine :: workspace where
  "off_machine = (new_workspace 5 3 7 0)\<lparr>w_state := OFF\<rparr>"

definition off_session :: session where
  "off_session = open_session (billed_db\<lparr>workspaces := [off_machine]\<rparr>) 9"

theorem power_button_tells_the_truth_witness:
  "\<exists>v. workspace_status 8 16777216 billed_user (cur off_session) = Status v
     \<and> sw_can_power_on v = (fst (power_on_begin 8 16777216 off_machine off_session) = None)"
proof -
  have w: "my_workspace (cur off_session) billed_user = Some off_machine" "w_state off_machine = OFF"
    by (simp_all add: my_workspace_def off_session_def open_session_def off_machine_def new_workspace_def billed_user_def)
  have t: "tier_of off_machine = tier_of (new_workspace 5 3 7 0)" by (simp add: off_machine_def tier_of_def w_disk_gib_def)
  have st: "settings (cur off_session) = []"
    by (simp add: off_session_def open_session_def billed_db_def post_transaction_def Let_def empty_db_def move_balance_def)
  then have "setting_lookup (cur off_session) k = None" for k by (simp add: setting_lookup_def)
  then have "host_capacity 8 16777216 (get_settings (cur off_session)) \<noteq> None"
    by (simp add: host_capacity_def get_settings_def capacity_setting_def ADMISSION_DEFAULTS_def)
  then obtain v where v: "workspace_status 8 16777216 billed_user (cur off_session) = Status v"
    using w(1) t tier_of_new_workspace
    by (auto simp: workspace_status_def billed_user_def can_afford_next_hour_def gate_micro_def check_admission_def andthen_def Let_def)
  from power_button_tells_the_truth [OF w(1) v] v w(2) show ?thesis by blast
qed

end
