(* ===== verification/FloatText.thy ===== *)
theory FloatText
  imports PyText
begin

text \<open>
  How Python writes a finite float: the format \<open>g\<close> with six significant digits, and \<open>str\<close>, the
  shortest decimal that rounds to the float. Negative zero is not a value of the model.
\<close>

text \<open>The decimal exponent of a positive number.\<close>

definition ilog10 :: "rat \<Rightarrow> int" where
  "ilog10 x = (if 1 \<le> x then int (length (show_nat (nat \<lfloor>x\<rfloor>))) - 1
     else let y = 1 / x; l = int (length (show_nat (nat \<lfloor>y\<rfloor>)))
          in if y = 10 ^ nat (l - 1) then 1 - l else - l)"

text \<open>A positive number with \<open>n\<close> significant digits: the digits as an integer, and the exponent of the
  first.\<close>

definition significant :: "nat \<Rightarrow> rat \<Rightarrow> nat \<times> int" where
  "significant n x =
     (let e = ilog10 x; m = rne (x * 10 powi (int n - 1 - e))
      in if m = 10 ^ n then (10 ^ (n - 1), e + 1) else (nat m, e))"

definition strip_zeros :: "string \<Rightarrow> string" where
  "strip_zeros s = rev (dropWhile (\<lambda>c. c = CHR ''0'') (rev s))"

definition zeros :: "int \<Rightarrow> string" where
  "zeros n = replicate (nat n) CHR ''0''"

text \<open>Digits with a point after the first \<open>k\<close>; \<open>dflt\<close> stands for an empty fraction.\<close>

definition pointed :: "string \<Rightarrow> int \<Rightarrow> string \<Rightarrow> string" where
  "pointed dflt k ds =
     (let whole = (if k \<le> 0 then ''0'' else take (nat k) (ds @ zeros (k - int (length ds))));
          frac = strip_zeros (if k \<le> 0 then zeros (- k) @ ds else drop (nat k) ds)
      in whole @ (if frac = [] then dflt else ''.'' @ frac))"

definition exponent_text :: "int \<Rightarrow> string" where
  "exponent_text e = (if e < 0 then ''e-'' else ''e+'')
     @ (let ds = show_nat (nat \<bar>e\<bar>) in if length ds < 2 then ''0'' @ ds else ds)"

definition signed :: "(rat \<Rightarrow> string) \<Rightarrow> rat \<Rightarrow> string" where
  "signed f x = (if x = 0 then f 0 else if x < 0 then ''-'' @ f (- x) else f x)"

definition g_text :: "rat \<Rightarrow> string" where
  "g_text = signed (\<lambda>x. if x = 0 then ''0'' else
     let (m, e) = significant 6 x; ds = show_nat m
     in if - 4 \<le> e \<and> e < 6 then pointed [] (e + 1) ds else pointed [] 1 ds @ exponent_text e)"

text \<open>Seventeen digits always suffice, so the search is bounded.\<close>

definition shortest :: "rat \<Rightarrow> nat \<times> int" where
  "shortest x =
     (case find (\<lambda>n. let (m, e) = significant n x in fl64 (of_nat m * 10 powi (e + 1 - int n)) = x) [1..<17] of
        Some n \<Rightarrow> significant n x | None \<Rightarrow> significant 17 x)"

definition float_str :: "rat \<Rightarrow> string" where
  "float_str = signed (\<lambda>x. if x = 0 then ''0.0'' else
     let (m, e) = shortest x; ds = show_nat m
     in if - 4 \<le> e \<and> e < 16 then pointed ''.0'' (e + 1) ds else pointed [] 1 ds @ exponent_text e)"

lemma show_nat_step:
  "n < 10 \<Longrightarrow> show_nat n = [digit_char n]" "10 \<le> n \<Longrightarrow> show_nat n = show_nat (n div 10) @ [digit_char (n mod 10)]"
  by (subst show_nat.simps, simp)+

text \<open>Six digits: what is above a million loses its last ones.\<close>

lemma g_text_million: "g_text 1234567 = g_text 1234568" "g_text 1234567 = ''1.23457e+06''"
proof -
  have d: "digit_char (Suc 0) = CHR ''1''" "digit_char 2 = CHR ''2''" "digit_char 3 = CHR ''3''" "digit_char 4 = CHR ''4''"
    "digit_char 5 = CHR ''5''" "digit_char 6 = CHR ''6''" "digit_char 7 = CHR ''7''" "digit_char 8 = CHR ''8''"
    by code_simp+
  have s: "show_nat 1234567 = ''1234567''" "show_nat 1234568 = ''1234568''" "show_nat 123457 = ''123457''" "show_nat 6 = ''6''"
    by (simp_all add: show_nat_step d del: show_nat.simps)
  have "\<lfloor>1234567 / 10 :: rat\<rfloor> = 123456" "\<lfloor>617284 / 5 :: rat\<rfloor> = 123456" by (simp_all add: floor_eq_iff)
  then have r: "rne (1234567 / 10) = 123457" "rne (617284 / 5) = 123457" by (simp_all add: rne_def Let_def)
  have i: "ilog10 1234567 = 6" "ilog10 1234568 = 6" by (simp_all add: ilog10_def s)
  show "g_text 1234567 = ''1.23457e+06''"
    by (simp add: g_text_def signed_def significant_def i r pointed_def exponent_text_def strip_zeros_def zeros_def s del: show_nat.simps)
  then show "g_text 1234567 = g_text 1234568"
    by (simp add: g_text_def signed_def significant_def i r pointed_def exponent_text_def strip_zeros_def zeros_def s del: show_nat.simps)
qed

end
