(* ===== verification/Metrics.thy ===== *)
theory Metrics
  imports FloatText HostApps "HOL-Library.AList" "HOL-Library.List_Lexorder" "HOL-Library.Product_Lexorder"
begin

text \<open>
  \<open>control/mmd/metrics.py\<close>: the registry of counters, gauges and histograms, the snapshot that crosses
  from the worker to the exporter, its merge at a scrape, and the text. A Python dict is an association
  list in the order of insertion; floats are rounded as they are added.
\<close>

section \<open>The registry\<close>

type_synonym series = "string \<times> (string \<times> string) list"

definition LATENCY_BUCKETS :: "rat list" where
  "LATENCY_BUCKETS = map fl64 [5 / 1000, 25 / 1000, 5 / 100, 1 / 10, 25 / 100, 5 / 10, 1, 5 / 2, 5, 10, 30, 60, 300, 900]"

definition BUCKET_TEXTS :: "string list" where
  "BUCKET_TEXTS = [''0.005'', ''0.025'', ''0.05'', ''0.1'', ''0.25'', ''0.5'', ''1'', ''2.5'', ''5'', ''10'', ''30'',
     ''60'', ''300'', ''900'']"

record histogram =
  hg_buckets :: "int list"
  hg_sum :: rat
  hg_count :: int

record registry =
  rg_counters :: "(series \<times> rat) list"
  rg_gauges :: "(series \<times> rat) list"
  rg_hist :: "(series \<times> histogram) list"
  rg_help :: "(string \<times> string \<times> string) list"

definition empty_registry :: registry where
  "empty_registry = \<lparr>rg_counters = [], rg_gauges = [], rg_hist = [], rg_help = []\<rparr>"

definition code_points :: "string \<Rightarrow> nat list" where
  "code_points s = map code s"

definition label_order :: "(string \<times> string) list \<Rightarrow> (nat list \<times> nat list) list" where
  "label_order ls = map (\<lambda>(k, v). (code_points k, code_points v)) ls"

text \<open>\<open>_key\<close>: the labels in order.\<close>

definition series_of :: "string \<Rightarrow> (string \<times> string) list \<Rightarrow> series" where
  "series_of name labels = (name, sort_key (\<lambda>(k, v). (code_points k, code_points v)) labels)"

definition describe :: "string \<Rightarrow> string \<Rightarrow> string \<Rightarrow> registry \<Rightarrow> registry" where
  "describe name kind text r = r\<lparr>rg_help := AList.update name (kind, text) (rg_help r)\<rparr>"

definition number_at :: "series \<Rightarrow> (series \<times> rat) list \<Rightarrow> rat" where
  "number_at k al = (case map_of al k of Some v \<Rightarrow> v | None \<Rightarrow> 0)"

definition inc :: "string \<Rightarrow> (string \<times> string) list \<Rightarrow> rat \<Rightarrow> registry \<Rightarrow> registry" where
  "inc name labels v r = (let k = series_of name labels in
     r\<lparr>rg_counters := AList.update k (fadd (number_at k (rg_counters r)) v) (rg_counters r)\<rparr>)"

definition gauge :: "string \<Rightarrow> rat \<Rightarrow> (string \<times> string) list \<Rightarrow> registry \<Rightarrow> registry" where
  "gauge name v labels r = r\<lparr>rg_gauges := AList.update (series_of name labels) v (rg_gauges r)\<rparr>"

definition empty_histogram :: histogram where
  "empty_histogram = \<lparr>hg_buckets = replicate (length LATENCY_BUCKETS) 0, hg_sum = 0, hg_count = 0\<rparr>"

definition histogram_at :: "series \<Rightarrow> (series \<times> histogram) list \<Rightarrow> histogram" where
  "histogram_at k al = (case map_of al k of Some h \<Rightarrow> h | None \<Rightarrow> empty_histogram)"

definition record_value :: "rat \<Rightarrow> histogram \<Rightarrow> histogram" where
  "record_value x h =
     \<lparr>hg_buckets = map2 (\<lambda>n edge. if x \<le> edge then n + 1 else n) (hg_buckets h) LATENCY_BUCKETS,
      hg_sum = fadd (hg_sum h) x, hg_count = hg_count h + 1\<rparr>"

definition observe :: "string \<Rightarrow> rat \<Rightarrow> (string \<times> string) list \<Rightarrow> registry \<Rightarrow> registry" where
  "observe name seconds labels r = (let k = series_of name labels in
     r\<lparr>rg_hist := AList.update k (record_value seconds (histogram_at k (rg_hist r))) (rg_hist r)\<rparr>)"

section \<open>The merge at a scrape\<close>

text \<open>The snapshot of another process: its numbers, not its help texts.\<close>

record metrics_snapshot =
  sn_counters :: "(series \<times> rat) list"
  sn_gauges :: "(series \<times> rat) list"
  sn_hist :: "(series \<times> histogram) list"
  sn_generated_at :: "rat option"

definition take_snapshot :: "rat \<Rightarrow> registry \<Rightarrow> metrics_snapshot" where
  "take_snapshot clock r = \<lparr>sn_counters = rg_counters r, sn_gauges = rg_gauges r, sn_hist = rg_hist r,
     sn_generated_at = Some clock\<rparr>"

text \<open>\<open>read_snapshot\<close> of a file that is missing or broken.\<close>

definition no_snapshot :: metrics_snapshot where
  "no_snapshot = \<lparr>sn_counters = [], sn_gauges = [], sn_hist = [], sn_generated_at = None\<rparr>"

fun add_buckets :: "int list \<Rightarrow> int list \<Rightarrow> int list" where
  "add_buckets (a # as) (b # bs) = (a + b) # add_buckets as bs"
| "add_buckets as _ = as"

definition merge_counter :: "series \<times> rat \<Rightarrow> (series \<times> rat) list \<Rightarrow> (series \<times> rat) list" where
  "merge_counter kv al = (let (k, v) = kv in AList.update k (fadd (number_at k al) v) al)"

definition merge_gauge :: "series \<times> rat \<Rightarrow> (series \<times> rat) list \<Rightarrow> (series \<times> rat) list" where
  "merge_gauge kv al = AList.update (fst kv) (snd kv) al"

definition join_histogram :: "histogram option \<Rightarrow> histogram \<Rightarrow> histogram" where
  "join_histogram old h = (case old of
     None \<Rightarrow> \<lparr>hg_buckets = hg_buckets h, hg_sum = fadd 0 (hg_sum h), hg_count = 0 + hg_count h\<rparr>
   | Some c \<Rightarrow> \<lparr>hg_buckets = add_buckets (hg_buckets c) (hg_buckets h),
       hg_sum = fadd (hg_sum c) (hg_sum h), hg_count = hg_count c + hg_count h\<rparr>)"

definition merge_hist :: "series \<times> histogram \<Rightarrow> (series \<times> histogram) list \<Rightarrow> (series \<times> histogram) list" where
  "merge_hist kh al = (let (k, h) = kh in AList.update k (join_histogram (map_of al k) h) al)"

definition merged :: "metrics_snapshot \<Rightarrow> registry \<Rightarrow> registry" where
  "merged extra r =
     r\<lparr>rg_counters := fold merge_counter (sn_counters extra) (rg_counters r),
       rg_gauges := fold merge_gauge (sn_gauges extra) (rg_gauges r),
       rg_hist := fold merge_hist (sn_hist extra) (rg_hist r)\<rparr>"

section \<open>Text\<close>

text \<open>\<open>_escape\<close>.\<close>

definition escape :: "string \<Rightarrow> string" where
  "escape v = concat (map (\<lambda>c. if code c = 92 then [c, c] else if code c = 34 then [char_of (92 :: nat), c]
     else if code c = 10 then '' '' else [c]) v)"

definition label_text :: "string \<times> string \<Rightarrow> string" where
  "label_text kv = fst kv @ ''='' @ [char_of (34 :: nat)] @ escape (snd kv) @ [char_of (34 :: nat)]"

definition fmt_labels :: "(string \<times> string) list \<Rightarrow> (string \<times> string) list \<Rightarrow> string" where
  "fmt_labels labels extra = (if labels @ extra = [] then []
     else ''{'' @ join '','' (map label_text (labels @ extra)) @ ''}'')"

text \<open>The help of a name is written once, before its first series.\<close>

definition header :: "registry \<Rightarrow> string \<Rightarrow> string \<Rightarrow> string list \<Rightarrow> string list \<times> string list" where
  "header r name kind seen =
     (if name \<in> set seen then ([], seen)
      else let (k, text) = (case map_of (rg_help r) name of Some h \<Rightarrow> h | None \<Rightarrow> (kind, name))
           in ([''# HELP '' @ name @ '' '' @ text, ''# TYPE '' @ name @ '' '' @ k], name # seen))"

definition series_order :: "series \<times> 'a \<Rightarrow> nat list \<times> (nat list \<times> nat list) list" where
  "series_order kv = (code_points (fst (fst kv)), label_order (snd (fst kv)))"

fun render_rows :: "registry \<Rightarrow> string \<Rightarrow> (series \<times> 'a \<Rightarrow> string list) \<Rightarrow> (series \<times> 'a) list \<Rightarrow> string list \<Rightarrow> string list \<times> string list" where
  "render_rows r kind lines [] seen = ([], seen)"
| "render_rows r kind lines (kv # kvs) seen =
     (let (hs, seen1) = header r (fst (fst kv)) kind seen; (rest, seen2) = render_rows r kind lines kvs seen1
      in (hs @ lines kv @ rest, seen2))"

definition number_line :: "series \<times> rat \<Rightarrow> string list" where
  "number_line kv = [fst (fst kv) @ fmt_labels (snd (fst kv)) [] @ '' '' @ g_text (snd kv)]"

definition histogram_lines :: "series \<times> histogram \<Rightarrow> string list" where
  "histogram_lines kh =
     (let ((name, labels), h) = kh in
      map (\<lambda>(edge, n). name @ ''_bucket'' @ fmt_labels labels [(''le'', edge)] @ '' '' @ show_int n)
        (zip BUCKET_TEXTS (hg_buckets h))
      @ [name @ ''_bucket'' @ fmt_labels labels [(''le'', ''+Inf'')] @ '' '' @ show_int (hg_count h),
         name @ ''_sum'' @ fmt_labels labels [] @ '' '' @ g_text (hg_sum h),
         name @ ''_count'' @ fmt_labels labels [] @ '' '' @ show_int (hg_count h)])"

definition render_metrics :: "metrics_snapshot \<Rightarrow> registry \<Rightarrow> string list" where
  "render_metrics extra r =
     (let m = merged extra r;
          (cs, seen1) = render_rows m ''counter'' number_line (sort_key series_order (rg_counters m)) [];
          (gs, seen2) = render_rows m ''gauge'' number_line (sort_key series_order (rg_gauges m)) seen1;
          (hs, _) = render_rows m ''histogram'' histogram_lines (sort_key series_order (rg_hist m)) seen2
      in cs @ gs @ hs)"

section \<open>Processes\<close>

record process_numbers =
  pn_cpu_seconds :: rat
  pn_rss_bytes :: rat
  pn_threads :: int
  pn_start_ticks :: rat
  pn_open_fds :: int

definition CLOCK_TICKS :: rat where "CLOCK_TICKS = 100"
definition PAGE_SIZE :: rat where "PAGE_SIZE = 4096"

definition field_at :: "nat \<Rightarrow> string list \<Rightarrow> string option" where
  "field_at n xs = (if n < length xs then Some (xs ! n) else None)"

definition float_field :: "nat \<Rightarrow> string list \<Rightarrow> rat option" where
  "float_field n xs = (case field_at n xs of None \<Rightarrow> None | Some x \<Rightarrow> py_float x)"

text \<open>\<open>process_sample\<close> of the text of \<open>/proc/<pid>/stat\<close>: the fields are counted from the last bracket.\<close>

definition after_command :: "string \<Rightarrow> string list option" where
  "after_command raw =
     (if CHR '')'' \<in> set raw
      then Some (filter (\<lambda>x. x \<noteq> []) (split_when is_space (drop 1 (rev (takeWhile (\<lambda>c. c \<noteq> CHR '')'') (rev raw))))))
      else None)"

definition process_sample :: "string option \<Rightarrow> int option \<Rightarrow> process_numbers option" where
  "process_sample stat fds =
     (case stat of None \<Rightarrow> None
      | Some raw \<Rightarrow> (case after_command raw of None \<Rightarrow> None
        | Some rest \<Rightarrow>
            (case (float_field 11 rest, float_field 12 rest,
                   case field_at 17 rest of None \<Rightarrow> None | Some x \<Rightarrow> py_int x,
                   float_field 19 rest, float_field 21 rest) of
               (Some u, Some k, Some t, Some st, Some pages) \<Rightarrow>
                 Some \<lparr>pn_cpu_seconds = fdiv (fadd u k) CLOCK_TICKS, pn_rss_bytes = fmul pages PAGE_SIZE,
                   pn_threads = t, pn_start_ticks = st, pn_open_fds = (case fds of Some n \<Rightarrow> n | None \<Rightarrow> 0)\<rparr>
             | _ \<Rightarrow> None)))"

section \<open>Histories\<close>

text \<open>What a process records, in order.\<close>

datatype event = Counted string "(string \<times> string) list" rat | Gauged string rat "(string \<times> string) list"
| Observed string rat "(string \<times> string) list"

fun record_event :: "event \<Rightarrow> registry \<Rightarrow> registry" where
  "record_event (Counted n ls v) r = inc n ls v r"
| "record_event (Gauged n v ls) r = gauge n v ls r"
| "record_event (Observed n x ls) r = observe n x ls r"

definition registry_of :: "event list \<Rightarrow> registry" where
  "registry_of es = fold record_event es empty_registry"

definition observations :: "series \<Rightarrow> event list \<Rightarrow> rat list" where
  "observations k es = concat (map (\<lambda>e. case e of Observed n x ls \<Rightarrow> if series_of n ls = k then [x] else [] | _ \<Rightarrow> []) es)"

definition cumulative :: "rat list \<Rightarrow> int list" where
  "cumulative xs = map (\<lambda>edge. int (length (filter (\<lambda>x. x \<le> edge) xs))) LATENCY_BUCKETS"

section \<open>Lemmas\<close>

lemma registry_of_snoc: "registry_of (es @ [e]) = record_event e (registry_of es)"
  by (simp add: registry_of_def)

lemma observations_append: "observations k (es @ fs) = observations k es @ observations k fs"
  by (simp add: observations_def)

lemma length_cumulative [simp]: "length (cumulative xs) = length LATENCY_BUCKETS"
  by (simp add: cumulative_def)

lemma cumulative_nil: "cumulative [] = replicate (length LATENCY_BUCKETS) 0"
  by (simp add: cumulative_def map_replicate_const)

lemma cumulative_snoc: "cumulative (xs @ [x]) = map2 (\<lambda>n edge. if x \<le> edge then n + 1 else n) (cumulative xs) LATENCY_BUCKETS"
  unfolding cumulative_def by (rule nth_equalityI) auto

lemma cumulative_append: "cumulative (xs @ ys) = add_buckets (cumulative xs) (cumulative ys)"
proof -
  have "add_buckets (map f bs) (map g bs) = map (\<lambda>b. f b + g b) bs" for f g and bs :: "rat list"
    by (induction bs) simp_all
  then show ?thesis by (simp add: cumulative_def)
qed

lemma buckets_sorted: "sorted LATENCY_BUCKETS"
  unfolding LATENCY_BUCKETS_def sorted_map
  by (rule sorted_wrt_mono_rel [of _ "(\<le>)"]) (auto intro: fl64_mono)

lemma cumulative_valid: "sorted (cumulative xs) \<and> (\<forall>n \<in> set (cumulative xs). 0 \<le> n \<and> n \<le> int (length xs))"
proof -
  have mono: "length (filter (\<lambda>x. x \<le> a) xs) \<le> length (filter (\<lambda>x. x \<le> b) xs)" if "a \<le> b" for a b
    using that by (induction xs) auto
  have "sorted (cumulative xs)"
    unfolding cumulative_def sorted_map
    using buckets_sorted by (rule sorted_wrt_mono_rel [rotated]) (use mono in auto)
  then show ?thesis by (auto simp: cumulative_def)
qed

lemma registry_hist:
  "map_option (\<lambda>h. (hg_buckets h, hg_count h)) (map_of (rg_hist (registry_of es)) k) =
     (if observations k es = [] then None
      else Some (cumulative (observations k es), int (length (observations k es))))
   \<and> distinct (map fst (rg_hist (registry_of es)))"
proof (induction es rule: rev_induct)
  case Nil
  then show ?case by (simp add: registry_of_def empty_registry_def observations_def)
next
  case (snoc e es)
  show ?case
  proof (cases e)
    case (Observed n x ls)
    let ?k = "series_of n ls"
    have d: "distinct (map fst (rg_hist (registry_of (es @ [e]))))"
      using snoc Observed by (simp add: registry_of_snoc observe_def Let_def distinct_update)
    have obs: "observations j (es @ [e]) = observations j es @ (if ?k = j then [x] else [])" for j
      by (simp add: observations_append) (simp add: observations_def Observed)
    have m: "map_of (rg_hist (registry_of (es @ [e]))) k = (if k = ?k
        then Some (record_value x (histogram_at k (rg_hist (registry_of es)))) else map_of (rg_hist (registry_of es)) k)"
      by (simp add: registry_of_snoc Observed observe_def Let_def update_conv)
    have "hg_buckets (histogram_at k (rg_hist (registry_of es))) = cumulative (observations k es)
        \<and> hg_count (histogram_at k (rg_hist (registry_of es))) = int (length (observations k es))"
      using snoc by (auto simp: histogram_at_def empty_histogram_def cumulative_nil split: option.splits if_splits)
    with m d obs snoc show ?thesis by (auto simp: record_value_def cumulative_snoc)
  qed (use snoc in \<open>simp_all add: registry_of_snoc inc_def gauge_def Let_def observations_append, simp_all add: observations_def\<close>)
qed

lemma registry_keys:
  "distinct (map fst (rg_counters (registry_of es))) \<and> distinct (map fst (rg_gauges (registry_of es)))"
proof (induction es rule: rev_induct)
  case (snoc e es)
  then show ?case
    by (cases e) (simp_all add: registry_of_snoc inc_def gauge_def observe_def Let_def distinct_update)
qed (simp add: registry_of_def empty_registry_def)

text \<open>Merging rows with distinct keys, by what happens at one key.\<close>

lemma fold_merge:
  assumes step: "\<And>kv al j. map_of (f kv al) j = (if j = fst kv then Some (g (map_of al j) (snd kv)) else map_of al j)"
    and "distinct (map fst rows)"
  shows "map_of (fold f rows al) k =
    (case map_of rows k of None \<Rightarrow> map_of al k | Some v \<Rightarrow> Some (g (map_of al k) v))"
  using assms(2)
proof (induction rows arbitrary: al)
  case (Cons kv rows)
  have out: "map_of rows (fst kv) = None" using Cons.prems by (simp add: map_of_eq_None_iff)
  show ?case
  proof (cases "k = fst kv")
    case True
    with Cons out step [of kv al k] show ?thesis by (cases kv) simp
  next
    case False
    with Cons step [of kv al k] show ?thesis by (cases kv) (simp split: option.split)
  qed
qed simp

lemma merged_hist:
  "map_of (rg_hist (merged (take_snapshot clock (registry_of ws)) r)) k =
     (case map_of (rg_hist (registry_of ws)) k of None \<Rightarrow> map_of (rg_hist r) k
      | Some h \<Rightarrow> Some (join_histogram (map_of (rg_hist r) k) h))"
  unfolding merged_def take_snapshot_def
  by (simp, rule fold_merge) (use registry_hist in \<open>auto simp: merge_hist_def update_conv split: prod.splits\<close>)

lemma merged_counters:
  "map_of (rg_counters (merged (take_snapshot clock (registry_of ws)) r)) k =
     (case map_of (rg_counters (registry_of ws)) k of None \<Rightarrow> map_of (rg_counters r) k
      | Some v \<Rightarrow> Some (fadd (number_at k (rg_counters r)) v))"
proof -
  have "map_of (fold merge_counter (rg_counters (registry_of ws)) (rg_counters r)) k =
     (case map_of (rg_counters (registry_of ws)) k of None \<Rightarrow> map_of (rg_counters r) k
      | Some v \<Rightarrow> Some (fadd (case map_of (rg_counters r) k of Some x \<Rightarrow> x | None \<Rightarrow> 0) v))"
    by (rule fold_merge) (use registry_keys in \<open>auto simp: merge_counter_def number_at_def update_conv split: prod.splits\<close>)
  then show ?thesis unfolding number_at_def by (simp add: merged_def take_snapshot_def)
qed

lemma merged_gauges:
  "map_of (rg_gauges (merged (take_snapshot clock (registry_of ws)) r)) k =
     (case map_of (rg_gauges (registry_of ws)) k of None \<Rightarrow> map_of (rg_gauges r) k | Some v \<Rightarrow> Some v)"
  unfolding merged_def take_snapshot_def
  by (simp, rule fold_merge [where g = "\<lambda>_ v. v"]) (use registry_keys in \<open>auto simp: merge_gauge_def update_conv\<close>)

text \<open>Above a million an increment may not show.\<close>

lemma increment_not_shown:
  "render_metrics no_snapshot (empty_registry\<lparr>rg_counters := [((n, []), 1234567)]\<rparr>)
     = render_metrics no_snapshot (empty_registry\<lparr>rg_counters := [((n, []), 1234568)]\<rparr>)"
proof -
  have "number_line ((n, []), 1234567) = number_line ((n, []), 1234568)"
    using g_text_million(1) by (simp add: number_line_def)
  then show ?thesis by (simp add: render_metrics_def merged_def no_snapshot_def empty_registry_def header_def)
qed

section \<open>Properties\<close>

text \<open>A scrape shows what both processes recorded. Whatever the API and the worker recorded, the merged
  histogram of a series counts exactly the values of both: each bucket the values up to its edge, so the
  buckets never decrease and stay within the count; a counter is the sum of both, a gauge the worker's
  where it has one; and a series nobody recorded is not shown.\<close>

lemma scrape_adds_both_processes:
  "let m = merged (take_snapshot clock (registry_of ws)) (registry_of os); obs = observations k os @ observations k ws
   in map_option (\<lambda>h. (hg_buckets h, hg_count h)) (map_of (rg_hist m) k)
        = (if obs = [] then None else Some (cumulative obs, int (length obs)))
    \<and> sorted (cumulative obs) \<and> list_all (\<lambda>n. 0 \<le> n \<and> n \<le> int (length obs)) (cumulative obs)
    \<and> map_of (rg_counters m) k = (case (map_of (rg_counters (registry_of os)) k, map_of (rg_counters (registry_of ws)) k) of
          (own, None) \<Rightarrow> own | (None, Some v) \<Rightarrow> Some (fadd 0 v) | (Some x, Some v) \<Rightarrow> Some (fadd x v))
    \<and> map_of (rg_gauges m) k = (case map_of (rg_gauges (registry_of ws)) k of
          None \<Rightarrow> map_of (rg_gauges (registry_of os)) k | Some v \<Rightarrow> Some v)"
proof -
  let ?m = "merged (take_snapshot clock (registry_of ws)) (registry_of os)"
  let ?own = "observations k os" and ?theirs = "observations k ws"
  have own: "map_option (\<lambda>h. (hg_buckets h, hg_count h)) (map_of (rg_hist (registry_of os)) k)
      = (if ?own = [] then None else Some (cumulative ?own, int (length ?own)))"
    and theirs: "map_option (\<lambda>h. (hg_buckets h, hg_count h)) (map_of (rg_hist (registry_of ws)) k)
      = (if ?theirs = [] then None else Some (cumulative ?theirs, int (length ?theirs)))"
    using registry_hist by blast+
  have "map_option (\<lambda>h. (hg_buckets h, hg_count h)) (map_of (rg_hist ?m) k)
      = (if ?own @ ?theirs = [] then None else Some (cumulative (?own @ ?theirs), int (length (?own @ ?theirs))))"
    using own theirs unfolding merged_hist
    by (auto simp: join_histogram_def cumulative_append [symmetric] split: option.splits if_splits)
  moreover have "list_all (\<lambda>n. 0 \<le> n \<and> n \<le> int (length (?own @ ?theirs))) (cumulative (?own @ ?theirs))"
    using cumulative_valid [of "?own @ ?theirs"] by (simp add: list_all_iff)
  moreover have "map_of (rg_counters ?m) k = (case (map_of (rg_counters (registry_of os)) k, map_of (rg_counters (registry_of ws)) k) of
          (own, None) \<Rightarrow> own | (None, Some v) \<Rightarrow> Some (fadd 0 v) | (Some x, Some v) \<Rightarrow> Some (fadd x v))"
    unfolding merged_counters number_at_def by (simp split: option.split)
  ultimately show ?thesis using cumulative_valid [of "?own @ ?theirs"] merged_gauges by (simp add: Let_def)
qed

end
