(* ===== verification/Exporter.thy ===== *)
theory Exporter
  imports Metrics Backup Accounts Secrets
begin

text \<open>
  \<open>control/mmd/exporter.py\<close> and the scrape endpoint of \<open>control/mmd/app.py\<close>: what the database, the
  processes and the registry say, as Prometheus reads it. A sample is a name, its labels and the text of
  its value. Rows of a grouped query come in the order of their first member. The clock, the host, what
  \<open>systemctl\<close> and \<open>/proc\<close> answer and \<open>datetime.fromisoformat\<close> are arguments.
\<close>

section \<open>Samples\<close>

type_synonym sample = "string \<times> (string \<times> string) list \<times> string"

text \<open>\<open>_metric_label\<close>: quotes and backslashes are dropped, a newline becomes a space.\<close>

definition metric_label :: "string \<Rightarrow> string" where
  "metric_label s = map (\<lambda>c. if code c = 10 then CHR '' '' else c) (filter (\<lambda>c. code c \<noteq> 92 \<and> code c \<noteq> 34) s)"

definition QUOTE :: char where "QUOTE = CHR 0x22"

definition sample_line :: "sample \<Rightarrow> string" where
  "sample_line x = (let (name, labels, v) = x in
     name @ (if labels = [] then [] else ''{'' @ join '','' (map (\<lambda>(k, t). k @ ''='' @ [QUOTE] @ t @ [QUOTE]) labels) @ ''}'')
       @ '' '' @ v)"

definition flag :: "bool \<Rightarrow> string" where
  "flag b = (if b then ''1'' else ''0'')"

text \<open>\<open>_age_seconds\<close>.\<close>

definition age_seconds :: "time \<Rightarrow> time option \<Rightarrow> rat" where
  "age_seconds now when = (case when of None \<Rightarrow> - 1 | Some t \<Rightarrow> max 0 (fl64 (of_int (now - t) / of_int second)))"

fun ticket_value :: "ticket_status \<Rightarrow> string" where
  "ticket_value TOpen = ''open''"
| "ticket_value TWaitingForUser = ''waiting_for_user''"
| "ticket_value TAnswered = ''answered''"
| "ticket_value TEscalated = ''escalated''"
| "ticket_value TClosed = ''closed''"

fun tx_value :: "tx_kind \<Rightarrow> string" where
  "tx_value GRANT = ''grant''"
| "tx_value CHARGE_HOUR = ''charge_hour''"
| "tx_value CHARGE_PARTIAL = ''charge_partial''"
| "tx_value CHARGE_AI = ''charge_ai''"
| "tx_value CHARGE_HERMES = ''charge_hermes''"
| "tx_value CHARGE_CODEX = ''charge_codex''"
| "tx_value ADJUSTMENT = ''adjustment''"

section \<open>Customers\<close>

definition ALL_STATUSES :: "user_status list" where
  "ALL_STATUSES = [UPending, UApproved, URejected, USuspended, UDeleting]"

definition ALL_STATES :: "ws_state list" where
  "ALL_STATES = [PROVISIONING, OFF, STARTING, ON, STOPPING, RESETTING, ARCHIVING, ARCHIVED, DELETING, DELETED, ERROR]"

definition machine_of :: "db \<Rightarrow> user \<Rightarrow> workspace option" where
  "machine_of d u = find (\<lambda>w. w_user_id w = u_id u) (workspaces d)"

definition machine_samples :: "db \<Rightarrow> (string \<times> string) list \<Rightarrow> workspace \<Rightarrow> sample list" where
  "machine_samples d l w =
     [(''mmd_workspace_desired_on'', l, flag (w_desired_on w)),
      (''mmd_workspace_cpu_millicores'', l, show_int (w_cpu_milli w)),
      (''mmd_workspace_memory_mib'', l, show_int (w_mem_mib w)),
      (''mmd_workspace_disk_limit_gib'', l, show_int (w_disk_gib w)),
      (''mmd_workspace_disk_used_mib'', l, show_int (case w_disk_used_mib w of None \<Rightarrow> 0 | Some n \<Rightarrow> n)),
      (''mmd_workspace_published_ports'', l,
        show_int (int (length (filter (\<lambda>p. ep_workspace_id p = w_id w) (exposed_ports d))))),
      (''mmd_workspace_state'', l @ [(''state'', ws_state_value (w_state w))], ''1'')]
     @ map (\<lambda>(n, b). (''mmd_workspace_service_ready'', l @ [(''service'', n)], flag b))
         [(''hermes'', h_installed (w_hermes w)), (''openclaw'', oc_installed (w_openclaw w)),
          (''opencode'', wb_installed (w_opencode w)), (''openwebui'', wb_installed (w_openwebui w))]"

definition customer_samples :: "db \<Rightarrow> user \<Rightarrow> sample list" where
  "customer_samples d u =
     (let l = [(''username'', metric_label (u_username u))];
          account = find (\<lambda>a. oa_user_id a = u_id u) (or_accounts d);
          usage = (case account of None \<Rightarrow> 0 | Some a \<Rightarrow> oa_usage_usd a)
      in [(''mmd_user_credit_micro_toman'', l, show_int (balance_micro d (u_id u))),
          (''mmd_user_openrouter_usage_usd'', l, if usage = 0 then ''0'' else float_str usage),
          (''mmd_user_openrouter_ready'', l, flag (case account of None \<Rightarrow> False | Some a \<Rightarrow> oa_key a \<noteq> None)),
          (''mmd_user_openrouter_blocked'', l, flag (case account of None \<Rightarrow> False | Some a \<Rightarrow> oa_credit_blocked a)),
          (''mmd_user_workspace_present'', l, flag (machine_of d u \<noteq> None))]
         @ (case machine_of d u of None \<Rightarrow> [] | Some w \<Rightarrow> machine_samples d l w))"

definition counted_machines :: "db \<Rightarrow> workspace list" where
  "counted_machines d = List.map_filter (machine_of d) (users d)"

definition customer_metrics :: "db \<Rightarrow> sample list" where
  "customer_metrics d =
     concat (map (customer_samples d) (sort_key u_id (users d)))
     @ map (\<lambda>st. (''mmd_users'', [(''status'', status_value st)],
         show_int (int (length (filter (\<lambda>u. u_status u = st) (users d)))))) ALL_STATUSES
     @ map (\<lambda>st. (''mmd_workspaces'', [(''state'', ws_state_value st)],
         show_int (int (length (filter (\<lambda>w. w_state w = st) (counted_machines d)))))) ALL_STATES"

section \<open>Usage\<close>

definition newest_samples :: "db \<Rightarrow> usage_sample list" where
  "newest_samples d = filter (\<lambda>r. \<forall>q \<in> set (samples d). us_workspace_id q = us_workspace_id r \<longrightarrow> us_ts q \<le> us_ts r) (samples d)"

definition owner_of :: "db \<Rightarrow> int \<Rightarrow> (workspace \<times> user) option" where
  "owner_of d i = (case find (\<lambda>w. w_id w = i) (workspaces d) of None \<Rightarrow> None
     | Some w \<Rightarrow> map_option (\<lambda>u. (w, u)) (find (\<lambda>u. u_id u = w_user_id w) (users d)))"

definition usage_samples :: "time \<Rightarrow> db \<Rightarrow> usage_sample \<Rightarrow> sample list" where
  "usage_samples now d r = (case owner_of d (us_workspace_id r) of None \<Rightarrow> []
     | Some (w, u) \<Rightarrow> (let l = [(''username'', metric_label (u_username u))]; running = (w_state w = ON) in
         [(''mmd_workspace_cpu_seconds_total'', l, g_text (us_cpu_seconds_total r)),
          (''mmd_workspace_memory_bytes'', l, if running then show_int (us_mem_bytes r) else ''0''),
          (''mmd_workspace_sample_age_seconds'', l, if running then float_str (age_seconds now (Some (us_ts r))) else ''-1'')]))"

text \<open>The marks of a user, a service and a model together.\<close>

definition mark_groups :: "db \<Rightarrow> (string \<times> string \<times> string) list" where
  "mark_groups d = remdups (List.map_filter (\<lambda>m. map_option (\<lambda>(w, u). (u_username u, am_service m, am_model m))
     (owner_of d (am_workspace_id m))) (ai_marks d))"

definition group_sum :: "db \<Rightarrow> string \<times> string \<times> string \<Rightarrow> (ai_usage_mark \<Rightarrow> int) \<Rightarrow> int" where
  "group_sum d g f = (let (name, sv, model) = g in sum_list (map f (filter (\<lambda>m. am_service m = sv \<and> am_model m = model
     \<and> (case owner_of d (am_workspace_id m) of None \<Rightarrow> False | Some (w, u) \<Rightarrow> u_username u = name)) (ai_marks d))))"

definition ai_samples :: "db \<Rightarrow> string \<times> string \<times> string \<Rightarrow> sample list" where
  "ai_samples d g =
     (let (name, sv, model) = g;
          l = [(''username'', metric_label name), (''service'', metric_label sv), (''model'', metric_label model)]
      in [(''mmd_ai_tokens_total'', l @ [(''direction'', ''input'')], show_int (group_sum d g (\<lambda>m. am_tokens m CatInput))),
          (''mmd_ai_tokens_total'', l @ [(''direction'', ''output'')], show_int (group_sum d g (\<lambda>m. am_tokens m CatOutput))),
          (''mmd_ai_tokens_total'', l @ [(''direction'', ''cache_read'')], show_int (group_sum d g (\<lambda>m. am_tokens m CatRead))),
          (''mmd_ai_billed_micro_toman_total'', l, show_int (group_sum d g am_billed_micro))])"

text \<open>A capacity that cannot be read leaves these out.\<close>

definition capacity_samples :: "int \<Rightarrow> int \<Rightarrow> db \<Rightarrow> sample list" where
  "capacity_samples cpus mem_kb d =
     (case host_capacity cpus mem_kb (get_settings d) of None \<Rightarrow> []
      | Some cap \<Rightarrow>
          let running = map (\<lambda>w. (w_cpu_cores w, w_mem_gib w)) (filter (\<lambda>w. w_state w = ON \<or> w_state w = STARTING) (workspaces d))
          in [(''mmd_capacity_total_cores'', [], g_text (total_cores cap)),
              (''mmd_capacity_total_memory_gib'', [], g_text (total_mem_gib cap)),
              (''mmd_capacity_schedulable_cores'', [], g_text (schedulable_cores cap)),
              (''mmd_capacity_schedulable_memory_gib'', [], g_text (schedulable_mem_gib cap)),
              (''mmd_capacity_used_cores'', [], g_text (fsum (map fst running))),
              (''mmd_capacity_used_memory_gib'', [], g_text (fsum (map snd running))),
              (''mmd_capacity_running'', [], show_int (int (length running)))])"

definition pool_sample :: "db \<Rightarrow> string \<times> string \<Rightarrow> sample" where
  "pool_sample d kn = (snd kn, [], let v = get_setting d (fst kn) [] in
     if v = [] then ''-1'' else case py_float v of None \<Rightarrow> ''-1'' | Some x \<Rightarrow> g_text x)"

definition usage_metrics :: "int \<Rightarrow> int \<Rightarrow> time \<Rightarrow> db \<Rightarrow> sample list" where
  "usage_metrics cpus mem_kb now d =
     concat (map (usage_samples now d) (newest_samples d)) @ concat (map (ai_samples d) (mark_groups d))
     @ capacity_samples cpus mem_kb d
     @ map (pool_sample d) [(''pool_total_gib'', ''mmd_pool_total_gib''), (''pool_used_gib'', ''mmd_pool_used_gib''),
         (''pool_free_gib'', ''mmd_pool_free_gib'')]
     @ [(''mmd_pool_committed_gib'', [], g_text (of_int (sum_list (map w_disk_gib (workspaces d)))))]"

section \<open>Operations\<close>

text \<open>Counts by group.\<close>

definition counts_by :: "('a \<Rightarrow> 'b) \<Rightarrow> 'a list \<Rightarrow> ('b \<times> int) list" where
  "counts_by f xs = map (\<lambda>k. (k, int (length (filter (\<lambda>x. f x = k) xs)))) (remdups (map f xs))"

definition oldest :: "time list \<Rightarrow> time option" where
  "oldest ts = (if ts = [] then None else Some (Min (set ts)))"

text \<open>\<open>Ticket\<close> has no column \<open>staff_unread\<close>, so the count of unread tickets is always zero.\<close>

definition operations_samples :: "(string \<Rightarrow> time option) \<Rightarrow> int \<Rightarrow> time \<Rightarrow> db \<Rightarrow> backup_page \<Rightarrow> sample list" where
  "operations_samples fromiso patch_failures now d cfg =
       map (\<lambda>((k, st), n). (''mmd_operations'', [(''kind'', metric_label k), (''status'', metric_label st)], show_int n))
         (counts_by (\<lambda>p. (op_kind p, op_status p)) (operations d))
       @ [(''mmd_operations_backlog'', [], show_int (int (length (filter (\<lambda>p. op_status p \<in> {''queued'', ''running''}) (operations d)))))]
       @ map (\<lambda>st. (''mmd_tickets'', [(''status'', ticket_value st)],
           show_int (int (length (filter (\<lambda>t. tk_status t = st) (tickets d))))))
           [TOpen, TWaitingForUser, TAnswered, TEscalated, TClosed]
       @ [(''mmd_ticket_oldest_open_seconds'', [], float_str (age_seconds now (oldest (map tk_created_at
             (filter (\<lambda>t. tk_status t \<noteq> TClosed) (tickets d)))))),
          (''mmd_tickets_unread_staff'', [], ''0'')]
       @ map (\<lambda>(k, n). (''mmd_notifications_unread'', [(''kind'', metric_label k)], show_int n))
           (counts_by nt_kind (filter (\<lambda>n. nt_read_at n = None) (notifications d)))
       @ [(''mmd_notification_oldest_unread_seconds'', [], float_str (age_seconds now (oldest (map nt_created_at
             (filter (\<lambda>n. nt_read_at n = None) (notifications d))))))]
       @ map (\<lambda>((k, st), n). (''mmd_sms_messages'', [(''kind'', metric_label k), (''status'', metric_label st)], show_int n))
           (counts_by (\<lambda>m. (sm_kind m, sm_status m)) (sms_messages d))
       @ [(''mmd_backup_enabled'', [], flag (bk_enabled cfg)),
          (''mmd_backup_last_size_bytes'', [], show_int (bk_last_size cfg)),
          (''mmd_backup_failing'', [], flag (bk_last_error cfg \<noteq> None)),
          (''mmd_backup_age_seconds'', [], float_str (age_seconds now
             (case bk_last_ok cfg of None \<Rightarrow> None | Some t \<Rightarrow> fromiso t)))]
       @ map (\<lambda>(k, n). (n, [], float_str (age_seconds now
             (let v = get_setting d k [] in if v = [] then None else fromiso v))))
           [(''worker_heartbeat'', ''mmd_worker_heartbeat_age_seconds''),
            (''worker_last_success'', ''mmd_worker_last_success_age_seconds'')]
       @ concat (map (\<lambda>(k, n). [(''mmd_ledger_entries'', [(''kind'', metric_label (tx_value k))], show_int n),
            (''mmd_ledger_micro_toman'', [(''kind'', metric_label (tx_value k))],
              show_int (sum_list (map tx_amount_micro (filter (\<lambda>t. tx_kind t = k) (transactions d)))))])
           (counts_by tx_kind (transactions d)))
       @ [(''mmd_schema_patch_failures'', [], show_int patch_failures)]"

text \<open>A stored size that is not a number fails the scrape.\<close>

definition operations_metrics :: "(string \<Rightarrow> time option) \<Rightarrow> int \<Rightarrow> time \<Rightarrow> db \<Rightarrow> sample list option" where
  "operations_metrics fromiso patch_failures now d =
     map_option (operations_samples fromiso patch_failures now d) (backup_config d)"

section \<open>Processes\<close>

record unit_report =
  ut_unit :: string
  ut_pid :: int
  ut_restarts :: int
  ut_sample :: "process_numbers option"

definition unit_samples :: "rat \<Rightarrow> rat \<Rightarrow> unit_report \<Rightarrow> sample list" where
  "unit_samples boot clock r =
     (let l = [(''unit'', ut_unit r)] in
      case (if ut_pid r = 0 then None else ut_sample r) of
        None \<Rightarrow> [(''mmd_process_up'', l, ''0'')]
      | Some p \<Rightarrow>
          [(''mmd_process_up'', l, ''1''), (''mmd_process_cpu_seconds_total'', l, g_text (pn_cpu_seconds p)),
           (''mmd_process_resident_bytes'', l, g_text (pn_rss_bytes p)),
           (''mmd_process_threads'', l, show_int (pn_threads p)), (''mmd_process_open_fds'', l, show_int (pn_open_fds p))]
          @ (if boot = 0 then [] else
              [(''mmd_process_uptime_seconds'', l, g_text (max 0 (fsub clock (fadd boot (fdiv (pn_start_ticks p) CLOCK_TICKS)))))])
          @ [(''mmd_process_restarts_total'', l, show_int (ut_restarts r))])"

definition process_metrics :: "rat \<Rightarrow> rat \<Rightarrow> unit_report list \<Rightarrow> sample list" where
  "process_metrics boot clock units = concat (map (unit_samples boot clock) units)"

section \<open>The scrape\<close>

datatype scrape = ScrapeRefused | ScrapeFails | Scraped string

text \<open>The token is compared as text; a header that is not ASCII raises.\<close>

definition may_scrape :: "string \<Rightarrow> string \<Rightarrow> bool option" where
  "may_scrape expected hdr =
     (let supplied = (if startswith hdr ''Bearer '' then drop 7 hdr else hdr)
      in if expected = [] then Some False else compare_digest supplied expected)"

text \<open>Everything the database and the processes say.\<close>

definition exported ::
  "(string \<Rightarrow> time option) \<Rightarrow> string \<Rightarrow> int \<Rightarrow> int \<Rightarrow> int \<Rightarrow> rat \<Rightarrow> rat \<Rightarrow> unit_report list \<Rightarrow> time \<Rightarrow> db \<Rightarrow> sample list option" where
  "exported fromiso version cpus mem_kb patch_failures boot clock units now d =
     map_option (\<lambda>ops. [(''mmd_build_info'', [(''version'', version)], ''1'')] @ customer_metrics d
         @ usage_metrics cpus mem_kb now d @ ops @ process_metrics boot clock units)
       (operations_metrics fromiso patch_failures now d)"

definition snapshot_age :: "rat \<Rightarrow> metrics_snapshot \<Rightarrow> sample" where
  "snapshot_age clock sn = (''mmd_worker_metrics_snapshot_age_seconds'', [],
     case sn_generated_at sn of None \<Rightarrow> ''-1'' | Some t \<Rightarrow> g_text (max 0 (fsub clock t)))"

definition prometheus_metrics ::
  "string \<Rightarrow> string \<Rightarrow> sample list option \<Rightarrow> rat \<Rightarrow> metrics_snapshot \<Rightarrow> registry \<Rightarrow> scrape" where
  "prometheus_metrics expected hdr found clock sn r =
     (case may_scrape expected hdr of
        None \<Rightarrow> ScrapeFails
      | Some False \<Rightarrow> ScrapeRefused
      | Some True \<Rightarrow> (case found of None \<Rightarrow> ScrapeFails
          | Some xs \<Rightarrow> Scraped (join newline (map sample_line (xs @ [snapshot_age clock sn])
              @ render_metrics sn r @ [''# EOF'']) @ newline)))"

section \<open>What Prometheus reads\<close>

text \<open>A line of the exposition format: labels in braces, each value in quotes and without escapes.\<close>

fun read_labels :: "nat \<Rightarrow> string \<Rightarrow> ((string \<times> string) list \<times> string) option" where
  "read_labels 0 s = None"
| "read_labels (Suc n) s =
     (let k = takeWhile (\<lambda>c. c \<noteq> CHR ''='') s; rest = drop 2 (dropWhile (\<lambda>c. c \<noteq> CHR ''='') s);
          v = takeWhile (\<lambda>c. c \<noteq> QUOTE) rest; after = drop 1 (dropWhile (\<lambda>c. c \<noteq> QUOTE) rest)
      in case after of
           [] \<Rightarrow> None
         | c # t \<Rightarrow> if c = CHR '','' then map_option (\<lambda>(ls, r). ((k, v) # ls, r)) (read_labels n t)
             else if c = CHR ''}'' then Some ([(k, v)], t) else None)"

definition read_line :: "string \<Rightarrow> sample option" where
  "read_line s =
     (let name = takeWhile (\<lambda>c. c \<noteq> CHR ''{'' \<and> c \<noteq> CHR '' '') s; rest = dropWhile (\<lambda>c. c \<noteq> CHR ''{'' \<and> c \<noteq> CHR '' '') s
      in case rest of
           [] \<Rightarrow> None
         | c # t \<Rightarrow> if c = CHR '' '' then Some (name, [], t)
             else case read_labels (length t) t of None \<Rightarrow> None | Some (ls, r) \<Rightarrow> Some (name, ls, drop 1 r))"

definition plain_sample :: "sample \<Rightarrow> bool" where
  "plain_sample x \<longleftrightarrow> (let (name, labels, v) = x in
     list_all (\<lambda>c. c \<noteq> CHR ''{'' \<and> c \<noteq> CHR '' '' \<and> code c \<noteq> 10) name
     \<and> list_all (\<lambda>(k, t). list_all (\<lambda>c. c \<noteq> CHR ''='' \<and> code c \<noteq> 10) k
          \<and> list_all (\<lambda>c. c \<noteq> QUOTE \<and> code c \<noteq> 92 \<and> code c \<noteq> 10) t) labels
     \<and> list_all (\<lambda>c. code c \<noteq> 10) v)"

lemma takeWhile_until: "list_all P xs \<Longrightarrow> \<not> P c \<Longrightarrow> takeWhile P (xs @ c # ys) = xs \<and> dropWhile P (xs @ c # ys) = c # ys"
  by (induction xs) auto

definition labels_text :: "(string \<times> string) list \<Rightarrow> string" where
  "labels_text ls = join '','' (map (\<lambda>(k, t). k @ ''='' @ [QUOTE] @ t @ [QUOTE]) ls)"

lemma read_labels_text:
  assumes "ls \<noteq> []" and "length ls \<le> n"
    and "list_all (\<lambda>(k, t). list_all (\<lambda>c. c \<noteq> CHR ''='') k \<and> list_all (\<lambda>c. c \<noteq> QUOTE) t) ls"
  shows "read_labels n (labels_text ls @ ''}'' @ r) = Some (ls, r)"
  using assms
proof (induction ls arbitrary: n)
  case (Cons kt ls)
  obtain k t where kt: "kt = (k, t)" by fastforce
  obtain m where n: "n = Suc m" using Cons.prems(2) by (cases n) auto
  have cut: "takeWhile (\<lambda>c. c \<noteq> CHR ''='') (k @ CHR ''='' # QUOTE # t @ QUOTE # rest) = k"
    "dropWhile (\<lambda>c. c \<noteq> CHR ''='') (k @ CHR ''='' # QUOTE # t @ QUOTE # rest) = CHR ''='' # QUOTE # t @ QUOTE # rest"
    "takeWhile (\<lambda>c. c \<noteq> QUOTE) (t @ QUOTE # rest) = t" "dropWhile (\<lambda>c. c \<noteq> QUOTE) (t @ QUOTE # rest) = QUOTE # rest" for rest
    using Cons.prems(3) takeWhile_until [of "\<lambda>c. c \<noteq> CHR ''=''" k "CHR ''=''"] takeWhile_until [of "\<lambda>c. c \<noteq> QUOTE" t QUOTE]
    by (simp_all add: kt)
  show ?case
  proof (cases ls)
    case Nil
    have "read_labels n (k @ CHR ''='' # QUOTE # t @ QUOTE # CHR ''}'' # r) = Some ([(k, t)], r)"
      by (simp add: n cut)
    then show ?thesis by (simp add: Nil kt labels_text_def)
  next
    case (Cons kt' ls')
    have IH: "read_labels m (labels_text ls @ ''}'' @ r) = Some (ls, r)"
      using Cons.IH [of m] Cons.prems Cons n by simp
    have "read_labels n (k @ CHR ''='' # QUOTE # t @ QUOTE # CHR '','' # labels_text ls @ ''}'' @ r) = Some ((k, t) # ls, r)"
      using IH by (simp add: n cut)
    then show ?thesis by (simp add: kt Cons labels_text_def)
  qed
qed simp

lemma length_labels_text: "length ls \<le> length (labels_text ls)"
proof (induction ls)
  case (Cons kt ls)
  then show ?case by (cases ls; cases kt) (auto simp: labels_text_def)
qed simp

lemma read_sample_line:
  assumes "plain_sample x"
  shows "read_line (sample_line x) = Some x"
proof -
  obtain n ls v where x: "x = (n, ls, v)" by (cases x)
  have name: "list_all (\<lambda>c. c \<noteq> CHR ''{'' \<and> c \<noteq> CHR '' '') n" using assms by (auto simp: x plain_sample_def list_all_iff)
  have labels: "list_all (\<lambda>(k, t). list_all (\<lambda>c. c \<noteq> CHR ''='') k \<and> list_all (\<lambda>c. c \<noteq> QUOTE) t) ls"
    using assms unfolding x plain_sample_def Let_def prod.case
    by (elim conjE, elim list.pred_mono_strong) (auto elim!: list.pred_mono_strong)
  have cut: "takeWhile (\<lambda>c. c \<noteq> CHR ''{'' \<and> c \<noteq> CHR '' '') (n @ c # ys) = n"
    "dropWhile (\<lambda>c. c \<noteq> CHR ''{'' \<and> c \<noteq> CHR '' '') (n @ c # ys) = c # ys" if "c = CHR ''{'' \<or> c = CHR '' ''" for c ys
    using takeWhile_until [OF name, of c ys] that by auto
  show ?thesis
  proof (cases "ls = []")
    case True
    then show ?thesis by (simp add: x sample_line_def read_line_def cut)
  next
    case False
    let ?t = "labels_text ls @ ''}'' @ '' '' @ v"
    have "length ls \<le> length ?t" using length_labels_text [of ls] by simp
    then have "read_labels (length ?t) ?t = Some (ls, '' '' @ v)" using False labels by (intro read_labels_text) auto
    moreover have "sample_line x = n @ CHR ''{'' # ?t" using False by (simp add: x sample_line_def labels_text_def)
    ultimately show ?thesis by (simp add: read_line_def cut x)
  qed
qed

section \<open>Every exported sample is plain\<close>

definition one_line :: "string \<Rightarrow> bool" where
  "one_line s \<longleftrightarrow> list_all (\<lambda>c. code c \<noteq> 10) s"

definition label_ok :: "string \<Rightarrow> bool" where
  "label_ok s \<longleftrightarrow> list_all (\<lambda>c. c \<noteq> QUOTE \<and> code c \<noteq> 92 \<and> code c \<noteq> 10) s"

lemma one_line_simps [simp]: "one_line []" "one_line (s @ t) \<longleftrightarrow> one_line s \<and> one_line t"
  "one_line (c # s) \<longleftrightarrow> code c \<noteq> 10 \<and> one_line s"
  by (simp_all add: one_line_def)

lemma one_line_sub: "set s \<subseteq> set t \<Longrightarrow> one_line t \<Longrightarrow> one_line s"
  by (auto simp: one_line_def list_all_iff)

lemma one_line_show_nat [simp]: "one_line (show_nat n)"
  using show_nat_digits [of n] by (auto simp: one_line_def list_all_iff is_ascii_digit_def)

lemma one_line_show_int [simp]: "one_line (show_int n)"
  by (simp add: show_int_def)

lemma one_line_zeros [simp]: "one_line (zeros n)"
  by (simp add: zeros_def one_line_def list_all_iff)

lemma one_line_pointed [simp]: "one_line ds \<Longrightarrow> one_line dflt \<Longrightarrow> one_line (pointed dflt k ds)"
proof -
  assume d: "one_line ds" "one_line dflt"
  have strip: "one_line (strip_zeros s)" if "one_line s" for s
    by (rule one_line_sub [OF _ that]) (use set_dropWhileD in \<open>fastforce simp: strip_zeros_def\<close>)
  have tk: "one_line (take n s)" "one_line (drop n s)" if "one_line s" for n s
    using one_line_sub [OF set_take_subset that] one_line_sub [OF set_drop_subset that] by blast+
  show ?thesis using d by (auto simp: pointed_def Let_def intro!: strip tk)
qed

lemma one_line_exponent [simp]: "one_line (exponent_text e)"
  by (simp add: exponent_text_def Let_def)

lemma one_line_signed: "(\<And>y. one_line (f y)) \<Longrightarrow> one_line (signed f x)"
  by (simp add: signed_def)

lemma one_line_g_text [simp]: "one_line (g_text x)"
  unfolding g_text_def by (rule one_line_signed) (simp add: Let_def split: prod.split)

lemma one_line_float_str [simp]: "one_line (float_str x)"
  unfolding float_str_def by (rule one_line_signed) (simp add: Let_def split: prod.split)

lemma one_line_flag [simp]: "one_line (flag b)"
  by (simp add: flag_def)

lemma quote_code: "c = QUOTE \<longleftrightarrow> code c = 34"
proof
  assume "code c = 34"
  then have "code c = code QUOTE" by (simp add: QUOTE_def)
  then show "c = QUOTE" by simp
qed (simp add: QUOTE_def)

lemma label_ok_metric [simp]: "label_ok (metric_label s)"
  by (auto simp: label_ok_def metric_label_def list_all_iff quote_code)

lemma label_ok_status [simp]: "label_ok (status_value st)"
  by (cases st) (simp_all add: label_ok_def QUOTE_def)

lemma label_ok_state [simp]: "label_ok (ws_state_value st)"
  by (cases st) (simp_all add: label_ok_def QUOTE_def)

lemma label_ok_ticket [simp]: "label_ok (ticket_value st)"
  by (cases st) (simp_all add: label_ok_def QUOTE_def)

lemma label_ok_names [simp]: "label_ok ''input''" "label_ok ''output''" "label_ok ''cache_read''" "label_ok ''hermes''"
  "label_ok ''openclaw''" "label_ok ''opencode''" "label_ok ''openwebui''" "label_ok ''open''" "label_ok ''waiting_for_user''"
  "label_ok ''answered''" "label_ok ''escalated''" "label_ok ''closed''"
  by (simp_all add: label_ok_def QUOTE_def)

definition name_ok :: "string \<Rightarrow> bool" where
  "name_ok n \<longleftrightarrow> list_all (\<lambda>c. c \<noteq> CHR ''{'' \<and> c \<noteq> CHR '' '' \<and> code c \<noteq> 10) n"

definition key_ok :: "string \<Rightarrow> bool" where
  "key_ok k \<longleftrightarrow> list_all (\<lambda>c. c \<noteq> CHR ''='' \<and> code c \<noteq> 10) k"

lemma plain_sample_iff:
  "plain_sample (n, ls, v) \<longleftrightarrow> name_ok n \<and> list_all (\<lambda>(k, t). key_ok k \<and> label_ok t) ls \<and> one_line v"
  by (simp add: plain_sample_def label_ok_def one_line_def name_ok_def key_ok_def)

lemma name_ok_names [simp]:
  "name_ok ''mmd_ai_billed_micro_toman_total''" "name_ok ''mmd_ai_tokens_total''"
    "name_ok ''mmd_backup_age_seconds''" "name_ok ''mmd_backup_enabled''" "name_ok ''mmd_backup_failing''"
    "name_ok ''mmd_backup_last_size_bytes''" "name_ok ''mmd_build_info''" "name_ok ''mmd_capacity_running''"
    "name_ok ''mmd_capacity_schedulable_cores''" "name_ok ''mmd_capacity_schedulable_memory_gib''"
    "name_ok ''mmd_capacity_total_cores''" "name_ok ''mmd_capacity_total_memory_gib''"
    "name_ok ''mmd_capacity_used_cores''" "name_ok ''mmd_capacity_used_memory_gib''"
    "name_ok ''mmd_ledger_entries''" "name_ok ''mmd_ledger_micro_toman''"
    "name_ok ''mmd_notification_oldest_unread_seconds''" "name_ok ''mmd_notifications_unread''"
    "name_ok ''mmd_operations''" "name_ok ''mmd_operations_backlog''" "name_ok ''mmd_pool_committed_gib''"
    "name_ok ''mmd_pool_free_gib''" "name_ok ''mmd_pool_total_gib''" "name_ok ''mmd_pool_used_gib''"
    "name_ok ''mmd_process_cpu_seconds_total''" "name_ok ''mmd_process_open_fds''"
    "name_ok ''mmd_process_resident_bytes''" "name_ok ''mmd_process_restarts_total''"
    "name_ok ''mmd_process_threads''" "name_ok ''mmd_process_up''" "name_ok ''mmd_process_uptime_seconds''"
    "name_ok ''mmd_schema_patch_failures''" "name_ok ''mmd_sms_messages''"
    "name_ok ''mmd_ticket_oldest_open_seconds''" "name_ok ''mmd_tickets''"
    "name_ok ''mmd_tickets_unread_staff''" "name_ok ''mmd_user_credit_micro_toman''"
    "name_ok ''mmd_user_openrouter_blocked''" "name_ok ''mmd_user_openrouter_ready''"
    "name_ok ''mmd_user_openrouter_usage_usd''" "name_ok ''mmd_user_workspace_present''" "name_ok ''mmd_users''"
    "name_ok ''mmd_worker_heartbeat_age_seconds''" "name_ok ''mmd_worker_last_success_age_seconds''"
    "name_ok ''mmd_worker_metrics_snapshot_age_seconds''" "name_ok ''mmd_workspace_cpu_millicores''"
    "name_ok ''mmd_workspace_cpu_seconds_total''" "name_ok ''mmd_workspace_desired_on''"
    "name_ok ''mmd_workspace_disk_limit_gib''" "name_ok ''mmd_workspace_disk_used_mib''"
    "name_ok ''mmd_workspace_memory_bytes''" "name_ok ''mmd_workspace_memory_mib''"
    "name_ok ''mmd_workspace_published_ports''" "name_ok ''mmd_workspace_sample_age_seconds''"
    "name_ok ''mmd_workspace_service_ready''" "name_ok ''mmd_workspace_state''" "name_ok ''mmd_workspaces''"
  by (simp_all add: name_ok_def)

lemma key_ok_names [simp]:
  "key_ok ''direction''" "key_ok ''kind''" "key_ok ''model''" "key_ok ''service''" "key_ok ''state''"
    "key_ok ''status''" "key_ok ''unit''" "key_ok ''username''" "key_ok ''version''"
  by (simp_all add: key_ok_def)

lemma list_all_concat: "list_all P (concat xss) \<longleftrightarrow> list_all (list_all P) xss"
  by (induction xss) simp_all

lemma list_all_any: "(\<And>x. P x) \<Longrightarrow> list_all P xs"
  by (simp add: list_all_iff)

lemmas plain_simps = plain_sample_iff list_all_concat list.pred_map comp_def Let_def

lemma plain_machine [simp]: "list_all (\<lambda>(k, t). key_ok k \<and> label_ok t) l \<Longrightarrow> list_all plain_sample (machine_samples d l w)"
  by (simp add: machine_samples_def plain_simps)

lemma plain_customer [simp]: "list_all plain_sample (customer_samples d u)"
  by (simp add: customer_samples_def plain_simps split: option.split)

lemma plain_customers: "list_all plain_sample (customer_metrics d)"
  by (simp add: customer_metrics_def plain_simps list_all_any)

lemma plain_usage_sample [simp]: "list_all plain_sample (usage_samples now d r)"
  by (simp add: usage_samples_def plain_simps split: option.split prod.split)

lemma plain_ai [simp]: "list_all plain_sample (ai_samples d g)"
  by (cases g) (simp add: ai_samples_def plain_simps)

lemma plain_capacity [simp]: "list_all plain_sample (capacity_samples cpus mem_kb d)"
  by (simp add: capacity_samples_def plain_simps split: option.split)

lemma plain_pool [simp]: "name_ok (snd kn) \<Longrightarrow> plain_sample (pool_sample d kn)"
  by (simp add: pool_sample_def plain_simps split: option.split)

lemma plain_usage: "list_all plain_sample (usage_metrics cpus mem_kb now d)"
  by (simp add: usage_metrics_def plain_simps list_all_any)

lemma plain_operations: "list_all plain_sample (operations_samples fromiso n now d cfg)"
  by (simp add: operations_samples_def plain_simps case_prod_beta list_all_any)

lemma plain_unit [simp]: "label_ok (ut_unit r) \<Longrightarrow> list_all plain_sample (unit_samples boot clock r)"
  by (simp add: unit_samples_def plain_simps split: option.split)

lemma plain_processes:
  "list_all (\<lambda>r. label_ok (ut_unit r)) units \<Longrightarrow> list_all plain_sample (process_metrics boot clock units)"
  by (simp add: process_metrics_def plain_simps) (auto elim: list.pred_mono_strong)

lemma plain_exported:
  assumes "exported fromiso version cpus mem_kb n boot clock units now d = Some xs"
    and "label_ok version" and "list_all (\<lambda>r. label_ok (ut_unit r)) units"
  shows "list_all plain_sample xs"
  using assms plain_customers plain_usage plain_operations plain_processes
  by (auto simp: exported_def operations_metrics_def plain_sample_iff)

lemma one_line_sample_line:
  assumes "plain_sample x"
  shows "one_line (sample_line x)"
proof -
  obtain n ls v where x: "x = (n, ls, v)" by (cases x)
  have sub: "one_line s" if "list_all P s" "\<And>c. P c \<Longrightarrow> code c \<noteq> 10" for s P
    using that by (auto simp: one_line_def elim: list.pred_mono_strong)
  have n: "one_line n" and v: "one_line v" and ls: "list_all (\<lambda>(k, t). one_line k \<and> one_line t) ls"
    using assms unfolding x plain_sample_iff name_ok_def key_ok_def label_ok_def
    by (auto elim!: sub list.pred_mono_strong)
  have j: "one_line (join '','' (map (\<lambda>(k, t). k @ ''='' @ [QUOTE] @ t @ [QUOTE]) ls))" using ls
  proof (induction ls)
    case (Cons kt ls)
    then show ?case by (cases ls; cases kt) (auto simp: QUOTE_def)
  qed simp
  show ?thesis using n v j by (simp add: x sample_line_def)
qed

lemma split_body:
  assumes "list_all one_line ls" and "rest \<noteq> []"
  shows "split_nl (join newline (ls @ rest) @ newline) = ls @ split_nl (join newline rest @ newline)"
  using assms(1)
proof (induction ls)
  case (Cons l ls)
  have "join newline (l # ls @ rest) = l @ newline @ join newline (ls @ rest)"
    using assms(2) by (cases "ls @ rest") auto
  with Cons split_nl_line [of l "join newline (ls @ rest) @ newline"] show ?case by (simp add: one_line_def)
qed simp

section \<open>Properties\<close>


text \<open>A customer whose name has a quote.\<close>

definition odd_name :: string where
  "odd_name = ''ali'' @ [QUOTE] @ ''} 1''"

definition scraped_db :: db where
  "scraped_db = empty_db\<lparr>users := [\<lparr>u_id = 3, u_username = odd_name, u_full_name = None, u_phone = None,
     u_sms_prefs = (\<lambda>_. None), u_sms_credit_step_toman = 0, u_sms_credit_band = None, u_telegram_bot_token = None,
     u_telegram_user_id = None, u_password_hash = ''x'', u_session_version = 0, u_is_admin = False,
     u_status = UApproved, u_approved_at = None, u_approved_by = None\<rparr>]\<rparr>"


text \<open>Every customer is counted under one status.\<close>

lemma users_counted: "sum_list (map (\<lambda>st. length (filter (\<lambda>u. u_status u = st) us)) ALL_STATUSES) = length us"
proof (induction us)
  case (Cons u us)
  then show ?case by (cases "u_status u") (simp_all add: ALL_STATUSES_def)
qed (simp add: ALL_STATUSES_def)

text \<open>The count of tickets that await the staff is zero whatever there is.\<close>

lemma unread_tickets_not_counted:
  "(''mmd_tickets_unread_staff'', [], v) \<in> set (operations_samples fromiso n now d cfg) \<Longrightarrow> v = ''0''"
  by (auto simp: operations_samples_def)

end
