(* ===== verification/Spec2Isabelle.thy ===== *)
theory Spec2Isabelle
  imports Convergence Bale DaemonContracts Sessions VhostPasses Mcp Connections FileApi Backup Watchdog Inbox Webhook Statements Exporter
begin

text \<open>
  MMD-DEV sells Linux machines by the hour. One host runs Incus; every customer has at most one
  machine, a Toman balance, published ports, support tickets and a set of AI services that run in
  the machine. Four programs share one PostgreSQL database and this development models them:

  \<^item> the web application (\<open>control/mmd/app.py\<close>): request handlers for customers and administrators;
  \<^item> the worker (\<open>control/mmd/worker.py\<close>): periodic passes that measure, bill, stop, reconcile,
    provision, erase and send;
  \<^item> the provisioner (\<open>control/provisioner/provisioner.py\<close>): a root daemon behind a unix socket that
    acts on the host and inside machines for the other two;
  \<^item> the virtual-host reconciler (\<open>host/mmd-vhosts.py\<close>): a root timer that writes nginx files from
    the database.

  They meet in the rows of the database, in the requests to the provisioner, in the forwarding rules
  it installs, in the text files handed to machines, and in the keys kept at OpenRouter.

  \<^bold>\<open>The library.\<close> \<open>Prelude\<close> holds the result type of operations that raise, rows selected and
  rewritten in a table, and prefixes. \<open>Binary64\<close> models Python floats as rationals rounded to 53
  bits, \<open>PyText\<close> the string and number functions of Python, \<open>Clock\<close> calendar stamps, \<open>PosixPath\<close>
  \<open>posixpath.normpath\<close>. \<open>Rows\<close> carries an invariant of workspace rows through every operation on a
  session. The collections \<open>frame\<close>, \<open>float_intro\<close>, \<open>ws_intro\<close>, \<open>ws_eq\<close> and \<open>only_intro\<close> are what the
  component proofs run on. The locale \<open>tenant_verb\<close> of \<open>Confinement\<close> states what a verb of the
  provisioner owes the machine it names; each family of verbs interprets it.

  \<^bold>\<open>The control plane.\<close>
  \<^item> \<open>Models\<close> (\<open>models/__init__.py\<close>): every table as a record, the database as a record of lists, a
    session as the current and the committed database with one sequence of ids.
  \<^item> \<open>Pricing\<close>, \<open>AiPricing\<close>, \<open>Admission\<close> (\<open>billing/\<close>, \<open>scheduler/admission.py\<close>): sizes, rates, the
    price of an hour, the price of tokens, the capacity of the host.
  \<^item> \<open>Settings\<close>, \<open>Ledger\<close>, \<open>Billing\<close>, \<open>Metering\<close> (\<open>service.py\<close>): the ledger with its unique keys, the
    credit gate, settlement of hours and part-hours, the automatic stop, metering of token reports.
  \<^item> \<open>Ports\<close> (\<open>ports.py\<close> and handlers): reservation of external ports against concurrent sessions
    and the order of reservation and forwarding rule.
  \<^item> \<open>Usernames\<close>, \<open>SshKeys\<close>, \<open>Passwords\<close>, \<open>SmsCodes\<close>, \<open>Outbox\<close>, \<open>Bale\<close>, \<open>Operations\<close>
    (\<open>usernames.py\<close>, \<open>sshkeys.py\<close>, \<open>security.py\<close>, \<open>smscode.py\<close>, \<open>sms.py\<close>, \<open>bale.py\<close>,
    \<open>operations.py\<close>, \<open>notifications.py\<close>).
  \<^item> \<open>WorkspaceApi\<close>, \<open>ManagedApps\<close>, \<open>Accounts\<close>, \<open>Tickets\<close>: the handlers of \<open>app.py\<close>.
  \<^item> \<open>WorkerPasses\<close>, \<open>Alerts\<close>, \<open>OpenRouterKeys\<close>, \<open>WorkspaceOps\<close>: the passes of \<open>worker.py\<close>.
  \<^item> \<open>Lifecycle\<close>, \<open>Machine\<close>, \<open>Runs\<close>, \<open>Convergence\<close>: handlers and passes together as one step
    relation, its reachable states, and what holds in them.
  \<^item> \<open>Sessions\<close>: the account handlers as steps, for statements over every later history.

  \<^bold>\<open>The provisioner.\<close> \<open>Host\<close> is the world of the daemon: requests as JSON, effects (commands run,
  files written) as a trace, the host's answers as functions of the trace, handlers as programs in a
  state monad. \<open>HostChecks\<close>, \<open>HostAgents\<close>, \<open>HostApps\<close>, \<open>HostServices\<close>, \<open>HostFiles\<close> hold the verbs,
  \<open>Provisioner\<close> the dispatch and one served connection, \<open>Confinement\<close> and \<open>DaemonContracts\<close> the
  theorems, the latter about what one side sends and the other accepts.

  \<^bold>\<open>The virtual hosts.\<close> \<open>Vhosts\<close> has the wanted hosts, the certificates and the texts of the nginx
  files, \<open>VhostPasses\<close> the pass with its undoing and its marks.

  \<^bold>\<open>What is shown.\<close> Money: the ledger is the sum of its entries, charges are keyed so that a crash
  and replay costs nothing, the gate admits only what can be paid, metering bills the increase once.
  Machines: the rows stay well formed under every interleaving of handlers and passes, settlement
  never raises, a started run is funded and ends, reconciliation converges. Tenancy: a request stays
  in its machine, the daemon's effects are enumerated, forwarding rules and host names never lead to
  another customer. Contracts across the socket: what the control plane renders the daemon accepts.
  Accounts: revoked sessions stay out, codes and passwords cannot be guessed past their budgets.
  Messages: a text is delivered at most once, a replayed batch changes nothing.

  \<^bold>\<open>How the code is read.\<close> Times are integers in microseconds, UTC; a handler or pass reads the clock
  once unless a theory says otherwise. Strings are lists of code points below 256; texts of messages
  are left out, error columns and replies hold the name of the cause. Floats are finite. A JSON
  \<open>detail\<close> column is kept where the code reads it back. Foreign keys are taken to hold and cascades
  are written out. Attribute writes are visible at once in their session and rolled back with it; a
  power change is two steps around the call to Incus, with rows that may be stale in between, other
  passes are atomic; ids come from one sequence that a rollback does not take back. What other
  programs answer (Incus, the provisioner, OpenRouter, Bale, Prometheus, certbot, nginx, the kernel)
  is an argument, lost replies included; hashes, signatures and random draws are parameters.
  Scripts run in a machine are named and not interpreted; what they read on standard input is kept
  apart from their arguments. Bodies of requests have passed the constraints of their classes.

  \<^bold>\<open>Bounds and fuel.\<close> No definition runs on fuel. Loops of the source are structural recursion or
  have a measure: the search for a free slot, a free suffix or a free port decreases the number of
  taken ones above it; an allocation makes as many attempts as the code; the wait for OpenClaw is its
  twenty probes.

  \<^bold>\<open>Not modelled.\<close> Rendering of metrics and dashboards and exports that only read; the websocket
  terminal and the streaming of files; HTTP plumbing of the clients; the migrations, as the model
  takes the final schema; the shell scripts and the web interface, which are other languages; the
  creation of directories and sockets and all logging. The retry of two concurrent first postings
  to one account needs two open transactions and is outside the sequential model.
\<close>

end
